(* ===== verification/Prelude.thy ===== *)
theory Prelude
  imports Complex_Main "HOL-Library.Word"
begin

text \<open>
  Shared ground of the development: the error values of the Go code, the result type its
  functions return, the two folds its loops are (one that stops at the first error, one that keeps
  going), first-occurrence deduplication with a seen-set, and the generic list lemmas the
  component theories use. No definition here models a line of the program by itself.
\<close>

named_theorems fv_defs \<open>definitions of model functions to unfold together\<close>
named_theorems tenant_simps \<open>facts on row filtering by tenant\<close>

subsection \<open>Results\<close>

type_synonym 'a result = "string + 'a"

abbreviation (input) Err :: "string \<Rightarrow> 'a result" where
  "Err e \<equiv> Inl e"

abbreviation (input) Ok :: "'a \<Rightarrow> 'a result" where
  "Ok x \<equiv> Inr x"

definition is_ok :: "'e + 'a \<Rightarrow> bool" where
  "is_ok r = (case r of Inl _ \<Rightarrow> False | Inr _ \<Rightarrow> True)"

lemma is_ok_simps [simp]: "\<not> is_ok (Inl e)" "is_ok (Inr x)"
  by (simp_all add: is_ok_def)

definition rbind :: "'e + 'a \<Rightarrow> ('a \<Rightarrow> 'e + 'b) \<Rightarrow> 'e + 'b" where
  "rbind r f = (case r of Inl e \<Rightarrow> Inl e | Inr x \<Rightarrow> f x)"

lemma rbind_simps [simp]: "rbind (Inl e) f = Inl e" "rbind (Inr x) f = f x"
  by (simp_all add: rbind_def)

lemma rbind_Inr_iff: "rbind r f = Inr y \<longleftrightarrow> (\<exists>x. r = Inr x \<and> f x = Inr y)"
  by (cases r) simp_all

text \<open>A Go loop that returns on the first error: the state is threaded through the elements.\<close>

fun fold_res :: "('a \<Rightarrow> 's \<Rightarrow> 'e + 's) \<Rightarrow> 'a list \<Rightarrow> 's \<Rightarrow> 'e + 's" where
  "fold_res f [] s = Inr s"
| "fold_res f (x # xs) s = (case f x s of Inl e \<Rightarrow> Inl e | Inr s' \<Rightarrow> fold_res f xs s')"

lemma fold_res_inv:
  assumes step: "\<And>x s s'. x \<in> set xs \<Longrightarrow> P s \<Longrightarrow> f x s = Inr s' \<Longrightarrow> P s'"
    and run: "fold_res f xs s = Inr s'" and start: "P s"
  shows "P s'"
  using step run start
proof (induction xs arbitrary: s)
  case Nil
  then show ?case by simp
next
  case (Cons x xs)
  from Cons.prems(2) obtain t where t: "f x s = Inr t" "fold_res f xs t = Inr s'"
    by (auto split: sum.splits)
  have "P t" using Cons.prems(1) [OF _ Cons.prems(3) t(1)] by simp
  moreover have "\<And>y u u'. y \<in> set xs \<Longrightarrow> P u \<Longrightarrow> f y u = Inr u' \<Longrightarrow> P u'"
    by (meson Cons.prems(1) list.set_intros(2))
  ultimately show ?case using Cons.IH t(2) by blast
qed

lemma fold_res_append:
  "fold_res f (xs @ ys) s = rbind (fold_res f xs s) (fold_res f ys)"
  by (induction xs arbitrary: s) (auto split: sum.splits)

text \<open>A loop that commits one transaction per element and returns at the first error: what was
  committed stays.\<close>

fun commit_each :: "('a \<Rightarrow> 's \<Rightarrow> 'e + 's) \<Rightarrow> 'a list \<Rightarrow> 's \<Rightarrow> 's \<times> 'e option" where
  "commit_each f [] s = (s, None)"
| "commit_each f (x # xs) s = (case f x s of Inl e \<Rightarrow> (s, Some e) | Inr s' \<Rightarrow> commit_each f xs s')"

lemma commit_each_inv:
  assumes step: "\<And>x s s'. x \<in> set xs \<Longrightarrow> P s \<Longrightarrow> f x s = Inr s' \<Longrightarrow> P s'"
    and start: "P s"
  shows "P (fst (commit_each f xs s))"
  using step start
proof (induction xs arbitrary: s)
  case (Cons x xs)
  show ?case
  proof (cases "f x s")
    case (Inr t)
    have "P t" using Cons.prems(1) [OF _ Cons.prems(2) Inr] by simp
    moreover have "\<And>y u u'. y \<in> set xs \<Longrightarrow> P u \<Longrightarrow> f y u = Inr u' \<Longrightarrow> P u'"
      by (meson Cons.prems(1) list.set_intros(2))
    ultimately show ?thesis using Cons.IH Inr by simp
  qed (use Cons.prems in simp)
qed simp

subsection \<open>First occurrences with a seen-set\<close>

text \<open>
  The loop \<open>if seen[key(x)] continue; seen[key(x)] = true; out = append(out, x)\<close>, which the
  program writes in six places.
\<close>

fun dedup_by :: "('a \<Rightarrow> 'k) \<Rightarrow> 'k list \<Rightarrow> 'a list \<Rightarrow> 'a list" where
  "dedup_by key seen [] = []"
| "dedup_by key seen (x # xs) =
     (if key x \<in> set seen then dedup_by key seen xs
      else x # dedup_by key (key x # seen) xs)"

lemma set_dedup_by_subset: "set (dedup_by key seen xs) \<subseteq> set xs"
  by (induction xs arbitrary: seen) auto

lemma keys_dedup_by: "key ` set (dedup_by key seen xs) = key ` set xs - set seen"
  by (induction xs arbitrary: seen) auto

lemma distinct_dedup_by: "distinct (map key (dedup_by key seen xs))"
proof (induction xs arbitrary: seen)
  case Nil
  then show ?case by simp
next
  case (Cons x xs)
  have "key x \<notin> set (map key (dedup_by key (key x # seen) xs))"
    using keys_dedup_by [of key "key x # seen" xs] by auto
  with Cons.IH show ?case by simp
qed

lemma dedup_by_id:
  "distinct (map key xs) \<Longrightarrow> set seen \<inter> key ` set xs = {} \<Longrightarrow> dedup_by key seen xs = xs"
  by (induction xs arbitrary: seen) auto

lemma dedup_by_idem: "dedup_by key [] (dedup_by key [] xs) = dedup_by key [] xs"
  by (rule dedup_by_id) (simp_all add: distinct_dedup_by)

lemma dedup_by_first:
  "x \<in> set (dedup_by key seen xs) \<Longrightarrow>
     \<exists>us vs. xs = us @ x # vs \<and> key x \<notin> key ` set us \<and> key x \<notin> set seen"
proof (induction xs arbitrary: seen)
  case Nil
  then show ?case by simp
next
  case (Cons y ys)
  show ?case
  proof (cases "key y \<in> set seen")
    case True
    with Cons.prems have "x \<in> set (dedup_by key seen ys)" by simp
    from Cons.IH [OF this] obtain us vs
      where "ys = us @ x # vs" "key x \<notin> key ` set us" "key x \<notin> set seen" by blast
    with True show ?thesis
      by (intro exI [of _ "y # us"] exI [of _ vs]) auto
  next
    case False
    show ?thesis
    proof (cases "x = y")
      case True
      with False show ?thesis by (intro exI [of _ "[]"] exI [of _ ys]) auto
    next
      case neq: False
      with False Cons.prems have "x \<in> set (dedup_by key (key y # seen) ys)" by simp
      from Cons.IH [OF this] obtain us vs
        where "ys = us @ x # vs" "key x \<notin> key ` set us" "key x \<notin> set (key y # seen)" by blast
      then show ?thesis by (intro exI [of _ "y # us"] exI [of _ vs]) auto
    qed
  qed
qed

subsection \<open>Contiguous parts of a list\<close>

text \<open>Go's \<open>s[a:b]\<close> for offsets in range.\<close>

definition slice :: "nat \<Rightarrow> nat \<Rightarrow> 'a list \<Rightarrow> 'a list" where
  "slice a b xs = take (b - a) (drop a xs)"

lemma slice_append: "slice (length us) (length us + length vs) (us @ vs @ ws) = vs"
  by (simp add: slice_def)

lemma slice_parts: "a \<le> b \<Longrightarrow> xs = take a xs @ slice a b xs @ drop b xs"
  by (metis append_take_drop_id drop_drop le_add_diff_inverse2 slice_def)

lemma slice_infix: "a \<le> b \<Longrightarrow> \<exists>us vs. xs = us @ slice a b xs @ vs"
  using slice_parts by blast

lemma length_slice: "b \<le> length xs \<Longrightarrow> length (slice a b xs) = b - a"
  by (simp add: slice_def)

lemma concat_take_mono: "m \<le> n \<Longrightarrow> length (concat (take m xs)) \<le> length (concat (take n xs))"
proof -
  assume "m \<le> n"
  then have "take n xs = take m xs @ take (n - m) (drop m xs)"
    by (metis le_add_diff_inverse take_add)
  then show ?thesis by simp
qed

lemma concat_take_drop: "concat xs = concat (take n xs) @ concat (drop n xs)"
  by (metis append_take_drop_id concat_append)

lemma slice_concat:
  assumes "m \<le> n"
  shows "slice (length (concat (take m xs))) (length (concat (take n xs))) (concat xs)
         = concat (take (n - m) (drop m xs))"
proof -
  have n: "take n xs = take m xs @ take (n - m) (drop m xs)"
    using assms by (metis le_add_diff_inverse take_add)
  have "concat xs = concat (take m xs) @ concat (take (n - m) (drop m xs)) @ concat (drop n xs)"
    using concat_take_drop [of xs n] n by simp
  moreover have "length (concat (take n xs))
      = length (concat (take m xs)) + length (concat (take (n - m) (drop m xs)))"
    using n by simp
  ultimately show ?thesis by (simp add: slice_append)
qed

end
