(* ===== verification/GoStrings.thy ===== *)
theory GoStrings
  imports Prelude
begin

text \<open>
  Go strings and the functions of \<open>strings\<close>, \<open>unicode\<close> and \<open>unicode/utf8\<close> that the program calls.
  A Go string is a sequence of bytes, so it is a \<open>string\<close> (a list of 8-bit characters). Ranging over
  a string decodes UTF-8 with Go's rules: a byte that starts no valid sequence is the rune U+FFFD of
  width one. \<open>chunks s\<close> is the list of byte sequences the runes of \<open>s\<close> occupy.
  The character tables that Go generates from the Unicode database are the fields of
  \<open>unicode_tables\<close>, an argument of every function that reads them; on ASCII (and, for letters
  and digits, on Latin-1) Go decides without the tables, and so do the definitions.
\<close>

type_synonym rune = int

definition rune_error :: rune where
  "rune_error = 65533"

definition byte :: "char \<Rightarrow> int" where
  "byte c = of_char c"

subsection \<open>Decoding UTF-8\<close>

definition seq_len :: "char \<Rightarrow> nat" where
  "seq_len b = (if byte b < 128 then 1
     else if 194 \<le> byte b \<and> byte b \<le> 223 then 2
     else if 224 \<le> byte b \<and> byte b \<le> 239 then 3
     else if 240 \<le> byte b \<and> byte b \<le> 244 then 4 else 0)"

definition cont_byte :: "char \<Rightarrow> bool" where
  "cont_byte b \<longleftrightarrow> 128 \<le> byte b \<and> byte b \<le> 191"

definition second_ok :: "char \<Rightarrow> char \<Rightarrow> bool" where
  "second_ok b0 b1 \<longleftrightarrow>
     (if byte b0 = 224 then 160 else if byte b0 = 240 then 144 else 128) \<le> byte b1 \<and>
     byte b1 \<le> (if byte b0 = 237 then 159 else if byte b0 = 244 then 143 else 191)"

text \<open>\<open>utf8.DecodeRuneInString\<close>: the rune and its width in bytes.\<close>

fun decode_rune :: "string \<Rightarrow> rune \<times> nat" where
  "decode_rune [] = (rune_error, 0)"
| "decode_rune (b0 # bs) =
     (if seq_len b0 = 1 then (byte b0, 1)
      else if seq_len b0 = 2 then
        (case bs of
           b1 # _ \<Rightarrow> if second_ok b0 b1 then ((byte b0 - 192) * 64 + (byte b1 - 128), 2)
                     else (rune_error, 1)
         | [] \<Rightarrow> (rune_error, 1))
      else if seq_len b0 = 3 then
        (case bs of
           b1 # b2 # _ \<Rightarrow> if second_ok b0 b1 \<and> cont_byte b2
             then ((byte b0 - 224) * 4096 + (byte b1 - 128) * 64 + (byte b2 - 128), 3)
             else (rune_error, 1)
         | _ \<Rightarrow> (rune_error, 1))
      else if seq_len b0 = 4 then
        (case bs of
           b1 # b2 # b3 # _ \<Rightarrow> if second_ok b0 b1 \<and> cont_byte b2 \<and> cont_byte b3
             then ((byte b0 - 240) * 262144 + (byte b1 - 128) * 4096
                   + (byte b2 - 128) * 64 + (byte b3 - 128), 4)
             else (rune_error, 1)
         | _ \<Rightarrow> (rune_error, 1))
      else (rune_error, 1))"

declare decode_rune.simps(2) [simp del]

definition rune_width :: "string \<Rightarrow> nat" where
  "rune_width s = snd (decode_rune s)"

lemma rune_width_pos: "s \<noteq> [] \<Longrightarrow> 0 < rune_width s"
  by (cases s) (auto simp: rune_width_def decode_rune.simps(2) split: list.splits)

lemma rune_width_le: "rune_width s \<le> length s"
  by (cases s) (auto simp: rune_width_def decode_rune.simps(2) split: list.splits)

lemma decode_rune_take:
  assumes "rune_width s \<le> k"
  shows "decode_rune (take k s) = decode_rune s"
proof (cases s)
  case Nil
  then show ?thesis by simp
next
  case (Cons b0 bs)
  then have "0 < k" using rune_width_pos [of s] assms by auto
  then obtain k1 where k1: "k = Suc k1" by (cases k) auto
  show ?thesis
  proof (cases "seq_len b0 = 1 \<or> k1 \<ge> 3")
    case True
    then show ?thesis
    proof
      assume "seq_len b0 = 1"
      then show ?thesis by (simp add: Cons k1 decode_rune.simps(2))
    next
      assume "k1 \<ge> 3"
      then obtain k4 where "k1 = Suc (Suc (Suc k4))"
        by (metis Suc_le_D numeral_3_eq_3 Suc_le_mono)
      then show ?thesis by (auto simp: Cons k1 decode_rune.simps(2) split: list.splits)
    qed
  next
    case False
    then have k: "k1 = 0 \<or> k1 = Suc 0 \<or> k1 = Suc (Suc 0)" by auto
    have w: "snd (decode_rune (b0 # bs)) \<le> Suc k1"
      using assms by (simp add: Cons k1 rune_width_def)
    show ?thesis
    proof (cases bs)
      case Nil
      then show ?thesis by (simp add: Cons k1)
    next
      case c1: (Cons b1 bs1)
      show ?thesis
      proof (cases bs1)
        case Nil
        with w k show ?thesis
          by (auto simp: Cons c1 k1 decode_rune.simps(2) split: if_splits)
      next
        case c2: (Cons b2 bs2)
        with w k show ?thesis
          by (cases bs2) (auto simp: Cons c1 c2 k1 decode_rune.simps(2) split: if_splits)
      qed
    qed
  qed
qed

function chunks :: "string \<Rightarrow> string list" where
  "chunks s = (if s = [] then [] else take (rune_width s) s # chunks (drop (rune_width s) s))"
  by pat_completeness auto
termination
  by (relation "measure length") (auto simp: rune_width_pos)

declare chunks.simps [simp del]

lemma chunks_Nil [simp]: "chunks [] = []"
  by (simp add: chunks.simps)

lemma chunks_nonempty: "s \<noteq> [] \<Longrightarrow>
  chunks s = take (rune_width s) s # chunks (drop (rune_width s) s)"
  by (simp add: chunks.simps [of s])

lemma concat_chunks [simp]: "concat (chunks s) = s"
proof (induction s rule: chunks.induct)
  case (1 s)
  then show ?case by (cases "s = []") (simp_all add: chunks_nonempty)
qed

lemma chunks_no_Nil: "c \<in> set (chunks s) \<Longrightarrow> c \<noteq> []"
proof (induction s rule: chunks.induct)
  case (1 s)
  show ?case
  proof (cases "s = []")
    case False
    from "1.prems" have "c = take (rune_width s) s \<or> c \<in> set (chunks (drop (rune_width s) s))"
      by (simp add: chunks_nonempty [OF False])
    then show ?thesis using "1.IH" [OF False] rune_width_pos [OF False] False by auto
  qed (use "1.prems" in simp)
qed

lemma chunks_eq_Nil [simp]: "chunks s = [] \<longleftrightarrow> s = []"
proof (cases "s = []")
  case False
  then show ?thesis by (simp add: chunks_nonempty [OF False])
qed simp

text \<open>Cutting a string at a rune boundary cuts its chunks.\<close>

lemma chunks_take_boundary: "chunks (concat (take n (chunks s))) = take n (chunks s)"
proof (induction s arbitrary: n rule: chunks.induct)
  case (1 s)
  show ?case
  proof (cases "s = [] \<or> n = 0")
    case True
    then show ?thesis by auto
  next
    case False
    then obtain m where n: "n = Suc m" and s: "s \<noteq> []" by (cases n) auto
    let ?w = "rune_width s" and ?t = "drop (rune_width s) s"
    let ?p = "take ?w s @ concat (take m (chunks ?t))"
    have IH: "chunks (concat (take m (chunks ?t))) = take m (chunks ?t)"
      using "1.IH" s by simp
    have len: "length (take ?w s) = ?w" using rune_width_le [of s] by simp
    have "?p = take (?w + length (concat (take m (chunks ?t)))) s"
      using concat_take_drop [of "chunks ?t" m] len
      by (simp add: take_add)
         (metis append_eq_conv_conj concat_chunks)
    then have "decode_rune ?p = decode_rune s"
      using decode_rune_take [of s "?w + length (concat (take m (chunks ?t)))"] by simp
    then have w: "rune_width ?p = ?w" by (simp add: rune_width_def)
    have "?p \<noteq> []" using s rune_width_pos [of s] by auto
    then have "chunks ?p = take ?w ?p # chunks (drop ?w ?p)"
      using w chunks_nonempty [of ?p] by simp
    then have "chunks ?p = take ?w s # take m (chunks ?t)"
      using IH len by simp
    then show ?thesis using n s by (simp add: chunks_nonempty)
  qed
qed

lemma chunks_drop_boundary: "chunks (concat (drop n (chunks s))) = drop n (chunks s)"
proof (induction s arbitrary: n rule: chunks.induct)
  case (1 s)
  show ?case
  proof (cases "s = [] \<or> n = 0")
    case True
    then show ?thesis by auto
  next
    case False
    then obtain m where "n = Suc m" "s \<noteq> []" by (cases n) auto
    with "1.IH" show ?thesis by (simp add: chunks_nonempty)
  qed
qed

definition chunk_rune :: "string \<Rightarrow> rune" where
  "chunk_rune c = fst (decode_rune c)"

definition runes :: "string \<Rightarrow> rune list" where
  "runes s = map chunk_rune (chunks s)"

text \<open>\<open>utf8.RuneCountInString\<close>.\<close>

definition rune_count :: "string \<Rightarrow> nat" where
  "rune_count s = length (chunks s)"

text \<open>\<open>utf8.ValidString\<close>.\<close>

definition valid_utf8 :: "string \<Rightarrow> bool" where
  "valid_utf8 s = list_all (\<lambda>c. \<not> (chunk_rune c = rune_error \<and> length c = 1)) (chunks s)"

definition is_ascii :: "string \<Rightarrow> bool" where
  "is_ascii s \<longleftrightarrow> (\<forall>c \<in> set s. byte c < 128)"

lemma is_ascii_simps [simp]:
  "is_ascii []" "is_ascii (c # s) \<longleftrightarrow> byte c < 128 \<and> is_ascii s"
  "is_ascii (s @ t) \<longleftrightarrow> is_ascii s \<and> is_ascii t"
  by (auto simp: is_ascii_def)

lemma decode_rune_ascii: "byte c < 128 \<Longrightarrow> decode_rune (c # s) = (byte c, 1)"
  by (simp add: decode_rune.simps(2) seq_len_def)

lemma chunks_ascii_Cons: "byte c < 128 \<Longrightarrow> chunks (c # s) = [c] # chunks s"
  by (simp add: chunks_nonempty rune_width_def decode_rune_ascii)

lemma chunks_ascii: "is_ascii s \<Longrightarrow> chunks s = map (\<lambda>c. [c]) s"
  by (induction s) (simp_all add: chunks_ascii_Cons)

lemma chunk_rune_ascii: "byte c < 128 \<Longrightarrow> chunk_rune [c] = byte c"
  by (simp add: chunk_rune_def decode_rune_ascii)

subsection \<open>Encoding\<close>

text \<open>\<open>utf8.EncodeRune\<close>: surrogates and values outside Unicode become U+FFFD.\<close>

definition encode_rune :: "rune \<Rightarrow> string" where
  "encode_rune r =
     (if 0 \<le> r \<and> r < 128 then [char_of r]
      else if 128 \<le> r \<and> r < 2048 then [char_of (192 + r div 64), char_of (128 + r mod 64)]
      else if r < 0 \<or> 1114111 < r \<or> (55296 \<le> r \<and> r \<le> 57343)
        then [char_of (239 :: int), char_of (191 :: int), char_of (189 :: int)]
      else if r < 65536
        then [char_of (224 + r div 4096), char_of (128 + r div 64 mod 64), char_of (128 + r mod 64)]
      else [char_of (240 + r div 262144), char_of (128 + r div 4096 mod 64),
            char_of (128 + r div 64 mod 64), char_of (128 + r mod 64)])"

lemma byte_bounds: "0 \<le> byte c" "byte c < 256"
proof -
  have "of_char c < (2 :: int) ^ 8" and "0 \<le> (of_char c :: int)"
    unfolding of_char_def by (rule horner_sum_of_bool_2_less [THEN less_le_trans], simp)
      (simp add: horner_sum_nonnegative)
  then show "0 \<le> byte c" "byte c < 256" by (simp_all add: byte_def)
qed

lemma byte_char_of: "0 \<le> n \<Longrightarrow> n < 256 \<Longrightarrow> byte (char_of n) = n"
  by (simp add: byte_def)

text \<open>A byte below 128 in an encoding is the rune itself.\<close>

lemma encode_rune_ascii:
  assumes "c \<in> set (encode_rune r)"
  shows "byte c = r \<or> 128 \<le> byte c"
proof (cases "0 \<le> r \<and> r < 128")
  case True
  then have "c = char_of r" using assms by (simp add: encode_rune_def)
  with True show ?thesis by (simp add: byte_char_of)
next
  case False
  have "\<exists>n. 128 \<le> n \<and> n < 256 \<and> c = char_of (n :: int)"
  proof -
    have "0 \<le> r div 64 \<and> r div 64 < 32" if "128 \<le> r" "r < 2048" using that by auto
    moreover have "0 \<le> r div 4096 \<and> r div 4096 < 16" if "128 \<le> r" "r < 65536" using that by auto
    moreover have "0 \<le> r div 262144 \<and> r div 262144 < 8" if "128 \<le> r" "r \<le> 1114111" using that by auto
    moreover have "0 \<le> m mod 64 \<and> m mod 64 < 64" for m :: int by simp
    ultimately show ?thesis
      using assms False unfolding encode_rune_def
      by (smt (verit) empty_iff empty_set set_ConsD)
  qed
  then show ?thesis using byte_char_of by force
qed

lemma encode_rune_byte: "byte c < 128 \<Longrightarrow> encode_rune (byte c) = [c]"
  using byte_bounds [of c] by (simp add: encode_rune_def byte_def)

subsection \<open>Character classes and case mapping\<close>

record unicode_tables =
  tab_lower :: "rune \<Rightarrow> rune"
  tab_upper :: "rune \<Rightarrow> rune"
  tab_letter :: "rune \<Rightarrow> bool"
  tab_digit :: "rune \<Rightarrow> bool"

text \<open>Tables that know no character beyond the ones Go decides itself (for examples).\<close>

definition ascii_tables :: unicode_tables where
  "ascii_tables = \<lparr>tab_lower = (\<lambda>r. r), tab_upper = (\<lambda>r. r),
     tab_letter = (\<lambda>_. False), tab_digit = (\<lambda>_. False)\<rparr>"

definition rune_lower :: "unicode_tables \<Rightarrow> rune \<Rightarrow> rune" where
  "rune_lower U r = (if r < 128 then (if 65 \<le> r \<and> r \<le> 90 then r + 32 else r) else tab_lower U r)"

definition rune_upper :: "unicode_tables \<Rightarrow> rune \<Rightarrow> rune" where
  "rune_upper U r = (if r < 128 then (if 97 \<le> r \<and> r \<le> 122 then r - 32 else r) else tab_upper U r)"

definition is_letter :: "unicode_tables \<Rightarrow> rune \<Rightarrow> bool" where
  "is_letter U r =
     (if r \<le> 255 then (65 \<le> r \<and> r \<le> 90) \<or> (97 \<le> r \<and> r \<le> 122) \<or> r = 170 \<or> r = 181 \<or> r = 186
        \<or> (192 \<le> r \<and> r \<noteq> 215 \<and> r \<noteq> 247)
      else tab_letter U r)"

definition is_digit :: "unicode_tables \<Rightarrow> rune \<Rightarrow> bool" where
  "is_digit U r = (if r \<le> 255 then 48 \<le> r \<and> r \<le> 57 else tab_digit U r)"

text \<open>\<open>unicode.IsSpace\<close>: the White_Space property, a fixed set.\<close>

definition is_space :: "rune \<Rightarrow> bool" where
  "is_space r \<longleftrightarrow> (9 \<le> r \<and> r \<le> 13) \<or> r = 32 \<or> r = 133 \<or> r = 160 \<or> r = 5760
     \<or> (8192 \<le> r \<and> r \<le> 8202) \<or> r = 8232 \<or> r = 8233 \<or> r = 8239 \<or> r = 8287 \<or> r = 12288"

definition map_runes :: "(rune \<Rightarrow> rune) \<Rightarrow> string \<Rightarrow> string" where
  "map_runes f s = concat (map (encode_rune \<circ> f) (runes s))"

definition to_lower :: "unicode_tables \<Rightarrow> string \<Rightarrow> string" where
  "to_lower U = map_runes (rune_lower U)"

definition to_upper :: "unicode_tables \<Rightarrow> string \<Rightarrow> string" where
  "to_upper U = map_runes (rune_upper U)"

lemma runes_Nil [simp]: "runes [] = []"
  by (simp add: runes_def)

lemma map_runes_Nil [simp]: "map_runes f [] = []"
  by (simp add: map_runes_def)

lemma runes_ascii_Cons: "byte c < 128 \<Longrightarrow> runes (c # s) = byte c # runes s"
  by (simp add: runes_def chunks_ascii_Cons chunk_rune_ascii)

lemma map_runes_ascii_Cons:
  "byte c < 128 \<Longrightarrow> map_runes f (c # s) = encode_rune (f (byte c)) @ map_runes f s"
  by (simp add: map_runes_def runes_ascii_Cons)

subsection \<open>Trimming, fields, joining\<close>

definition space_chunk :: "string \<Rightarrow> bool" where
  "space_chunk c = is_space (chunk_rune c)"

definition trim_ends :: "('a \<Rightarrow> bool) \<Rightarrow> 'a list \<Rightarrow> 'a list" where
  "trim_ends p xs = rev (dropWhile p (rev (dropWhile p xs)))"

definition trim_space :: "string \<Rightarrow> string" where
  "trim_space s = concat (trim_ends space_chunk (chunks s))"

lemma trim_space_Nil [simp]: "trim_space [] = []"
  by (simp add: trim_space_def trim_ends_def)

lemma dropWhile_id: "xs = [] \<or> \<not> p (hd xs) \<Longrightarrow> dropWhile p xs = xs"
  by (cases xs) auto

lemma trim_ends_fix:
  assumes "trim_ends p xs = ys"
  shows "ys = [] \<or> (\<not> p (hd ys) \<and> \<not> p (last ys))"
proof -
  let ?d = "dropWhile p xs"
  have y: "ys = rev (dropWhile p (rev ?d))" using assms by (simp add: trim_ends_def)
  show ?thesis
  proof (cases "ys = []")
    case False
    then have last: "\<not> p (last ys)"
      using y hd_dropWhile [of p "rev ?d"] by (metis hd_rev rev_is_Nil_conv rev_rev_ident)
    have h: "hd ys = hd ?d"
      using y False
      by (metis append_Nil2 hd_append2 rev_append rev_rev_ident takeWhile_dropWhile_id rev_is_Nil_conv)
    have "?d \<noteq> []" using y False by (metis dropWhile.simps(1) rev.simps(1))
    then have "\<not> p (hd ?d)" by (rule hd_dropWhile)
    with last h show ?thesis by simp
  qed simp
qed

lemma trim_ends_idem [simp]: "trim_ends p (trim_ends p xs) = trim_ends p xs"
proof -
  let ?y = "trim_ends p xs"
  have "?y = [] \<or> (\<not> p (hd ?y) \<and> \<not> p (last ?y))" using trim_ends_fix by blast
  then show ?thesis
    by (auto simp: trim_ends_def [of p ?y] dropWhile_id hd_rev)
qed

text \<open>\<open>strings.Fields\<close>: the maximal runs of non-space runes.\<close>

fun split_fields :: "string list \<Rightarrow> string \<Rightarrow> string list" where
  "split_fields [] acc = (if acc = [] then [] else [acc])"
| "split_fields (c # cs) acc =
     (if space_chunk c then (if acc = [] then [] else [acc]) @ split_fields cs []
      else split_fields cs (acc @ c))"

definition str_fields :: "string \<Rightarrow> string list" where
  "str_fields s = split_fields (chunks s) []"

lemma str_fields_Nil [simp]: "str_fields [] = []"
  by (simp add: str_fields_def)

fun join :: "string \<Rightarrow> string list \<Rightarrow> string" where
  "join sep [] = []"
| "join sep [x] = x"
| "join sep (x # y # xs) = x @ sep @ join sep (y # xs)"

subsection \<open>Searching, replacing, splitting\<close>

definition has_prefix :: "string \<Rightarrow> string \<Rightarrow> bool" where
  "has_prefix p s \<longleftrightarrow> take (length p) s = p"

definition trim_prefix :: "string \<Rightarrow> string \<Rightarrow> string" where
  "trim_prefix p s = (if has_prefix p s then drop (length p) s else s)"

fun str_index :: "string \<Rightarrow> string \<Rightarrow> nat option" where
  "str_index p [] = (if p = [] then Some 0 else None)"
| "str_index p (c # s) =
     (if has_prefix p (c # s) then Some 0 else map_option Suc (str_index p s))"

lemma str_index_Some:
  "str_index p s = Some i \<Longrightarrow> i + length p \<le> length s \<and> take (length p) (drop i s) = p"
proof (induction s arbitrary: i)
  case Nil
  then show ?case by (simp split: if_splits)
next
  case (Cons c s)
  show ?case
  proof (cases "has_prefix p (c # s)")
    case True
    then have "length p \<le> length (c # s)"
      unfolding has_prefix_def by (metis length_take min.cobounded1 min_def)
    with True Cons.prems show ?thesis by (simp add: has_prefix_def)
  next
    case False
    with Cons.prems obtain j where "str_index p s = Some j" "i = Suc j" by auto
    with Cons.IH show ?thesis by simp
  qed
qed

definition str_contains :: "string \<Rightarrow> string \<Rightarrow> bool" where
  "str_contains p s \<longleftrightarrow> str_index p s \<noteq> None"

text \<open>\<open>strings.ReplaceAll\<close> for a non-empty pattern.\<close>

function replace_all :: "string \<Rightarrow> string \<Rightarrow> string \<Rightarrow> string" where
  "replace_all old new s =
     (if s = [] \<or> old = [] then s
      else if has_prefix old s then new @ replace_all old new (drop (length old) s)
      else hd s # replace_all old new (tl s))"
  by pat_completeness auto
termination
  by (relation "measure (\<lambda>(_, _, s). length s)") auto

declare replace_all.simps [simp del]

fun split_on :: "char \<Rightarrow> string \<Rightarrow> string list" where
  "split_on d [] = [[]]"
| "split_on d (c # s) =
     (if c = d then [] # split_on d s
      else (case split_on d s of [] \<Rightarrow> [[c]] | w # ws \<Rightarrow> (c # w) # ws))"

lemma split_on_ne [simp]: "split_on d s \<noteq> []"
  by (induction s) (auto split: list.splits)

lemma join_split_on: "join [d] (split_on d s) = s"
proof (induction s)
  case (Cons c s)
  then show ?case
    by (cases "split_on d s"; cases "tl (split_on d s)") auto
qed simp

definition trim_right_char :: "char \<Rightarrow> string \<Rightarrow> string" where
  "trim_right_char d s = rev (dropWhile (\<lambda>c. c = d) (rev s))"

definition trim_char :: "char \<Rightarrow> string \<Rightarrow> string" where
  "trim_char d s = trim_ends (\<lambda>c. c = d) s"

subsection \<open>The bytes of a result come from the input\<close>

lemma set_trim_ends: "set (trim_ends p xs) \<subseteq> set xs"
  by (auto simp: trim_ends_def dest!: set_dropWhileD)

lemma set_trim_space: "set (trim_space s) \<subseteq> set s"
proof -
  have "set (concat (trim_ends space_chunk (chunks s))) \<subseteq> set (concat (chunks s))"
    using set_trim_ends [of space_chunk "chunks s"] by (auto simp del: concat_chunks)
  then show ?thesis by (simp add: trim_space_def)
qed

lemma set_split_fields: "w \<in> set (split_fields cs acc) \<Longrightarrow> set w \<subseteq> set acc \<union> set (concat cs)"
  by (induction cs arbitrary: acc) (auto split: if_splits, (fastforce)+)

lemma set_str_fields: "w \<in> set (str_fields s) \<Longrightarrow> set w \<subseteq> set s"
  using set_split_fields [of w "chunks s" "[]"] by (simp add: str_fields_def)

lemma set_join: "set (join sep ws) \<subseteq> set sep \<union> (\<Union>w \<in> set ws. set w)"
  by (induction sep ws rule: join.induct) auto

end
