(* ===== verification/Excerpt.thy ===== *)
theory Excerpt
  imports GoStrings
begin

text \<open>
  The excerpt-offset check (\<open>internal/extractors/llm.go\<close>, \<open>internal/workers/extract.go\<close>,
  \<open>internal/extractors/base.go\<close> and the offset helper of
  \<open>internal/extractors/deterministic/identifiers.go\<close>): every fact carries a verbatim excerpt and
  the rune offsets where it stands in the source text, and a fact whose offsets do not give that
  excerpt is dropped. Offsets are Go \<open>int\<close>s, which an LLM fills in, so they are \<open>int\<close> here.
\<close>

subsection \<open>Records\<close>

record ExtractedFact =
  SubjectText :: string
  PropertySlug :: string
  FactValue :: string
  ValueType :: string
  Excerpt :: string
  ExcerptOffsetStart :: int
  ExcerptOffsetEnd :: int
  ExtractionMethod :: string
  SourceConfidence :: "rat option"

record StatementProposal =
  sp_SubjectText :: string
  sp_PropertySlug :: string
  sp_Value :: string
  sp_ValueType :: string
  sp_Excerpt :: string
  sp_ExcerptOffsetStart :: int
  sp_ExcerptOffsetEnd :: int

subsection \<open>Rune offsets to byte offsets\<close>

text \<open>The loop of \<open>runeOffsetToByteOffset\<close>: \<open>index\<close> counts runes, \<open>b\<close> is the byte offset of the
  next one; after the last rune \<open>b\<close> is \<open>len(rawText)\<close>.\<close>

fun scan_offsets :: "string list \<Rightarrow> int \<Rightarrow> int \<Rightarrow> int \<Rightarrow> int option" where
  "scan_offsets [] b index k = (if index = k then Some b else None)"
| "scan_offsets (c # cs) b index k =
     (if index = k then Some b else scan_offsets cs (b + int (length c)) (index + 1) k)"

definition runeOffsetToByteOffset :: "string \<Rightarrow> int \<Rightarrow> int option" where
  "runeOffsetToByteOffset rawText runeOffset =
     (if runeOffset = 0 then Some 0
      else if runeOffset < 0 then None
      else scan_offsets (chunks rawText) 0 0 runeOffset)"

text \<open>The copy in package \<open>extractors\<close>.\<close>

definition llm_runeOffsetToByteOffset :: "string \<Rightarrow> int \<Rightarrow> int option" where
  "llm_runeOffsetToByteOffset rawText runeOffset =
     (if runeOffset = 0 then Some 0
      else if runeOffset < 0 then None
      else scan_offsets (chunks rawText) 0 0 runeOffset)"

definition VerifyExcerptOffset :: "string \<Rightarrow> string \<Rightarrow> int \<Rightarrow> int \<Rightarrow> bool" where
  "VerifyExcerptOffset rawText excerpt offsetStart offsetEnd =
     (if offsetStart < 0 \<or> offsetEnd < 0 \<or> offsetStart \<ge> offsetEnd then False
      else (case runeOffsetToByteOffset rawText offsetStart of
          None \<Rightarrow> False
        | Some startBytePos \<Rightarrow>
          (case runeOffsetToByteOffset rawText offsetEnd of
             None \<Rightarrow> False
           | Some endBytePos \<Rightarrow>
             if startBytePos > endBytePos \<or> endBytePos > int (length rawText) then False
             else slice (nat startBytePos) (nat endBytePos) rawText = excerpt)))"

definition llm_VerifyExcerptOffset :: "string \<Rightarrow> string \<Rightarrow> int \<Rightarrow> int \<Rightarrow> bool" where
  "llm_VerifyExcerptOffset rawText excerpt offsetStart offsetEnd =
     (if offsetStart < 0 \<or> offsetEnd < offsetStart then False
      else (case llm_runeOffsetToByteOffset rawText offsetStart of
          None \<Rightarrow> False
        | Some startByte \<Rightarrow>
          (case llm_runeOffsetToByteOffset rawText offsetEnd of
             None \<Rightarrow> False
           | Some endByte \<Rightarrow>
             if startByte > endByte \<or> endByte > int (length rawText) then False
             else slice (nat startByte) (nat endByte) rawText = excerpt)))"

definition FilterVerifiedStatementProposals ::
    "string \<Rightarrow> StatementProposal list \<Rightarrow> StatementProposal list" where
  "FilterVerifiedStatementProposals rawText proposals =
     filter (\<lambda>p. llm_VerifyExcerptOffset rawText (sp_Excerpt p)
                   (sp_ExcerptOffsetStart p) (sp_ExcerptOffsetEnd p)) proposals"

text \<open>\<open>byteOffsetToCharOffset\<close> of the deterministic extractors.\<close>

definition byteOffsetToCharOffset :: "string \<Rightarrow> int \<Rightarrow> int" where
  "byteOffsetToCharOffset s offset =
     (if offset \<le> 0 then 0
      else if offset \<ge> int (length s) then int (rune_count s)
      else int (rune_count (take (nat offset) s)))"

subsection \<open>What the offset functions compute\<close>

text \<open>The byte position of rune boundary \<open>n\<close>.\<close>

definition boundary :: "string \<Rightarrow> nat \<Rightarrow> nat" where
  "boundary s n = length (concat (take n (chunks s)))"

lemma boundary_0 [simp]: "boundary s 0 = 0"
  by (simp add: boundary_def)

lemma boundary_le: "boundary s n \<le> length s"
  using concat_take_mono [of n "max n (length (chunks s))" "chunks s"]
  by (simp add: boundary_def)

lemma boundary_full: "rune_count s \<le> n \<Longrightarrow> boundary s n = length s"
  by (simp add: boundary_def rune_count_def)

lemma boundary_mono: "m \<le> n \<Longrightarrow> boundary s m \<le> boundary s n"
  unfolding boundary_def by (rule concat_take_mono)

lemma boundary_mono_int: "a \<le> b \<Longrightarrow> boundary s (nat a) \<le> boundary s (nat b)"
  by (simp add: boundary_mono nat_mono)

lemma take_boundary: "take (boundary s n) s = concat (take n (chunks s))"
  using concat_take_drop [of "chunks s" n] unfolding boundary_def
  by (metis append_eq_conv_conj concat_chunks)

lemma rune_count_take_boundary: "n \<le> rune_count s \<Longrightarrow> rune_count (take (boundary s n) s) = n"
  by (simp add: take_boundary rune_count_def chunks_take_boundary)

lemma boundary_pos: "0 < n \<Longrightarrow> n \<le> rune_count s \<Longrightarrow> 0 < boundary s n"
  using rune_count_take_boundary [of n s] by (cases "boundary s n") (auto simp: rune_count_def)

lemma boundary_less:
  assumes "m < n" "n \<le> rune_count s"
  shows "boundary s m < boundary s n"
proof (rule ccontr)
  assume "\<not> boundary s m < boundary s n"
  then have "boundary s m = boundary s n" using boundary_mono [of m n s] assms by simp
  with rune_count_take_boundary [of m s] rune_count_take_boundary [of n s] assms show False by simp
qed

lemma scan_offsets_eq:
  "scan_offsets cs b i k =
     (if i \<le> k \<and> k \<le> i + int (length cs)
      then Some (b + int (length (concat (take (nat (k - i)) cs)))) else None)"
proof (induction cs arbitrary: b i)
  case Nil
  then show ?case by auto
next
  case (Cons c cs)
  show ?case
  proof (cases "i < k")
    case True
    then have "nat (k - i) = Suc (nat (k - (i + 1)))" by simp
    with True show ?thesis by (auto simp: Cons.IH)
  next
    case False
    then show ?thesis by (auto simp: Cons.IH)
  qed
qed

lemma runeOffsetToByteOffset_eq:
  "runeOffsetToByteOffset s k =
     (if 0 \<le> k \<and> k \<le> int (rune_count s) then Some (int (boundary s (nat k))) else None)"
  by (auto simp: runeOffsetToByteOffset_def scan_offsets_eq rune_count_def boundary_def)

lemma llm_runeOffsetToByteOffset_eq: "llm_runeOffsetToByteOffset = runeOffsetToByteOffset"
  by (simp add: fun_eq_iff llm_runeOffsetToByteOffset_def runeOffsetToByteOffset_def)

lemma VerifyExcerptOffset_iff:
  "VerifyExcerptOffset s e a b \<longleftrightarrow>
     0 \<le> a \<and> a < b \<and> b \<le> int (rune_count s) \<and>
     e = slice (boundary s (nat a)) (boundary s (nat b)) s"
  using boundary_mono_int [of a b s] boundary_le [of s "nat b"]
  by (auto simp: VerifyExcerptOffset_def runeOffsetToByteOffset_eq)

lemma llm_VerifyExcerptOffset_iff:
  "llm_VerifyExcerptOffset s e a b \<longleftrightarrow>
     0 \<le> a \<and> a \<le> b \<and> b \<le> int (rune_count s) \<and>
     e = slice (boundary s (nat a)) (boundary s (nat b)) s"
  using boundary_mono_int [of a b s] boundary_le [of s "nat b"]
  by (auto simp: llm_VerifyExcerptOffset_def llm_runeOffsetToByteOffset_eq runeOffsetToByteOffset_eq)

lemma slice_boundaries:
  assumes "m \<le> n"
  shows "slice (boundary s m) (boundary s n) s = concat (take (n - m) (drop m (chunks s)))"
  using slice_concat [OF assms, of "chunks s"] by (simp add: boundary_def)

lemma chunks_slice_boundaries:
  assumes "m \<le> n"
  shows "chunks (slice (boundary s m) (boundary s n) s) = take (n - m) (drop m (chunks s))"
proof -
  let ?t = "concat (drop m (chunks s))"
  have "chunks ?t = drop m (chunks s)" by (rule chunks_drop_boundary)
  then have "chunks (concat (take (n - m) (drop m (chunks s)))) = take (n - m) (drop m (chunks s))"
    using chunks_take_boundary [of "n - m" ?t] by simp
  then show ?thesis by (simp add: slice_boundaries assms)
qed

lemma byteOffsetToCharOffset_boundary:
  assumes "n \<le> rune_count s"
  shows "byteOffsetToCharOffset s (int (boundary s n)) = int n"
proof (cases "n = 0 \<or> n = rune_count s")
  case True
  then show ?thesis
    by (cases "rune_count s = 0") (auto simp: byteOffsetToCharOffset_def boundary_full rune_count_def)
next
  case False
  with assms have "0 < n" "n < rune_count s" by auto
  then have "0 < boundary s n" "boundary s n < length s"
    using boundary_less [of 0 n s] boundary_less [of n "rune_count s" s] assms
    by (simp_all add: boundary_full)
  then show ?thesis
    by (simp add: byteOffsetToCharOffset_def rune_count_take_boundary assms)
qed

lemma VerifyExcerptOffset_split:
  assumes "VerifyExcerptOffset s e a b"
  shows "\<exists>us vs. s = us @ e @ vs \<and> e \<noteq> [] \<and> int (rune_count us) = a \<and> int (rune_count (us @ e)) = b"
proof -
  have v: "0 \<le> a" "a < b" "b \<le> int (rune_count s)" "e = slice (boundary s (nat a)) (boundary s (nat b)) s"
    using assms by (auto simp: VerifyExcerptOffset_iff)
  let ?m = "nat a" and ?n = "nat b"
  have lt: "?m \<le> ?n" "?n \<le> rune_count s" using v by auto
  have s: "s = take (boundary s ?m) s @ e @ drop (boundary s ?n) s"
    using slice_parts [OF boundary_mono [OF lt(1)], of s s] v(4) by simp
  have ue: "take (boundary s ?m) s @ e = take (boundary s ?n) s"
    by (metis s append.assoc append_take_drop_id same_append_eq append_same_eq)
  have "e \<noteq> []"
  proof
    assume "e = []"
    then have "take (boundary s ?m) s = take (boundary s ?n) s" using ue by simp
    moreover have "boundary s ?m < boundary s ?n" using v lt by (intro boundary_less) auto
    ultimately show False using boundary_le [of s ?n]
      by (metis length_take min.absorb2 less_imp_le nat_less_le order.strict_trans2)
  qed
  moreover have "int (rune_count (take (boundary s ?m) s)) = a" "int (rune_count (take (boundary s ?n) s)) = b"
    using v lt by (simp_all add: rune_count_take_boundary)
  ultimately show ?thesis using s ue by metis
qed

subsection \<open>Properties\<close>

text \<open>C2. The anti-hallucination guarantee. A fact passes the check of the fact pipeline exactly when
  its offsets are a non-empty rune range of the archived text and its excerpt is, byte for byte, the
  text in that range: the text splits as \<open>us @ excerpt @ vs\<close> where \<open>us\<close> holds \<open>offsetStart\<close> runes
  and the excerpt \<open>offsetEnd - offsetStart\<close> runes.\<close>

theorem verified_excerpt_is_verbatim:
  "VerifyExcerptOffset rawText excerpt a b \<longleftrightarrow>
     (0 \<le> a \<and> a < b \<and>
      (\<exists>m n. a = int m \<and> b = int n \<and> n \<le> rune_count rawText \<and>
         rawText = concat (take m (chunks rawText)) @ excerpt @ concat (drop n (chunks rawText)) \<and>
         int (rune_count (concat (take m (chunks rawText)))) = a \<and>
         int (rune_count excerpt) = b - a))"
proof
  assume "VerifyExcerptOffset rawText excerpt a b"
  then have v: "0 \<le> a" "a < b" "b \<le> int (rune_count rawText)"
    "excerpt = slice (boundary rawText (nat a)) (boundary rawText (nat b)) rawText"
    by (auto simp: VerifyExcerptOffset_iff)
  let ?m = "nat a" and ?n = "nat b"
  have mn: "?m \<le> ?n" using v by simp
  have e: "excerpt = concat (take (?n - ?m) (drop ?m (chunks rawText)))"
    using v(4) slice_boundaries [OF mn] by simp
  have "take ?n (chunks rawText) = take ?m (chunks rawText) @ take (?n - ?m) (drop ?m (chunks rawText))"
    using mn by (metis le_add_diff_inverse take_add)
  then have "rawText = concat (take ?m (chunks rawText)) @ excerpt @ concat (drop ?n (chunks rawText))"
    using e concat_take_drop [of "chunks rawText" ?n] by simp
  moreover have "rune_count excerpt = ?n - ?m"
    using v chunks_slice_boundaries [OF mn, of rawText]
    by (simp add: rune_count_def nat_le_iff)
  moreover have "rune_count (concat (take ?m (chunks rawText))) = ?m"
    using v by (simp add: rune_count_def chunks_take_boundary nat_le_iff)
  ultimately show "0 \<le> a \<and> a < b \<and> (\<exists>m n. a = int m \<and> b = int n \<and> n \<le> rune_count rawText \<and>
         rawText = concat (take m (chunks rawText)) @ excerpt @ concat (drop n (chunks rawText)) \<and>
         int (rune_count (concat (take m (chunks rawText)))) = a \<and> int (rune_count excerpt) = b - a)"
    using v by (intro conjI exI [of _ ?m] exI [of _ ?n]) (simp_all add: nat_le_iff nat_diff_distrib')
next
  assume r: "0 \<le> a \<and> a < b \<and> (\<exists>m n. a = int m \<and> b = int n \<and> n \<le> rune_count rawText \<and>
         rawText = concat (take m (chunks rawText)) @ excerpt @ concat (drop n (chunks rawText)) \<and>
         int (rune_count (concat (take m (chunks rawText)))) = a \<and> int (rune_count excerpt) = b - a)"
  then obtain m n where mn: "a = int m" "b = int n" "n \<le> rune_count rawText" "m \<le> n"
    and raw: "rawText = concat (take m (chunks rawText)) @ excerpt @ concat (drop n (chunks rawText))"
    by auto
  have "concat (take m (chunks rawText)) @ excerpt @ concat (drop n (chunks rawText))
      = concat (take m (chunks rawText)) @ slice (boundary rawText m) (boundary rawText n) rawText
        @ concat (drop n (chunks rawText))"
    using raw slice_parts [OF boundary_mono [OF mn(4)], of rawText rawText]
    by (metis append_eq_append_conv append_eq_conv_conj boundary_def concat_chunks concat_take_drop take_boundary)
  then have "excerpt = slice (boundary rawText m) (boundary rawText n) rawText" by simp
  with mn r show "VerifyExcerptOffset rawText excerpt a b"
    by (auto simp: VerifyExcerptOffset_iff)
qed

text \<open>A fact built from a byte range that starts and ends on rune boundaries, with its offsets
  converted by \<open>byteOffsetToCharOffset\<close>, always passes the check: the deterministic extractors
  lose no fact to it, on any text, multi-byte or invalid UTF-8 included.\<close>

theorem byte_range_fact_verifies:
  assumes "m < n" and "n \<le> rune_count rawText"
  shows "VerifyExcerptOffset rawText
           (slice (boundary rawText m) (boundary rawText n) rawText)
           (byteOffsetToCharOffset rawText (int (boundary rawText m)))
           (byteOffsetToCharOffset rawText (int (boundary rawText n)))"
  using assms by (simp add: byteOffsetToCharOffset_boundary VerifyExcerptOffset_iff)

theorem byte_range_fact_verifies_witness:
  "VerifyExcerptOffset ''abc''
     (slice (boundary ''abc'' 1) (boundary ''abc'' 3) ''abc'')
     (byteOffsetToCharOffset ''abc'' (int (boundary ''abc'' 1)))
     (byteOffsetToCharOffset ''abc'' (int (boundary ''abc'' 3)))"
proof -
  have "(1::nat) < 3" by simp
  moreover have "3 \<le> rune_count ''abc''" by code_simp
  ultimately show ?thesis by (rule byte_range_fact_verifies)
qed

text \<open>Byte offset to rune offset and back is the identity on rune boundaries, and every rune
  offset the check accepts converts to a byte offset and back to itself.\<close>

theorem offset_conversion_roundtrip:
  "(\<forall>n. n \<le> rune_count s \<longrightarrow>
      runeOffsetToByteOffset s (byteOffsetToCharOffset s (int (boundary s n))) = Some (int (boundary s n)))
   \<and> (\<forall>k b. runeOffsetToByteOffset s k = Some b \<longrightarrow> byteOffsetToCharOffset s b = k)"
  by (auto simp: byteOffsetToCharOffset_boundary runeOffsetToByteOffset_eq nat_le_iff split: if_splits)

theorem offset_conversion_roundtrip_witness:
  "runeOffsetToByteOffset ''ab'' 1 = Some 1 \<and> byteOffsetToCharOffset ''ab'' 1 = 1"
proof -
  have "runeOffsetToByteOffset ''ab'' 1 = Some 1" by code_simp
  then show ?thesis
    using offset_conversion_roundtrip [of "''ab''"] by blast
qed

text \<open>The two copies of the check differ in exactly one way: the one that filters LLM proposals
  accepts an empty range, the one in front of the database insert does not.\<close>

theorem checks_differ_on_empty_range:
  "VerifyExcerptOffset rawText excerpt a b \<longleftrightarrow>
     llm_VerifyExcerptOffset rawText excerpt a b \<and> excerpt \<noteq> []"
proof -
  have "slice (boundary rawText (nat a)) (boundary rawText (nat b)) rawText \<noteq> []"
    if "0 \<le> a" "a < b" "b \<le> int (rune_count rawText)"
  proof -
    have "boundary rawText (nat a) < boundary rawText (nat b)"
      using that by (intro boundary_less) auto
    then have "length (slice (boundary rawText (nat a)) (boundary rawText (nat b)) rawText) > 0"
      by (simp add: length_slice boundary_le)
    then show ?thesis by auto
  qed
  moreover have "slice (boundary rawText (nat a)) (boundary rawText (nat a)) rawText = []"
    by (simp add: slice_def)
  ultimately show ?thesis
    by (cases "a = b") (auto simp: VerifyExcerptOffset_iff llm_VerifyExcerptOffset_iff)
qed

subsection \<open>The contract of a check\<close>

text \<open>What the callers of a check rely on: an accepted excerpt stands verbatim in the text.\<close>

locale excerpt_check =
  fixes check :: "string \<Rightarrow> string \<Rightarrow> int \<Rightarrow> int \<Rightarrow> bool"
  assumes check_sound: "check rawText e a b \<Longrightarrow> \<exists>us vs. rawText = us @ e @ vs"
    and check_range: "check rawText e a b \<Longrightarrow> 0 \<le> a \<and> a \<le> b \<and> b \<le> int (rune_count rawText)"
    and check_determined: "check rawText e a b \<Longrightarrow> check rawText e' a b \<Longrightarrow> e = e'"
begin

lemma fabricated_rejected: "(\<nexists>us vs. rawText = us @ e @ vs) \<Longrightarrow> \<not> check rawText e a b"
  using check_sound by blast

lemma filter_verbatim:
  "x \<in> set (filter (\<lambda>x. check rawText (ex x) (st x) (en x)) xs) \<Longrightarrow> \<exists>us vs. rawText = us @ ex x @ vs"
  using check_sound by auto

lemma check_empty_text: "check [] e a b \<Longrightarrow> e = [] \<and> a = 0 \<and> b = 0"
  using check_sound [of "[]" e a b] check_range [of "[]" e a b] by (auto simp: rune_count_def)

end

interpretation worker_check: excerpt_check VerifyExcerptOffset
  by unfold_locales
    (auto simp: VerifyExcerptOffset_iff intro!: slice_infix boundary_mono_int)

interpretation llm_check: excerpt_check llm_VerifyExcerptOffset
  by unfold_locales
    (auto simp: llm_VerifyExcerptOffset_iff intro!: slice_infix boundary_mono_int)

lemma Filter_verbatim:
  "p \<in> set (FilterVerifiedStatementProposals rawText ps) \<Longrightarrow> \<exists>us vs. rawText = us @ sp_Excerpt p @ vs"
  unfolding FilterVerifiedStatementProposals_def by (rule llm_check.filter_verbatim)

end
