(* ===== verification/Vocabulary.thy ===== *)
theory Vocabulary
  imports GoStrings
begin

text \<open>
  \<open>internal/vocabulary/resolver.go\<close>: an extracted property label is looked up in a catalog of ten
  properties by its normalised form; an unknown label becomes a slug, and the mode decides whether
  it is only queued for review (strict) or taken as known (permissive). \<open>Mode\<close> is a Go string
  type, so any value but \<open>strict\<close> behaves as permissive.
\<close>

type_synonym Mode = string

definition ModeStrict :: Mode where
  "ModeStrict = ''strict''"

definition ModePermissive :: Mode where
  "ModePermissive = ''permissive''"

record Property =
  pr_Slug :: string
  pr_Label :: string
  pr_ValueType :: string

record ProposedProperty =
  ProposedSlug :: string
  ProposedValueType :: string
  ProposedBy :: string
  ExampleExcerpt :: string

record Result =
  res_Property :: Property
  Known :: bool
  QueuedProposals :: "ProposedProperty list"

record Resolver =
  res_Mode :: Mode
  Catalog :: "(string \<rightharpoonup> Property) option"

definition normalizeLabel :: "unicode_tables \<Rightarrow> string \<Rightarrow> string" where
  "normalizeLabel U s = to_lower U (trim_space s)"

text \<open>The loop of \<open>normalizeSlug\<close>: letters and digits are kept, every run of other runes becomes
  one underscore.\<close>

fun slug_loop :: "unicode_tables \<Rightarrow> rune list \<Rightarrow> bool \<Rightarrow> string" where
  "slug_loop U [] lastUnderscore = []"
| "slug_loop U (r # rs) lastUnderscore =
     (if is_letter U r \<or> is_digit U r then encode_rune r @ slug_loop U rs False
      else if \<not> lastUnderscore then CHR ''_'' # slug_loop U rs True
      else slug_loop U rs lastUnderscore)"

definition normalizeSlug :: "unicode_tables \<Rightarrow> string \<Rightarrow> string" where
  "normalizeSlug U s = trim_char CHR ''_'' (slug_loop U (runes (to_lower U (trim_space s))) False)"

definition catalog_properties :: "Property list" where
  "catalog_properties =
     [\<lparr>pr_Slug = ''sec_cik'', pr_Label = ''SEC CIK'', pr_ValueType = ''string''\<rparr>,
      \<lparr>pr_Slug = ''sec_cusip'', pr_Label = ''SEC CUSIP'', pr_ValueType = ''string''\<rparr>,
      \<lparr>pr_Slug = ''sec_isin'', pr_Label = ''SEC ISIN'', pr_ValueType = ''string''\<rparr>,
      \<lparr>pr_Slug = ''usd_amount'', pr_Label = ''USD amount'', pr_ValueType = ''number''\<rparr>,
      \<lparr>pr_Slug = ''date'', pr_Label = ''Date'', pr_ValueType = ''date''\<rparr>,
      \<lparr>pr_Slug = ''org_name'', pr_Label = ''Organization name'', pr_ValueType = ''string''\<rparr>,
      \<lparr>pr_Slug = ''person_name'', pr_Label = ''Person name'', pr_ValueType = ''string''\<rparr>,
      \<lparr>pr_Slug = ''doi'', pr_Label = ''DOI'', pr_ValueType = ''string''\<rparr>,
      \<lparr>pr_Slug = ''clinicaltrials.gov_nct_id'', pr_Label = ''ClinicalTrials.gov NCT ID'',
       pr_ValueType = ''string''\<rparr>,
      \<lparr>pr_Slug = ''isbn_13'', pr_Label = ''ISBN-13'', pr_ValueType = ''string''\<rparr>]"

fun catalog_insert :: "unicode_tables \<Rightarrow> Property list \<Rightarrow> (string \<rightharpoonup> Property) \<Rightarrow> (string \<rightharpoonup> Property)" where
  "catalog_insert U [] m = m"
| "catalog_insert U (p # ps) m =
     catalog_insert U ps (m(normalizeLabel U (pr_Slug p) \<mapsto> p, normalizeLabel U (pr_Label p) \<mapsto> p))"

definition defaultCatalog :: "unicode_tables \<Rightarrow> (string \<rightharpoonup> Property)" where
  "defaultCatalog U = catalog_insert U catalog_properties Map.empty"

definition NewResolver :: "unicode_tables \<Rightarrow> Mode \<Rightarrow> Resolver" where
  "NewResolver U mode = \<lparr>res_Mode = mode, Catalog = Some (defaultCatalog U)\<rparr>"

definition Resolve :: "unicode_tables \<Rightarrow> Resolver \<Rightarrow> string \<Rightarrow> string \<Rightarrow> string \<Rightarrow> Result" where
  "Resolve U r label valueType excerpt =
     (let catalog = (case Catalog r of None \<Rightarrow> defaultCatalog U | Some c \<Rightarrow> c);
          normLabel = normalizeLabel U label
      in case catalog normLabel of
           Some property \<Rightarrow> \<lparr>res_Property = property, Known = True, QueuedProposals = []\<rparr>
         | None \<Rightarrow>
           (let slug0 = normalizeSlug U label;
                slug = (if slug0 = [] then normLabel else slug0);
                property = \<lparr>pr_Slug = slug, pr_Label = label, pr_ValueType = valueType\<rparr>
            in if res_Mode r = ModeStrict
               then \<lparr>res_Property = property, Known = False,
                     QueuedProposals = [\<lparr>ProposedSlug = slug, ProposedValueType = valueType,
                       ProposedBy = ''resolver:strict'', ExampleExcerpt = excerpt\<rparr>]\<rparr>
               else \<lparr>res_Property = property, Known = True, QueuedProposals = []\<rparr>))"

subsection \<open>The catalog\<close>

lemma normalizeLabel_ascii_examples:
  "normalizeLabel U ''sec_cik'' = ''sec_cik''" "normalizeLabel U ''SEC CIK'' = ''sec cik''"
  "normalizeLabel U ''sec_cusip'' = ''sec_cusip''" "normalizeLabel U ''SEC CUSIP'' = ''sec cusip''"
  "normalizeLabel U ''sec_isin'' = ''sec_isin''" "normalizeLabel U ''SEC ISIN'' = ''sec isin''"
  "normalizeLabel U ''usd_amount'' = ''usd_amount''" "normalizeLabel U ''USD amount'' = ''usd amount''"
  "normalizeLabel U ''date'' = ''date''" "normalizeLabel U ''Date'' = ''date''"
  "normalizeLabel U ''org_name'' = ''org_name''"
  "normalizeLabel U ''Organization name'' = ''organization name''"
  "normalizeLabel U ''person_name'' = ''person_name''" "normalizeLabel U ''Person name'' = ''person name''"
  "normalizeLabel U ''doi'' = ''doi''" "normalizeLabel U ''DOI'' = ''doi''"
  "normalizeLabel U ''clinicaltrials.gov_nct_id'' = ''clinicaltrials.gov_nct_id''"
  "normalizeLabel U ''ClinicalTrials.gov NCT ID'' = ''clinicaltrials.gov nct id''"
  "normalizeLabel U ''isbn_13'' = ''isbn_13''" "normalizeLabel U ''ISBN-13'' = ''isbn-13''"
  by code_simp+

lemma defaultCatalog_dom:
  "p \<in> set catalog_properties \<Longrightarrow>
     defaultCatalog U (normalizeLabel U (pr_Slug p)) = Some p \<and>
     defaultCatalog U (normalizeLabel U (pr_Label p)) = Some p"
  unfolding catalog_properties_def set_simps insert_iff empty_iff
  by (elim disjE; hypsubst?)
    (simp_all add: defaultCatalog_def catalog_properties_def normalizeLabel_ascii_examples)

lemma catalog_insert_range:
  "catalog_insert U ps m l = Some p \<Longrightarrow> p \<in> set ps \<or> m l = Some p"
  by (induction ps arbitrary: m) (force split: if_splits)+

lemma defaultCatalog_ran: "defaultCatalog U l = Some p \<Longrightarrow> p \<in> set catalog_properties"
  using catalog_insert_range [of U catalog_properties Map.empty l p]
  by (simp add: defaultCatalog_def)

text \<open>The controlled vocabulary: whatever the mode, a label that is the slug or the display label
  of a catalog property up to case and surrounding white space resolves to exactly that property, and
  nothing is queued; a strict resolver answers \<open>Known\<close> only for catalog properties.\<close>

theorem resolve_catalog:
  "(\<forall>p \<in> set catalog_properties.
      normalizeLabel U label \<in> {normalizeLabel U (pr_Slug p), normalizeLabel U (pr_Label p)} \<longrightarrow>
      Resolve U (NewResolver U mode) label vt ex
        = \<lparr>res_Property = p, Known = True, QueuedProposals = []\<rparr>)
   \<and> (Known (Resolve U (NewResolver U ModeStrict) label vt ex) \<longrightarrow>
        res_Property (Resolve U (NewResolver U ModeStrict) label vt ex) \<in> set catalog_properties)"
  using defaultCatalog_dom [of _ U]
  by (auto simp: Resolve_def NewResolver_def Let_def dest: defaultCatalog_ran split: option.splits)

theorem resolve_catalog_witness:
  "Resolve ascii_tables (NewResolver ascii_tables ModePermissive) '' Sec_CIK'' ''number'' ''e''
     = \<lparr>res_Property = \<lparr>pr_Slug = ''sec_cik'', pr_Label = ''SEC CIK'', pr_ValueType = ''string''\<rparr>,
        Known = True, QueuedProposals = []\<rparr>"
proof -
  have n: "normalizeLabel ascii_tables '' Sec_CIK'' = normalizeLabel ascii_tables ''sec_cik''" by code_simp
  let ?p = "\<lparr>pr_Slug = ''sec_cik'', pr_Label = ''SEC CIK'', pr_ValueType = ''string''\<rparr>"
  have "?p \<in> set catalog_properties" by (simp add: catalog_properties_def)
  moreover have "normalizeLabel ascii_tables '' Sec_CIK''
      \<in> {normalizeLabel ascii_tables (pr_Slug ?p), normalizeLabel ascii_tables (pr_Label ?p)}" using n by simp
  ultimately show ?thesis
    using resolve_catalog [of ascii_tables "'' Sec_CIK''" ModePermissive "''number''" "''e''"] by blast
qed

text \<open>Every branch of the resolver: exactly the unknown labels of strict mode queue a proposal,
  one each, under the slug returned; all other results are known and queue nothing.\<close>

theorem resolve_branches:
  "(let r = Resolve U (NewResolver U mode) label vt ex in
     (Known r \<longleftrightarrow> mode \<noteq> ModeStrict \<or> normalizeLabel U label \<in> dom (defaultCatalog U)) \<and>
     QueuedProposals r =
       (if Known r then []
        else [\<lparr>ProposedSlug = pr_Slug (res_Property r), ProposedValueType = vt,
               ProposedBy = ''resolver:strict'', ExampleExcerpt = ex\<rparr>]) \<and>
     (normalizeLabel U label \<notin> dom (defaultCatalog U) \<longrightarrow>
        pr_Label (res_Property r) = label \<and> pr_ValueType (res_Property r) = vt))"
  by (auto simp: Resolve_def NewResolver_def Let_def split: option.splits)

theorem resolve_branches_witness:
  "\<not> Known (Resolve ascii_tables (NewResolver ascii_tables ModeStrict) ''Foo bar'' ''string'' ''e'') \<and>
   pr_Label (res_Property (Resolve ascii_tables (NewResolver ascii_tables ModeStrict) ''Foo bar'' ''string'' ''e'')) = ''Foo bar''"
proof -
  have "normalizeLabel ascii_tables ''Foo bar'' = ''foo bar''" by code_simp
  then have "normalizeLabel ascii_tables ''Foo bar'' \<notin> dom (defaultCatalog ascii_tables)"
    by (simp add: defaultCatalog_def catalog_properties_def normalizeLabel_ascii_examples)
  then show ?thesis
    using resolve_branches [of ascii_tables ModeStrict "''Foo bar''" "''string''" "''e''"] by (simp add: Let_def)
qed

subsection \<open>Slugs\<close>

definition no_double_us :: "string \<Rightarrow> bool" where
  "no_double_us s \<longleftrightarrow> (\<nexists>us vs. s = us @ CHR ''_'' # CHR ''_'' # vs)"

lemma no_double_us_Nil [simp]: "no_double_us []"
  by (simp add: no_double_us_def)

lemma no_double_us_Cons:
  "no_double_us (c # s) \<longleftrightarrow> no_double_us s \<and> \<not> (c = CHR ''_'' \<and> s \<noteq> [] \<and> hd s = CHR ''_'')"
proof -
  have "(\<exists>us vs. c # s = us @ CHR ''_'' # CHR ''_'' # vs) \<longleftrightarrow>
      (\<exists>us vs. s = us @ CHR ''_'' # CHR ''_'' # vs) \<or> (c = CHR ''_'' \<and> s \<noteq> [] \<and> hd s = CHR ''_'')"
    (is "?l \<longleftrightarrow> ?r")
  proof
    assume ?l
    then obtain us vs where e: "c # s = us @ CHR ''_'' # CHR ''_'' # vs" by blast
    then show ?r by (cases us) auto
  next
    assume ?r
    then show ?l
    proof
      assume "\<exists>us vs. s = us @ CHR ''_'' # CHR ''_'' # vs"
      then obtain us vs where "s = us @ CHR ''_'' # CHR ''_'' # vs" by blast
      then show ?l by (intro exI [of _ "c # us"] exI [of _ vs]) simp
    next
      assume "c = CHR ''_'' \<and> s \<noteq> [] \<and> hd s = CHR ''_''"
      then show ?l by (intro exI [of _ "[]"] exI [of _ "tl s"]) (cases s, auto)
    qed
  qed
  then show ?thesis by (auto simp: no_double_us_def)
qed

lemma no_double_us_infix: "no_double_us (a @ b @ c) \<Longrightarrow> no_double_us b"
  unfolding no_double_us_def by (metis append.assoc append_Cons)

lemma no_double_us_prepend:
  "CHR ''_'' \<notin> set e \<Longrightarrow> no_double_us s \<Longrightarrow> no_double_us (e @ s)"
  by (induction e) (auto simp: no_double_us_Cons)

lemma byte_us: "byte CHR ''_'' = 95"
  by (simp add: byte_def)

lemma encode_rune_no_us: "r \<noteq> 95 \<Longrightarrow> CHR ''_'' \<notin> set (encode_rune r)"
  using encode_rune_ascii [of "CHR ''_''" r] byte_us by auto

lemma not_us_letter: "\<not> is_letter U 95" "\<not> is_digit U 95"
  by (simp_all add: is_letter_def is_digit_def)

lemma slug_loop_no_double: "no_double_us (slug_loop U rs l) \<and>
    (l \<longrightarrow> slug_loop U rs l = [] \<or> hd (slug_loop U rs l) \<noteq> CHR ''_'')"
proof (induction U rs l rule: slug_loop.induct)
  case (1 U l)
  then show ?case by simp
next
  case (2 U r rs l)
  show ?case
  proof (cases "is_letter U r \<or> is_digit U r")
    case True
    then have e: "CHR ''_'' \<notin> set (encode_rune r)"
      using encode_rune_no_us [of r] not_us_letter [of U] by (cases "r = 95") auto
    have "encode_rune r \<noteq> []" by (simp add: encode_rune_def)
    with e have "hd (encode_rune r @ slug_loop U rs False) \<noteq> CHR ''_''"
      by (metis hd_append2 hd_in_set)
    with True e 2 show ?thesis by (auto intro: no_double_us_prepend)
  next
    case False
    with 2 show ?thesis by (auto simp: no_double_us_Cons)
  qed
qed

text \<open>C25. The slug of any label, on any bytes and any Unicode tables, neither starts nor ends with an
  underscore and never has two underscores in a row, so punctuation variants of one label collapse.\<close>

theorem slug_well_formed:
  "normalizeSlug U s = [] \<or>
     (hd (normalizeSlug U s) \<noteq> CHR ''_'' \<and> last (normalizeSlug U s) \<noteq> CHR ''_'' \<and>
      no_double_us (normalizeSlug U s))"
proof -
  let ?b = "slug_loop U (runes (to_lower U (trim_space s))) False"
  let ?p = "\<lambda>c. c = CHR ''_''"
  let ?d = "dropWhile ?p ?b"
  have "?b = takeWhile ?p ?b @ normalizeSlug U s @ rev (takeWhile ?p (rev ?d))"
    unfolding normalizeSlug_def trim_char_def trim_ends_def
    by (metis rev_append rev_rev_ident takeWhile_dropWhile_id)
  then have "no_double_us (normalizeSlug U s)"
    using slug_loop_no_double no_double_us_infix by metis
  moreover have "normalizeSlug U s = [] \<or>
      (hd (normalizeSlug U s) \<noteq> CHR ''_'' \<and> last (normalizeSlug U s) \<noteq> CHR ''_'')"
    using trim_ends_fix [of ?p ?b "normalizeSlug U s"] by (simp add: normalizeSlug_def trim_char_def)
  ultimately show ?thesis by auto
qed

end
