(* ===== verification/Database.thy ===== *)
theory Database
  imports GoStrings
begin

text \<open>
  The Postgres schema the workers read and write (\<open>migrations/00001_initial_schema.sql\<close> and its
  successors, mirrored by the row types of \<open>internal/db/models.go\<close>) and the transaction helper
  \<open>TenantContext\<close> of \<open>internal/db/rls.go\<close>. A table is the list of its rows in insertion order;
  a query is a filter, sort and prefix of that list; an update is a map over it. UUIDs are opaque
  names, so they are natural numbers; their text form, and the casts Postgres performs on values sent
  as text, are the fields of \<open>pg_env\<close>, an argument of the operations that rely on them. One field,
  \<open>scan_uuid\<close>, stands for two readers of UUIDs, \<open>pgtype.UUID.Scan\<close> in the program and the cast
  \<open>::uuid\<close> in the database. They read the same 32 digits alike and differ in the spellings they let
  through (the database takes braces, \<open>Scan\<close> takes any separator), so a text that only one of them
  reads is outside the model.
  \<open>next_id\<close> is the supply behind \<open>uuid.NewString\<close> and \<open>gen_random_uuid()\<close>, \<open>now\<close> the
  transaction clock in seconds.
\<close>

type_synonym uuid = nat

record pg_env =
  scan_uuid :: "string \<Rightarrow> uuid option"        \<comment> \<open>pgtype.UUID.Scan and the cast to uuid\<close>
  uuid_text :: "uuid \<Rightarrow> string"               \<comment> \<open>the canonical text of a UUID\<close>
  pg_numeric :: "string \<Rightarrow> string option"     \<comment> \<open>the cast to numeric, as canonical text\<close>
  pg_timestamptz :: "string \<Rightarrow> int option"    \<comment> \<open>the cast to timestamptz\<close>
  rfc3339 :: "int \<Rightarrow> string"                  \<comment> \<open>time.Time.UTC().Format(time.RFC3339)\<close>

text \<open>One such environment, for the examples: a UUID is written in unary (\<open>-\<close> for zero), and a
  number or a date is its own text.\<close>

definition sample_pg :: pg_env where
  "sample_pg = \<lparr>scan_uuid = (\<lambda>s. if s = [] then None else if s = ''-'' then Some 0 else Some (length s)),
     uuid_text = (\<lambda>n. if n = 0 then ''-'' else replicate n CHR ''u''),
     pg_numeric = (\<lambda>s. if s \<noteq> [] \<and> list_all (\<lambda>c. c \<in> set ''0123456789'') s then Some s else None),
     pg_timestamptz = (\<lambda>s. if s = ''2024-01-01'' then Some 1704067200 else None),
     rfc3339 = (\<lambda>_. ''2024-01-01T00:00:00Z'')\<rparr>"

text \<open>What Postgres documents of the canonical text of a UUID: reading it back gives the UUID. The empty
  text is no UUID.\<close>

definition uuid_roundtrip :: "pg_env \<Rightarrow> bool" where
  "uuid_roundtrip pg \<longleftrightarrow> (\<forall>u. scan_uuid pg (uuid_text pg u) = Some u) \<and> scan_uuid pg [] = None"

lemma uuid_text_inj: "uuid_roundtrip pg \<Longrightarrow> uuid_text pg a = uuid_text pg b \<longleftrightarrow> a = b"
  unfolding uuid_roundtrip_def by (metis option.inject)

lemma uuid_text_ne: "uuid_roundtrip pg \<Longrightarrow> uuid_text pg u \<noteq> []"
  unfolding uuid_roundtrip_def by (metis option.distinct(1))

lemma sample_pg_roundtrip: "uuid_roundtrip sample_pg"
proof -
  have "replicate u CHR ''u'' \<noteq> ''-''" for u by (cases u) auto
  then show ?thesis by (auto simp: uuid_roundtrip_def sample_pg_def)
qed

text \<open>A query argument cast to \<open>uuid\<close>, and one cast to \<open>uuid[]\<close>.\<close>

definition cast_uuid :: "pg_env \<Rightarrow> string \<Rightarrow> uuid result" where
  "cast_uuid pg s = (case scan_uuid pg s of None \<Rightarrow> Err ''invalid input syntax for type uuid'' | Some u \<Rightarrow> Ok u)"

fun cast_uuids :: "pg_env \<Rightarrow> string list \<Rightarrow> uuid list result" where
  "cast_uuids pg [] = Ok []"
| "cast_uuids pg (s # ss) = rbind (cast_uuid pg s) (\<lambda>u. rbind (cast_uuids pg ss) (\<lambda>us. Ok (u # us)))"

lemma cast_uuid_Inr_iff [simp]: "cast_uuid pg s = Inr u \<longleftrightarrow> scan_uuid pg s = Some u"
  by (simp add: cast_uuid_def split: option.split)

lemma cast_uuid_ok [simp]: "scan_uuid pg s = Some u \<Longrightarrow> cast_uuid pg s = Inr u"
  by simp

lemma cast_uuids_Inr_iff: "cast_uuids pg ss = Inr us \<longleftrightarrow> map (scan_uuid pg) ss = map Some us"
proof (induction ss arbitrary: us)
  case (Cons s ss)
  then show ?case by (cases us) (auto simp: rbind_Inr_iff)
qed auto

lemma cast_uuids_text: "uuid_roundtrip pg \<Longrightarrow> cast_uuids pg (map (uuid_text pg) us) = Inr us"
  by (auto simp: cast_uuids_Inr_iff uuid_roundtrip_def)

subsection \<open>Rows\<close>

record entity_row =
  en_id :: uuid
  en_tenant :: uuid
  en_ext_id :: "string option"
  en_label :: string
  en_type_uri :: "string option"
  en_description :: "string option"
  en_embedding :: "rat list option"
  en_meta :: string
  en_created :: int
  en_updated :: int

record property_row =
  pp_id :: uuid
  pp_tenant :: "uuid option"
  pp_slug :: string
  pp_label :: string
  pp_value_type :: string
  pp_description :: "string option"

record statement_row =
  st_id :: uuid
  st_tenant :: uuid
  st_subject :: uuid
  st_property :: uuid
  st_val_entity :: "uuid option"
  st_val_text :: "string option"
  st_val_number :: "string option"
  st_val_date :: "int option"
  st_val_json :: "string option"
  st_rank :: string
  st_confidence :: rat
  st_embedding :: "rat list option"
  st_created :: int

record statement_source_row =
  ss_id :: uuid
  ss_statement :: uuid
  ss_source :: uuid
  ss_excerpt :: string
  ss_start :: int
  ss_end :: int
  ss_method :: string
  ss_extracted_at :: int
  ss_confidence :: "rat option"
  ss_tenant :: uuid

record source_row =
  so_id :: uuid
  so_tenant :: uuid
  so_url :: string
  so_fetched_at :: int
  so_content_hash :: string
  so_raw_html :: "string option"
  so_raw_text :: "string option"
  so_archive_url :: "string option"
  so_publisher :: "string option"
  so_title :: "string option"
  so_published_at :: "int option"
  so_embedding :: "rat list option"
  so_last_verified_at :: "int option"
  so_status :: string
  so_created :: int
  so_meta :: string

record verification_row =
  sv_id :: uuid
  sv_source :: uuid
  sv_tenant :: uuid
  sv_verified_at :: int
  sv_status :: string
  sv_new_hash :: "string option"
  sv_notes :: "string option"

record proposal_row =
  pq_id :: uuid
  pq_tenant :: uuid
  pq_slug :: string
  pq_value_type :: string
  pq_by :: string
  pq_excerpt :: "string option"
  pq_source :: "uuid option"
  pq_status :: string
  pq_reviewed_by :: "string option"
  pq_reviewed_at :: "int option"
  pq_created :: int

record qualifier_row =
  qu_id :: uuid
  qu_statement :: uuid
  qu_property :: uuid
  qu_val_text :: "string option"
  qu_val_number :: "string option"
  qu_val_date :: "int option"
  qu_val_entity :: "uuid option"

record relation_row =
  re_id :: uuid
  re_tenant :: uuid
  re_source :: uuid
  re_target :: uuid
  re_type :: string
  re_weight :: "rat option"
  re_confidence :: "rat option"
  re_description :: "string option"
  re_embedding :: "rat list option"
  re_meta :: string
  re_statement :: "uuid option"

record dossier_row =
  do_id :: uuid
  do_tenant :: uuid
  do_entity :: uuid
  do_assembled_at :: int
  do_bundle :: string

record brief_row =
  br_id :: uuid
  br_tenant :: uuid
  br_source_kind :: string
  br_entity :: "uuid option"
  br_query :: "string option"
  br_payload :: string
  br_created :: int
  br_bundle_hash :: "string option"

record db =
  entities :: "entity_row list"
  properties :: "property_row list"
  statements :: "statement_row list"
  statement_sources :: "statement_source_row list"
  sources :: "source_row list"
  verifications :: "verification_row list"
  proposals :: "proposal_row list"
  qualifiers :: "qualifier_row list"
  relations :: "relation_row list"
  dossiers :: "dossier_row list"
  briefs :: "brief_row list"
  next_id :: uuid
  now :: int

definition empty_db :: db where
  "empty_db = \<lparr>entities = [], properties = [], statements = [], statement_sources = [],
     sources = [], verifications = [], proposals = [], qualifiers = [], relations = [], dossiers = [], briefs = [],
     next_id = 1, now = 0\<rparr>"

subsection \<open>Row-level security\<close>

text \<open>
  \<open>TenantContext\<close> sets \<open>app.tenant_id\<close> and drops to \<open>app_user\<close>; the tenant isolation policies then
  show a transaction the rows of its tenant only (for \<open>properties\<close> also the global rows), and let it
  write rows of its tenant only.
\<close>

definition rls :: "('r \<Rightarrow> uuid) \<Rightarrow> uuid \<Rightarrow> 'r list \<Rightarrow> 'r list" where
  "rls tenant_of t rows = filter (\<lambda>r. tenant_of r = t) rows"

definition rls_properties :: "uuid \<Rightarrow> property_row list \<Rightarrow> property_row list" where
  "rls_properties t rows = filter (\<lambda>r. pp_tenant r = Some t \<or> pp_tenant r = None) rows"

text \<open>Qualifiers carry no tenant: their policy asks for a visible statement.\<close>

definition rls_qualifiers :: "statement_row list \<Rightarrow> qualifier_row list \<Rightarrow> qualifier_row list" where
  "rls_qualifiers visible qs = filter (\<lambda>q. list_ex (\<lambda>s. st_id s = qu_statement q) visible) qs"

text \<open>\<open>UPDATE ... WHERE p\<close> under the policy: rows of other tenants are not visible to it.\<close>

definition update_rows :: "('r \<Rightarrow> uuid) \<Rightarrow> uuid \<Rightarrow> ('r \<Rightarrow> bool) \<Rightarrow> ('r \<Rightarrow> 'r) \<Rightarrow> 'r list \<Rightarrow> 'r list" where
  "update_rows tenant_of t p f rows = map (\<lambda>r. if tenant_of r = t \<and> p r then f r else r) rows"

lemma rls_set [simp]: "x \<in> set (rls f t rows) \<longleftrightarrow> x \<in> set rows \<and> f x = t"
  by (simp add: rls_def)

lemma rls_append [simp]: "rls f t (xs @ ys) = rls f t xs @ rls f t ys"
  by (simp add: rls_def)

lemma rls_Cons [simp]: "rls f t (x # xs) = (if f x = t then x # rls f t xs else rls f t xs)"
  by (simp add: rls_def)

lemma rls_Nil [simp]: "rls f t [] = []"
  by (simp add: rls_def)

lemma set_update_rows:
  "x \<in> set (update_rows f t p g rows) \<longleftrightarrow>
     (\<exists>r \<in> set rows. x = (if f r = t \<and> p r then g r else r))"
  unfolding update_rows_def set_map image_iff ..

lemma rls_update_other [tenant_simps]:
  assumes "t' \<noteq> t" and "\<And>r. f (g r) = f r"
  shows "rls f t' (update_rows f t p g rows) = rls f t' rows"
  using assms by (induction rows) (auto simp: update_rows_def)

lemma update_rows_keys:
  assumes "\<And>r. k (g r) = k r"
  shows "map k (update_rows f t p g rows) = map k rows"
  using assms by (auto simp: update_rows_def)

subsection \<open>Fresh identifiers\<close>

text \<open>All identifiers in use lie below the supply.\<close>

definition ids_below :: "db \<Rightarrow> bool" where
  "ids_below d \<longleftrightarrow>
     (\<forall>r \<in> set (entities d). en_id r < next_id d) \<and>
     (\<forall>r \<in> set (properties d). pp_id r < next_id d) \<and>
     (\<forall>r \<in> set (statements d). st_id r < next_id d) \<and>
     (\<forall>r \<in> set (statement_sources d). ss_id r < next_id d) \<and>
     (\<forall>r \<in> set (sources d). so_id r < next_id d)"

subsection \<open>Text columns\<close>

text \<open>Postgres takes valid UTF-8 without a NUL byte for a \<open>TEXT\<close> value and rejects any other.\<close>

definition pg_text_ok :: "string \<Rightarrow> bool" where
  "pg_text_ok s \<longleftrightarrow> list_all (\<lambda>c. byte c \<noteq> 0) s \<and> valid_utf8 s"

subsection \<open>Ordering and limits of a query\<close>

text \<open>\<open>ORDER BY key\<close>: a stable insertion sort (Postgres leaves the order of ties open; this is one
  of the orders it may return). \<open>ORDER BY key DESC\<close> negates the key.\<close>

definition order_by :: "('r \<Rightarrow> 'k :: linorder) \<Rightarrow> 'r list \<Rightarrow> 'r list" where
  "order_by key rows = sort_key key rows"

definition limit_rows :: "int \<Rightarrow> 'r list \<Rightarrow> 'r list" where
  "limit_rows n rows = take (nat n) rows"

lemma set_order_by [simp]: "set (order_by key rows) = set rows"
  by (simp add: order_by_def)

lemma set_limit_rows: "set (limit_rows n rows) \<subseteq> set rows"
  by (simp add: limit_rows_def set_take_subset)

lemma length_limit_rows: "length (limit_rows n rows) \<le> nat n"
  by (simp add: limit_rows_def)

lemma in_limit_order [dest]: "x \<in> set (limit_rows n (order_by key rows)) \<Longrightarrow> x \<in> set rows"
  using set_limit_rows by fastforce

text \<open>Taking the first rows of a sorted selection out of the selection leaves the rest of it.\<close>

lemma sorted_filter_rest:
  assumes S: "S = order_by key (filter P E)" and dist: "distinct S"
    and P': "\<And>e. e \<in> set E \<Longrightarrow> P' e \<longleftrightarrow> P e \<and> e \<notin> set (take n S)"
  shows "order_by key (filter P' E) = drop n S"
proof -
  let ?T = "set (take n S)"
  have "filter P' E = filter (\<lambda>e. e \<notin> ?T) (filter P E)" using P' by (auto intro: filter_cong)
  then have "order_by key (filter P' E) = filter (\<lambda>e. e \<notin> ?T) S"
    unfolding order_by_def by (simp only: filter_sort [symmetric] S order_by_def)
  also have "\<dots> = filter (\<lambda>e. e \<notin> ?T) (take n S @ drop n S)" by simp
  also have "\<dots> = drop n S"
    unfolding filter_append using set_take_disj_set_drop_if_distinct [OF dist, of n n]
    by (auto simp: filter_id_conv filter_empty_conv disjoint_iff simp del: append_take_drop_id)
  finally show ?thesis .
qed

subsection \<open>Confidence columns\<close>

text \<open>The cast of a \<open>float8\<close> to \<open>NUMERIC(4,3)\<close>: three decimals, ties away from zero. The check
  constraints of the schema keep the stored value between 0 and 1.\<close>

definition numeric43 :: "rat \<Rightarrow> rat" where
  "numeric43 x = (if x < 0 then - (of_int \<lfloor>- x * 1000 + 1 / 2\<rfloor> / 1000)
                  else of_int \<lfloor>x * 1000 + 1 / 2\<rfloor> / 1000)"

definition unit_numeric :: "rat \<Rightarrow> bool" where
  "unit_numeric x \<longleftrightarrow> 0 \<le> numeric43 x \<and> numeric43 x \<le> 1"

lemma numeric43_nonneg: "0 \<le> x \<Longrightarrow> 0 \<le> numeric43 x"
  by (simp add: numeric43_def)

lemma numeric43_mono: "x \<le> y \<Longrightarrow> numeric43 x \<le> numeric43 y"
proof -
  assume le: "x \<le> y"
  consider "x < 0" "0 \<le> y" | "x < 0" "y < 0" | "0 \<le> x" "0 \<le> y" using le by linarith
  then show ?thesis
  proof cases
    case 1
    then have "numeric43 x \<le> 0" by (simp add: numeric43_def)
    with 1 show ?thesis using numeric43_nonneg [of y] by linarith
  qed (use le in \<open>simp_all add: numeric43_def divide_right_mono floor_mono\<close>)
qed

lemma numeric43_thousandths: "numeric43 (of_nat n / 1000) = of_nat n / 1000"
proof -
  have "\<lfloor>(of_nat n + 1 / 2 :: rat)\<rfloor> = int n" by (rule floor_unique) simp_all
  then show ?thesis by (simp add: numeric43_def)
qed

subsection \<open>What one tenant can see\<close>

record tenant_view =
  v_entities :: "entity_row list"
  v_properties :: "property_row list"
  v_statements :: "statement_row list"
  v_statement_sources :: "statement_source_row list"
  v_sources :: "source_row list"
  v_verifications :: "verification_row list"
  v_proposals :: "proposal_row list"
  v_qualifiers :: "qualifier_row list"
  v_relations :: "relation_row list"
  v_dossiers :: "dossier_row list"
  v_briefs :: "brief_row list"

definition view :: "uuid \<Rightarrow> db \<Rightarrow> tenant_view" where
  "view t d = \<lparr>v_entities = rls en_tenant t (entities d),
     v_properties = rls_properties t (properties d),
     v_statements = rls st_tenant t (statements d),
     v_statement_sources = rls ss_tenant t (statement_sources d),
     v_sources = rls so_tenant t (sources d),
     v_verifications = rls sv_tenant t (verifications d),
     v_proposals = rls pq_tenant t (proposals d),
     v_qualifiers = rls_qualifiers (rls st_tenant t (statements d)) (qualifiers d),
     v_relations = rls re_tenant t (relations d),
     v_dossiers = rls do_tenant t (dossiers d),
     v_briefs = rls br_tenant t (briefs d)\<rparr>"

text \<open>
  The contract every database operation of a worker meets: run for one tenant, it leaves what any
  other tenant sees as it was. An operation that fails returns no database: its transaction is rolled
  back and the caller keeps the old one.
\<close>

locale tenant_op =
  fixes op :: "uuid \<Rightarrow> 'x \<Rightarrow> db \<Rightarrow> 'e + db"
  assumes other_tenants: "op t x d = Inr d' \<Longrightarrow> t' \<noteq> t \<Longrightarrow> view t' d' = view t' d"
begin

fun run_ops :: "(uuid \<times> 'x) list \<Rightarrow> db \<Rightarrow> db" where
  "run_ops [] d = d"
| "run_ops ((t, x) # ops) d = run_ops ops (case op t x d of Inl _ \<Rightarrow> d | Inr d' \<Rightarrow> d')"

lemma run_ops_isolated: "t' \<notin> fst ` set ops \<Longrightarrow> view t' (run_ops ops d) = view t' d"
proof (induction ops arbitrary: d)
  case Nil
  then show ?case by simp
next
  case (Cons a ops)
  obtain t x where a: "a = (t, x)" by (cases a)
  let ?d = "case op t x d of Inl _ \<Rightarrow> d | Inr d' \<Rightarrow> d'"
  have "view t' ?d = view t' d"
    using Cons.prems other_tenants [of t x d] by (auto simp: a split: sum.split)
  with Cons show ?case by (simp add: a)
qed

end

text \<open>An invariant of the stored data that an operation keeps, whatever its input.\<close>

locale keeps =
  fixes op :: "uuid \<Rightarrow> 'x \<Rightarrow> db \<Rightarrow> 'e + db" and inv :: "db \<Rightarrow> bool"
  assumes step: "inv d \<Longrightarrow> op t x d = Inr d' \<Longrightarrow> inv d'"
begin

fun run :: "(uuid \<times> 'x) list \<Rightarrow> db \<Rightarrow> db" where
  "run [] d = d"
| "run ((t, x) # ops) d = run ops (case op t x d of Inl _ \<Rightarrow> d | Inr d' \<Rightarrow> d')"

lemma run_keeps: "inv d \<Longrightarrow> inv (run ops d)"
proof (induction ops arbitrary: d)
  case (Cons a ops)
  obtain t x where a: "a = (t, x)" by (cases a)
  have "inv (case op t x d of Inl _ \<Rightarrow> d | Inr d' \<Rightarrow> d')"
    using Cons.prems step [of d t x] by (auto split: sum.split)
  with Cons.IH show ?case by (simp add: a)
qed simp

end

end
