(* ===== verification/Corroborate.thy ===== *)
theory Corroborate
  imports Database
begin

text \<open>
  Cross-source corroboration: the confidence formula of \<open>internal/assembler/confidence.go\<close> and the
  worker of \<open>internal/workers/corroborate.go\<close> that clusters the evidence of each statement into
  independent sources and writes the recomputed confidence. Confidences are \<open>float64\<close> values that
  the code only compares and copies, so they are rationals; the similarity quotient is compared with
  0.85 exactly (rounding a quotient of two set sizes cannot cross that constant for sets below
  \<open>2^48\<close> elements). \<open>net/url\<close> parsing is the argument \<open>hostname\<close>: the host of a URL, or \<open>None\<close>
  where \<open>url.Parse\<close> fails.
\<close>

subsection \<open>The confidence formula\<close>

definition oneSourceCeiling :: rat where "oneSourceCeiling = 1 / 2"
definition twoSourceCeiling :: rat where "twoSourceCeiling = 17 / 20"
definition multiSourceCeiling :: rat where "multiSourceCeiling = 19 / 20"

lemmas ceiling_defs = oneSourceCeiling_def twoSourceCeiling_def multiSourceCeiling_def

definition corroborationCeiling :: "int \<Rightarrow> rat" where
  "corroborationCeiling independentSourceCount =
     (if independentSourceCount \<le> 1 then oneSourceCeiling
      else if independentSourceCount = 2 then twoSourceCeiling
      else multiSourceCeiling)"

fun max_loop :: "rat \<Rightarrow> rat list \<Rightarrow> rat" where
  "max_loop m [] = m"
| "max_loop m (c # cs) = max_loop (if c > m then c else m) cs"

definition ComputeConfidence :: "int \<Rightarrow> rat list \<Rightarrow> rat" where
  "ComputeConfidence independentSourceCount sourceConfidences =
     (let ceiling = corroborationCeiling independentSourceCount;
          perSourceMax = (case sourceConfidences of [] \<Rightarrow> multiSourceCeiling
                          | c # cs \<Rightarrow> max_loop c cs)
      in if perSourceMax < ceiling then perSourceMax else ceiling)"

lemma max_loop_eq: "max_loop m cs = Max (set (m # cs))"
proof (induction cs arbitrary: m)
  case (Cons c cs)
  have "Max (set ((if c > m then c else m) # cs)) = Max (set (m # c # cs))"
    by (cases "cs = []") (auto simp: max_def)
  with Cons show ?case by simp
qed simp

lemma if_less_min: "(if a < b then a else b) = min b (a :: 'a :: linorder)"
  by (auto simp: min_def)

lemma ComputeConfidence_eq:
  "ComputeConfidence n cs =
     min (corroborationCeiling n) (if cs = [] then multiSourceCeiling else Max (set cs))"
proof (cases cs)
  case Nil
  then show ?thesis by (simp add: ComputeConfidence_def Let_def if_less_min)
next
  case (Cons c es)
  show ?thesis
    unfolding ComputeConfidence_def Let_def Cons list.case max_loop_eq if_less_min by simp
qed

lemma corroborationCeiling_mono: "m \<le> n \<Longrightarrow> corroborationCeiling m \<le> corroborationCeiling n"
  by (auto simp: corroborationCeiling_def ceiling_defs)

lemma corroborationCeiling_bounds: "1 / 2 \<le> corroborationCeiling n" "corroborationCeiling n \<le> 19 / 20"
  by (auto simp: corroborationCeiling_def ceiling_defs)

text \<open>C14. The formula: the best source confidence, capped by the ceiling of the number of independent
  sources. No number of sources lifts it above 0.95, and neither a further source nor a further
  independent voice ever lowers it.\<close>

theorem ComputeConfidence_spec:
  "ComputeConfidence n cs =
     min (corroborationCeiling n) (if cs = [] then 19 / 20 else Max (set cs))
   \<and> ComputeConfidence n cs \<le> 19 / 20
   \<and> ComputeConfidence n (c # cs) \<le> ComputeConfidence (n + 1) (c # cs @ ds)"
proof (intro conjI)
  show "ComputeConfidence n cs = min (corroborationCeiling n) (if cs = [] then 19 / 20 else Max (set cs))"
    by (simp add: ComputeConfidence_eq multiSourceCeiling_def)
  show "ComputeConfidence n cs \<le> 19 / 20"
    unfolding ComputeConfidence_eq using corroborationCeiling_bounds(2) [of n]
    by (rule min.coboundedI1)
  have "Max (set (c # cs)) \<le> Max (set (c # cs @ ds))" by (intro Max_mono) auto
  with corroborationCeiling_mono [of n "n + 1"]
  show "ComputeConfidence n (c # cs) \<le> ComputeConfidence (n + 1) (c # cs @ ds)"
    unfolding ComputeConfidence_eq by (simp only: list.distinct if_False) (rule min.mono, simp_all)
qed

subsection \<open>Trigram similarity\<close>

text \<open>The set of three-rune strings of the padded text, without duplicates.\<close>

fun trigram_windows :: "rune list \<Rightarrow> string list" where
  "trigram_windows (a # b # c # rs) =
     concat (map encode_rune [a, b, c]) # trigram_windows (b # c # rs)"
| "trigram_windows _ = []"

definition trigrams :: "string \<Rightarrow> string list" where
  "trigrams s = remdups (trigram_windows (runes (''  '' @ s @ ''  '')))"

definition trigramSimilarity :: "string \<Rightarrow> string \<Rightarrow> rat" where
  "trigramSimilarity a b =
     (let aSet = trigrams a; bSet = trigrams b
      in if length aSet = 0 \<and> length bSet = 0 then 1
         else of_nat (2 * length (filter (\<lambda>tri. tri \<in> set bSet) aSet))
              / of_nat (length aSet + length bSet))"

lemma trigramSimilarity_refl [simp]: "trigramSimilarity a a = 1"
  by (simp add: trigramSimilarity_def Let_def flip: mult_2)

lemma trigramSimilarity_commute: "trigramSimilarity a b = trigramSimilarity b a"
proof -
  have "length (filter (\<lambda>t. t \<in> set (trigrams b)) (trigrams a)) = card (set (trigrams a) \<inter> set (trigrams b))" for a b
    by (subst distinct_card [symmetric]) (auto simp: trigrams_def intro: arg_cong [where f = card])
  then show ?thesis by (simp add: trigramSimilarity_def Let_def Int_commute add.commute)
qed

subsection \<open>Independent sources\<close>

record sourceEvidence =
  ev_StatementID :: uuid
  ev_SourceID :: string
  ev_URL :: string
  ev_Publisher :: string
  ev_RawText :: string
  ev_Confidence :: rat

record sourceCluster =
  cl_domain :: string
  cl_texts :: "string list"

definition evidenceDomain :: "unicode_tables \<Rightarrow> (string \<Rightarrow> string option) \<Rightarrow> sourceEvidence \<Rightarrow> string" where
  "evidenceDomain U hostname ev =
     (if ev_Publisher ev \<noteq> [] then to_lower U (trim_space (ev_Publisher ev))
      else (case hostname (ev_URL ev) of
              None \<Rightarrow> []
            | Some h \<Rightarrow> to_lower U (trim_prefix ''www.'' h)))"

definition canonicalText :: "unicode_tables \<Rightarrow> string \<Rightarrow> string" where
  "canonicalText U text = join '' '' (take 200 (str_fields (to_lower U text)))"

text \<open>The scan over the clusters: the first one of the same domain that holds a similar text takes the
  new text; \<open>None\<close> when no cluster matches.\<close>

fun match_cluster :: "string \<Rightarrow> string \<Rightarrow> sourceCluster list \<Rightarrow> sourceCluster list option" where
  "match_cluster domain textKey [] = None"
| "match_cluster domain textKey (c # cs) =
     (if cl_domain c = domain \<and> (\<exists>existing \<in> set (cl_texts c). trigramSimilarity existing textKey \<ge> 17 / 20)
      then Some (c\<lparr>cl_texts := cl_texts c @ [textKey]\<rparr> # cs)
      else map_option (Cons c) (match_cluster domain textKey cs))"

fun cluster_loop :: "unicode_tables \<Rightarrow> (string \<Rightarrow> string option) \<Rightarrow> sourceEvidence list \<Rightarrow>
    sourceCluster list \<Rightarrow> sourceCluster list" where
  "cluster_loop U hostname [] clusters = clusters"
| "cluster_loop U hostname (ev # evs) clusters =
     (let d0 = evidenceDomain U hostname ev;
          domain = (if d0 = [] then ev_SourceID ev else d0);
          textKey = canonicalText U (ev_RawText ev)
      in cluster_loop U hostname evs
           (case match_cluster domain textKey clusters of
              Some clusters' \<Rightarrow> clusters'
            | None \<Rightarrow> clusters @ [\<lparr>cl_domain = domain, cl_texts = [textKey]\<rparr>]))"

definition CountIndependentSources ::
    "unicode_tables \<Rightarrow> (string \<Rightarrow> string option) \<Rightarrow> sourceEvidence list \<Rightarrow> int" where
  "CountIndependentSources U hostname evidence = int (length (cluster_loop U hostname evidence []))"

text \<open>The outlet an item of evidence is filed under.\<close>

definition outlet :: "unicode_tables \<Rightarrow> (string \<Rightarrow> string option) \<Rightarrow> sourceEvidence \<Rightarrow> string" where
  "outlet U hostname ev =
     (if evidenceDomain U hostname ev = [] then ev_SourceID ev else evidenceDomain U hostname ev)"

lemma match_cluster_None:
  "match_cluster d k cs = None \<longleftrightarrow>
     (\<forall>c \<in> set cs. cl_domain c = d \<longrightarrow> (\<forall>e \<in> set (cl_texts c). trigramSimilarity e k < 17 / 20))"
  by (induction cs) (auto simp: not_le not_less)

lemma match_cluster_Some:
  "match_cluster d k cs = Some cs' \<Longrightarrow>
     map cl_domain cs' = map cl_domain cs \<and> d \<in> set (map cl_domain cs)
     \<and> (\<forall>c \<in> set cs. \<exists>c' \<in> set cs'. cl_domain c' = cl_domain c \<and> set (cl_texts c) \<subseteq> set (cl_texts c'))
     \<and> (\<exists>c' \<in> set cs'. cl_domain c' = d \<and> k \<in> set (cl_texts c'))"
proof (induction cs arbitrary: cs')
  case (Cons c cs)
  show ?case
  proof (cases "cl_domain c = d \<and> (\<exists>e \<in> set (cl_texts c). trigramSimilarity e k \<ge> 17 / 20)")
    case True
    with Cons.prems show ?thesis by auto
  next
    case False
    with Cons.prems obtain cs1 where "match_cluster d k cs = Some cs1" "cs' = c # cs1" by auto
    with Cons.IH [of cs1] show ?thesis by auto
  qed
qed simp

lemma cluster_loop_append:
  "cluster_loop U h (es @ fs) cs = cluster_loop U h fs (cluster_loop U h es cs)"
  by (induction es arbitrary: cs) (auto simp: Let_def)

lemma cluster_step:
  "cluster_loop U h [e] cs =
     (case match_cluster (outlet U h e) (canonicalText U (ev_RawText e)) cs of
        Some cs' \<Rightarrow> cs'
      | None \<Rightarrow> cs @ [\<lparr>cl_domain = outlet U h e, cl_texts = [canonicalText U (ev_RawText e)]\<rparr>])"
  by (cases "evidenceDomain U h e = []") (simp_all add: Let_def outlet_def split: option.split)

text \<open>Every item of evidence is on file in a cluster of its outlet; the clusters' domains are the
  outlets seen.\<close>

lemma cluster_loop_files:
  "(\<forall>e \<in> set es. \<exists>c \<in> set (cluster_loop U h es []). cl_domain c = outlet U h e
        \<and> canonicalText U (ev_RawText e) \<in> set (cl_texts c))
   \<and> cl_domain ` set (cluster_loop U h es []) = outlet U h ` set es
   \<and> length (cluster_loop U h es []) \<le> length es"
proof (induction es rule: rev_induct)
  case (snoc e es)
  let ?cs = "cluster_loop U h es []" and ?k = "canonicalText U (ev_RawText e)"
  have step: "cluster_loop U h (es @ [e]) [] =
      (case match_cluster (outlet U h e) ?k ?cs of Some cs' \<Rightarrow> cs'
       | None \<Rightarrow> ?cs @ [\<lparr>cl_domain = outlet U h e, cl_texts = [?k]\<rparr>])"
    by (simp only: cluster_loop_append cluster_step)
  show ?case
  proof (cases "match_cluster (outlet U h e) ?k ?cs")
    case None
    with snoc step show ?thesis by auto
  next
    case (Some cs')
    note m = match_cluster_Some [OF Some]
    then have "cl_domain ` set cs' = cl_domain ` set ?cs" "length cs' = length ?cs"
      by (metis list.set_map, metis length_map)
    with m snoc step Some show ?thesis
      by (auto simp del: cluster_loop.simps) (metis subsetD)+
  qed
qed simp

text \<open>A copy of an article by the same outlet is no new voice: evidence of an outlet and canonical
  text already on file leaves the number of independent sources as it was.\<close>

theorem republished_copy_not_counted:
  assumes "e \<in> set evs"
    and "outlet U h e' = outlet U h e"
    and "canonicalText U (ev_RawText e') = canonicalText U (ev_RawText e)"
  shows "CountIndependentSources U h (evs @ [e']) = CountIndependentSources U h evs"
proof -
  let ?cs = "cluster_loop U h evs []" and ?k = "canonicalText U (ev_RawText e')"
  obtain c where c: "c \<in> set ?cs" "cl_domain c = outlet U h e'" "?k \<in> set (cl_texts c)"
    using cluster_loop_files [of evs U h] assms by auto
  have "match_cluster (outlet U h e') ?k ?cs \<noteq> None"
    using c by (auto simp: match_cluster_None intro!: bexI [of _ c] bexI [of _ ?k])
  then obtain cs' where cs': "match_cluster (outlet U h e') ?k ?cs = Some cs'" by blast
  then have "length cs' = length ?cs"
    using match_cluster_Some [OF cs'] by (metis length_map)
  then show ?thesis
    by (simp add: CountIndependentSources_def cluster_loop_append cluster_step cs' del: cluster_loop.simps)
qed

definition wire_copy :: "string \<Rightarrow> string \<Rightarrow> sourceEvidence" where
  "wire_copy sid publisher = \<lparr>ev_StatementID = 1, ev_SourceID = sid, ev_URL = ''u'',
     ev_Publisher = publisher, ev_RawText = ''a b'', ev_Confidence = 1 / 2\<rparr>"

theorem republished_copy_not_counted_witness:
  "CountIndependentSources ascii_tables (\<lambda>_. None) ([wire_copy ''s1'' ''AP''] @ [wire_copy ''s2'' ''AP''])
   = CountIndependentSources ascii_tables (\<lambda>_. None) [wire_copy ''s1'' ''AP'']"
proof (rule republished_copy_not_counted [where e = "wire_copy ''s1'' ''AP''"])
  have "to_lower ascii_tables (trim_space ''AP'') = ''ap''" by code_simp
  then show "outlet ascii_tables (\<lambda>_. None) (wire_copy ''s2'' ''AP'')
      = outlet ascii_tables (\<lambda>_. None) (wire_copy ''s1'' ''AP'')"
    by (simp add: wire_copy_def outlet_def evidenceDomain_def)
qed (simp_all add: wire_copy_def)

text \<open>Evidence never raises the count past the number of items, and every distinct outlet counts:
  two outlets carrying the very same text are two independent sources, because texts are compared
  inside one outlet only. The documentation promises the opposite for wire copy under another
  masthead.\<close>

theorem distinct_outlets_all_counted:
  "int (card (outlet U h ` set evs)) \<le> CountIndependentSources U h evs
   \<and> CountIndependentSources U h evs \<le> int (length evs)
   \<and> (outlet U h e \<noteq> outlet U h e' \<longrightarrow> CountIndependentSources U h [e, e'] = 2)"
proof -
  have c: "card (outlet U h ` set es) \<le> length (cluster_loop U h es [])
      \<and> length (cluster_loop U h es []) \<le> length es" for es
    using cluster_loop_files [of es U h] by (metis card_image_le card_length finite_set le_trans)
  moreover have "card (outlet U h ` set [e, e']) = 2" if "outlet U h e \<noteq> outlet U h e'"
    using that by simp
  ultimately show ?thesis
    using c [of evs] c [of "[e, e']"] by (auto simp: CountIndependentSources_def simp del: cluster_loop.simps)
qed

theorem distinct_outlets_all_counted_witness:
  "CountIndependentSources ascii_tables (\<lambda>_. None) [wire_copy ''s1'' ''AP'', wire_copy ''s2'' ''BBC''] = 2"
proof -
  have "outlet ascii_tables (\<lambda>_. None) (wire_copy ''s1'' ''AP'')
      \<noteq> outlet ascii_tables (\<lambda>_. None) (wire_copy ''s2'' ''BBC'')"
    unfolding wire_copy_def by code_simp
  then show ?thesis using distinct_outlets_all_counted by blast
qed

subsection \<open>The worker\<close>

definition left_chars :: "nat \<Rightarrow> string \<Rightarrow> string" where
  "left_chars n s = concat (take n (chunks s))"

text \<open>The evidence query: \<open>statement_sources\<close> joined with \<open>sources\<close>, ordered by statement and source,
  limited to 1000 rows.\<close>

definition evidence_join :: "pg_env \<Rightarrow> uuid \<Rightarrow> db \<Rightarrow> (statement_source_row \<times> source_row) list" where
  "evidence_join pg t d =
     concat (map (\<lambda>ss. map (Pair ss) (filter (\<lambda>s. so_id s = ss_source ss) (rls so_tenant t (sources d))))
       (rls ss_tenant t (statement_sources d)))"

definition evidence_window :: "pg_env \<Rightarrow> uuid \<Rightarrow> db \<Rightarrow> sourceEvidence list" where
  "evidence_window pg t d =
     map (\<lambda>(ss, s). \<lparr>ev_StatementID = ss_statement ss, ev_SourceID = uuid_text pg (ss_source ss),
            ev_URL = so_url s,
            ev_Publisher = (case so_publisher s of None \<Rightarrow> [] | Some p \<Rightarrow> p),
            ev_RawText = left_chars 32768 (case so_raw_text s of None \<Rightarrow> [] | Some x \<Rightarrow> x),
            ev_Confidence = (case ss_confidence ss of None \<Rightarrow> 1 / 2 | Some c \<Rightarrow> c)\<rparr>)
       (limit_rows 1000 (order_by (ss_statement \<circ> fst) (order_by (ss_source \<circ> fst) (evidence_join pg t d))))"

definition statement_confidence ::
    "unicode_tables \<Rightarrow> (string \<Rightarrow> string option) \<Rightarrow> sourceEvidence list \<Rightarrow> uuid \<Rightarrow> rat" where
  "statement_confidence U hostname evs sid =
     (let evidence = filter (\<lambda>ev. ev_StatementID ev = sid) evs
      in ComputeConfidence (CountIndependentSources U hostname evidence) (map ev_Confidence evidence))"

text \<open>\<open>UPDATE statements SET confidence = $1 WHERE id = $2\<close>, under the range check of the column.\<close>

definition set_confidence :: "uuid \<Rightarrow> uuid \<Rightarrow> rat \<Rightarrow> db \<Rightarrow> db result" where
  "set_confidence t sid c d =
     (if (\<exists>r \<in> set (statements d). st_tenant r = t \<and> st_id r = sid) \<and> (numeric43 c < 0 \<or> 1 < numeric43 c)
      then Err ''violates check constraint statements_confidence_check''
      else Ok (d\<lparr>statements := update_rows st_tenant t (\<lambda>r. st_id r = sid)
                   (\<lambda>r. r\<lparr>st_confidence := numeric43 c\<rparr>) (statements d)\<rparr>))"

definition corroborate_tx ::
    "unicode_tables \<Rightarrow> (string \<Rightarrow> string option) \<Rightarrow> pg_env \<Rightarrow> uuid \<Rightarrow> db \<Rightarrow> db result" where
  "corroborate_tx U hostname pg t d =
     (let evs = evidence_window pg t d
      in fold_res (\<lambda>sid. set_confidence t sid (statement_confidence U hostname evs sid))
           (remdups (map ev_StatementID evs)) d)"

definition CorroborateOnce ::
    "unicode_tables \<Rightarrow> (string \<Rightarrow> string option) \<Rightarrow> pg_env \<Rightarrow> string \<Rightarrow> db \<Rightarrow> db result" where
  "CorroborateOnce U hostname pg tenantID d =
     (if tenantID = [] then Err ''tenant id required''
      else (case scan_uuid pg tenantID of
              None \<Rightarrow> Err ''invalid tenant id''
            | Some t \<Rightarrow> corroborate_tx U hostname pg t d))"

lemma numeric43_le: "x \<le> 19 / 20 \<Longrightarrow> numeric43 x \<le> 19 / 20"
  using numeric43_mono [of x "19 / 20"] numeric43_thousandths [of 950] by simp

lemma length_evidence_window: "length (evidence_window pg t d) \<le> 1000"
  using length_limit_rows [of 1000] by (simp add: evidence_window_def)

lemma set_confidence_Inr:
  "set_confidence t a c d = Inr d1 \<Longrightarrow>
     d1 = d\<lparr>statements := update_rows st_tenant t (\<lambda>r. st_id r = a)
            (\<lambda>r. r\<lparr>st_confidence := numeric43 c\<rparr>) (statements d)\<rparr>"
  by (simp add: set_confidence_def split: if_splits)

lemma statement_rows_updated: "statements (d\<lparr>statements := rs\<rparr>) = rs"
  by simp

lemma set_confidences_result:
  "fold_res (\<lambda>sid. set_confidence t sid (c sid)) sids d = Inr d' \<Longrightarrow>
     d' = d\<lparr>statements := map (\<lambda>r. if st_tenant r = t \<and> st_id r \<in> set sids
                    then r\<lparr>st_confidence := numeric43 (c (st_id r))\<rparr> else r) (statements d)\<rparr>"
proof (induction sids arbitrary: d)
  case Nil
  then show ?case by simp
next
  case (Cons a sids)
  let ?d = "d\<lparr>statements := update_rows st_tenant t (\<lambda>r. st_id r = a)
                   (\<lambda>r. r\<lparr>st_confidence := numeric43 (c a)\<rparr>) (statements d)\<rparr>"
  from Cons.prems have run: "fold_res (\<lambda>sid. set_confidence t sid (c sid)) sids ?d = Inr d'"
    by (auto dest: set_confidence_Inr split: sum.splits)
  let ?f = "\<lambda>r. if st_tenant r = t \<and> st_id r \<in> set sids
      then r\<lparr>st_confidence := numeric43 (c (st_id r))\<rparr> else r"
  let ?g = "\<lambda>r. if st_tenant r = t \<and> st_id r = a then r\<lparr>st_confidence := numeric43 (c a)\<rparr> else r"
  from Cons.IH [OF run] have "d' = d\<lparr>statements := map (?f \<circ> ?g) (statements d)\<rparr>"
    by (simp add: update_rows_def)
  also have "?f \<circ> ?g = (\<lambda>r. if st_tenant r = t \<and> st_id r \<in> set (a # sids)
              then r\<lparr>st_confidence := numeric43 (c (st_id r))\<rparr> else r)"
    by (rule ext) auto
  finally show ?case .
qed

lemma set_confidences_ok:
  assumes "\<forall>r \<in> set (statements d). st_tenant r = t \<and> st_id r \<in> set sids \<longrightarrow>
              0 \<le> numeric43 (c (st_id r)) \<and> numeric43 (c (st_id r)) \<le> 1"
  shows "is_ok (fold_res (\<lambda>sid. set_confidence t sid (c sid)) sids d)"
  using assms
proof (induction sids arbitrary: d)
  case (Cons a sids)
  let ?d = "d\<lparr>statements := update_rows st_tenant t (\<lambda>r. st_id r = a)
                   (\<lambda>r. r\<lparr>st_confidence := numeric43 (c a)\<rparr>) (statements d)\<rparr>"
  have "set_confidence t a (c a) d = Inr ?d"
    using Cons.prems by (auto simp: set_confidence_def)
  moreover have "is_ok (fold_res (\<lambda>sid. set_confidence t sid (c sid)) sids ?d)"
  proof (rule Cons.IH, intro ballI impI)
    fix r assume r: "r \<in> set (statements ?d)" "st_tenant r = t \<and> st_id r \<in> set sids"
    obtain r0 where r0: "r0 \<in> set (statements d)" "r = (if st_tenant r0 = t \<and> st_id r0 = a
          then r0\<lparr>st_confidence := numeric43 (c a)\<rparr> else r0)"
      using r(1) unfolding set_update_rows statement_rows_updated by blast
    have "st_tenant r = st_tenant r0" "st_id r = st_id r0"
      unfolding r0(2) by simp_all
    with Cons.prems r(2) r0(1) show "0 \<le> numeric43 (c (st_id r)) \<and> numeric43 (c (st_id r)) \<le> 1" by auto
  qed
  ultimately show ?case by simp
qed simp

lemma set_confidences_range:
  assumes "fold_res (\<lambda>sid. set_confidence t sid (c sid)) sids d = Inr d'"
    and "r \<in> set (statements d)" "st_tenant r = t" "st_id r \<in> set sids"
  shows "0 \<le> numeric43 (c (st_id r)) \<and> numeric43 (c (st_id r)) \<le> 1"
  using assms
proof (induction sids arbitrary: d r)
  case (Cons a sids)
  from Cons.prems(1) obtain d1 where d1: "set_confidence t a (c a) d = Inr d1"
    "fold_res (\<lambda>sid. set_confidence t sid (c sid)) sids d1 = Inr d'"
    by (auto split: sum.splits)
  show ?case
  proof (cases "st_id r = a")
    case True
    with d1(1) Cons.prems(2,3) show ?thesis
      by (auto simp: set_confidence_def split: if_splits)
  next
    case False
    with d1(1) Cons.prems(2) have "r \<in> set (statements d1)"
      by (auto simp: set_confidence_def set_update_rows split: if_splits)
    with Cons.IH [OF d1(2)] Cons.prems False show ?thesis by auto
  qed
qed simp

lemma corroborate_tx_result:
  assumes "corroborate_tx U h pg t d = Inr d'"
  shows "d' = d\<lparr>statements := map (\<lambda>r. if st_tenant r = t
                      \<and> st_id r \<in> ev_StatementID ` set (evidence_window pg t d)
                    then r\<lparr>st_confidence := numeric43 (statement_confidence U h (evidence_window pg t d) (st_id r))\<rparr>
                    else r) (statements d)\<rparr>"
  using set_confidences_result [of t "statement_confidence U h (evidence_window pg t d)"] assms
  by (force simp: corroborate_tx_def Let_def)

interpretation corroborate_op: tenant_op "\<lambda>t (_ :: unit) d. corroborate_tx U h pg t d" for U h pg
proof unfold_locales
  fix t t' d d'
  assume "corroborate_tx U h pg t d = Inr d'" "t' \<noteq> t"
  moreover have "rls st_tenant t' (map (\<lambda>r. if st_tenant r = t \<and> P r then f r else r) rows) = rls st_tenant t' rows"
    if "\<And>r. st_tenant (f r) = st_tenant r" "t' \<noteq> t" for P f and rows :: "statement_row list"
    using that by (induction rows) auto
  ultimately show "view t' d' = view t' d"
    by (auto dest!: corroborate_tx_result simp: view_def)
qed

text \<open>C15. One run recomputes from scratch: afterwards every statement of the tenant with evidence in
  the window has the rounded formula value of that evidence, at most 0.95, every other row of the
  database is as it was, and running again changes nothing.\<close>

theorem corroborate_recomputes:
  assumes "CorroborateOnce U h pg tenantID d = Inr d'"
  shows "\<exists>t. scan_uuid pg tenantID = Some t \<and>
     (let evs = evidence_window pg t d in
        d' = d\<lparr>statements := map (\<lambda>r. if st_tenant r = t \<and> st_id r \<in> ev_StatementID ` set evs
                 then r\<lparr>st_confidence := numeric43 (statement_confidence U h evs (st_id r))\<rparr> else r)
                 (statements d)\<rparr>)
     \<and> (\<forall>sid. numeric43 (statement_confidence U h (evidence_window pg t d) sid) \<le> 19 / 20)
     \<and> CorroborateOnce U h pg tenantID d' = Inr d'"
proof -
  from assms obtain t where t: "tenantID \<noteq> []" "scan_uuid pg tenantID = Some t"
    and tx: "corroborate_tx U h pg t d = Inr d'"
    by (auto simp: CorroborateOnce_def split: if_splits option.splits)
  note d' = corroborate_tx_result [OF tx]
  have evs: "evidence_window pg t d' = evidence_window pg t d"
    by (subst d') (simp add: evidence_window_def evidence_join_def)
  let ?c = "statement_confidence U h (evidence_window pg t d)"
  have ok: "is_ok (corroborate_tx U h pg t d')"
    unfolding corroborate_tx_def Let_def evs
  proof (rule set_confidences_ok, intro ballI impI)
    fix r assume r: "r \<in> set (statements d')"
      "st_tenant r = t \<and> st_id r \<in> set (remdups (map ev_StatementID (evidence_window pg t d)))"
    then have "\<exists>r0 \<in> set (statements d). st_tenant r0 = t \<and> st_id r0 = st_id r"
      by (subst (asm) d') (auto split: if_splits)
    then show "0 \<le> numeric43 (?c (st_id r)) \<and> numeric43 (?c (st_id r)) \<le> 1"
      using tx r(2) by (auto simp: corroborate_tx_def Let_def dest: set_confidences_range)
  qed
  then obtain d2 where d2: "corroborate_tx U h pg t d' = Inr d2" by (cases "corroborate_tx U h pg t d'") auto
  let ?f = "\<lambda>r. if st_tenant r = t \<and> st_id r \<in> ev_StatementID ` set (evidence_window pg t d)
      then r\<lparr>st_confidence := numeric43 (?c (st_id r))\<rparr> else r"
  have st: "statements d' = map ?f (statements d)"
    using arg_cong [OF d', of statements] by simp
  have "d2 = d'\<lparr>statements := map ?f (statements d')\<rparr>"
    using corroborate_tx_result [OF d2] unfolding evs .
  also have "map ?f (statements d') = statements d'"
    unfolding st by simp
  finally have "d2 = d'" by simp
  moreover have "numeric43 (?c sid) \<le> 19 / 20" for sid
    using ComputeConfidence_spec unfolding statement_confidence_def Let_def by (intro numeric43_le) blast
  ultimately show ?thesis
    using t d2 d' unfolding Let_def CorroborateOnce_def by simp
qed

definition one_statement :: db where
  "one_statement = empty_db\<lparr>
     statements := [\<lparr>st_id = 1, st_tenant = 1, st_subject = 1, st_property = 1, st_val_entity = None,
        st_val_text = Some ''x'', st_val_number = None, st_val_date = None, st_val_json = None,
        st_rank = ''normal'', st_confidence = 0, st_embedding = None, st_created = 0\<rparr>],
     statement_sources := [\<lparr>ss_id = 2, ss_statement = 1, ss_source = 3, ss_excerpt = ''x'', ss_start = 0,
        ss_end = 1, ss_method = ''llm'', ss_extracted_at = 0, ss_confidence = Some (3 / 5), ss_tenant = 1\<rparr>],
     sources := [\<lparr>so_id = 3, so_tenant = 1, so_url = ''u'', so_fetched_at = 0, so_content_hash = ''h'',
        so_raw_html = None, so_raw_text = Some ''x'', so_archive_url = None, so_publisher = Some ''p'',
        so_title = None, so_published_at = None, so_embedding = None, so_last_verified_at = None,
        so_status = ''archived'', so_created = 0, so_meta = []\<rparr>], next_id := 4\<rparr>"

theorem corroborate_recomputes_witness:
  "\<exists>d'. CorroborateOnce ascii_tables (\<lambda>_. None) sample_pg ''t'' d' = Inr d'
     \<and> map st_confidence (statements d') = [1 / 2]"
proof -
  have "(case CorroborateOnce ascii_tables (\<lambda>_. None) sample_pg ''t'' one_statement of
           Inl e \<Rightarrow> False | Inr d' \<Rightarrow> map st_confidence (statements d') = [1 / 2])"
    by code_simp
  then obtain d' where d': "CorroborateOnce ascii_tables (\<lambda>_. None) sample_pg ''t'' one_statement = Inr d'"
    and c: "map st_confidence (statements d') = [1 / 2]"
    by (cases "CorroborateOnce ascii_tables (\<lambda>_. None) sample_pg ''t'' one_statement") simp_all
  from corroborate_recomputes [OF d'] have "CorroborateOnce ascii_tables (\<lambda>_. None) sample_pg ''t'' d' = Inr d'"
    by blast
  with c show ?thesis by (intro exI [of _ d'] conjI)
qed

end
