(* ===== verification/FactPipeline.thy ===== *)
theory FactPipeline
  imports Excerpt Vocabulary Database
begin

text \<open>
  \<open>internal/workers/extract.go\<close>: the fact pipeline. \<open>ExtractOnce\<close> reads the archived sources of a
  tenant, runs the deterministic extractors and the language model on each text, and writes what
  survives the excerpt check: an entity per subject, a property per slug, a statement and one
  evidence row, in one transaction per source. The extractors are arguments here (the deterministic
  ones are modelled in their own theory), as is \<open>H\<close>, the SHA-256 digest.
\<close>

subsection \<open>Configuration\<close>

record FactPipeline =
  fp_Deterministic :: "(source_row \<Rightarrow> string \<Rightarrow> ExtractedFact list result) option"
  fp_LLM :: "(source_row \<Rightarrow> string \<Rightarrow> StatementProposal list result) option"
  fp_LLMProvider :: string
  CostGuardrailThreshold :: int
  ConfirmCost :: bool
  VocabularyMode :: Mode

definition vocabularyMode :: "FactPipeline \<Rightarrow> Mode" where
  "vocabularyMode p = (if VocabularyMode p = [] then ModeStrict else VocabularyMode p)"

text \<open>\<open>costGuardrail\<close>; \<open>confirm_env\<close> is whether \<open>FACTVAULT_CONFIRM_COST\<close> is \<open>1\<close>.\<close>

definition costGuardrail :: "unicode_tables \<Rightarrow> bool \<Rightarrow> FactPipeline \<Rightarrow> int \<Rightarrow> unit result" where
  "costGuardrail U confirm_env p batch =
     (case fp_LLM p of
        None \<Rightarrow> Ok ()
      | Some _ \<Rightarrow>
        (let provider = to_lower U (trim_space (fp_LLMProvider p))
         in if provider \<in> {[], ''local'', ''ollama''} then Ok ()
            else if provider \<notin> {''anthropic'', ''openai''} then Ok ()
            else
              (let threshold = (if CostGuardrailThreshold p = 0 then 1000 else CostGuardrailThreshold p)
               in if threshold < 100 \<or> threshold > 10000 then Err ''invalid cost guardrail threshold''
                  else if ConfirmCost p \<or> confirm_env then Ok ()
                  else if batch > threshold then Err ''cost guardrail blocked''
                  else Ok ())))"

definition normalizeValueType :: "unicode_tables \<Rightarrow> string \<Rightarrow> string" where
  "normalizeValueType U valueType =
     (let v = to_lower U (trim_space valueType)
      in if v \<in> {''entity_ref'', ''string'', ''number'', ''date'', ''url''} then v else ''string'')"

definition hex_digit :: "nat \<Rightarrow> char" where
  "hex_digit n = ''0123456789abcdef'' ! n"

definition hex_encode :: "string \<Rightarrow> string" where
  "hex_encode s = concat (map (\<lambda>c. [hex_digit (nat (byte c) div 16), hex_digit (nat (byte c) mod 16)]) s)"

definition entityExtIDForLabel :: "unicode_tables \<Rightarrow> (string \<Rightarrow> string) \<Rightarrow> string \<Rightarrow> string" where
  "entityExtIDForLabel U H label =
     ''extract:subject:'' @ hex_encode (take 16 (H (trim_space (to_lower U label))))"

subsection \<open>Entities and properties\<close>

text \<open>\<open>INSERT ... ON CONFLICT ON CONSTRAINT uq_entities_tenant_ext_id DO NOTHING RETURNING id\<close>, then
  the fallback \<open>SELECT\<close> by \<open>ext_id\<close>.\<close>

definition ensureEntity ::
    "unicode_tables \<Rightarrow> (string \<Rightarrow> string) \<Rightarrow> uuid \<Rightarrow> string \<Rightarrow> db \<Rightarrow> (uuid \<times> db) result" where
  "ensureEntity U H t label0 d =
     (let label = (if label0 = [] then ''unknown subject'' else label0);
          extID = entityExtIDForLabel U H label;
          i = next_id d;
          d1 = d\<lparr>next_id := Suc i\<rparr>
      in if \<not> pg_text_ok label then Err ''invalid byte sequence for encoding''
         else (case filter (\<lambda>e. en_ext_id e = Some extID) (rls en_tenant t (entities d)) of
                 e # _ \<Rightarrow> Ok (en_id e, d1)
               | [] \<Rightarrow> Ok (i, d1\<lparr>entities := entities d @
                    [\<lparr>en_id = i, en_tenant = t, en_ext_id = Some extID, en_label = label,
                      en_type_uri = None, en_description = None, en_embedding = None,
                      en_meta = ''{}'', en_created = now d, en_updated = now d\<rparr>]\<rparr>)))"

text \<open>\<open>SELECT id FROM properties WHERE slug = $1 AND (tenant_id = $2 OR tenant_id IS NULL)
  ORDER BY tenant_id NULLS LAST LIMIT 1\<close>.\<close>

definition find_property :: "uuid \<Rightarrow> string \<Rightarrow> db \<Rightarrow> uuid option" where
  "find_property t slug d =
     (let rows = filter (\<lambda>p. pp_slug p = slug) (rls_properties t (properties d))
      in case filter (\<lambda>p. pp_tenant p \<noteq> None) rows @ filter (\<lambda>p. pp_tenant p = None) rows of
           [] \<Rightarrow> None
         | p # _ \<Rightarrow> Some (pp_id p))"

text \<open>The result is the property's identifier (\<open>None\<close> where the Go function returns
  \<open>shouldWrite = false\<close>) and the value type.\<close>

definition ensureProperty ::
    "unicode_tables \<Rightarrow> FactPipeline \<Rightarrow> uuid \<Rightarrow> uuid \<Rightarrow> ExtractedFact \<Rightarrow> db
       \<Rightarrow> (uuid option \<times> string \<times> db) result" where
  "ensureProperty U p t sourceID fct d =
     (let result = Resolve U (NewResolver U (vocabularyMode p)) (PropertySlug fct) (ValueType fct) (Excerpt fct);
          slug = pr_Slug (res_Property result);
          valueType = normalizeValueType U (pr_ValueType (res_Property result));
          i = next_id d;
          d1 = d\<lparr>next_id := Suc i\<rparr>
      in if valueType = [] then Err ''unsupported property value type''
         else if \<not> pg_text_ok slug then Err ''invalid byte sequence for encoding''
         else (case find_property t slug d of
             Some pid \<Rightarrow> Ok (Some pid, valueType, d)
           | None \<Rightarrow>
             if \<not> Known result \<and> vocabularyMode p = ModeStrict
             then (if \<not> pg_text_ok (Excerpt fct) then Err ''invalid byte sequence for encoding''
                   else if list_ex (\<lambda>q. pq_slug q = slug \<and> pq_status q = ''pending'') (rls pq_tenant t (proposals d))
                   then Ok (None, valueType, d1)
                   else if \<not> list_ex (\<lambda>s. so_id s = sourceID) (rls so_tenant t (sources d))
                   then Err ''violates foreign key constraint fk_proposed_properties_source_tenant''
                   else Ok (None, valueType, d1\<lparr>proposals := proposals d @
                     [\<lparr>pq_id = i, pq_tenant = t, pq_slug = slug, pq_value_type = valueType,
                       pq_by = ''extract:strict'', pq_excerpt = Some (Excerpt fct),
                       pq_source = Some sourceID, pq_status = ''pending'', pq_reviewed_by = None,
                       pq_reviewed_at = None, pq_created = now d\<rparr>]\<rparr>))
             else
               (let label = (if \<not> Known result then slug else pr_Label (res_Property result))
                in if \<not> pg_text_ok label then Err ''invalid byte sequence for encoding''
                   else if list_ex (\<lambda>q. pp_slug q = slug \<and> pp_tenant q = Some t) (properties d)
                   then (case find_property t slug d1 of
                           None \<Rightarrow> Err ''no rows in result set''
                         | Some pid \<Rightarrow> Ok (Some pid, valueType, d1))
                   else Ok (Some i, valueType, d1\<lparr>properties := properties d @
                     [\<lparr>pp_id = i, pp_tenant = Some t, pp_slug = slug, pp_label = label,
                       pp_value_type = valueType, pp_description = None\<rparr>]\<rparr>))))"

subsection \<open>Statements\<close>

text \<open>The value columns of \<open>insertStatementQuery\<close>: the value type picks the column and the cast.\<close>

definition value_columns ::
    "pg_env \<Rightarrow> string \<Rightarrow> string \<Rightarrow> (uuid option \<times> string option \<times> string option \<times> int option) result" where
  "value_columns pg valueType val =
     (if \<not> pg_text_ok val then Err ''invalid byte sequence for encoding''
      else if valueType = ''number'' then
        (case pg_numeric pg val of None \<Rightarrow> Err ''invalid input syntax for type numeric''
         | Some n \<Rightarrow> Ok (None, None, Some n, None))
      else if valueType = ''date'' then
        (case pg_timestamptz pg val of None \<Rightarrow> Err ''invalid input syntax for type timestamp''
         | Some n \<Rightarrow> Ok (None, None, None, Some n))
      else if valueType = ''entity_ref'' then
        (case scan_uuid pg val of None \<Rightarrow> Err ''invalid input syntax for type uuid''
         | Some e \<Rightarrow> Ok (Some e, None, None, None))
      else Ok (None, Some val, None, None))"

definition same_statement ::
    "uuid \<Rightarrow> uuid \<Rightarrow> uuid option \<times> string option \<times> string option \<times> int option \<Rightarrow> statement_row \<Rightarrow> bool" where
  "same_statement subj pid0 v s \<longleftrightarrow> st_subject s = subj \<and> st_property s = pid0
     \<and> (st_val_entity s, st_val_text s, st_val_number s, st_val_date s) = v"

text \<open>The statement that \<open>insertStatementQuery\<close> builds, run against the table: a duplicate of the
  unique key \<open>uq_statements_content_hash\<close> returns no row.\<close>

definition insertStatement ::
    "pg_env \<Rightarrow> uuid \<Rightarrow> uuid \<Rightarrow> uuid \<Rightarrow> uuid \<Rightarrow> string \<Rightarrow> string \<Rightarrow> rat \<Rightarrow> db \<Rightarrow> (uuid option \<times> db) result" where
  "insertStatement pg statementID t subjectID propertyID valueType val confidence d =
     (if \<not> unit_numeric confidence then Err ''violates check constraint statements_confidence_check''
      else rbind (value_columns pg valueType val) (\<lambda>(ve, vt, vn, vd).
        if list_ex (same_statement subjectID propertyID (ve, vt, vn, vd)) (rls st_tenant t (statements d))
        then Ok (None, d)
        else if \<not> list_ex (\<lambda>e. en_id e = subjectID) (rls en_tenant t (entities d))
        then Err ''violates foreign key constraint fk_statements_subject_tenant''
        else if ve \<noteq> None \<and> \<not> list_ex (\<lambda>e. Some (en_id e) = ve) (rls en_tenant t (entities d))
        then Err ''violates foreign key constraint fk_statements_val_entity_tenant''
        else if \<not> list_ex (\<lambda>q. pp_id q = propertyID) (rls_properties t (properties d))
        then Err ''property does not exist''
        else Ok (Some statementID, d\<lparr>statements := statements d @
          [\<lparr>st_id = statementID, st_tenant = t, st_subject = subjectID, st_property = propertyID,
            st_val_entity = ve, st_val_text = vt, st_val_number = vn, st_val_date = vd,
            st_val_json = None, st_rank = ''normal'', st_confidence = numeric43 confidence,
            st_embedding = None, st_created = now d\<rparr>]\<rparr>)))"

text \<open>The \<open>INSERT INTO statement_sources\<close> of \<open>insertFact\<close> with the constraints of its table.\<close>

definition insert_evidence ::
    "uuid \<Rightarrow> uuid \<Rightarrow> uuid \<Rightarrow> uuid \<Rightarrow> ExtractedFact \<Rightarrow> rat \<Rightarrow> db \<Rightarrow> db result" where
  "insert_evidence rowID t statementID sourceID fct confidence d =
     (if \<not> pg_text_ok (Excerpt fct) \<or> \<not> pg_text_ok (ExtractionMethod fct)
      then Err ''invalid byte sequence for encoding''
      else if ExcerptOffsetEnd fct > 2147483647 then Err ''integer out of range''
      else if ExcerptOffsetStart fct < 0 \<or> ExcerptOffsetEnd fct \<le> ExcerptOffsetStart fct
      then Err ''violates check constraint''
      else if list_ex (\<lambda>r. ss_statement r = statementID \<and> ss_source r = sourceID) (statement_sources d)
      then Err ''duplicate key value violates unique constraint uq_statement_sources_stmt_src''
      else if \<not> list_ex (\<lambda>s. so_id s = sourceID) (rls so_tenant t (sources d))
      then Err ''violates foreign key constraint fk_statement_sources_source_tenant''
      else Ok (d\<lparr>statement_sources := statement_sources d @
        [\<lparr>ss_id = rowID, ss_statement = statementID, ss_source = sourceID, ss_excerpt = Excerpt fct,
          ss_start = ExcerptOffsetStart fct, ss_end = ExcerptOffsetEnd fct,
          ss_method = ExtractionMethod fct, ss_extracted_at = now d,
          ss_confidence = Some (numeric43 confidence), ss_tenant = t\<rparr>]\<rparr>))"

definition insertFact ::
    "unicode_tables \<Rightarrow> (string \<Rightarrow> string) \<Rightarrow> pg_env \<Rightarrow> FactPipeline \<Rightarrow> uuid \<Rightarrow> uuid \<Rightarrow> ExtractedFact \<Rightarrow> db
       \<Rightarrow> (bool \<times> db) result" where
  "insertFact U H pg p t sourceID fct d =
     rbind (ensureEntity U H t (SubjectText fct) d) (\<lambda>(subjectID, d1).
     rbind (ensureProperty U p t sourceID fct d1) (\<lambda>(pid0, valueType, d2).
       (case pid0 of
          None \<Rightarrow> Ok (False, d2)
        | Some propertyID \<Rightarrow>
          (let statementID = next_id d2;
               confidence = (case SourceConfidence fct of None \<Rightarrow> 1 / 2 | Some c \<Rightarrow> c)
           in rbind (insertStatement pg statementID t subjectID propertyID valueType (FactValue fct)
                       confidence (d2\<lparr>next_id := Suc statementID\<rparr>)) (\<lambda>(inserted, d3).
              (case inserted of
                 None \<Rightarrow> Ok (False, d3)
               | Some insertedID \<Rightarrow>
                 rbind (insert_evidence (next_id d3) t insertedID sourceID fct confidence
                          (d3\<lparr>next_id := Suc (next_id d3)\<rparr>)) (\<lambda>d4. Ok (True, d4))))))))"

subsection \<open>One source\<close>

fun write_loop ::
    "unicode_tables \<Rightarrow> (string \<Rightarrow> string) \<Rightarrow> pg_env \<Rightarrow> FactPipeline \<Rightarrow> uuid \<Rightarrow> uuid \<Rightarrow> string
       \<Rightarrow> ExtractedFact list \<Rightarrow> nat \<times> db \<Rightarrow> (nat \<times> db) result" where
  "write_loop U H pg p t sourceID rawText [] st = Ok st"
| "write_loop U H pg p t sourceID rawText (fct # rest) (acceptedFacts, d) =
     (if \<not> VerifyExcerptOffset rawText (Excerpt fct) (ExcerptOffsetStart fct) (ExcerptOffsetEnd fct)
      then write_loop U H pg p t sourceID rawText rest (acceptedFacts, d)
      else rbind (insertFact U H pg p t sourceID fct d) (\<lambda>(inserted, d1).
             write_loop U H pg p t sourceID rawText rest
               (if inserted then acceptedFacts + 1 else acceptedFacts, d1)))"

definition writeExtractedFacts ::
    "unicode_tables \<Rightarrow> (string \<Rightarrow> string) \<Rightarrow> pg_env \<Rightarrow> FactPipeline \<Rightarrow> uuid \<Rightarrow> source_row \<Rightarrow> string
       \<Rightarrow> ExtractedFact list \<Rightarrow> db \<Rightarrow> db result" where
  "writeExtractedFacts U H pg p t source rawText facts d =
     (if facts = [] then Ok d
      else rbind (write_loop U H pg p t (so_id source) rawText facts (0, d)) (\<lambda>(acceptedFacts, d1).
        Ok (if acceptedFacts > 0
            then d1\<lparr>sources := update_rows so_tenant t (\<lambda>s. so_id s = so_id source)
                      (\<lambda>s. s\<lparr>so_status := ''extracted''\<rparr>) (sources d1)\<rparr>
            else d1)))"

definition proposal_fact :: "StatementProposal \<Rightarrow> ExtractedFact" where
  "proposal_fact proposal = \<lparr>SubjectText = sp_SubjectText proposal, PropertySlug = sp_PropertySlug proposal,
     FactValue = sp_Value proposal, ValueType = sp_ValueType proposal, Excerpt = sp_Excerpt proposal,
     ExcerptOffsetStart = sp_ExcerptOffsetStart proposal, ExcerptOffsetEnd = sp_ExcerptOffsetEnd proposal,
     ExtractionMethod = ''llm:v1:covered-span'', SourceConfidence = None\<rparr>"

definition extractFacts ::
    "(source_row \<Rightarrow> string \<Rightarrow> ExtractedFact list result) \<Rightarrow> FactPipeline \<Rightarrow> source_row \<Rightarrow> string
       \<Rightarrow> ExtractedFact list result" where
  "extractFacts NewRunner p source rawText =
     rbind ((case fp_Deterministic p of None \<Rightarrow> NewRunner | Some r \<Rightarrow> r) source rawText) (\<lambda>facts.
       (case fp_LLM p of
          None \<Rightarrow> Ok facts
        | Some llm \<Rightarrow> rbind (llm source rawText) (\<lambda>proposals.
            Ok (facts @ map proposal_fact (FilterVerifiedStatementProposals rawText proposals)))))"

definition loadArchivedSources :: "uuid \<Rightarrow> int \<Rightarrow> db \<Rightarrow> source_row list" where
  "loadArchivedSources t batch d =
     limit_rows batch (order_by so_fetched_at
       (filter (\<lambda>s. so_raw_text s \<noteq> None \<and> so_status s = ''archived'') (rls so_tenant t (sources d))))"

text \<open>The body of the loop over the loaded sources.\<close>

definition extract_source ::
    "unicode_tables \<Rightarrow> (string \<Rightarrow> string) \<Rightarrow> pg_env \<Rightarrow> (source_row \<Rightarrow> string \<Rightarrow> ExtractedFact list result)
       \<Rightarrow> FactPipeline \<Rightarrow> uuid \<Rightarrow> source_row \<Rightarrow> db \<Rightarrow> db result" where
  "extract_source U H pg NewRunner p t source d =
     (case so_raw_text source of
        None \<Rightarrow> Ok d
      | Some rawText \<Rightarrow>
        if rawText = [] then Ok d
        else rbind (extractFacts NewRunner p source rawText) (\<lambda>facts.
               writeExtractedFacts U H pg p t source rawText facts d))"

definition ExtractOnce ::
    "unicode_tables \<Rightarrow> (string \<Rightarrow> string) \<Rightarrow> pg_env \<Rightarrow> (source_row \<Rightarrow> string \<Rightarrow> ExtractedFact list result)
       \<Rightarrow> bool \<Rightarrow> FactPipeline \<Rightarrow> string \<Rightarrow> int \<Rightarrow> db \<Rightarrow> db \<times> string option" where
  "ExtractOnce U H pg NewRunner confirm_env p tenantID batch0 d =
     (if tenantID = [] then (d, Some ''tenant id required'')
      else
        (let batch = (if batch0 \<le> 0 then 100 else batch0)
         in case costGuardrail U confirm_env p batch of
              Inl e \<Rightarrow> (d, Some e)
            | Inr _ \<Rightarrow>
              (case scan_uuid pg tenantID of
                 None \<Rightarrow> (d, Some ''invalid tenant id'')
               | Some t \<Rightarrow>
                 commit_each (extract_source U H pg NewRunner p t) (loadArchivedSources t batch d) d)))"

subsection \<open>Writing facts only appends rows of the tenant\<close>

definition appends :: "uuid \<Rightarrow> db \<Rightarrow> db \<Rightarrow> bool" where
  "appends t d d' \<longleftrightarrow>
     (\<exists>es. entities d' = entities d @ es \<and> list_all (\<lambda>e. en_tenant e = t) es) \<and>
     (\<exists>ps. properties d' = properties d @ ps \<and> list_all (\<lambda>p. pp_tenant p = Some t) ps) \<and>
     (\<exists>ss. statements d' = statements d @ ss \<and> list_all (\<lambda>s. st_tenant s = t) ss) \<and>
     (\<exists>ev. statement_sources d' = statement_sources d @ ev \<and> list_all (\<lambda>r. ss_tenant r = t) ev) \<and>
     (\<exists>qs. proposals d' = proposals d @ qs \<and> list_all (\<lambda>q. pq_tenant q = t) qs) \<and>
     sources d' = sources d \<and> verifications d' = verifications d \<and> relations d' = relations d \<and>
     qualifiers d' = qualifiers d \<and> dossiers d' = dossiers d \<and> briefs d' = briefs d \<and> now d' = now d \<and> next_id d \<le> next_id d'"

lemma appends_refl [simp]: "appends t d d"
  by (simp add: appends_def)

lemma appends_trans [trans]: "appends t d d' \<Longrightarrow> appends t d' d'' \<Longrightarrow> appends t d d''"
  unfolding appends_def by fastforce

lemma appends_next_id [simp]: "appends t d (d\<lparr>next_id := Suc (next_id d)\<rparr>)"
  by (simp add: appends_def)

lemma rls_none: "list_all (\<lambda>r. f r = t) rs \<Longrightarrow> t' \<noteq> t \<Longrightarrow> rls f t' rs = []"
  by (induction rs) auto

lemma rls_properties_none:
  "list_all (\<lambda>p. pp_tenant p = Some t) ps \<Longrightarrow> t' \<noteq> t \<Longrightarrow> rls_properties t' (qs @ ps) = rls_properties t' qs"
  by (induction ps) (auto simp: rls_properties_def)

lemma appends_view: "appends t d d' \<Longrightarrow> t' \<noteq> t \<Longrightarrow> view t' d' = view t' d"
  unfolding appends_def view_def by (auto simp: rls_none rls_properties_none)

lemma ensureEntity_appends: "ensureEntity U H t l d = Inr (i, d') \<Longrightarrow> appends t d d'"
  by (auto simp: ensureEntity_def Let_def appends_def split: if_splits list.splits)

lemma ensureProperty_appends: "ensureProperty U p t sid fct d = Inr (i, v, d') \<Longrightarrow> appends t d d'"
  unfolding ensureProperty_def Let_def
  by (auto simp: appends_def split: if_splits option.splits)

lemma insertStatement_appends: "insertStatement pg i t s p v x c d = Inr (r, d') \<Longrightarrow> appends t d d'"
  by (auto simp: insertStatement_def rbind_Inr_iff appends_def split: if_splits)

lemma insert_evidence_appends: "insert_evidence i t s src fct c d = Inr d' \<Longrightarrow> appends t d d'"
  by (auto simp: insert_evidence_def appends_def split: if_splits)

lemma ensureEntity_statements:
  "ensureEntity U H t l d = Inr (i, d') \<Longrightarrow>
     statements d' = statements d \<and> statement_sources d' = statement_sources d"
  by (auto simp: ensureEntity_def Let_def split: if_splits list.splits)

lemma ensureProperty_statements:
  "ensureProperty U p t sid fct d = Inr (i, v, d') \<Longrightarrow>
     statements d' = statements d \<and> statement_sources d' = statement_sources d"
  unfolding ensureProperty_def Let_def by (auto split: if_splits option.splits)

lemma insertStatement_cases:
  assumes "insertStatement pg i t subj pid0 vt x c d = Inr (r, d')"
  obtains "r = None" "d' = d"
  | st where "r = Some i" "d' = d\<lparr>statements := statements d @ [st]\<rparr>" "st_id st = i" "st_tenant st = t"
      "st_subject st = subj" "st_property st = pid0" "st_confidence st = numeric43 c" "unit_numeric c"
  using assms by (auto simp: insertStatement_def rbind_Inr_iff split: if_splits)

lemma insert_evidence_cases:
  assumes "insert_evidence i t s src fct c d = Inr d'"
  obtains r where "d' = d\<lparr>statement_sources := statement_sources d @ [r]\<rparr>" "ss_tenant r = t"
    "ss_statement r = s" "ss_source r = src" "ss_excerpt r = Excerpt fct"
    "ss_start r = ExcerptOffsetStart fct" "ss_end r = ExcerptOffsetEnd fct"
    "ss_confidence r = Some (numeric43 c)" "ss_method r = ExtractionMethod fct"
  using assms by (auto simp: insert_evidence_def split: if_splits)

text \<open>What a successful \<open>insertFact\<close> did: nothing to the statements, or one new statement with its one
  evidence row, under a fresh identifier.\<close>

definition fact_written :: "uuid \<Rightarrow> uuid \<Rightarrow> ExtractedFact \<Rightarrow> db \<Rightarrow> db \<Rightarrow> bool" where
  "fact_written t sourceID fct d d' \<longleftrightarrow> (\<exists>st r.
     statements d' = statements d @ [st] \<and> statement_sources d' = statement_sources d @ [r]
     \<and> st_tenant st = t \<and> next_id d \<le> st_id st \<and> st_id st < next_id d'
     \<and> ss_tenant r = t \<and> ss_statement r = st_id st \<and> ss_source r = sourceID
     \<and> ss_excerpt r = Excerpt fct \<and> ss_start r = ExcerptOffsetStart fct \<and> ss_end r = ExcerptOffsetEnd fct
     \<and> ss_confidence r = Some (st_confidence st))"

definition fact_confidence :: "ExtractedFact \<Rightarrow> rat" where
  "fact_confidence fct = (case SourceConfidence fct of None \<Rightarrow> 1 / 2 | Some c \<Rightarrow> c)"

lemma insertFact_stages:
  assumes run: "insertFact U H pg p t sid fct d = Inr (b, d')"
  obtains (held) subj d1 vt where "ensureEntity U H t (SubjectText fct) d = Inr (subj, d1)"
      "ensureProperty U p t sid fct d1 = Inr (None, vt, d')" "\<not> b"
  | (on_file) subj d1 pid vt d2 where "ensureEntity U H t (SubjectText fct) d = Inr (subj, d1)"
      "ensureProperty U p t sid fct d1 = Inr (Some pid, vt, d2)" "\<not> b"
      "insertStatement pg (next_id d2) t subj pid vt (FactValue fct) (fact_confidence fct)
         (d2\<lparr>next_id := Suc (next_id d2)\<rparr>) = Inr (None, d')"
  | (inserted) subj d1 pid vt d2 i d3 where "ensureEntity U H t (SubjectText fct) d = Inr (subj, d1)"
      "ensureProperty U p t sid fct d1 = Inr (Some pid, vt, d2)" b
      "insertStatement pg (next_id d2) t subj pid vt (FactValue fct) (fact_confidence fct)
         (d2\<lparr>next_id := Suc (next_id d2)\<rparr>) = Inr (Some i, d3)"
      "insert_evidence (next_id d3) t i sid fct (fact_confidence fct) (d3\<lparr>next_id := Suc (next_id d3)\<rparr>) = Inr d'"
proof -
  from run obtain subj d1 pid0 vt d2 where
    e: "ensureEntity U H t (SubjectText fct) d = Inr (subj, d1)" and
    q: "ensureProperty U p t sid fct d1 = Inr (pid0, vt, d2)" and
    rest: "(case pid0 of None \<Rightarrow> Inr (False, d2)
        | Some propertyID \<Rightarrow>
          (let statementID = next_id d2;
               confidence = (case SourceConfidence fct of None \<Rightarrow> 1 / 2 | Some c \<Rightarrow> c)
           in rbind (insertStatement pg statementID t subj propertyID vt (FactValue fct)
                       confidence (d2\<lparr>next_id := Suc statementID\<rparr>)) (\<lambda>(inserted, d3).
              (case inserted of
                 None \<Rightarrow> Inr (False, d3)
               | Some insertedID \<Rightarrow>
                 rbind (insert_evidence (next_id d3) t insertedID sid fct confidence
                          (d3\<lparr>next_id := Suc (next_id d3)\<rparr>)) (\<lambda>d4. Inr (True, d4)))))) = Inr (b, d')"
    unfolding insertFact_def by (force simp: rbind_Inr_iff)
  note rest = rest [unfolded Let_def, folded fact_confidence_def]
  show thesis
  proof (cases pid0)
    case None
    with rest q held [OF e] show thesis by simp
  next
    case (Some pid)
    with rest obtain ins d3 where
      s: "insertStatement pg (next_id d2) t subj pid vt (FactValue fct) (fact_confidence fct)
            (d2\<lparr>next_id := Suc (next_id d2)\<rparr>) = Inr (ins, d3)" and
      rest': "(case ins of None \<Rightarrow> Inr (False, d3)
          | Some insertedID \<Rightarrow> rbind (insert_evidence (next_id d3) t insertedID sid fct (fact_confidence fct)
              (d3\<lparr>next_id := Suc (next_id d3)\<rparr>)) (\<lambda>d4. Inr (True, d4))) = Inr (b, d')"
      by (auto simp: rbind_Inr_iff)
    with q Some on_file [OF e] inserted [OF e] show thesis
      by (cases ins) (auto simp: rbind_Inr_iff)
  qed
qed

lemma insertFact_cases:
  assumes run: "insertFact U H pg p t sid fct d = Inr (b, d')"
  shows "appends t d d'"
    and "b \<Longrightarrow> fact_written t sid fct d d'"
    and "\<not> b \<Longrightarrow> statements d' = statements d \<and> statement_sources d' = statement_sources d"
proof -
  have pre: "appends t d d2 \<and> statements d2 = statements d \<and> statement_sources d2 = statement_sources d
      \<and> next_id d \<le> next_id d2"
    if "ensureEntity U H t (SubjectText fct) d = Inr (subj, d1)" "ensureProperty U p t sid fct d1 = Inr (q, vt, d2)"
    for subj d1 q vt d2
    using appends_trans [OF ensureEntity_appends [OF that(1)] ensureProperty_appends [OF that(2)]]
      ensureEntity_statements [OF that(1)] ensureProperty_statements [OF that(2)] by (simp add: appends_def)
  from run have "appends t d d' \<and> (b \<longrightarrow> fact_written t sid fct d d')
      \<and> (\<not> b \<longrightarrow> statements d' = statements d \<and> statement_sources d' = statement_sources d)"
  proof (cases rule: insertFact_stages)
    case (held subj d1 vt)
    with pre show ?thesis by blast
  next
    case (on_file subj d1 pid vt d2)
    with pre [OF on_file(1,2)] show ?thesis
      by (auto elim!: insertStatement_cases intro: appends_trans [OF _ appends_next_id])
  next
    case (inserted subj d1 pid vt d2 i d3)
    note p = pre [OF inserted(1,2)]
    have a2: "appends t d (d2\<lparr>next_id := Suc (next_id d2)\<rparr>)" using p appends_next_id appends_trans by blast
    have "appends t d d'"
      using appends_trans [OF appends_trans [OF appends_trans [OF a2 insertStatement_appends [OF inserted(4)]]
          appends_next_id] insert_evidence_appends [OF inserted(5)]] .
    with inserted(3,4,5) p show ?thesis
      by (elim insertStatement_cases insert_evidence_cases) (auto simp: fact_written_def)
  qed
  then show "appends t d d'" and "b \<Longrightarrow> fact_written t sid fct d d'"
    and "\<not> b \<Longrightarrow> statements d' = statements d \<and> statement_sources d' = statement_sources d"
    by blast+
qed

subsection \<open>The facts of one source\<close>

lemma write_loop_inv:
  assumes run: "write_loop U H pg p t sid rawText facts (n, d) = Inr (m, d')"
    and start: "P n d"
    and step: "\<And>fct n d b d'. VerifyExcerptOffset rawText (Excerpt fct) (ExcerptOffsetStart fct) (ExcerptOffsetEnd fct)
        \<Longrightarrow> P n d \<Longrightarrow> insertFact U H pg p t sid fct d = Inr (b, d') \<Longrightarrow> P (if b then n + 1 else n) d'"
  shows "P m d'"
  using run start
proof (induction facts arbitrary: n d)
  case (Cons fct facts)
  show ?case
  proof (cases "VerifyExcerptOffset rawText (Excerpt fct) (ExcerptOffsetStart fct) (ExcerptOffsetEnd fct)")
    case True
    with Cons.prems(1) obtain b d1 where ins: "insertFact U H pg p t sid fct d = Inr (b, d1)"
      and rest: "write_loop U H pg p t sid rawText facts (if b then n + 1 else n, d1) = Inr (m, d')"
      by (auto simp: rbind_Inr_iff)
    show ?thesis by (rule Cons.IH [OF rest step [OF True Cons.prems(2) ins]])
  next
    case False
    with Cons.prems Cons.IH show ?thesis by simp
  qed
qed simp

definition evidence_added :: "uuid \<Rightarrow> uuid \<Rightarrow> string \<Rightarrow> db \<Rightarrow> nat \<Rightarrow> db \<Rightarrow> bool" where
  "evidence_added t sid rawText d n d' \<longleftrightarrow> (\<exists>new.
     statement_sources d' = statement_sources d @ new \<and> length new = n
     \<and> length (statements d') = length (statements d) + n
     \<and> list_all (\<lambda>r. ss_source r = sid \<and> ss_tenant r = t
           \<and> VerifyExcerptOffset rawText (ss_excerpt r) (ss_start r) (ss_end r)) new)"

lemma write_loop_evidence:
  assumes "write_loop U H pg p t sid rawText facts (0, d) = Inr (m, d')"
  shows "appends t d d' \<and> evidence_added t sid rawText d m d'"
proof (rule write_loop_inv [OF assms])
  show "appends t d d \<and> evidence_added t sid rawText d 0 d" by (simp add: evidence_added_def)
next
  fix fct n d1 b d2
  assume v: "VerifyExcerptOffset rawText (Excerpt fct) (ExcerptOffsetStart fct) (ExcerptOffsetEnd fct)"
    and a: "appends t d d1 \<and> evidence_added t sid rawText d n d1"
    and ins: "insertFact U H pg p t sid fct d1 = Inr (b, d2)"
  have "appends t d d2" using a insertFact_cases(1) [OF ins] appends_trans by blast
  moreover have "evidence_added t sid rawText d (if b then n + 1 else n) d2"
  proof (cases b)
    case True
    obtain new where new: "statement_sources d1 = statement_sources d @ new" "length new = n"
      "length (statements d1) = length (statements d) + n"
      "list_all (\<lambda>r. ss_source r = sid \<and> ss_tenant r = t
           \<and> VerifyExcerptOffset rawText (ss_excerpt r) (ss_start r) (ss_end r)) new"
      using a by (auto simp: evidence_added_def)
    obtain st r where w: "statements d2 = statements d1 @ [st]" "statement_sources d2 = statement_sources d1 @ [r]"
      "ss_tenant r = t" "ss_source r = sid" "ss_excerpt r = Excerpt fct"
      "ss_start r = ExcerptOffsetStart fct" "ss_end r = ExcerptOffsetEnd fct"
      using insertFact_cases(2) [OF ins True] by (auto simp: fact_written_def)
    show ?thesis unfolding evidence_added_def
      by (rule exI [of _ "new @ [r]"]) (simp add: True new w v)
  next
    case False
    with a insertFact_cases(3) [OF ins False] show ?thesis by (simp add: evidence_added_def)
  qed
  ultimately show "appends t d d2 \<and> evidence_added t sid rawText d (if b then n + 1 else n) d2" ..
qed

text \<open>What it means that a statement row stands for a fact: its subject is the entity of the fact's
  label, its property one the tenant sees under the resolved slug, its value columns those of the
  fact's value.\<close>

definition resolved_fact :: "unicode_tables \<Rightarrow> FactPipeline \<Rightarrow> ExtractedFact \<Rightarrow> Result" where
  "resolved_fact U p fct =
     Resolve U (NewResolver U (vocabularyMode p)) (PropertySlug fct) (ValueType fct) (Excerpt fct)"

definition fact_ext_id :: "unicode_tables \<Rightarrow> (string \<Rightarrow> string) \<Rightarrow> ExtractedFact \<Rightarrow> string" where
  "fact_ext_id U H fct =
     entityExtIDForLabel U H (if SubjectText fct = [] then ''unknown subject'' else SubjectText fct)"

definition statement_key :: "statement_row \<Rightarrow> uuid \<times> uuid \<times> uuid option \<times> string option \<times> string option \<times> int option" where
  "statement_key s = (st_subject s, st_property s, st_val_entity s, st_val_text s, st_val_number s, st_val_date s)"

definition stands_for ::
    "unicode_tables \<Rightarrow> (string \<Rightarrow> string) \<Rightarrow> pg_env \<Rightarrow> FactPipeline \<Rightarrow> uuid \<Rightarrow> db \<Rightarrow> ExtractedFact \<Rightarrow> statement_row \<Rightarrow> bool" where
  "stands_for U H pg p t d fct st \<longleftrightarrow> st_tenant st = t
     \<and> list_ex (\<lambda>e. en_id e = st_subject st \<and> en_ext_id e = Some (fact_ext_id U H fct)) (rls en_tenant t (entities d))
     \<and> list_ex (\<lambda>q. pp_id q = st_property st \<and> pp_slug q = pr_Slug (res_Property (resolved_fact U p fct)))
         (rls_properties t (properties d))
     \<and> value_columns pg (normalizeValueType U (pr_ValueType (res_Property (resolved_fact U p fct)))) (FactValue fct)
         = Inr (st_val_entity st, st_val_text st, st_val_number st, st_val_date st)"

text \<open>The statement and the evidence row that writing a fact adds.\<close>

definition written_as :: "uuid \<Rightarrow> uuid \<Rightarrow> ExtractedFact \<Rightarrow> statement_row \<Rightarrow> statement_source_row \<Rightarrow> bool" where
  "written_as t sourceID fct st r \<longleftrightarrow> st_tenant st = t \<and> ss_tenant r = t
     \<and> ss_statement r = st_id st \<and> ss_source r = sourceID \<and> ss_excerpt r = Excerpt fct
     \<and> ss_start r = ExcerptOffsetStart fct \<and> ss_end r = ExcerptOffsetEnd fct \<and> ss_method r = ExtractionMethod fct
     \<and> st_confidence st = numeric43 (fact_confidence fct) \<and> ss_confidence r = Some (st_confidence st)"

text \<open>A fact that strict mode holds back: its slug is in neither the catalog nor the tenant's
  properties, and a proposal for it is pending.\<close>

definition held_back :: "unicode_tables \<Rightarrow> FactPipeline \<Rightarrow> uuid \<Rightarrow> db \<Rightarrow> db \<Rightarrow> ExtractedFact \<Rightarrow> bool" where
  "held_back U p t d d' fct \<longleftrightarrow> vocabularyMode p = ModeStrict \<and> \<not> Known (resolved_fact U p fct)
     \<and> find_property t (pr_Slug (res_Property (resolved_fact U p fct))) d = None
     \<and> list_ex (\<lambda>q. pq_slug q = pr_Slug (res_Property (resolved_fact U p fct)) \<and> pq_status q = ''pending'')
         (rls pq_tenant t (proposals d'))"

lemma find_property_None:
  "find_property t slug d = None \<longleftrightarrow> \<not> list_ex (\<lambda>q. pp_slug q = slug) (rls_properties t (properties d))"
proof -
  have "(case xs of [] \<Rightarrow> None | p # _ \<Rightarrow> Some (pp_id p)) = None \<longleftrightarrow> xs = []" for xs :: "property_row list"
    by (cases xs) simp_all
  then have "find_property t slug d = None \<longleftrightarrow> filter (\<lambda>p. pp_slug p = slug) (rls_properties t (properties d)) = []"
    unfolding find_property_def Let_def by (auto simp: filter_empty_conv)
  then show ?thesis by (simp add: list_ex_iff filter_empty_conv)
qed

lemma find_property_Some:
  assumes "find_property t slug d = Some i"
  shows "list_ex (\<lambda>q. pp_id q = i \<and> pp_slug q = slug) (rls_properties t (properties d))"
proof -
  let ?rows = "filter (\<lambda>p. pp_slug p = slug) (rls_properties t (properties d))"
  obtain q qs where "filter (\<lambda>p. pp_tenant p \<noteq> None) ?rows @ filter (\<lambda>p. pp_tenant p = None) ?rows = q # qs" "pp_id q = i"
    using assms by (auto simp: find_property_def Let_def split: list.splits)
  then have "q \<in> set ?rows" by (metis (no_types, lifting) Un_iff filter_is_subset list.set_intros(1) set_append subsetD)
  with \<open>pp_id q = i\<close> show ?thesis by (auto simp: list_ex_iff)
qed

lemma stands_for_appends: "appends t d d' \<Longrightarrow> stands_for U H pg p t d fct st \<Longrightarrow> stands_for U H pg p t d' fct st"
  by (auto simp: appends_def stands_for_def rls_properties_def)

lemma held_back_appends:
  "appends t d1 d' \<Longrightarrow> held_back U p t d d1 fct \<Longrightarrow> held_back U p t d d' fct"
  "appends t d d1 \<Longrightarrow> held_back U p t d1 d' fct \<Longrightarrow> held_back U p t d d' fct"
  by (auto simp: appends_def held_back_def find_property_None rls_properties_def)

lemma ensureEntity_stands:
  assumes "ensureEntity U H t (SubjectText fct) d = Inr (i, d')"
  shows "list_ex (\<lambda>e. en_id e = i \<and> en_ext_id e = Some (fact_ext_id U H fct)) (rls en_tenant t (entities d'))"
proof -
  let ?hit = "filter (\<lambda>e. en_ext_id e = Some (fact_ext_id U H fct)) (rls en_tenant t (entities d))"
  show ?thesis
  proof (cases ?hit)
    case Nil
    with assms show ?thesis
      by (auto simp: ensureEntity_def Let_def fact_ext_id_def split: if_splits)
  next
    case (Cons e es)
    then have "e \<in> set ?hit" by simp
    then have "e \<in> set (rls en_tenant t (entities d))" "en_ext_id e = Some (fact_ext_id U H fct)" by simp_all
    moreover have "i = en_id e" "entities d' = entities d"
      using assms Cons by (auto simp: ensureEntity_def Let_def fact_ext_id_def split: if_splits)
    ultimately show ?thesis by (auto simp: list_ex_iff)
  qed
qed

lemma ensureProperty_stands:
  assumes run: "ensureProperty U p t sid fct d = Inr (pid0, vt, d')"
  shows "vt = normalizeValueType U (pr_ValueType (res_Property (resolved_fact U p fct)))"
    and "pid0 = Some i \<Longrightarrow> list_ex (\<lambda>q. pp_id q = i \<and> pp_slug q = pr_Slug (res_Property (resolved_fact U p fct)))
           (rls_properties t (properties d'))"
    and "pid0 = None \<Longrightarrow> held_back U p t d d' fct"
proof -
  let ?slug = "pr_Slug (res_Property (resolved_fact U p fct))"
  note d = run [unfolded ensureProperty_def Let_def, folded resolved_fact_def]
  show "vt = normalizeValueType U (pr_ValueType (res_Property (resolved_fact U p fct)))"
    using d by (auto split: if_splits option.splits)
  show "list_ex (\<lambda>q. pp_id q = i \<and> pp_slug q = ?slug) (rls_properties t (properties d'))" if "pid0 = Some i"
  proof (cases "\<exists>e. find_property t ?slug e = Some i \<and> properties e = properties d'")
    case True
    then show ?thesis using find_property_Some by metis
  next
    case False
    with d that show ?thesis
      by (auto simp: rls_properties_def list_ex_iff split: if_splits option.splits)
  qed
  show "held_back U p t d d' fct" if "pid0 = None"
    using d that by (auto simp: held_back_def list_ex_iff split: if_splits option.splits)
qed

lemma insertStatement_exact:
  assumes "insertStatement pg i t subj pid0 vt v c d = Inr (r, d')"
  shows "\<exists>vc. value_columns pg vt v = Inr vc \<and>
     (case r of
        None \<Rightarrow> d' = d \<and> list_ex (same_statement subj pid0 vc) (rls st_tenant t (statements d))
      | Some j \<Rightarrow> j = i \<and> \<not> list_ex (same_statement subj pid0 vc) (rls st_tenant t (statements d))
         \<and> (\<exists>st. statements d' = statements d @ [st] \<and> d' = d\<lparr>statements := statements d'\<rparr> \<and> st_id st = i \<and> st_tenant st = t
              \<and> same_statement subj pid0 vc st \<and> st_confidence st = numeric43 c))"
  using assms by (auto simp: insertStatement_def rbind_Inr_iff same_statement_def split: if_splits)

lemma same_statement_key:
  "same_statement subj i v s \<Longrightarrow> same_statement subj i v s' \<longleftrightarrow> statement_key s' = statement_key s"
  by (auto simp: same_statement_def statement_key_def)

text \<open>One fact that passed the check is written, is on file already, or is held back.\<close>

lemma insertFact_exact:
  assumes run: "insertFact U H pg p t sid fct d = Inr (b, d')"
  shows "if b then \<exists>st r. statements d' = statements d @ [st] \<and> statement_sources d' = statement_sources d @ [r]
       \<and> written_as t sid fct st r \<and> stands_for U H pg p t d' fct st \<and> next_id d \<le> st_id st \<and> st_id st < next_id d'
       \<and> statement_key st \<notin> statement_key ` set (rls st_tenant t (statements d))
     else statements d' = statements d \<and> statement_sources d' = statement_sources d
       \<and> (list_ex (stands_for U H pg p t d' fct) (statements d') \<or> held_back U p t d d' fct)"
proof -
  have pre: "statements d2 = statements d \<and> statement_sources d2 = statement_sources d \<and> next_id d \<le> next_id d2
      \<and> (\<forall>vc st. value_columns pg vt (FactValue fct) = Inr vc \<longrightarrow> same_statement subj pid vc st \<longrightarrow> st_tenant st = t
            \<longrightarrow> stands_for U H pg p t d2 fct st)"
    if e: "ensureEntity U H t (SubjectText fct) d = Inr (subj, d1)"
      and q: "ensureProperty U p t sid fct d1 = Inr (Some pid, vt, d2)" for subj d1 pid vt d2
  proof -
    have "list_ex (\<lambda>e. en_id e = subj \<and> en_ext_id e = Some (fact_ext_id U H fct)) (rls en_tenant t (entities d2))"
      using ensureEntity_stands [OF e] ensureProperty_appends [OF q] by (auto simp: appends_def)
    then show ?thesis
      using ensureEntity_statements [OF e] ensureProperty_statements [OF q] ensureProperty_stands(1,2) [OF q]
        appends_trans [OF ensureEntity_appends [OF e] ensureProperty_appends [OF q]]
      by (auto simp: stands_for_def same_statement_def appends_def)
  qed
  from run show ?thesis
  proof (cases rule: insertFact_stages)
    case (held subj d1 vt)
    with ensureEntity_statements [OF held(1)] ensureProperty_statements [OF held(2)]
      ensureProperty_stands(3) [OF held(2)] held_back_appends(2) [OF ensureEntity_appends [OF held(1)]]
    show ?thesis by simp
  next
    case (on_file subj d1 pid vt d2)
    note p = pre [OF on_file(1,2)]
    from insertStatement_exact [OF on_file(4)] p obtain vc st where "d' = d2\<lparr>next_id := Suc (next_id d2)\<rparr>"
      "value_columns pg vt (FactValue fct) = Inr vc" "st \<in> set (statements d)" "st_tenant st = t"
      "same_statement subj pid vc st" by (auto simp: list_ex_iff)
    with p on_file(3) stands_for_appends [OF appends_next_id [of t d2], of U H pg p fct st] show ?thesis
      by (auto simp: list_ex_iff)
  next
    case (inserted subj d1 pid vt d2 i d3)
    note p = pre [OF inserted(1,2)]
    from insertStatement_exact [OF inserted(4)] p obtain vc st where
      v: "value_columns pg vt (FactValue fct) = Inr vc" and i: "i = next_id d2"
      and fresh: "\<not> list_ex (same_statement subj pid vc) (rls st_tenant t (statements d))"
      and st: "statements d3 = statements d @ [st]" "d3 = d2\<lparr>next_id := Suc (next_id d2), statements := statements d3\<rparr>"
        "st_id st = next_id d2" "st_tenant st = t" "same_statement subj pid vc st" "st_confidence st = numeric43 (fact_confidence fct)"
      by auto
    have d3: "d3 = d2\<lparr>next_id := Suc (next_id d2), statements := statements d @ [st]\<rparr>" using st(1,2) by simp
    from insert_evidence_cases [OF inserted(5)] obtain r where ev:
      "d' = d3\<lparr>next_id := Suc (next_id d3), statement_sources := statement_sources d @ [r]\<rparr>"
      "ss_tenant r = t" "ss_statement r = i" "ss_source r = sid" "ss_excerpt r = Excerpt fct"
      "ss_start r = ExcerptOffsetStart fct" "ss_end r = ExcerptOffsetEnd fct"
      "ss_confidence r = Some (numeric43 (fact_confidence fct))" "ss_method r = ExtractionMethod fct"
      using p by (auto simp: d3)
    then have r: "written_as t sid fct st r" using st i by (simp add: written_as_def)
    have "stands_for U H pg p t d' fct st"
      using p v st(4,5) by (simp add: stands_for_def ev(1) d3)
    moreover have "statement_key st \<notin> statement_key ` set (rls st_tenant t (statements d))"
      using fresh same_statement_key [OF st(5)] by (auto simp: list_ex_iff)
    ultimately show ?thesis using r p st(3) inserted(3) ev(1) by (simp add: d3)
  qed
qed

text \<open>What writing the facts of one source comes to: \<open>ws\<close> lists the facts that were written, each with
  its statement and its evidence row.\<close>

definition passes :: "string \<Rightarrow> ExtractedFact \<Rightarrow> bool" where
  "passes rawText fct = VerifyExcerptOffset rawText (Excerpt fct) (ExcerptOffsetStart fct) (ExcerptOffsetEnd fct)"

definition facts_filed ::
    "unicode_tables \<Rightarrow> (string \<Rightarrow> string) \<Rightarrow> pg_env \<Rightarrow> FactPipeline \<Rightarrow> uuid \<Rightarrow> uuid \<Rightarrow> ExtractedFact list \<Rightarrow> db \<Rightarrow> db
       \<Rightarrow> (ExtractedFact \<times> statement_row \<times> statement_source_row) list \<Rightarrow> bool" where
  "facts_filed U H pg p t sourceID passed d d' ws \<longleftrightarrow>
     statements d' = statements d @ map (\<lambda>(f, st, r). st) ws
     \<and> statement_sources d' = statement_sources d @ map (\<lambda>(f, st, r). r) ws
     \<and> map fst ws \<in> set (subseqs passed)
     \<and> (\<forall>(f, st, r) \<in> set ws. written_as t sourceID f st r \<and> stands_for U H pg p t d' f st \<and> next_id d \<le> st_id st
          \<and> statement_key st \<notin> statement_key ` set (rls st_tenant t (statements d)))
     \<and> distinct (map (\<lambda>(f, st, r). st_id st) ws) \<and> distinct (map (\<lambda>(f, st, r). statement_key st) ws)
     \<and> (\<forall>f \<in> set passed. list_ex (stands_for U H pg p t d' f) (statements d') \<or> held_back U p t d d' f)"

lemma facts_filed_sources [simp]:
  "facts_filed U H pg p t sid passed d (d'\<lparr>sources := ss\<rparr>) ws = facts_filed U H pg p t sid passed d d' ws"
proof -
  have "stands_for U H pg p t (d'\<lparr>sources := ss\<rparr>) = stands_for U H pg p t d'" by (intro ext) (simp add: stands_for_def)
  then show ?thesis by (simp add: facts_filed_def held_back_def)
qed

lemma facts_filed_skip:
  assumes filed: "facts_filed U H pg p t sid passed d1 d' ws" and app: "appends t d d1" "appends t d1 d'"
    and same: "statements d1 = statements d" "statement_sources d1 = statement_sources d"
    and f: "list_ex (stands_for U H pg p t d1 f) (statements d1) \<or> held_back U p t d d1 f"
  shows "facts_filed U H pg p t sid (f # passed) d d' ws"
proof -
  have le: "next_id d \<le> next_id d1" using app(1) by (simp add: appends_def)
  have "list_ex (stands_for U H pg p t d' f) (statements d') \<or> held_back U p t d d' f"
  proof (cases "held_back U p t d d1 f")
    case True
    then show ?thesis using held_back_appends(1) [OF app(2)] by blast
  next
    case False
    with f obtain x where x: "x \<in> set (statements d)" "stands_for U H pg p t d1 f x"
      by (auto simp: list_ex_iff same)
    then have "x \<in> set (statements d')" using filed by (simp add: facts_filed_def same)
    with stands_for_appends [OF app(2) x(2)] show ?thesis by (auto simp: list_ex_iff)
  qed
  moreover have "map fst ws \<in> set (subseqs (f # passed))"
    using filed by (simp add: facts_filed_def Let_def)
  ultimately show ?thesis
    using filed held_back_appends(2) [OF app(1)] le unfolding facts_filed_def same by (fastforce simp del: subseqs.simps)
qed

lemma facts_filed_write:
  assumes filed: "facts_filed U H pg p t sid passed d1 d' ws" and app: "appends t d d1" "appends t d1 d'"
    and st: "statements d1 = statements d @ [st]" "statement_sources d1 = statement_sources d @ [r]"
      "written_as t sid f st r" "stands_for U H pg p t d1 f st" "next_id d \<le> st_id st" "st_id st < next_id d1"
      "statement_key st \<notin> statement_key ` set (rls st_tenant t (statements d))"
  shows "facts_filed U H pg p t sid (f # passed) d d' ((f, st, r) # ws)"
proof -
  have le: "next_id d \<le> next_id d1" using app(1) by (simp add: appends_def)
  have rows: "statements d' = statements d @ st # map (\<lambda>(f, st, r). st) ws"
    "statement_sources d' = statement_sources d @ r # map (\<lambda>(f, st, r). r) ws"
    using filed by (simp_all add: facts_filed_def st(1,2))
  have s': "stands_for U H pg p t d' f st" using stands_for_appends [OF app(2) st(4)] .
  have t: "st_tenant st = t" using st(3) by (simp add: written_as_def)
  have each: "written_as t sid f2 st2 r2 \<and> stands_for U H pg p t d' f2 st2 \<and> next_id d1 \<le> st_id st2
      \<and> statement_key st2 \<noteq> statement_key st
      \<and> statement_key st2 \<notin> statement_key ` set (rls st_tenant t (statements d))" if "(f2, st2, r2) \<in> set ws" for f2 st2 r2
    using filed that t unfolding facts_filed_def by (fastforce simp: st(1))
  have "map fst ((f, st, r) # ws) \<in> set (subseqs (f # passed))"
    using filed by (simp add: facts_filed_def Let_def)
  moreover have "distinct (map (\<lambda>(f, st, r). st_id st) ((f, st, r) # ws))"
    "distinct (map (\<lambda>(f, st, r). statement_key st) ((f, st, r) # ws))"
    using filed each st(6) by (fastforce simp: facts_filed_def)+
  moreover have "\<forall>g \<in> set (f # passed). list_ex (stands_for U H pg p t d' g) (statements d') \<or> held_back U p t d d' g"
    using filed held_back_appends(2) [OF app(1)] s' rows by (auto simp: facts_filed_def)
  moreover have "\<forall>(f, st, r) \<in> set ((f, st, r) # ws). written_as t sid f st r \<and> stands_for U H pg p t d' f st
      \<and> next_id d \<le> st_id st \<and> statement_key st \<notin> statement_key ` set (rls st_tenant t (statements d))"
    using each s' st(3,5,7) le by fastforce
  ultimately show ?thesis unfolding facts_filed_def using rows by (simp del: subseqs.simps)
qed

lemma write_loop_filed:
  assumes "write_loop U H pg p t sid rawText facts (n, d) = Inr (m, d')"
  shows "appends t d d' \<and> (\<exists>ws. m = n + length ws \<and> facts_filed U H pg p t sid (filter (passes rawText) facts) d d' ws)"
  using assms
proof (induction facts arbitrary: n d)
  case Nil
  then show ?case by (auto simp: facts_filed_def intro!: exI [of _ "[]"])
next
  case (Cons f facts)
  show ?case
  proof (cases "passes rawText f")
    case True
    with Cons.prems obtain b d1 where ins: "insertFact U H pg p t sid f d = Inr (b, d1)"
      and rest: "write_loop U H pg p t sid rawText facts (if b then n + 1 else n, d1) = Inr (m, d')"
      by (auto simp: rbind_Inr_iff passes_def)
    from Cons.IH [OF rest] obtain ws where ws: "appends t d1 d'" "m = (if b then n + 1 else n) + length ws"
      "facts_filed U H pg p t sid (filter (passes rawText) facts) d1 d' ws" by blast
    note app = insertFact_cases(1) [OF ins]
    show ?thesis
    proof (cases b)
      case b: True
      with insertFact_exact [OF ins] obtain st r where st: "statements d1 = statements d @ [st]"
        "statement_sources d1 = statement_sources d @ [r]" "written_as t sid f st r" "stands_for U H pg p t d1 f st"
        "next_id d \<le> st_id st" "st_id st < next_id d1"
        "statement_key st \<notin> statement_key ` set (rls st_tenant t (statements d))" by auto
      from facts_filed_write [OF ws(3) app ws(1) st] True b ws(2) appends_trans [OF app ws(1)] show ?thesis
        by (intro conjI exI [of _ "(f, st, r) # ws"]) simp_all
    next
      case b: False
      with insertFact_exact [OF ins] have "statements d1 = statements d" "statement_sources d1 = statement_sources d"
        "list_ex (stands_for U H pg p t d1 f) (statements d1) \<or> held_back U p t d d1 f" by auto
      from facts_filed_skip [OF ws(3) app ws(1) this] True b ws(2) appends_trans [OF app ws(1)] show ?thesis
        by (intro conjI exI [of _ ws]) simp_all
    qed
  next
    case False
    with Cons show ?thesis by (simp add: passes_def)
  qed
qed

text \<open>C6. Writing the facts of a source does to each fact exactly this. One whose excerpt does not stand
  at its offsets in the source text is skipped. Every other one is on file afterwards: some
  statement of the tenant stands for it, with the entity of its label, the property of its resolved slug
  and its value - unless strict mode holds it back, and then a proposal for its slug is pending. The
  rows added are one statement and one evidence row, tied to each other, for each fact in a
  subsequence \<open>ws\<close> of the facts that passed, with the fact's excerpt, offsets, method and confidence;
  their identifiers are new and no two statements of the tenant say the same. The source becomes
  \<open>extracted\<close> exactly when some fact was written, and otherwise keeps its status, so that the next
  run loads it again.\<close>

theorem write_facts_exact:
  assumes "writeExtractedFacts U H pg p t source rawText facts d = Inr d'"
  shows "\<exists>ws. facts_filed U H pg p t (so_id source) (filter (passes rawText) facts) d d' ws
     \<and> sources d' = (if ws = [] then sources d
         else update_rows so_tenant t (\<lambda>s. so_id s = so_id source)
                (\<lambda>s. s\<lparr>so_status := ''extracted''\<rparr>) (sources d))"
proof (cases "facts = []")
  case True
  with assms show ?thesis
    by (auto simp: writeExtractedFacts_def facts_filed_def intro!: exI [of _ "[]"])
next
  case False
  with assms obtain m d1 where w: "write_loop U H pg p t (so_id source) rawText facts (0, d) = Inr (m, d1)"
    and d': "d' = (if m > 0 then d1\<lparr>sources := update_rows so_tenant t (\<lambda>s. so_id s = so_id source)
                      (\<lambda>s. s\<lparr>so_status := ''extracted''\<rparr>) (sources d1)\<rparr> else d1)"
    by (auto simp: writeExtractedFacts_def rbind_Inr_iff)
  from write_loop_filed [OF w] obtain ws where "sources d1 = sources d" "m = length ws"
    "facts_filed U H pg p t (so_id source) (filter (passes rawText) facts) d d1 ws" by (auto simp: appends_def)
  then show ?thesis
    by (intro exI [of _ ws]) (auto simp: d')
qed

definition archived_source :: "string \<Rightarrow> source_row" where
  "archived_source txt = \<lparr>so_id = 3, so_tenant = 1, so_url = ''u'', so_fetched_at = 0, so_content_hash = ''h'',
     so_raw_html = None, so_raw_text = Some txt, so_archive_url = None, so_publisher = None,
     so_title = None, so_published_at = None, so_embedding = None, so_last_verified_at = None,
     so_status = ''archived'', so_created = 0, so_meta = []\<rparr>"

definition doi_fact :: "int \<Rightarrow> int \<Rightarrow> ExtractedFact" where
  "doi_fact a b = \<lparr>SubjectText = ''Acme'', PropertySlug = ''doi'', FactValue = ''10'', ValueType = ''string'',
     Excerpt = ''10'', ExcerptOffsetStart = a, ExcerptOffsetEnd = b, ExtractionMethod = ''m'',
     SourceConfidence = None\<rparr>"

definition strict_pipeline :: FactPipeline where
  "strict_pipeline = \<lparr>fp_Deterministic = Some (\<lambda>_ _. Inr [doi_fact 4 6, doi_fact 0 2]), fp_LLM = None,
     fp_LLMProvider = [], CostGuardrailThreshold = 0, ConfirmCost = False, VocabularyMode = []\<rparr>"

theorem write_facts_exact_witness:
  "\<exists>d' ws. writeExtractedFacts ascii_tables id sample_pg strict_pipeline 1 (archived_source ''doi 10'')
        ''doi 10'' [doi_fact 4 6, doi_fact 0 2] (empty_db\<lparr>sources := [archived_source ''doi 10'']\<rparr>) = Inr d'
     \<and> facts_filed ascii_tables id sample_pg strict_pipeline 1 3
         (filter (passes ''doi 10'') [doi_fact 4 6, doi_fact 0 2])
         (empty_db\<lparr>sources := [archived_source ''doi 10'']\<rparr>) d' ws
     \<and> map fst ws = [doi_fact 4 6] \<and> map so_status (sources d') = [''extracted'']"
proof -
  let ?d = "empty_db\<lparr>sources := [archived_source ''doi 10'']\<rparr>"
  let ?r = "writeExtractedFacts ascii_tables id sample_pg strict_pipeline 1 (archived_source ''doi 10'')
      ''doi 10'' [doi_fact 4 6, doi_fact 0 2] ?d"
  have "(case ?r of Inl e \<Rightarrow> False
      | Inr d' \<Rightarrow> map ss_start (statement_sources d') = [4] \<and> map so_status (sources d') = [''extracted''])"
    by code_simp
  then obtain d' where d': "?r = Inr d'" "map ss_start (statement_sources d') = [4]"
    "map so_status (sources d') = [''extracted'']" by (cases ?r) simp_all
  have p: "filter (passes ''doi 10'') [doi_fact 4 6, doi_fact 0 2] = [doi_fact 4 6]" by code_simp
  have "so_id (archived_source ''doi 10'') = 3" by (simp add: archived_source_def)
  with write_facts_exact [OF d'(1)] obtain ws where ws: "facts_filed ascii_tables id sample_pg strict_pipeline 1 3
      (filter (passes ''doi 10'') [doi_fact 4 6, doi_fact 0 2]) ?d d' ws" by auto
  then have "map fst ws \<in> set (subseqs [doi_fact 4 6])" "ws \<noteq> []"
    using d'(2) unfolding p by (auto simp: facts_filed_def empty_db_def)
  then have "map fst ws = [doi_fact 4 6]" by auto
  with d' ws show ?thesis by (intro exI conjI)
qed

subsection \<open>One run\<close>

lemma extract_source_cases:
  assumes "extract_source U H pg NR p t source d = Inr d'"
  obtains "d' = d"
  | rawText facts where "so_raw_text source = Some rawText" "extractFacts NR p source rawText = Inr facts"
      "writeExtractedFacts U H pg p t source rawText facts d = Inr d'"
  using assms by (auto simp: extract_source_def rbind_Inr_iff split: option.splits if_splits)

lemma writeExtractedFacts_view:
  assumes w: "writeExtractedFacts U H pg p t source rawText facts d = Inr d'" and "t' \<noteq> t"
  shows "view t' d' = view t' d"
proof (cases "facts = []")
  case True
  with w show ?thesis by (simp add: writeExtractedFacts_def)
next
  case False
  with w obtain m d1 where d1: "write_loop U H pg p t (so_id source) rawText facts (0, d) = Inr (m, d1)"
    and d': "d' = (if m > 0 then d1\<lparr>sources := update_rows so_tenant t (\<lambda>s. so_id s = so_id source)
                      (\<lambda>s. s\<lparr>so_status := ''extracted''\<rparr>) (sources d1)\<rparr> else d1)"
    by (auto simp: writeExtractedFacts_def rbind_Inr_iff)
  have "view t' d' = view t' d1" using \<open>t' \<noteq> t\<close> by (simp add: d' view_def tenant_simps)
  also have "\<dots> = view t' d" using write_loop_evidence [OF d1] \<open>t' \<noteq> t\<close> appends_view by blast
  finally show ?thesis .
qed

interpretation extract_op: tenant_op "\<lambda>t source d. extract_source U H pg NR p t source d" for U H pg NR p
  by unfold_locales (auto elim!: extract_source_cases simp: writeExtractedFacts_view)

lemma commit_each_split:
  "commit_each f xs s = (s', r) \<Longrightarrow> \<exists>us vs. xs = us @ vs \<and> fold_res f us s = Inr s'
     \<and> (case r of None \<Rightarrow> vs = [] | Some e \<Rightarrow> \<exists>v ws. vs = v # ws \<and> f v s' = Inl e)"
proof (induction xs arbitrary: s)
  case (Cons x xs)
  show ?case
  proof (cases "f x s")
    case (Inl e)
    with Cons.prems show ?thesis by (intro exI [of _ "[]"] exI [of _ "x # xs"]) auto
  next
    case (Inr t)
    with Cons obtain us vs where "xs = us @ vs" "fold_res f us t = Inr s'"
      "case r of None \<Rightarrow> vs = [] | Some e \<Rightarrow> \<exists>v ws. vs = v # ws \<and> f v s' = Inl e" by force
    with Inr show ?thesis by (intro exI [of _ "x # us"] exI [of _ vs]) simp
  qed
qed simp

text \<open>Each source is its own transaction: a run that reports an error has committed the sources
  before the failing one and nothing of it or after it; a run that reports none has processed every
  loaded source. Other tenants see no difference either way.\<close>

theorem extract_once_prefix:
  assumes "scan_uuid pg tenantID = Some t" and "tenantID \<noteq> []" and "0 < batch"
    and "costGuardrail U confirm_env p batch = Inr ()"
    and "ExtractOnce U H pg NR confirm_env p tenantID batch d = (d', r)"
  shows "\<exists>done todo. loadArchivedSources t batch d = done @ todo
      \<and> fold_res (extract_source U H pg NR p t) done d = Inr d'
      \<and> (case r of None \<Rightarrow> todo = []
         | Some e \<Rightarrow> \<exists>s rest. todo = s # rest \<and> extract_source U H pg NR p t s d' = Inl e)
      \<and> (t' \<noteq> t \<longrightarrow> view t' d' = view t' d)"
proof -
  have run: "commit_each (extract_source U H pg NR p t) (loadArchivedSources t batch d) d = (d', r)"
    using assms by (simp add: ExtractOnce_def Let_def)
  have "view t' d' = view t' d" if "t' \<noteq> t"
    using commit_each_inv [of "loadArchivedSources t batch d" "\<lambda>e. view t' e = view t' d"
        "extract_source U H pg NR p t" d] extract_op.other_tenants [where t' = t' and t = t] that run
    by (metis fst_conv)
  with commit_each_split [OF run] show ?thesis by blast
qed

theorem extract_once_prefix_witness:
  "\<exists>d' done todo. loadArchivedSources 1 5 (empty_db\<lparr>sources := [archived_source ''doi 10'']\<rparr>) = done @ todo
     \<and> fold_res (extract_source ascii_tables id sample_pg (\<lambda>_ _. Inr []) strict_pipeline 1) done
          (empty_db\<lparr>sources := [archived_source ''doi 10'']\<rparr>) = Inr d' \<and> todo = []
     \<and> map so_status (sources d') = [''extracted'']"
proof -
  let ?d = "empty_db\<lparr>sources := [archived_source ''doi 10'']\<rparr>"
  let ?run = "ExtractOnce ascii_tables id sample_pg (\<lambda>_ _. Inr []) False strict_pipeline ''t'' 5 ?d"
  have r: "snd ?run = None" "map so_status (sources (fst ?run)) = [''extracted'']" by code_simp+
  obtain d' where d': "?run = (d', None)" using r(1) by (cases ?run) simp
  have "costGuardrail ascii_tables False strict_pipeline 5 = Inr ()"
    by (simp add: costGuardrail_def strict_pipeline_def)
  from extract_once_prefix [OF _ _ _ this d', of 1] r(2) d' show ?thesis
    by (fastforce simp: sample_pg_def)
qed

subsection \<open>The vocabulary is closed in strict mode\<close>

lemma Resolve_strict_known:
  assumes "Known (Resolve U (NewResolver U ModeStrict) label vt x)"
  shows "res_Property (Resolve U (NewResolver U ModeStrict) label vt x) \<in> set catalog_properties"
  using assms defaultCatalog_ran
  by (auto simp: Resolve_def NewResolver_def Let_def split: option.splits)

lemma ensureProperty_strict:
  assumes "vocabularyMode p = ModeStrict" and "ensureProperty U p t sid fct d = Inr (i, v, d')"
  shows "\<exists>ps. properties d' = properties d @ ps
      \<and> list_all (\<lambda>q. pp_tenant q = Some t \<and> pp_slug q \<in> pr_Slug ` set catalog_properties) ps"
  using assms Resolve_strict_known [of U "PropertySlug fct" "ValueType fct" "Excerpt fct"]
  unfolding ensureProperty_def Let_def by (auto split: if_splits option.splits)

lemma insertStatement_properties:
  "insertStatement pg i t subj pid0 vt x c d = Inr (r, d') \<Longrightarrow> properties d' = properties d"
  by (erule insertStatement_cases) simp_all

lemma insert_evidence_properties:
  "insert_evidence i t s src fct c d = Inr d' \<Longrightarrow> properties d' = properties d"
  by (erule insert_evidence_cases) simp

lemma insertFact_properties:
  assumes "insertFact U H pg p t sid fct d = Inr (b, d')"
  shows "\<exists>d1 i v d2. ensureProperty U p t sid fct d1 = Inr (i, v, d2)
      \<and> properties d1 = properties d \<and> properties d' = properties d2"
proof -
  from assms obtain subj d1 pid0 vt d2 where
    e: "ensureEntity U H t (SubjectText fct) d = Inr (subj, d1)" and
    q: "ensureProperty U p t sid fct d1 = Inr (pid0, vt, d2)" and
    rest: "(case pid0 of None \<Rightarrow> Inr (False, d2)
        | Some propertyID \<Rightarrow>
          (let statementID = next_id d2;
               confidence = (case SourceConfidence fct of None \<Rightarrow> 1 / 2 | Some c \<Rightarrow> c)
           in rbind (insertStatement pg statementID t subj propertyID vt (FactValue fct)
                       confidence (d2\<lparr>next_id := Suc statementID\<rparr>)) (\<lambda>(inserted, d3).
              (case inserted of
                 None \<Rightarrow> Inr (False, d3)
               | Some insertedID \<Rightarrow>
                 rbind (insert_evidence (next_id d3) t insertedID sid fct confidence
                          (d3\<lparr>next_id := Suc (next_id d3)\<rparr>)) (\<lambda>d4. Inr (True, d4)))))) = Inr (b, d')"
    unfolding insertFact_def by (force simp: rbind_Inr_iff)
  have "properties d1 = properties d"
    using e by (auto simp: ensureEntity_def Let_def split: if_splits list.splits)
  moreover have "properties d' = properties d2"
    using rest
    by (auto simp: rbind_Inr_iff Let_def split: option.splits
        dest!: insertStatement_properties insert_evidence_properties)
  ultimately show ?thesis using q by blast
qed

text \<open>C16. In strict mode extraction never widens the vocabulary: whatever the extractors and the model
  return, the properties it creates belong to the tenant and carry a slug of the catalog; any other
  label can at most become a pending proposal.\<close>

theorem strict_mode_closed_vocabulary:
  assumes "vocabularyMode p = ModeStrict"
    and "writeExtractedFacts U H pg p t source rawText facts d = Inr d'"
  shows "\<exists>ps qs. properties d' = properties d @ ps
      \<and> list_all (\<lambda>q. pp_tenant q = Some t \<and> pp_slug q \<in> pr_Slug ` set catalog_properties) ps
      \<and> proposals d' = proposals d @ qs \<and> list_all (\<lambda>q. pq_tenant q = t) qs"
proof (cases "facts = []")
  case True
  with assms show ?thesis by (simp add: writeExtractedFacts_def)
next
  case False
  with assms(2) obtain m d1 where w: "write_loop U H pg p t (so_id source) rawText facts (0, d) = Inr (m, d1)"
    and d': "properties d' = properties d1" "proposals d' = proposals d1"
    by (auto simp: writeExtractedFacts_def rbind_Inr_iff)
  have "\<exists>ps. properties d1 = properties d @ ps
      \<and> list_all (\<lambda>q. pp_tenant q = Some t \<and> pp_slug q \<in> pr_Slug ` set catalog_properties) ps"
  proof (rule write_loop_inv [OF w])
    fix fct n d2 b d3
    assume "\<exists>ps. properties d2 = properties d @ ps
      \<and> list_all (\<lambda>q. pp_tenant q = Some t \<and> pp_slug q \<in> pr_Slug ` set catalog_properties) ps"
      and ins: "insertFact U H pg p t (so_id source) fct d2 = Inr (b, d3)"
    moreover obtain d4 i v d5 where e: "ensureProperty U p t (so_id source) fct d4 = Inr (i, v, d5)"
      "properties d4 = properties d2" "properties d3 = properties d5"
      using insertFact_properties [OF ins] by blast
    ultimately show "\<exists>ps. properties d3 = properties d @ ps
      \<and> list_all (\<lambda>q. pp_tenant q = Some t \<and> pp_slug q \<in> pr_Slug ` set catalog_properties) ps"
      using ensureProperty_strict [OF assms(1) e(1)] by fastforce
  qed simp
  moreover have "appends t d d1" using write_loop_evidence [OF w] ..
  ultimately show ?thesis using d' by (auto simp: appends_def)
qed

theorem strict_mode_closed_vocabulary_witness:
  "\<exists>ps. properties (case writeExtractedFacts ascii_tables id sample_pg strict_pipeline 1
            (archived_source ''doi 10'') ''doi 10'' [doi_fact 4 6]
            (empty_db\<lparr>sources := [archived_source ''doi 10'']\<rparr>) of Inl e \<Rightarrow> empty_db | Inr d' \<Rightarrow> d') = ps
      \<and> list_all (\<lambda>q. pp_tenant q = Some 1 \<and> pp_slug q \<in> pr_Slug ` set catalog_properties) ps \<and> length ps = 1"
proof -
  let ?r = "writeExtractedFacts ascii_tables id sample_pg strict_pipeline 1 (archived_source ''doi 10'')
      ''doi 10'' [doi_fact 4 6] (empty_db\<lparr>sources := [archived_source ''doi 10'']\<rparr>)"
  have "(case ?r of Inl e \<Rightarrow> False | Inr d' \<Rightarrow> length (properties d') = 1)" by code_simp
  then obtain d' where d': "?r = Inr d'" "length (properties d') = 1" by (cases ?r) simp_all
  have "vocabularyMode strict_pipeline = ModeStrict" by (simp add: vocabularyMode_def strict_pipeline_def)
  from strict_mode_closed_vocabulary [OF this d'(1)] obtain ps
    where ps: "properties d' = properties (empty_db\<lparr>sources := [archived_source ''doi 10'']\<rparr>) @ ps"
      and all: "list_all (\<lambda>q. pp_tenant q = Some 1 \<and> pp_slug q \<in> pr_Slug ` set catalog_properties) ps"
    by blast
  have "properties d' = ps" unfolding ps by (simp add: empty_db_def)
  with all d' show ?thesis by (intro exI [of _ ps] conjI) simp_all
qed

end
