(* ===== verification/Config.thy ===== *)
theory Config
  imports GoStrings
begin

text \<open>
  \<open>internal/config\<close>: the resolvers that give every setting its value in the order flag, environment,
  default (\<open>resolver.go\<close>), the guard against passwords on the command line (\<open>dsn.go\<close>) and the
  registry of documented settings (\<open>registry.go\<close>). The process environment is the map that
  \<open>os.LookupEnv\<close> reads, the file system the map of the files' contents.
\<close>

subsection \<open>strconv\<close>

definition is_digit_char :: "char \<Rightarrow> bool" where
  "is_digit_char c \<longleftrightarrow> 48 \<le> byte c \<and> byte c \<le> 57"

fun decimal :: "int \<Rightarrow> string \<Rightarrow> int" where
  "decimal n [] = n"
| "decimal n (c # cs) = decimal (10 * n + (byte c - 48)) cs"

definition min_int :: int where "min_int = - 9223372036854775808"
definition max_int :: int where "max_int = 9223372036854775807"

definition atoi :: "string \<Rightarrow> int result" where
  "atoi s =
     (let neg = (case s of [] \<Rightarrow> False | c # _ \<Rightarrow> c = CHR ''-'');
          ds = (case s of [] \<Rightarrow> [] | c # r \<Rightarrow> if c = CHR ''-'' \<or> c = CHR ''+'' then r else s)
      in if ds = [] \<or> \<not> list_all is_digit_char ds then Err ''invalid syntax''
         else (let n = (if neg then - decimal 0 ds else decimal 0 ds)
               in if n < min_int \<or> max_int < n then Err ''value out of range'' else Ok n))"

definition parse_bool :: "string \<Rightarrow> bool result" where
  "parse_bool s =
     (if s \<in> {''1'', ''t'', ''T'', ''true'', ''TRUE'', ''True''} then Ok True
      else if s \<in> {''0'', ''f'', ''F'', ''false'', ''FALSE'', ''False''} then Ok False
      else Err ''invalid syntax'')"

subsection \<open>Resolvers\<close>

record flag =
  flag_Name :: string
  flag_Changed :: bool
  flag_String :: string

type_synonym env = "string \<rightharpoonup> string"

definition quoted :: "string \<Rightarrow> string" where
  "quoted s = CHR 0x22 # s @ [CHR 0x22]"

definition requiredErr :: "flag option \<Rightarrow> string \<Rightarrow> string" where
  "requiredErr flag envVar =
     (let flagName = (case flag of None \<Rightarrow> [] | Some f \<Rightarrow> flag_Name f)
      in ''required config '' @ quoted envVar @ '' is not set (flag --'' @ flagName @ '' or env '' @ envVar @ '')'')"

definition ResolveString :: "env \<Rightarrow> flag option \<Rightarrow> string \<Rightarrow> string \<Rightarrow> bool \<Rightarrow> string result" where
  "ResolveString env flag envVar defaultVal required =
     (case (case flag of Some f \<Rightarrow> if flag_Changed f then Some f else None | None \<Rightarrow> None) of
        Some f \<Rightarrow> Ok (flag_String f)
      | None \<Rightarrow>
        (case env envVar of
           Some val \<Rightarrow> Ok val
         | None \<Rightarrow> if required then Err (requiredErr flag envVar) else Ok defaultVal))"

text \<open>\<open>ResolveInt\<close>, \<open>ResolveBool\<close> and \<open>ResolveDuration\<close> are the same code around another parser.\<close>

definition resolve_parsed ::
    "(string \<Rightarrow> 'a result) \<Rightarrow> string \<Rightarrow> env \<Rightarrow> flag option \<Rightarrow> string \<Rightarrow> 'a \<Rightarrow> bool \<Rightarrow> 'a result" where
  "resolve_parsed parse kind env flag envVar defaultVal required =
     (case (case flag of Some f \<Rightarrow> if flag_Changed f then Some f else None | None \<Rightarrow> None) of
        Some f \<Rightarrow>
          (case parse (flag_String f) of
             Inl e \<Rightarrow> Err (''invalid '' @ kind @ '' for flag --'' @ flag_Name f @ '': '' @ e)
           | Inr v \<Rightarrow> Ok v)
      | None \<Rightarrow>
        (case env envVar of
           Some raw \<Rightarrow>
             (case parse raw of
                Inl e \<Rightarrow> Err (''invalid '' @ kind @ '' for env '' @ envVar @ ''='' @ quoted raw @ '': '' @ e)
              | Inr v \<Rightarrow> Ok v)
         | None \<Rightarrow> if required then Err (requiredErr flag envVar) else Ok defaultVal))"

definition ResolveInt :: "env \<Rightarrow> flag option \<Rightarrow> string \<Rightarrow> int \<Rightarrow> bool \<Rightarrow> int result" where
  "ResolveInt = resolve_parsed atoi ''int''"

definition ResolveBool :: "env \<Rightarrow> flag option \<Rightarrow> string \<Rightarrow> bool \<Rightarrow> bool \<Rightarrow> bool result" where
  "ResolveBool = resolve_parsed parse_bool ''bool''"

text \<open>\<open>parse_duration\<close> is \<open>time.ParseDuration\<close>, in nanoseconds.\<close>

definition ResolveDuration ::
    "(string \<Rightarrow> int result) \<Rightarrow> env \<Rightarrow> flag option \<Rightarrow> string \<Rightarrow> int \<Rightarrow> bool \<Rightarrow> int result" where
  "ResolveDuration parse_duration = resolve_parsed parse_duration ''duration''"

text \<open>The parts of a \<open>url.URL\<close> the program reads; \<open>url.Parse\<close> itself is an argument.\<close>

record url =
  Scheme :: string
  Hostname :: string
  UserPassword :: "string option option"  \<comment> \<open>\<open>User\<close> and, if there is one, its \<open>Password\<close>\<close>

definition ResolveURL ::
    "(string \<Rightarrow> url result) \<Rightarrow> env \<Rightarrow> flag option \<Rightarrow> string \<Rightarrow> string \<Rightarrow> bool \<Rightarrow> url option result" where
  "ResolveURL parse_url env flag envVar defaultVal required =
     rbind (ResolveString env flag envVar defaultVal required) (\<lambda>raw.
       if raw = [] then Ok None
       else (case parse_url raw of
               Inl e \<Rightarrow> Err (''invalid URL for '' @ envVar @ ''='' @ quoted raw @ '': '' @ e)
             | Inr u \<Rightarrow> Ok (Some u)))"

definition ResolveStringWithAlias ::
    "env \<Rightarrow> flag option \<Rightarrow> string \<Rightarrow> string \<Rightarrow> string \<Rightarrow> bool \<Rightarrow> (string \<times> bool) result" where
  "ResolveStringWithAlias env flag envVar aliasEnvVar defaultVal required =
     (case (case flag of Some f \<Rightarrow> if flag_Changed f then Some f else None | None \<Rightarrow> None) of
        Some f \<Rightarrow> Ok (flag_String f, False)
      | None \<Rightarrow>
        (case env envVar of
           Some val \<Rightarrow> Ok (val, False)
         | None \<Rightarrow>
           (case env aliasEnvVar of
              Some val \<Rightarrow> Ok (val, True)
            | None \<Rightarrow> if required then Err (requiredErr flag envVar) else Ok (defaultVal, False))))"

definition ResolveSecret ::
    "env \<Rightarrow> (string \<rightharpoonup> string) \<Rightarrow> flag option \<Rightarrow> string \<Rightarrow> string \<Rightarrow> bool \<Rightarrow> string result" where
  "ResolveSecret env files flag envVar defaultVal required =
     (case (case flag of Some f \<Rightarrow> if flag_Changed f then Some f else None | None \<Rightarrow> None) of
        Some f \<Rightarrow> Ok (flag_String f)
      | None \<Rightarrow>
        (let direct = (case env envVar of
               Some val \<Rightarrow> Ok val
             | None \<Rightarrow> if required then Err (requiredErr flag envVar) else Ok defaultVal)
         in case env (envVar @ ''_FILE'') of
              Some filePath \<Rightarrow>
                if filePath \<noteq> [] then
                  (case files (trim_space filePath) of
                     None \<Rightarrow> Err (''reading secret file '' @ envVar @ ''_FILE='' @ quoted filePath)
                   | Some data \<Rightarrow> Ok (trim_space data))
                else direct
            | None \<Rightarrow> direct))"

subsection \<open>The database URL on the command line\<close>

definition ValidateDSNNoPassword :: "(string \<Rightarrow> url result) \<Rightarrow> string \<Rightarrow> unit result" where
  "ValidateDSNNoPassword parse_url dsn =
     (if dsn = [] then Ok ()
      else (case parse_url dsn of
              Inl _ \<Rightarrow> Ok ()
            | Inr u \<Rightarrow>
              (case UserPassword u of
                 None \<Rightarrow> Ok ()
               | Some pw \<Rightarrow>
                 (case pw of
                    None \<Rightarrow> Ok ()
                  | Some p \<Rightarrow> if p \<noteq> [] then Err ''--dsn must not contain a password in the URL'' else Ok ()))))"

subsection \<open>Size limits read from the environment\<close>

text \<open>\<open>maxLLMBodyBytes\<close>, \<open>maxDecompressBytes\<close>, \<open>maxFeedBytes\<close>: a setting that is missing, malformed or
  not positive gives the default.\<close>

definition size_limit :: "env \<Rightarrow> string \<Rightarrow> int \<Rightarrow> int" where
  "size_limit env envVar defaultVal =
     (case ResolveInt env None envVar defaultVal False of
        Inl _ \<Rightarrow> defaultVal
      | Inr n \<Rightarrow> if n \<le> 0 then defaultVal else n)"

definition maxLLMBodyBytes :: "env \<Rightarrow> int" where
  "maxLLMBodyBytes env = size_limit env ''FACTVAULT_MAX_LLM_BODY_BYTES'' (4 * 1024 * 1024)"

definition maxDecompressBytes :: "env \<Rightarrow> int" where
  "maxDecompressBytes env = size_limit env ''FACTVAULT_MAX_DECOMPRESS_BYTES'' (100 * 1024 * 1024)"

definition maxFeedBytes :: "env \<Rightarrow> int" where
  "maxFeedBytes env = size_limit env ''FACTVAULT_MAX_RSS_BYTES'' (10 * 1024 * 1024)"

subsection \<open>The registry\<close>

record Entry =
  Concept :: string
  Flag :: string
  EnvVar :: string
  Default :: string
  Alias :: string
  Required :: bool
  Secret :: bool

definition Registry :: "Entry list" where
  "Registry =
     [\<lparr>Concept = ''database URL'', Flag = ''--dsn'', EnvVar = ''FACTVAULT_DATABASE_URL'',
       Default = ''*required*'', Alias = ''DATABASE_URL'', Required = True, Secret = True\<rparr>,
      \<lparr>Concept = ''migrate DSN'', Flag = ''--dsn'', EnvVar = ''FACTVAULT_MIGRATE_DATABASE_URL'',
       Default = [], Alias = [], Required = False, Secret = False\<rparr>,
      \<lparr>Concept = ''LLM base URL'', Flag = ''--llm-base-url'', EnvVar = ''FACTVAULT_LLM_BASE_URL'',
       Default = ''http://localhost:11434/v1'', Alias = ''FACTVAULT_LLM_URL'', Required = False, Secret = False\<rparr>,
      \<lparr>Concept = ''LLM model'', Flag = ''--llm-model'', EnvVar = ''FACTVAULT_LLM_MODEL'',
       Default = ''llama3.1:8b'', Alias = [], Required = False, Secret = False\<rparr>,
      \<lparr>Concept = ''LLM API key'', Flag = [], EnvVar = ''FACTVAULT_LLM_API_KEY'',
       Default = [], Alias = [], Required = False, Secret = True\<rparr>,
      \<lparr>Concept = ''embedder URL'', Flag = ''--embedder-url'', EnvVar = ''FACTVAULT_EMBEDDER_URL'',
       Default = ''http://localhost:8081'', Alias = [], Required = False, Secret = False\<rparr>,
      \<lparr>Concept = ''Wayback URL'', Flag = ''--wayback-url'', EnvVar = ''FACTVAULT_WAYBACK_URL'',
       Default = ''https://web.archive.org'', Alias = [], Required = False, Secret = False\<rparr>,
      \<lparr>Concept = ''JWT public key'', Flag = ''--jwt-public-key'', EnvVar = ''FACTVAULT_JWT_PUBLIC_KEY'',
       Default = ''*required*'', Alias = [], Required = True, Secret = True\<rparr>,
      \<lparr>Concept = ''JWT private key'', Flag = ''--jwt-private-key'', EnvVar = ''FACTVAULT_JWT_PRIVATE_KEY'',
       Default = ''*required*'', Alias = [], Required = True, Secret = True\<rparr>,
      \<lparr>Concept = ''MCP auth token'', Flag = [], EnvVar = ''FACTVAULT_MCP_AUTH_TOKEN'',
       Default = ''*required*'', Alias = [], Required = True, Secret = True\<rparr>,
      \<lparr>Concept = ''dev tenant ID'', Flag = ''--tenant'', EnvVar = ''FACTVAULT_DEV_TENANT_ID'',
       Default = ''11111111-1111-1111-1111-111111111111'', Alias = [], Required = False, Secret = False\<rparr>,
      \<lparr>Concept = ''API listen addr'', Flag = ''--addr'', EnvVar = ''FACTVAULT_API_ADDR'',
       Default = '':8080'', Alias = [], Required = False, Secret = False\<rparr>,
      \<lparr>Concept = ''briefs list max limit'', Flag = [], EnvVar = ''FACTVAULT_MAX_BRIEFS_LIMIT'',
       Default = ''1000'', Alias = [], Required = False, Secret = False\<rparr>,
      \<lparr>Concept = ''RSS response max bytes'', Flag = [], EnvVar = ''FACTVAULT_MAX_RSS_BYTES'',
       Default = ''10485760'', Alias = [], Required = False, Secret = False\<rparr>,
      \<lparr>Concept = ''LLM response max bytes'', Flag = [], EnvVar = ''FACTVAULT_MAX_LLM_BODY_BYTES'',
       Default = ''4194304'', Alias = [], Required = False, Secret = False\<rparr>,
      \<lparr>Concept = ''decompress output max bytes'', Flag = [], EnvVar = ''FACTVAULT_MAX_DECOMPRESS_BYTES'',
       Default = ''104857600'', Alias = [], Required = False, Secret = False\<rparr>,
      \<lparr>Concept = ''feeds config path'', Flag = ''--feeds'', EnvVar = ''FACTVAULT_FEEDS_PATH'',
       Default = ''config/feeds.yaml'', Alias = [], Required = False, Secret = False\<rparr>,
      \<lparr>Concept = ''worker limit'', Flag = ''--limit'', EnvVar = ''FACTVAULT_WORKER_LIMIT'',
       Default = ''100'', Alias = [], Required = False, Secret = False\<rparr>,
      \<lparr>Concept = ''verify age (days)'', Flag = ''--age-days'', EnvVar = ''FACTVAULT_VERIFY_AGE_DAYS'',
       Default = ''7'', Alias = [], Required = False, Secret = False\<rparr>,
      \<lparr>Concept = ''auth key directory'', Flag = ''--key-dir'', EnvVar = ''FACTVAULT_AUTH_DIR'',
       Default = ''.local'', Alias = [], Required = False, Secret = False\<rparr>,
      \<lparr>Concept = ''confirm cost'', Flag = ''--confirm-cost'', EnvVar = ''FACTVAULT_CONFIRM_COST'',
       Default = ''false'', Alias = [], Required = False, Secret = False\<rparr>,
      \<lparr>Concept = ''SearXNG URL'', Flag = ''--searxng-url'', EnvVar = ''FACTVAULT_SEARXNG_URL'',
       Default = ''https://searxng.example.com'', Alias = [], Required = False, Secret = False\<rparr>,
      \<lparr>Concept = ''verify token'', Flag = ''--token'', EnvVar = ''FACTVAULT_VERIFY_TOKEN'',
       Default = [], Alias = [], Required = False, Secret = False\<rparr>]"

definition registry_default :: "string \<Rightarrow> string option" where
  "registry_default v = map_option Default (find (\<lambda>e. EnvVar e = v) Registry)"

subsection \<open>Properties\<close>

text \<open>Precedence: a flag given on the command line wins over everything, a variable that is set
  wins over the default even when it is empty, a required setting with neither is an error; for a
  secret the file variable wins over the direct one and an unreadable file is an error, never a
  silent fall-back.\<close>

theorem resolve_precedence:
  "ResolveString env (Some (f\<lparr>flag_Changed := True\<rparr>)) v dflt req = Inr (flag_String f)
   \<and> ResolveString (env(v \<mapsto> x)) (Some (f\<lparr>flag_Changed := False\<rparr>)) v dflt req = Inr x
   \<and> ResolveString (env(v := None)) None v dflt False = Inr dflt
   \<and> \<not> is_ok (ResolveString (env(v := None)) None v dflt True)
   \<and> ResolveSecret env files (Some (f\<lparr>flag_Changed := True\<rparr>)) v dflt req = Inr (flag_String f)
   \<and> ResolveSecret (env(v @ ''_FILE'' \<mapsto> c # path)) (files(trim_space (c # path) \<mapsto> content)) None v dflt req
       = Inr (trim_space content)
   \<and> \<not> is_ok (ResolveSecret (env(v @ ''_FILE'' \<mapsto> c # path)) (files(trim_space (c # path) := None)) None v dflt req)
   \<and> ResolveSecret (env(v @ ''_FILE'' \<mapsto> [], v \<mapsto> x)) files None v dflt req = Inr x
   \<and> ResolveStringWithAlias ((env(v := None))(a \<mapsto> x)) None v a dflt req = Inr (x, v \<noteq> a)"
  by (simp add: ResolveString_def ResolveSecret_def ResolveStringWithAlias_def)

lemma size_limit_default: "env v = None \<Longrightarrow> 0 < n \<Longrightarrow> size_limit env v n = n"
  by (simp add: size_limit_def ResolveInt_def resolve_parsed_def)

lemma size_limit_positive: "0 < n \<Longrightarrow> 0 < size_limit env v n"
  by (simp add: size_limit_def split: sum.split)

text \<open>The registry is consistent with itself and with the code: no two settings share a variable,
  no alias is another setting's variable, and the documented size limits are the defaults the code
  falls back to; whatever the environment holds, a limit is positive.\<close>

theorem registry_matches_code:
  "distinct (map EnvVar Registry)
   \<and> set (filter (\<lambda>a. a \<noteq> ''DATABASE_URL'' \<and> a \<noteq> []) (map Alias Registry)) \<inter> set (map EnvVar Registry) = {}
   \<and> map_option atoi (registry_default ''FACTVAULT_MAX_LLM_BODY_BYTES'') = Some (Inr (maxLLMBodyBytes Map.empty))
   \<and> map_option atoi (registry_default ''FACTVAULT_MAX_DECOMPRESS_BYTES'') = Some (Inr (maxDecompressBytes Map.empty))
   \<and> map_option atoi (registry_default ''FACTVAULT_MAX_RSS_BYTES'') = Some (Inr (maxFeedBytes Map.empty))
   \<and> 0 < maxLLMBodyBytes env \<and> 0 < maxDecompressBytes env \<and> 0 < maxFeedBytes env"
proof -
  have "distinct (map EnvVar Registry)" by code_simp
  moreover have "set (filter (\<lambda>a. a \<noteq> ''DATABASE_URL'' \<and> a \<noteq> []) (map Alias Registry)) \<inter> set (map EnvVar Registry) = {}"
    by code_simp
  moreover have "map_option atoi (registry_default ''FACTVAULT_MAX_LLM_BODY_BYTES'') = Some (Inr 4194304)"
    "map_option atoi (registry_default ''FACTVAULT_MAX_DECOMPRESS_BYTES'') = Some (Inr 104857600)"
    "map_option atoi (registry_default ''FACTVAULT_MAX_RSS_BYTES'') = Some (Inr 10485760)" by code_simp+
  ultimately show ?thesis
    by (simp add: maxLLMBodyBytes_def maxDecompressBytes_def maxFeedBytes_def size_limit_default size_limit_positive)
qed

end
