(* ===== verification/Netx.thy ===== *)
theory Netx
  imports Config
begin

text \<open>
  \<open>internal/netx/http.go\<close>: which addresses the HTTP client may connect to. An address is a
  \<open>netip.Addr\<close>: the zero value, 32 bits, or 128 bits with a zone. The predicates are those of
  \<open>net/netip\<close> (Go 1.26), written out on the bits. \<open>url.Parse\<close>, \<open>netip.ParseAddr\<close>,
  \<open>net.SplitHostPort\<close> and the DNS resolver are arguments; dialling is the address handed to the
  operating system.
\<close>

datatype Addr = Invalid | V4 "32 word" | V6 "128 word" string

definition is4In6 :: "128 word \<Rightarrow> bool" where
  "is4In6 w \<longleftrightarrow> drop_bit 32 w = 0xFFFF"

text \<open>\<open>Unmap\<close>.\<close>

fun unmap_addr :: "Addr \<Rightarrow> Addr" where
  "unmap_addr (V6 w z) = (if is4In6 w then V4 (ucast w) else V6 w z)"
| "unmap_addr a = a"

definition IsLoopback :: "Addr \<Rightarrow> bool" where
  "IsLoopback ip = (case unmap_addr ip of
     Invalid \<Rightarrow> False | V4 w \<Rightarrow> drop_bit 24 w = 127 | V6 w z \<Rightarrow> w = 1)"

definition IsPrivate :: "Addr \<Rightarrow> bool" where
  "IsPrivate ip = (case unmap_addr ip of
     Invalid \<Rightarrow> False
   | V4 w \<Rightarrow> drop_bit 24 w = 10 \<or> drop_bit 20 w = 0xAC1 \<or> drop_bit 16 w = 0xC0A8
   | V6 w z \<Rightarrow> drop_bit 121 w = 0x7E)"

definition IsLinkLocalUnicast :: "Addr \<Rightarrow> bool" where
  "IsLinkLocalUnicast ip = (case unmap_addr ip of
     Invalid \<Rightarrow> False | V4 w \<Rightarrow> drop_bit 16 w = 0xA9FE | V6 w z \<Rightarrow> drop_bit 118 w = 0x3FA)"

definition IsMulticast :: "Addr \<Rightarrow> bool" where
  "IsMulticast ip = (case unmap_addr ip of
     Invalid \<Rightarrow> False | V4 w \<Rightarrow> drop_bit 28 w = 14 | V6 w z \<Rightarrow> drop_bit 120 w = 0xFF)"

text \<open>\<open>IsUnspecified\<close> compares with the two unspecified addresses and does not unmap.\<close>

definition IsUnspecified :: "Addr \<Rightarrow> bool" where
  "IsUnspecified ip \<longleftrightarrow> ip = V4 0 \<or> ip = V6 0 []"

definition isBlockedAddr :: "Addr \<Rightarrow> bool" where
  "isBlockedAddr ip =
     (if ip = Invalid then True
      else IsLoopback ip \<or> IsPrivate ip \<or> IsLinkLocalUnicast ip \<or> IsMulticast ip \<or> IsUnspecified ip)"

text \<open>The network the client lives in.\<close>

record net =
  parse_url :: "string \<Rightarrow> url result"
  parse_addr :: "string \<Rightarrow> Addr option"          \<comment> \<open>\<open>netip.ParseAddr\<close>\<close>
  split_host_port :: "string \<Rightarrow> (string \<times> string) result"
  lookup_ip :: "string \<Rightarrow> Addr list result"       \<comment> \<open>\<open>LookupNetIP\<close>\<close>
  equal_fold :: "string \<Rightarrow> string \<Rightarrow> bool"        \<comment> \<open>\<open>strings.EqualFold\<close>\<close>

definition ValidateHTTPURL :: "net \<Rightarrow> string \<Rightarrow> bool \<Rightarrow> unit result" where
  "ValidateHTTPURL N raw allowPrivateHosts =
     (case parse_url N raw of
        Inl e \<Rightarrow> Err (''invalid source url: '' @ e)
      | Inr u \<Rightarrow>
        if Scheme u \<noteq> ''http'' \<and> Scheme u \<noteq> ''https'' then Err ''unsupported url scheme''
        else
          (let host = trim_space (Hostname u)
           in if host = [] then Err ''missing source host''
              else if \<not> allowPrivateHosts \<and> equal_fold N host ''localhost'' then Err ''blocked host''
              else (case parse_addr N host of
                  Some ip \<Rightarrow> if \<not> allowPrivateHosts \<and> isBlockedAddr ip then Err ''blocked address'' else Ok ()
                | None \<Rightarrow>
                  (case lookup_ip N host of
                     Inl e \<Rightarrow> Err (''resolve host: '' @ e)
                   | Inr ips \<Rightarrow>
                     if \<not> allowPrivateHosts \<and> list_ex isBlockedAddr ips then Err ''blocked address''
                     else Ok ()))))"

definition ValidatePublicHTTPURL :: "net \<Rightarrow> string \<Rightarrow> unit result" where
  "ValidatePublicHTTPURL N raw = ValidateHTTPURL N raw False"

text \<open>What the transport's \<open>DialContext\<close> passes to the dialer: a literal address, or the name itself
  (which the operating system then resolves).\<close>

datatype dial_target = DialAddr Addr string | DialName string

definition DialContext :: "net \<Rightarrow> bool \<Rightarrow> string \<Rightarrow> dial_target result" where
  "DialContext N allowPrivateHosts addr =
     rbind (split_host_port N addr) (\<lambda>(host, port).
       (case parse_addr N host of
          Some ip \<Rightarrow>
            if \<not> allowPrivateHosts \<and> isBlockedAddr ip then Err ''blocked address'' else Ok (DialAddr ip port)
        | None \<Rightarrow>
          if \<not> allowPrivateHosts then
            (case lookup_ip N host of
               Inl e \<Rightarrow> Err (''resolve host: '' @ e)
             | Inr ips \<Rightarrow>
               if list_ex isBlockedAddr ips then Err ''blocked address''
               else (case ips of ip # _ \<Rightarrow> Ok (DialAddr ip port) | [] \<Rightarrow> Ok (DialName addr)))
          else Ok (DialName addr)))"

text \<open>\<open>CheckRedirect\<close>; \<open>n\<close> is the number of requests made so far.\<close>

definition maxRedirects :: nat where "maxRedirects = 5"

definition CheckRedirect :: "net \<Rightarrow> bool \<Rightarrow> string \<Rightarrow> nat \<Rightarrow> unit result" where
  "CheckRedirect N allowPrivateHosts url via =
     (if via \<ge> maxRedirects then Err ''too many redirects'' else ValidateHTTPURL N url allowPrivateHosts)"

text \<open>\<open>Client.Do\<close> follows redirects as long as \<open>CheckRedirect\<close> allows; the chain it visited, newest
  first. \<open>next_hop\<close> is the redirect the server sends for a request, if any.\<close>

fun follow :: "net \<Rightarrow> bool \<Rightarrow> (string \<Rightarrow> string option) \<Rightarrow> nat \<Rightarrow> string list \<Rightarrow> string list result" where
  "follow N allow next_hop 0 via = Err ''too many redirects''"
| "follow N allow next_hop (Suc fuel) via =
     (case via of
        [] \<Rightarrow> Err ''no request''
      | cur # _ \<Rightarrow>
        (case next_hop cur of
           None \<Rightarrow> Ok via
         | Some url \<Rightarrow>
           rbind (CheckRedirect N allow url (length via)) (\<lambda>_. follow N allow next_hop fuel (url # via))))"

definition Do :: "net \<Rightarrow> bool \<Rightarrow> (string \<Rightarrow> string option) \<Rightarrow> string \<Rightarrow> string list result" where
  "Do N allow next_hop url = follow N allow next_hop (maxRedirects + 1) [url]"

subsection \<open>Responses\<close>

text \<open>A response as its reader sees it: the body delivers bytes and then ends, or fails.
  \<open>read_limited k\<close> is \<open>io.ReadAll(io.LimitReader(body, k))\<close>.\<close>

record http_response =
  StatusCode :: int
  Header :: "string \<Rightarrow> string"
  Body :: "string \<times> string option"

definition read_limited :: "int \<Rightarrow> string \<times> string option \<Rightarrow> string result" where
  "read_limited k b =
     (if int (length (fst b)) \<ge> k then Ok (take (nat k) (fst b))
      else (case snd b of None \<Rightarrow> Ok (fst b) | Some e \<Rightarrow> Err e))"

definition status_ok :: "http_response \<Rightarrow> bool" where
  "status_ok r \<longleftrightarrow> \<not> (StatusCode r < 200 \<or> StatusCode r > 299)"

lemma read_limited_length: "0 \<le> k \<Longrightarrow> read_limited k b = Inr body \<Longrightarrow> int (length body) \<le> k"
  by (auto simp: read_limited_def split: if_splits option.splits)

subsection \<open>Which addresses are blocked\<close>

text \<open>The IPv4 ranges, as numbers.\<close>

definition blocked_v4 :: "int \<Rightarrow> bool" where
  "blocked_v4 n \<longleftrightarrow> n = 0
     \<or> 0x0A000000 \<le> n \<and> n \<le> 0x0AFFFFFF
     \<or> 0x7F000000 \<le> n \<and> n \<le> 0x7FFFFFFF
     \<or> 0xA9FE0000 \<le> n \<and> n \<le> 0xA9FEFFFF
     \<or> 0xAC100000 \<le> n \<and> n \<le> 0xAC1FFFFF
     \<or> 0xC0A80000 \<le> n \<and> n \<le> 0xC0A8FFFF
     \<or> 0xE0000000 \<le> n \<and> n \<le> 0xEFFFFFFF"

lemma uint_drop_bit: "uint (drop_bit n w) = drop_bit n (uint w)"
  by (rule bit_eqI) (simp add: bit_unsigned_iff bit_drop_bit_eq)

lemma drop_bit_word_iff: "drop_bit n w = v \<longleftrightarrow> uint w div 2 ^ n = uint v" for w v :: "'a :: len word"
  by (simp only: word_uint_eq_iff uint_drop_bit) (simp only: drop_bit_eq_div)

lemma div_eq_range: 
  "n div m = c \<longleftrightarrow> c * m \<le> n \<and> n < (c + 1) * m" if m: "0 < m" for n m c :: int
proof
  show "n div m = c \<Longrightarrow> c * m \<le> n \<and> n < (c + 1) * m"
    using m minus_mod_eq_div_mult [of n m] pos_mod_bound [OF m, of n] pos_mod_sign [OF m, of n]
    by (auto simp: algebra_simps)
  assume "c * m \<le> n \<and> n < (c + 1) * m"
  then show "n div m = c" using m by (intro int_div_pos_eq [of n m c "n - c * m"]) (auto simp: algebra_simps)
qed

definition mapped :: "32 word \<Rightarrow> 128 word" where
  "mapped w = word_of_int (0xFFFF00000000 + uint w)"

lemma uint_word32_bound: "uint w < 4294967296" for w :: "32 word"
  using uint_bounded [of w] by simp

lemma uint_mapped: "uint (mapped w) = 0xFFFF00000000 + uint w"
proof -
  have "0 \<le> 0xFFFF00000000 + uint w" "0xFFFF00000000 + uint w < 2 ^ LENGTH(128)"
    using uint_word32_bound [of w] uint_ge_0 [of w] by simp_all
  then show ?thesis unfolding mapped_def uint_word_of_int by (rule mod_pos_pos_trivial)
qed

lemma is4In6_mapped: "is4In6 (mapped w)"
  using uint_word32_bound [of w] by (simp add: is4In6_def drop_bit_word_iff uint_mapped div_eq_range)

lemma ucast_mapped: "(ucast (mapped w) :: 32 word) = w"
proof -
  have "uint (ucast (mapped w) :: 32 word) = (0xFFFF00000000 + uint w) mod 4294967296"
    by (simp add: unsigned_ucast_eq take_bit_eq_mod uint_mapped)
  also have "\<dots> = uint w"
  proof -
    have "(0xFFFF00000000 + uint w) div 4294967296 = 65535"
      using uint_word32_bound [of w] uint_ge_0 [of w] by (simp add: div_eq_range)
    then show ?thesis unfolding minus_div_mult_eq_mod [symmetric] by simp
  qed
  finally show ?thesis by (simp only: word_uint_eq_iff)
qed

lemma v4_ranges:
  "IsLoopback (V4 w) \<longleftrightarrow> 0x7F000000 \<le> uint w \<and> uint w \<le> 0x7FFFFFFF"
  "IsPrivate (V4 w) \<longleftrightarrow> 0x0A000000 \<le> uint w \<and> uint w \<le> 0x0AFFFFFF
     \<or> 0xAC100000 \<le> uint w \<and> uint w \<le> 0xAC1FFFFF \<or> 0xC0A80000 \<le> uint w \<and> uint w \<le> 0xC0A8FFFF"
  "IsLinkLocalUnicast (V4 w) \<longleftrightarrow> 0xA9FE0000 \<le> uint w \<and> uint w \<le> 0xA9FEFFFF"
  "IsMulticast (V4 w) \<longleftrightarrow> 0xE0000000 \<le> uint w \<and> uint w \<le> 0xEFFFFFFF"
  "IsUnspecified (V4 w) \<longleftrightarrow> uint w = 0"
  by (auto simp: IsLoopback_def IsPrivate_def IsLinkLocalUnicast_def IsMulticast_def IsUnspecified_def
      drop_bit_word_iff div_eq_range uint_0_iff)

lemma isBlockedAddr_V4: "isBlockedAddr (V4 w) \<longleftrightarrow> blocked_v4 (uint w)"
  unfolding isBlockedAddr_def v4_ranges blocked_v4_def by auto

lemma isBlockedAddr_mapped: "isBlockedAddr (V6 (mapped w) z) \<longleftrightarrow> isBlockedAddr (V4 w) \<and> uint w \<noteq> 0"
proof -
  have "mapped w \<noteq> 0"
  proof
    assume "mapped w = 0"
    then have "0xFFFF00000000 + uint w = 0" using uint_mapped [of w] by simp
    with uint_ge_0 [of w] show False by linarith
  qed
  moreover have "\<not> blocked_v4 (uint w)" if "uint w = 0 \<and> \<not> IsUnspecified (V4 w)" for w
    using that by (simp add: v4_ranges)
  ultimately show ?thesis
    by (auto simp: isBlockedAddr_def IsLoopback_def IsPrivate_def IsLinkLocalUnicast_def IsMulticast_def
        IsUnspecified_def is4In6_mapped ucast_mapped uint_0_iff)
qed

text \<open>The IPv4 addresses the client refuses are exactly the unspecified address, the three private
  ranges, loopback, link-local and multicast; wrapped as a 4-in-6 address they are refused as well,
  with one exception: the wrapped unspecified address, which the kernel connects to the local host.\<close>

theorem blocked_addresses:
  "(isBlockedAddr (V4 w) \<longleftrightarrow> blocked_v4 (uint w))
   \<and> (isBlockedAddr (V6 (mapped w) z) \<longleftrightarrow> blocked_v4 (uint w) \<and> uint w \<noteq> 0)
   \<and> isBlockedAddr (V4 0) \<and> \<not> isBlockedAddr (V6 (mapped 0) z) \<and> isBlockedAddr Invalid"
proof -
  have "isBlockedAddr (V4 0)" by (simp add: isBlockedAddr_V4 blocked_v4_def)
  then show ?thesis
    by (simp add: isBlockedAddr_mapped isBlockedAddr_V4) (simp add: isBlockedAddr_def)
qed

subsection \<open>What the client connects to\<close>

text \<open>C17. With private hosts disallowed the dialer is never handed a blocked address: a literal is
  checked, a name is resolved, all its addresses are checked and the first of them is dialled as a
  literal. The name itself is handed on only when the resolver returned no address at all.\<close>

theorem dial_target_checked:
  assumes "DialContext N False addr = Inr tgt"
  shows "case tgt of
      DialAddr ip port \<Rightarrow> \<not> isBlockedAddr ip
        \<and> (\<exists>host. split_host_port N addr = Inr (host, port)
             \<and> (parse_addr N host = Some ip
                \<or> parse_addr N host = None \<and> (\<exists>ips. lookup_ip N host = Inr (ip # ips)
                     \<and> \<not> list_ex isBlockedAddr (ip # ips))))
    | DialName name \<Rightarrow> name = addr \<and> (\<exists>host port. split_host_port N addr = Inr (host, port)
             \<and> parse_addr N host = None \<and> lookup_ip N host = Inr [])"
proof -
  from assms obtain host port where sp: "split_host_port N addr = Inr (host, port)"
    by (auto simp: DialContext_def rbind_Inr_iff)
  show ?thesis
  proof (cases "parse_addr N host")
    case None
    then show ?thesis using assms sp
      by (auto simp: DialContext_def split: sum.splits if_splits list.splits)
  next
    case (Some ip)
    then show ?thesis using assms sp
      by (auto simp: DialContext_def split: if_splits)
  qed
qed

definition sample_net :: net where
  "sample_net = \<lparr>parse_url = (\<lambda>s. Inr \<lparr>Scheme = ''http'', Hostname = s, UserPassword = None\<rparr>),
     parse_addr = (\<lambda>s. if s = ''ten'' then Some (V4 0x0A000001) else None),
     split_host_port = (\<lambda>s. Inr (s, ''80'')),
     lookup_ip = (\<lambda>s. Inr [V4 0x08080808]), equal_fold = (\<lambda>a b. a = b)\<rparr>"

theorem dial_target_checked_witness:
  "DialContext sample_net False ''dns'' = Inr (DialAddr (V4 0x08080808) ''80'')
   \<and> \<not> isBlockedAddr (V4 0x08080808)"
proof -
  have "DialContext sample_net False ''dns'' = Inr (DialAddr (V4 0x08080808) ''80'')"
    by (simp add: DialContext_def sample_net_def isBlockedAddr_V4 blocked_v4_def)
  with dial_target_checked [OF this] show ?thesis by simp
qed

lemma follow_chain:
  "follow N allow next_hop fuel via = Inr chain \<Longrightarrow> via \<noteq> [] \<Longrightarrow>
     \<exists>new. chain = new @ via \<and> list_all (\<lambda>u. ValidateHTTPURL N u allow = Inr ()) new
        \<and> (new = [] \<or> length chain \<le> maxRedirects)"
proof (induction fuel arbitrary: via)
  case (Suc fuel)
  then obtain cur rest where via: "via = cur # rest" by (cases via) auto
  show ?case
  proof (cases "next_hop cur")
    case None
    with Suc.prems via show ?thesis by simp
  next
    case (Some url)
    with Suc.prems via have c: "CheckRedirect N allow url (length via) = Inr ()"
      and run: "follow N allow next_hop fuel (url # via) = Inr chain"
      by (auto simp: rbind_Inr_iff)
    from c have v: "length via < maxRedirects" "ValidateHTTPURL N url allow = Inr ()"
      by (auto simp: CheckRedirect_def split: if_splits)
    from Suc.IH [OF run] obtain new where new: "chain = new @ url # via"
      "list_all (\<lambda>u. ValidateHTTPURL N u allow = Inr ()) new" "new = [] \<or> length chain \<le> maxRedirects"
      by auto
    with v show ?thesis by (intro exI [of _ "new @ [url]"]) auto
  qed
qed simp

lemma follow_fuel: "length via + fuel = maxRedirects + 2 \<Longrightarrow> via \<noteq> [] \<Longrightarrow> length via \<le> maxRedirects \<Longrightarrow>
    follow N allow next_hop (fuel + n) via = follow N allow next_hop fuel via"
proof (induction fuel arbitrary: via)
  case (Suc fuel)
  then obtain cur rest where via: "via = cur # rest" by (cases via) auto
  show ?case
  proof (cases "length via < maxRedirects")
    case True
    with Suc.prems have "follow N allow next_hop (fuel + n) (u # via) = follow N allow next_hop fuel (u # via)" for u
      by (intro Suc.IH) auto
    with via show ?thesis by (simp split: option.split)
  next
    case False
    with via show ?thesis by (auto simp: CheckRedirect_def split: option.split)
  qed
qed simp

text \<open>A request follows at most five hops in all, every hop after the first passed the URL check,
  and the bound of the model is the code's: more fuel changes nothing.\<close>

theorem redirects_checked:
  "Do N allow next_hop url = follow N allow next_hop (maxRedirects + 1 + n) [url]
   \<and> (case Do N allow next_hop url of
        Inl _ \<Rightarrow> True
      | Inr chain \<Rightarrow> length chain \<le> 5 \<and> last chain = url
          \<and> list_all (\<lambda>u. ValidateHTTPURL N u allow = Inr ()) (butlast chain))"
proof (cases "Do N allow next_hop url")
  case (Inl e)
  then show ?thesis using follow_fuel [of "[url]" "maxRedirects + 1" N allow next_hop n]
    by (simp add: Do_def maxRedirects_def)
next
  case (Inr chain)
  then obtain new where "chain = new @ [url]" "list_all (\<lambda>u. ValidateHTTPURL N u allow = Inr ()) new"
    "new = [] \<or> length chain \<le> maxRedirects"
    using follow_chain [of N allow next_hop "maxRedirects + 1" "[url]" chain] by (auto simp: Do_def)
  with Inr show ?thesis using follow_fuel [of "[url]" "maxRedirects + 1" N allow next_hop n]
    by (auto simp: Do_def maxRedirects_def)
qed

end
