(* ===== verification/Collectors.thy ===== *)
theory Collectors
  imports Netx
begin

text \<open>
  \<open>internal/collectors\<close> (the items a collector yields, the RSS collector, the static collector, the
  feed configuration) and the polling schedule of \<open>cmd/factvault/worker.go\<close>. The feed parser
  (\<open>gofeed\<close>) and \<open>time.ParseDuration\<close> are arguments; times and durations are in nanoseconds.
\<close>

record Item =
  it_URL :: string
  it_HTML :: string
  it_Title :: string
  it_Publisher :: string
  it_PublishedAt :: "int option"
  it_Topic :: string
  it_Tags :: "string list"
  it_Meta :: "(string \<times> string) list"

record FeedSpec =
  fs_URL :: string
  fs_TenantID :: string
  fs_Topic :: string
  fs_Tags :: "string list"
  fs_Interval :: string
  fs_Name :: string

definition PollInterval :: "(string \<Rightarrow> int result) \<Rightarrow> FeedSpec \<Rightarrow> int \<Rightarrow> int" where
  "PollInterval parse_duration f defaultInterval =
     (if fs_Interval f = [] then defaultInterval
      else (case parse_duration (fs_Interval f) of
              Inl _ \<Rightarrow> defaultInterval
            | Inr dur \<Rightarrow> if dur \<le> 0 then defaultInterval else dur))"

subsection \<open>The RSS collector\<close>

text \<open>What the feed parser returns.\<close>

record feed_entry =
  Link :: string
  Description :: string
  Content :: string
  EntryTitle :: string
  PublishedParsed :: "int option"

record feed =
  FeedTitle :: string
  FeedItems :: "feed_entry option list"

definition Name :: "FeedSpec \<Rightarrow> string" where
  "Name spec = (if fs_Name spec \<noteq> [] then fs_Name spec else ''rss'')"

text \<open>One pass of the loop over \<open>feed.Items\<close>.\<close>

definition rss_item :: "FeedSpec \<Rightarrow> feed \<Rightarrow> feed_entry option \<Rightarrow> Item option" where
  "rss_item spec fd entry =
     (case entry of
        None \<Rightarrow> None
      | Some e \<Rightarrow>
        if Link e = [] then None
        else
          (let html0 = (if Content e \<noteq> [] then Content e else Description e);
               html = (if html0 = [] then EntryTitle e else html0)
           in Some \<lparr>it_URL = Link e, it_HTML = html, it_Title = EntryTitle e, it_Publisher = FeedTitle fd,
                 it_PublishedAt = PublishedParsed e, it_Topic = fs_Topic spec, it_Tags = fs_Tags spec,
                 it_Meta = []\<rparr>))"

definition Collect_rss ::
    "env \<Rightarrow> (string \<Rightarrow> http_response result) \<Rightarrow> (string \<Rightarrow> feed result) \<Rightarrow> FeedSpec \<Rightarrow> Item list result" where
  "Collect_rss env http parse_feed spec =
     (if fs_URL spec = [] then Err ''rss collector: feed url required''
      else rbind (http (fs_URL spec)) (\<lambda>resp.
        if \<not> status_ok resp then Err ''rss collector: status''
        else rbind (read_limited (maxFeedBytes env + 1) (Body resp)) (\<lambda>body.
          if int (length body) > maxFeedBytes env then Err ''rss collector: response body exceeds limit''
          else (case parse_feed body of
                  Inl e \<Rightarrow> Err (''rss collector: parse feed: '' @ e)
                | Inr fd \<Rightarrow> Ok (List.map_filter (rss_item spec fd) (FeedItems fd))))))"

definition Collect_static :: "Item list \<Rightarrow> Item list result" where
  "Collect_static items = Ok items"

subsection \<open>The polling schedule\<close>

record rssSchedule =
  feedIndex :: nat
  interval :: int

fun build_schedules ::
    "(string \<Rightarrow> int result) \<Rightarrow> nat \<Rightarrow> FeedSpec list \<Rightarrow> int \<Rightarrow> rssSchedule list" where
  "build_schedules pd i [] defaultInterval = []"
| "build_schedules pd i (f # fs) defaultInterval =
     (if trim_space (fs_TenantID f) = [] then build_schedules pd (i + 1) fs defaultInterval
      else \<lparr>feedIndex = i, interval = PollInterval pd f defaultInterval\<rparr>
             # build_schedules pd (i + 1) fs defaultInterval)"

definition buildRSSSchedules :: "(string \<Rightarrow> int result) \<Rightarrow> FeedSpec list \<Rightarrow> int \<Rightarrow> rssSchedule list" where
  "buildRSSSchedules pd feeds defaultInterval = build_schedules pd 0 feeds defaultInterval"

definition allScheduleIndexes :: "rssSchedule list \<Rightarrow> nat list" where
  "allScheduleIndexes schedules = map feedIndex schedules"

definition dueRSSFeedIndexes :: "rssSchedule list \<Rightarrow> (nat \<rightharpoonup> int) \<Rightarrow> int \<Rightarrow> nat list" where
  "dueRSSFeedIndexes schedules lastPolled t =
     map feedIndex (filter (\<lambda>s. case lastPolled (feedIndex s) of
        None \<Rightarrow> True | Some prev \<Rightarrow> t - prev \<ge> interval s) schedules)"

fun poll_wait_loop :: "rssSchedule list \<Rightarrow> (nat \<rightharpoonup> int) \<Rightarrow> int \<Rightarrow> int \<Rightarrow> int" where
  "poll_wait_loop [] lastPolled t minWait = minWait"
| "poll_wait_loop (s # ss) lastPolled t minWait =
     (case lastPolled (feedIndex s) of
        None \<Rightarrow> 0
      | Some prev \<Rightarrow>
        (let wait = max (interval s - (t - prev)) 0
         in poll_wait_loop ss lastPolled t (if minWait < 0 \<or> wait < minWait then wait else minWait)))"

definition nextRSSPollWait :: "rssSchedule list \<Rightarrow> (nat \<rightharpoonup> int) \<Rightarrow> int \<Rightarrow> int" where
  "nextRSSPollWait schedules lastPolled t =
     (if schedules = [] then 1000000000 else poll_wait_loop schedules lastPolled t (- 1))"

definition effectiveRSSTenant :: "bool \<Rightarrow> string \<Rightarrow> string \<Rightarrow> string \<Rightarrow> string \<times> bool" where
  "effectiveRSSTenant flagChanged flagValue feedTenantID devTenant =
     (if flagChanged then (flagValue, False)
      else if feedTenantID \<noteq> [] then (feedTenantID, False)
      else (devTenant, devTenant \<noteq> []))"

subsection \<open>Properties of the schedule\<close>

definition due :: "(nat \<rightharpoonup> int) \<Rightarrow> int \<Rightarrow> rssSchedule \<Rightarrow> bool" where
  "due lastPolled t s \<longleftrightarrow> (case lastPolled (feedIndex s) of None \<Rightarrow> True | Some prev \<Rightarrow> t - prev \<ge> interval s)"

lemma dueRSSFeedIndexes_eq: "dueRSSFeedIndexes schedules lp t = map feedIndex (filter (due lp t) schedules)"
  by (simp add: dueRSSFeedIndexes_def due_def [abs_def])

lemma poll_wait_loop_bounds:
  assumes "poll_wait_loop ss lp t m = w" and "\<forall>s \<in> set ss. \<not> due lp t s"
  shows "(m \<ge> 0 \<longrightarrow> w \<le> m) \<and> (\<forall>s \<in> set ss. \<forall>t' < t + w. \<not> due lp t' s)
    \<and> (w = m \<or> (\<exists>s \<in> set ss. 0 < w \<and> due lp (t + w) s)) \<and> (ss \<noteq> [] \<and> m < 0 \<longrightarrow> 0 < w)
    \<and> (m > 0 \<longrightarrow> 0 < w)"
  using assms
proof (induction ss arbitrary: m)
  case (Cons s ss)
  from Cons.prems(2) obtain prev where prev: "lp (feedIndex s) = Some prev" "t - prev < interval s"
    by (auto simp: due_def split: option.splits)
  let ?wait = "interval s - (t - prev)"
  let ?m = "if m < 0 \<or> ?wait < m then ?wait else m"
  from prev Cons.prems have run: "poll_wait_loop ss lp t ?m = w" by (auto simp: Let_def max_def)
  note ih = Cons.IH [OF run]
  have pos: "0 < ?wait" using prev by simp
  have ih': "0 \<le> ?m \<longrightarrow> w \<le> ?m" "\<forall>s \<in> set ss. \<forall>t' < t + w. \<not> due lp t' s"
    "w = ?m \<or> (\<exists>s \<in> set ss. 0 < w \<and> due lp (t + w) s)" "?m > 0 \<longrightarrow> 0 < w"
    using ih Cons.prems(2) by simp_all
  have m: "0 < ?m \<or> ?m = m \<and> 0 \<le> m" "?m \<le> ?wait" "0 \<le> m \<Longrightarrow> ?m \<le> m" "m < 0 \<or> 0 < m \<Longrightarrow> 0 < ?m"
    using pos by auto
  have s: "\<not> due lp t' s" if "t' < t + w" for t'
  proof -
    have "w \<le> ?wait" using ih'(1) m by linarith
    with that show ?thesis by (simp add: due_def prev)
  qed
  have "w = m \<or> (\<exists>s \<in> set (s # ss). 0 < w \<and> due lp (t + w) s)"
  proof (cases "w = ?m")
    case True
    show ?thesis
    proof (cases "?m = m")
      case False
      then have "?m = ?wait" by presburger
      with True pos have "0 < w" "due lp (t + w) s" by (simp_all add: due_def prev)
      then show ?thesis by auto
    qed (use True in simp)
  qed (use ih'(3) in auto)
  with s ih' m show ?case by auto
qed simp

lemma poll_wait_zero: "poll_wait_loop ss lp t 0 = 0"
  by (induction ss) (auto simp: Let_def max_def split: option.split)

lemma poll_wait_due: "\<exists>s \<in> set ss. due lp t s \<Longrightarrow> poll_wait_loop ss lp t m = 0"
proof (induction ss arbitrary: m)
  case (Cons s ss)
  show ?case
  proof (cases "due lp t s")
    case True
    then show ?thesis
      by (auto simp: due_def Let_def max_def poll_wait_zero split: option.splits)
  next
    case False
    with Cons show ?thesis by (auto simp: Let_def split: option.split)
  qed
qed simp

text \<open>Polling is exact: the loop is told to wait no time exactly when some feed is due, otherwise
  no feed becomes due before the wait is over and at its end one is.\<close>

theorem poll_wait_exact:
  assumes "schedules \<noteq> []" and "nextRSSPollWait schedules lp t = w"
  shows "0 \<le> w \<and> (w = 0 \<longleftrightarrow> dueRSSFeedIndexes schedules lp t \<noteq> [])
    \<and> (\<forall>t'. t \<le> t' \<and> t' < t + w \<longrightarrow> dueRSSFeedIndexes schedules lp t' = [])
    \<and> dueRSSFeedIndexes schedules lp (t + w) \<noteq> []"
proof (cases "\<exists>s \<in> set schedules. due lp t s")
  case True
  with assms have "w = 0" by (simp add: nextRSSPollWait_def poll_wait_due)
  with True show ?thesis by (auto simp: dueRSSFeedIndexes_eq filter_empty_conv)
next
  case False
  with assms poll_wait_loop_bounds [of schedules lp t "- 1" w]
  have "0 < w" "\<forall>s \<in> set schedules. \<forall>t' < t + w. \<not> due lp t' s"
    "w = - 1 \<or> (\<exists>s \<in> set schedules. due lp (t + w) s)"
    by (auto simp: nextRSSPollWait_def)
  with False show ?thesis by (auto simp: dueRSSFeedIndexes_eq filter_empty_conv)
qed

definition hourly :: rssSchedule where
  "hourly = \<lparr>feedIndex = 0, interval = 3600\<rparr>"

theorem poll_wait_exact_witness:
  "nextRSSPollWait [hourly] [0 \<mapsto> 100] 1000 = 2700
   \<and> dueRSSFeedIndexes [hourly] [0 \<mapsto> 100] (1000 + 2700) \<noteq> []"
proof -
  have "nextRSSPollWait [hourly] [0 \<mapsto> 100] 1000 = 2700"
    by (simp add: nextRSSPollWait_def hourly_def)
  with poll_wait_exact [OF _ this] show ?thesis by simp
qed

lemma build_schedules_feeds:
  "s \<in> set (build_schedules pd i feeds dflt) \<Longrightarrow>
     i \<le> feedIndex s \<and> feedIndex s < i + length feeds
     \<and> trim_space (fs_TenantID (feeds ! (feedIndex s - i))) \<noteq> []
     \<and> interval s = PollInterval pd (feeds ! (feedIndex s - i)) dflt"
proof (induction feeds arbitrary: i)
  case (Cons f fs)
  show ?case
  proof (cases "s \<in> set (build_schedules pd (i + 1) fs dflt)")
    case True
    from Cons.IH [OF this] show ?thesis by (auto simp: nth_Cons split: nat.split)
      (metis diff_Suc_Suc Suc_diff_Suc diff_Suc_1 less_eq_Suc_le nat.inject)+
  next
    case False
    with Cons.prems show ?thesis by (auto split: if_splits)
  qed
qed simp

text \<open>Only feeds with a tenant of their own are ever polled, so the fall-back to the development
  tenant that \<open>effectiveRSSTenant\<close> offers is never taken, and a feed without a tenant is skipped even
  when \<open>--tenant\<close> is given; the intervals are positive.\<close>

theorem scheduled_feeds_have_tenants:
  assumes "s \<in> set (buildRSSSchedules pd feeds dflt)"
  shows "feedIndex s < length feeds
    \<and> fs_TenantID (feeds ! feedIndex s) \<noteq> []
    \<and> \<not> snd (effectiveRSSTenant flagChanged flagValue (fs_TenantID (feeds ! feedIndex s)) devTenant)
    \<and> (0 < dflt \<longrightarrow> 0 < interval s)"
proof -
  have "trim_space (fs_TenantID (feeds ! feedIndex s)) \<noteq> []" "feedIndex s < length feeds"
    "interval s = PollInterval pd (feeds ! feedIndex s) dflt"
    using assms build_schedules_feeds [of s pd 0 feeds dflt] by (simp_all add: buildRSSSchedules_def)
  moreover from this(1) have "fs_TenantID (feeds ! feedIndex s) \<noteq> []" by (auto simp: trim_space_Nil)
  ultimately show ?thesis
    by (auto simp: effectiveRSSTenant_def PollInterval_def split: sum.split)
qed

definition own_feed :: FeedSpec where
  "own_feed = \<lparr>fs_URL = ''u'', fs_TenantID = ''t'', fs_Topic = [], fs_Tags = [], fs_Interval = [], fs_Name = []\<rparr>"

theorem scheduled_feeds_have_tenants_witness:
  "map interval (buildRSSSchedules (\<lambda>_. Inl []) [own_feed, own_feed\<lparr>fs_TenantID := []\<rparr>] 900) = [900]
   \<and> \<not> snd (effectiveRSSTenant True ''x'' (fs_TenantID ([own_feed, own_feed\<lparr>fs_TenantID := []\<rparr>] ! 0)) ''dev'')"
proof -
  let ?s = "buildRSSSchedules (\<lambda>_. Inl []) [own_feed, own_feed\<lparr>fs_TenantID := []\<rparr>] 900"
  have s: "?s = [\<lparr>feedIndex = 0, interval = 900\<rparr>]" by code_simp
  then have "\<lparr>feedIndex = 0, interval = 900\<rparr> \<in> set ?s" by simp
  from scheduled_feeds_have_tenants [OF this, of True "''x''" "''dev''"] s show ?thesis by simp
qed

end
