(* ===== verification/SourcePipeline.thy ===== *)
theory SourcePipeline
  imports Collectors Database
begin

text \<open>
  \<open>internal/workers/source_pipeline.go\<close>: collecting, archiving and re-verifying sources. Each entry
  point runs in one transaction of the tenant. What lies outside is in the record \<open>outside\<close>: the
  SHA-256 digest in hex, zlib, JSON encoding of the metadata, the network with its HTTP answers and
  the archive service's, all as functions of the request made during the run.
\<close>

record outside =
  sha256Hex :: "string \<Rightarrow> string"
  zlib_compress :: "string \<Rightarrow> string"
  zlib_inflate :: "string \<Rightarrow> string result"
  json_meta :: "(string \<times> string) list \<Rightarrow> string result"
  out_net :: net
  http_get :: "string \<Rightarrow> http_response result"
  http_post :: "string \<Rightarrow> http_response result"
  out_env :: env

subsection \<open>Text of a page\<close>

fun strip_tags :: "rune list \<Rightarrow> bool \<Rightarrow> string" where
  "strip_tags [] inTag = []"
| "strip_tags (r # rs) inTag =
     (if r = 60 then strip_tags rs True
      else if r = 62 then strip_tags rs False
      else if \<not> inTag then encode_rune r @ strip_tags rs inTag
      else strip_tags rs inTag)"

definition newline :: string where "newline = [CHR 0x0A]"

definition stripHTML :: "string \<Rightarrow> string" where
  "stripHTML html =
     (let s = foldl (\<lambda>s old. replace_all old newline s) html
                [''<br>'', ''<br/>'', ''<br />'', ''</p>'', ''</div>'']
      in trim_space (join '' '' (str_fields (strip_tags (runes s) False))))"

definition decompress :: "outside \<Rightarrow> string \<Rightarrow> string result" where
  "decompress W b =
     rbind (zlib_inflate W b) (\<lambda>out.
       if int (length out) > maxDecompressBytes (out_env W) then Err ''decompress zlib: output exceeds limit''
       else Ok out)"

definition nullable :: "string \<Rightarrow> string option" where
  "nullable s = (if trim_space s = [] then None else Some s)"

definition nullif_empty :: "string \<Rightarrow> string option" where
  "nullif_empty s = (if s = [] then None else Some s)"

subsection \<open>Collecting\<close>

definition item_publisher :: "Item \<Rightarrow> string" where
  "item_publisher item =
     (let publisher = trim_space (it_Publisher item)
      in if it_Topic item \<noteq> [] \<or> it_Tags item \<noteq> []
         then trim_space (publisher @ '' topic='' @ it_Topic item @ '' tags='' @ join '','' (it_Tags item))
         else publisher)"

definition item_meta :: "outside \<Rightarrow> Item \<Rightarrow> string" where
  "item_meta W item =
     (if it_Meta item \<noteq> [] then (case json_meta W (it_Meta item) of Inl _ \<Rightarrow> ''{}'' | Inr b \<Rightarrow> b) else ''{}'')"

definition source_of_item :: "outside \<Rightarrow> uuid \<Rightarrow> Item \<Rightarrow> uuid \<Rightarrow> int \<Rightarrow> source_row" where
  "source_of_item W t item i tm =
     \<lparr>so_id = i, so_tenant = t, so_url = it_URL item, so_fetched_at = tm,
      so_content_hash = sha256Hex W (it_HTML item),
      so_raw_html = Some (zlib_compress W (it_HTML item)), so_raw_text = None,
      so_archive_url = None, so_publisher = nullif_empty (item_publisher item),
      so_title = nullif_empty (it_Title item), so_published_at = it_PublishedAt item,
      so_embedding = None, so_last_verified_at = None, so_status = ''collected'',
      so_created = tm, so_meta = item_meta W item\<rparr>"

text \<open>The \<open>INSERT INTO sources ... ON CONFLICT (tenant_id, url) DO NOTHING\<close>.\<close>

definition insert_source :: "outside \<Rightarrow> uuid \<Rightarrow> Item \<Rightarrow> db \<Rightarrow> db result" where
  "insert_source W t item d =
     (let i = next_id d; d1 = d\<lparr>next_id := Suc i\<rparr>
      in if \<not> (pg_text_ok (it_URL item) \<and> pg_text_ok (it_Title item) \<and> pg_text_ok (item_publisher item)
               \<and> pg_text_ok (item_meta W item))
         then Err ''invalid byte sequence for encoding''
         else if list_ex (\<lambda>s. so_url s = it_URL item) (rls so_tenant t (sources d)) then Ok d1
         else Ok (d1\<lparr>sources := sources d @ [source_of_item W t item i (now d)]\<rparr>))"

text \<open>The loop of \<open>CollectOnce\<close>: an item whose insert fails is rolled back to its savepoint and
  skipped; the others stay.\<close>

fun collect_loop :: "outside \<Rightarrow> uuid \<Rightarrow> Item list \<Rightarrow> db \<Rightarrow> db" where
  "collect_loop W t [] d = d"
| "collect_loop W t (item # items) d =
     (if trim_space (it_URL item) = [] \<or> it_HTML item = [] then collect_loop W t items d
      else (case insert_source W t item d of
              Inl _ \<Rightarrow> collect_loop W t items d
            | Inr d1 \<Rightarrow> collect_loop W t items d1))"

definition CollectOnce :: "outside \<Rightarrow> pg_env \<Rightarrow> string \<Rightarrow> Item list result \<Rightarrow> db \<Rightarrow> db result" where
  "CollectOnce W pg tenantID collected d =
     (case scan_uuid pg tenantID of
        None \<Rightarrow> Err ''invalid tenant id''
      | Some t \<Rightarrow>
        (case collected of
           Inl e \<Rightarrow> Err (''collect: '' @ e)
         | Inr items \<Rightarrow> Ok (collect_loop W t items d)))"

subsection \<open>Archiving\<close>

definition submitWayback :: "outside \<Rightarrow> string \<Rightarrow> string" where
  "submitWayback W url =
     (case http_post W (''https://web.archive.org/save/'' @ url) of
        Inl _ \<Rightarrow> []
      | Inr resp \<Rightarrow>
        if \<not> status_ok resp then []
        else (let loc = Header resp ''Content-Location''
              in if loc = [] then []
                 else if has_prefix ''http'' loc then loc
                 else ''https://web.archive.org'' @ loc))"

definition pending_archive :: "uuid \<Rightarrow> int \<Rightarrow> db \<Rightarrow> source_row list" where
  "pending_archive t batch d =
     limit_rows batch (order_by so_fetched_at
       (filter (\<lambda>s. so_status s = ''collected'') (rls so_tenant t (sources d))))"

text \<open>A \<open>NULL\<close> \<open>raw_html\<close> is scanned as the empty byte slice.\<close>

definition archive_item :: "outside \<Rightarrow> uuid \<Rightarrow> source_row \<Rightarrow> db \<Rightarrow> db result" where
  "archive_item W t item d =
     rbind (decompress W (case so_raw_html item of None \<Rightarrow> [] | Some b \<Rightarrow> b)) (\<lambda>html.
       (let txt = stripHTML html; archiveURL = submitWayback W (so_url item)
        in if \<not> (pg_text_ok txt \<and> pg_text_ok archiveURL) then Err ''invalid byte sequence for encoding''
           else Ok (d\<lparr>sources := update_rows so_tenant t (\<lambda>s. so_id s = so_id item)
             (\<lambda>s. s\<lparr>so_raw_text := Some txt, so_archive_url := Some archiveURL, so_status := ''archived''\<rparr>)
             (sources d)\<rparr>)))"

definition archive_tx :: "outside \<Rightarrow> uuid \<Rightarrow> int \<Rightarrow> db \<Rightarrow> db result" where
  "archive_tx W t batch d = fold_res (archive_item W t) (pending_archive t batch d) d"

definition ArchiveOnce :: "outside \<Rightarrow> pg_env \<Rightarrow> string \<Rightarrow> int \<Rightarrow> db \<Rightarrow> db result" where
  "ArchiveOnce W pg tenantID batch0 d =
     (let batch = (if batch0 \<le> 0 then 100 else batch0)
      in case scan_uuid pg tenantID of
           None \<Rightarrow> Err ''invalid tenant id''
         | Some t \<Rightarrow> archive_tx W t batch d)"

subsection \<open>Verifying\<close>

definition maxVerifyBodyBytes :: int where "maxVerifyBodyBytes = 10 * 1024 * 1024"

text \<open>Status, new hash and notes.\<close>

definition verifySource :: "outside \<Rightarrow> string \<Rightarrow> string \<Rightarrow> string \<times> string \<times> string" where
  "verifySource W url oldHash =
     (case ValidatePublicHTTPURL (out_net W) url of
        Inl e \<Rightarrow> (''link-rot'', [], e)
      | Inr _ \<Rightarrow>
        (case http_get W url of
           Inl e \<Rightarrow> (''link-rot'', [], e)
         | Inr resp \<Rightarrow>
           if \<not> status_ok resp then (''link-rot'', [], ''status'')
           else (case read_limited (maxVerifyBodyBytes + 1) (Body resp) of
               Inl e \<Rightarrow> (''link-rot'', [], e)
             | Inr body \<Rightarrow>
               if int (length body) > maxVerifyBodyBytes
               then (''link-rot'', [], ''response too large: max 10485760 bytes'')
               else (let newHash = sha256Hex W body
                     in if newHash \<noteq> oldHash then (''content-changed'', newHash, [])
                        else (''live'', newHash, [])))))"

definition mapSourceStatus :: "string \<Rightarrow> string \<Rightarrow> string" where
  "mapSourceStatus verificationStatus currentStatus =
     (if verificationStatus = ''live'' then
        (if currentStatus = ''extracted'' then ''extracted'' else ''verified'')
      else if verificationStatus = ''content-changed'' then ''content-changed''
      else ''link-rot'')"

definition verifiable :: "string \<Rightarrow> bool" where
  "verifiable st \<longleftrightarrow> st \<in> {''archived'', ''extracted'', ''verified'', ''content-changed''}"

definition pending_verification :: "uuid \<Rightarrow> int \<Rightarrow> int \<Rightarrow> db \<Rightarrow> source_row list" where
  "pending_verification t cutoff batch d =
     limit_rows batch (order_by so_fetched_at
       (filter (\<lambda>s. verifiable (so_status s)
            \<and> (case so_last_verified_at s of None \<Rightarrow> True | Some v \<Rightarrow> v < cutoff))
          (rls so_tenant t (sources d))))"

definition verify_item :: "outside \<Rightarrow> uuid \<Rightarrow> source_row \<Rightarrow> db \<Rightarrow> db result" where
  "verify_item W t item d =
     (let (status, newHash, notes) = verifySource W (so_url item) (so_content_hash item);
          i = next_id d
      in if \<not> (pg_text_ok newHash \<and> pg_text_ok notes) then Err ''invalid byte sequence for encoding''
         else if \<not> list_ex (\<lambda>s. so_id s = so_id item) (rls so_tenant t (sources d))
         then Err ''violates foreign key constraint fk_source_verifications_source_tenant''
         else Ok (d\<lparr>next_id := Suc i,
           verifications := verifications d @
             [\<lparr>sv_id = i, sv_source = so_id item, sv_tenant = t, sv_verified_at = now d, sv_status = status,
               sv_new_hash = nullable newHash, sv_notes = nullable notes\<rparr>],
           sources := update_rows so_tenant t (\<lambda>s. so_id s = so_id item)
             (\<lambda>s. s\<lparr>so_status := mapSourceStatus status (so_status item), so_last_verified_at := Some (now d)\<rparr>)
             (sources d)\<rparr>))"

definition verify_tx :: "outside \<Rightarrow> uuid \<Rightarrow> int \<Rightarrow> int \<Rightarrow> db \<Rightarrow> db result" where
  "verify_tx W t ageDays batch d =
     fold_res (verify_item W t) (pending_verification t (now d - ageDays * 86400) batch d) d"

definition VerifyOnce :: "outside \<Rightarrow> pg_env \<Rightarrow> string \<Rightarrow> int \<Rightarrow> int \<Rightarrow> db \<Rightarrow> db result" where
  "VerifyOnce W pg tenantID ageDays0 batch0 d =
     (let ageDays = (if ageDays0 \<le> 0 then 7 else ageDays0);
          batch = (if batch0 \<le> 0 then 100 else batch0)
      in case scan_uuid pg tenantID of
           None \<Rightarrow> Err ''invalid tenant id''
         | Some t \<Rightarrow> verify_tx W t ageDays batch d)"

subsection \<open>The archived text\<close>

lemma strip_tags_no_angle: "c \<in> set (strip_tags rs b) \<Longrightarrow> byte c \<noteq> 60 \<and> byte c \<noteq> 62"
proof (induction rs arbitrary: b)
  case (Cons r rs)
  show ?case
  proof (cases "r \<noteq> 60 \<and> r \<noteq> 62 \<and> \<not> b \<and> c \<in> set (encode_rune r)")
    case True
    with encode_rune_ascii [of c r] show ?thesis by auto
  next
    case False
    with Cons show ?thesis by (auto split: if_splits)
  qed
qed simp

lemma stripHTML_no_tags: "c \<in> set (stripHTML html) \<Longrightarrow> byte c \<noteq> 60 \<and> byte c \<noteq> 62"
proof -
  let ?t = "strip_tags (runes (foldl (\<lambda>s old. replace_all old newline s) html
                [''<br>'', ''<br/>'', ''<br />'', ''</p>'', ''</div>''])) False"
  assume "c \<in> set (stripHTML html)"
  then have "c \<in> set (join '' '' (str_fields ?t))"
    using set_trim_space by (auto simp: stripHTML_def Let_def)
  then have "c = CHR '' '' \<or> c \<in> set ?t"
    using set_join [of "'' ''" "str_fields ?t"] set_str_fields by auto
  then show ?thesis
    using strip_tags_no_angle by (auto simp: byte_def)
qed

subsection \<open>Collecting\<close>

lemma insert_source_cases:
  assumes "insert_source W t item d = Inr d'"
  obtains (present) "d' = d\<lparr>next_id := Suc (next_id d)\<rparr>"
      "it_URL item \<in> so_url ` set (rls so_tenant t (sources d))"
  | (fresh) "d' = d\<lparr>next_id := Suc (next_id d),
                   sources := sources d @ [source_of_item W t item (next_id d) (now d)]\<rparr>"
      "it_URL item \<notin> so_url ` set (rls so_tenant t (sources d))"
proof (cases "list_ex (\<lambda>s. so_url s = it_URL item) (rls so_tenant t (sources d))")
  case True
  then have "it_URL item \<in> so_url ` set (rls so_tenant t (sources d))"
    by (force simp: list_ex_iff)
  moreover have "d' = d\<lparr>next_id := Suc (next_id d)\<rparr>"
    using assms True by (auto simp: insert_source_def Let_def split: if_splits)
  ultimately show ?thesis by (intro present)
next
  case False
  with assms show ?thesis
    by (intro fresh) (auto simp: insert_source_def Let_def list_ex_iff split: if_splits)
qed

text \<open>A collected row of an item.\<close>

definition collected_row :: "outside \<Rightarrow> uuid \<Rightarrow> Item list \<Rightarrow> source_row \<Rightarrow> bool" where
  "collected_row W t items r \<longleftrightarrow> so_tenant r = t \<and> so_status r = ''collected'' \<and> so_raw_text r = None
     \<and> (\<exists>item \<in> set items. it_HTML item \<noteq> [] \<and> so_url r = it_URL item
          \<and> so_raw_html r = Some (zlib_compress W (it_HTML item))
          \<and> so_content_hash r = sha256Hex W (it_HTML item))"

lemma collect_loop_sources:
  "\<exists>new n. collect_loop W t items d = d\<lparr>next_id := n, sources := sources d @ new\<rparr> \<and> next_id d \<le> n
     \<and> list_all (collected_row W t items) new
     \<and> list_all (\<lambda>r. next_id d \<le> so_id r \<and> so_id r < n) new \<and> distinct (map so_id new)
     \<and> distinct (map so_url new) \<and> so_url ` set new \<inter> so_url ` set (rls so_tenant t (sources d)) = {}"
proof (induction items arbitrary: d)
  case Nil
  show ?case by (intro exI [of _ "[]"] exI [of _ "next_id d"]) simp
next
  case (Cons item items)
  have weaken: "list_all (collected_row W t (item # items)) new" if "list_all (collected_row W t items) new" for new
    using that by (auto simp: list_all_iff collected_row_def)
  show ?case
  proof (cases "(trim_space (it_URL item) = [] \<or> it_HTML item = []) \<or> \<not> is_ok (insert_source W t item d)")
    case True
    then have run: "collect_loop W t (item # items) d = collect_loop W t items d"
      by (auto split: sum.split)
    obtain new n where ih: "collect_loop W t items d = d\<lparr>next_id := n, sources := sources d @ new\<rparr>"
      "next_id d \<le> n" "list_all (collected_row W t items) new"
      "list_all (\<lambda>r. next_id d \<le> so_id r \<and> so_id r < n) new" "distinct (map so_id new)"
      "distinct (map so_url new)" "so_url ` set new \<inter> so_url ` set (rls so_tenant t (sources d)) = {}"
      using Cons.IH [of d] by blast
    show ?thesis unfolding run
      by (intro exI [of _ new] exI [of _ n] conjI) (use ih weaken in blast)+
  next
    case False
    then obtain d1 where ins: "insert_source W t item d = Inr d1" and html: "it_HTML item \<noteq> []"
      by (cases "insert_source W t item d") auto
    with False have run: "collect_loop W t (item # items) d = collect_loop W t items d1" by simp
    obtain new n where ih: "collect_loop W t items d1 = d1\<lparr>next_id := n, sources := sources d1 @ new\<rparr>"
      "next_id d1 \<le> n" "list_all (collected_row W t items) new"
      "list_all (\<lambda>r. next_id d1 \<le> so_id r \<and> so_id r < n) new" "distinct (map so_id new)"
      "distinct (map so_url new)" "so_url ` set new \<inter> so_url ` set (rls so_tenant t (sources d1)) = {}"
      using Cons.IH [of d1] by blast
    from ins show ?thesis
    proof (cases rule: insert_source_cases)
      case present
      show ?thesis unfolding run
        by (intro exI [of _ new] exI [of _ n])
          (use ih weaken present(1) in \<open>auto simp: list_all_iff\<close>)
    next
      case fresh
      let ?r = "source_of_item W t item (next_id d) (now d)"
      have r: "collected_row W t (item # items) ?r" "so_tenant ?r = t" "so_id ?r = next_id d" "so_url ?r = it_URL item"
        using html by (auto simp: collected_row_def source_of_item_def)
      show ?thesis unfolding run
        by (intro exI [of _ "?r # new"] exI [of _ n])
          (use ih weaken r fresh in \<open>auto simp: list_all_iff\<close>)
    qed
  qed
qed

definition acceptable :: "outside \<Rightarrow> Item \<Rightarrow> bool" where
  "acceptable W item \<longleftrightarrow> trim_space (it_URL item) \<noteq> [] \<and> it_HTML item \<noteq> []
     \<and> pg_text_ok (it_URL item) \<and> pg_text_ok (it_Title item) \<and> pg_text_ok (item_publisher item)
     \<and> pg_text_ok (item_meta W item)"

lemma collect_loop_mono: "set (rls so_tenant t (sources d)) \<subseteq> set (rls so_tenant t (sources (collect_loop W t items d)))"
proof -
  obtain new n where "collect_loop W t items d = d\<lparr>next_id := n, sources := sources d @ new\<rparr>"
    using collect_loop_sources by blast
  then show ?thesis by auto
qed

lemma collect_loop_complete:
  "item \<in> set items \<Longrightarrow> acceptable W item \<Longrightarrow>
     it_URL item \<in> so_url ` set (rls so_tenant t (sources (collect_loop W t items d)))"
proof (induction items arbitrary: d)
  case (Cons a items)
  show ?case
  proof (cases "item = a")
    case True
    with Cons.prems have ok: "is_ok (insert_source W t item d)" and go: "trim_space (it_URL a) \<noteq> [] \<and> it_HTML a \<noteq> []"
      by (auto simp: insert_source_def acceptable_def Let_def)
    then obtain d1 where d1: "insert_source W t item d = Inr d1" by (cases "insert_source W t item d") auto
    then have "it_URL item \<in> so_url ` set (rls so_tenant t (sources d1))"
      by (cases rule: insert_source_cases) (auto simp: source_of_item_def)
    moreover have "collect_loop W t (a # items) d = collect_loop W t items d1"
      using d1 True go by simp
    ultimately show ?thesis using collect_loop_mono [of t d1 W items] by (simp only:) blast
  next
    case False
    with Cons show ?thesis by (auto split: sum.split)
  qed
qed simp

text \<open>Collecting appends one \<open>collected\<close> row, with the hash and the compressed bytes of its item,
  for every acceptable item whose URL is new to the tenant, and touches nothing else; a bad item costs
  the others nothing, and no tenant ever has a URL twice.\<close>

theorem collect_once_appends:
  assumes "CollectOnce W pg tenantID (Inr items) d = Inr d'"
  shows "\<exists>t new n. scan_uuid pg tenantID = Some t
     \<and> d' = d\<lparr>next_id := n, sources := sources d @ new\<rparr>
     \<and> list_all (collected_row W t items) new
     \<and> distinct (map so_url new) \<and> so_url ` set new \<inter> so_url ` set (rls so_tenant t (sources d)) = {}
     \<and> list_all (\<lambda>item. acceptable W item \<longrightarrow> it_URL item \<in> so_url ` set (rls so_tenant t (sources d'))) items"
proof -
  from assms obtain t where t: "scan_uuid pg tenantID = Some t" and d': "d' = collect_loop W t items d"
    by (auto simp: CollectOnce_def split: option.splits)
  obtain new n where new: "collect_loop W t items d = d\<lparr>next_id := n, sources := sources d @ new\<rparr>"
     "list_all (collected_row W t items) new" "distinct (map so_url new)"
     "so_url ` set new \<inter> so_url ` set (rls so_tenant t (sources d)) = {}"
    using collect_loop_sources by blast
  have "list_all (\<lambda>item. acceptable W item \<longrightarrow> it_URL item \<in> so_url ` set (rls so_tenant t (sources d'))) items"
    unfolding list_all_iff d' using collect_loop_complete by blast
  with t new d' show ?thesis by (intro exI [of _ t] exI [of _ new] exI [of _ n]) simp
qed

definition seed_item :: "string \<Rightarrow> Item" where
  "seed_item u = \<lparr>it_URL = u, it_HTML = ''<p>hi</p>'', it_Title = [], it_Publisher = ''p'',
     it_PublishedAt = None, it_Topic = [], it_Tags = [], it_Meta = []\<rparr>"

definition sample_outside :: outside where
  "sample_outside = \<lparr>sha256Hex = (\<lambda>b. ''h'' @ b), zlib_compress = (\<lambda>b. ''z'' @ b),
     zlib_inflate = (\<lambda>b. case b of [] \<Rightarrow> Inl ''header'' | _ # r \<Rightarrow> Inr r), json_meta = (\<lambda>_. Inr ''{}''),
     out_net = sample_net, http_get = (\<lambda>_. Inr \<lparr>StatusCode = 200, Header = (\<lambda>_. []), Body = (''<p>hi</p>'', None)\<rparr>),
     http_post = (\<lambda>_. Inl ''down''), out_env = Map.empty\<rparr>"

theorem collect_once_appends_witness:
  "\<exists>new n. (empty_db\<lparr>next_id := n, sources := new\<rparr> :: db)
       = (case CollectOnce sample_outside sample_pg ''t'' (Inr [seed_item '' '', seed_item ''a'', seed_item ''a'']) empty_db of
           Inl _ \<Rightarrow> empty_db | Inr d' \<Rightarrow> d')
     \<and> distinct (map so_url new) \<and> map so_status new = [''collected'']"
proof -
  let ?r = "CollectOnce sample_outside sample_pg ''t'' (Inr [seed_item '' '', seed_item ''a'', seed_item ''a'']) empty_db"
  have "(case ?r of Inl _ \<Rightarrow> False | Inr d' \<Rightarrow> map so_status (sources d') = [''collected''])" by code_simp
  then obtain d' where d': "?r = Inr d'" "map so_status (sources d') = [''collected'']" by (cases ?r) simp_all
  from collect_once_appends [OF d'(1)] obtain new n where
    "d' = empty_db\<lparr>next_id := n, sources := sources empty_db @ new\<rparr>" "distinct (map so_url new)" by blast
  with d' show ?thesis by (intro exI [of _ new] exI [of _ n]) (auto simp: empty_db_def)
qed

subsection \<open>Updates of the loaded rows\<close>

lemma fold_updates:
  assumes g: "\<And>i s. so_id (g i s) = so_id s" "\<And>i s. so_tenant (g i s) = so_tenant s"
    and "distinct (map so_id items)"
  shows "foldl (\<lambda>rows item. update_rows so_tenant t (\<lambda>s. so_id s = so_id item) (g item) rows) rows items
    = map (\<lambda>s. if so_tenant s = t then (case find (\<lambda>i. so_id i = so_id s) items of None \<Rightarrow> s | Some i \<Rightarrow> g i s)
             else s) rows"
  using assms(3)
proof (induction items arbitrary: rows)
  case (Cons a items)
  have none: "find (\<lambda>i. so_id i = so_id a) items = None"
    using Cons.prems by (auto simp: find_None_iff) (metis imageI)
  from Cons show ?case
    by (auto simp: update_rows_def g none cong: option.case_cong)
qed (simp add: map_idI)

lemma fold_updates_own:
  assumes g: "\<And>i s. so_id (g i s) = so_id s" "\<And>i s. so_tenant (g i s) = so_tenant s"
    and ids: "distinct (map so_id rows)" "distinct items" "set items \<subseteq> set (rls so_tenant t rows)"
  shows "foldl (\<lambda>rows item. update_rows so_tenant t (\<lambda>s. so_id s = so_id item) (g item) rows) rows items
    = map (\<lambda>s. if s \<in> set items then g s s else s) rows"
proof -
  have inj: "inj_on so_id (set rows)" using ids(1) by (simp add: distinct_map)
  have "distinct (map so_id items)"
    unfolding distinct_map
  proof
    have "set items \<subseteq> set rows" using ids(3) by auto
    with inj show "inj_on so_id (set items)" by (rule inj_on_subset)
  qed (rule ids(2))
  moreover have "(if so_tenant s = t then (case find (\<lambda>i. so_id i = so_id s) items of None \<Rightarrow> s | Some i \<Rightarrow> g i s)
             else s) = (if s \<in> set items then g s s else s)" if s: "s \<in> set rows" for s
  proof (cases "find (\<lambda>i. so_id i = so_id s) items")
    case None
    then have "s \<notin> set items" by (auto simp: find_None_iff)
    with None show ?thesis by simp
  next
    case (Some i)
    then have "i \<in> set items" "so_id i = so_id s" by (auto simp: find_Some_iff)
    have "i \<in> set rows" using \<open>i \<in> set items\<close> ids(3) by auto
    with \<open>so_id i = so_id s\<close> s have "i = s" by (intro inj_onD [OF inj])
    with Some \<open>i \<in> set items\<close> ids(3) show ?thesis by auto
  qed
  ultimately show ?thesis by (simp add: fold_updates g cong: map_cong)
qed

subsection \<open>Archiving\<close>

definition page_text :: "outside \<Rightarrow> source_row \<Rightarrow> string result" where
  "page_text W s =
     rbind (decompress W (case so_raw_html s of None \<Rightarrow> [] | Some b \<Rightarrow> b)) (\<lambda>html. Ok (stripHTML html))"

definition archivable :: "outside \<Rightarrow> source_row \<Rightarrow> bool" where
  "archivable W s \<longleftrightarrow> (case page_text W s of Inl _ \<Rightarrow> False | Inr txt \<Rightarrow> pg_text_ok txt)
     \<and> pg_text_ok (submitWayback W (so_url s))"

definition archived :: "outside \<Rightarrow> source_row \<Rightarrow> source_row \<Rightarrow> source_row" where
  "archived W item s = s\<lparr>so_raw_text := Some (case page_text W item of Inl _ \<Rightarrow> [] | Inr txt \<Rightarrow> txt),
     so_archive_url := Some (submitWayback W (so_url item)), so_status := ''archived''\<rparr>"

lemma archive_item_eq:
  "archivable W item \<Longrightarrow> archive_item W t item d =
     Inr (d\<lparr>sources := update_rows so_tenant t (\<lambda>s. so_id s = so_id item) (archived W item) (sources d)\<rparr>)"
  "\<not> archivable W item \<Longrightarrow> \<not> is_ok (archive_item W t item d)"
  by (auto simp: archivable_def archive_item_def page_text_def archived_def [abs_def] rbind_def Let_def
      split: sum.splits)

lemma archive_fold:
  "if list_all (archivable W) items
   then fold_res (archive_item W t) items d = Inr (d\<lparr>sources :=
      foldl (\<lambda>rows item. update_rows so_tenant t (\<lambda>s. so_id s = so_id item) (archived W item) rows) (sources d) items\<rparr>)
   else \<not> is_ok (fold_res (archive_item W t) items d)"
proof (induction items arbitrary: d)
  case (Cons a items)
  show ?case
  proof (cases "archivable W a")
    case True
    with Cons show ?thesis by (auto simp: archive_item_eq(1))
  next
    case False
    then show ?thesis using archive_item_eq(2) [OF False, of t d] by (auto split: sum.split)
  qed
qed simp

lemma pending_archive_subset: "set (pending_archive t batch d) \<subseteq> set (rls so_tenant t (sources d))"
  by (auto simp: pending_archive_def)

lemma pending_archive_status: "s \<in> set (pending_archive t batch d) \<Longrightarrow> so_status s = ''collected''"
  by (auto simp: pending_archive_def)

lemma distinct_limit_order: "distinct rows \<Longrightarrow> distinct (limit_rows n (order_by k (filter p rows)))"
  by (simp add: limit_rows_def order_by_def)

lemma distinct_rls: "distinct (map so_id rows) \<Longrightarrow> distinct (rls so_tenant t rows)"
  by (auto simp: rls_def distinct_map)

lemma archived_keys [simp]: "so_id (archived W i s) = so_id s" "so_tenant (archived W i s) = so_tenant s"
  "so_url (archived W i s) = so_url s" "so_status (archived W i s) = ''archived''"
  by (simp_all add: archived_def)

lemma archive_all_or_nothing_lemma:
  assumes "distinct (map so_id (sources d))"
  shows "if list_all (archivable W) (pending_archive t batch d)
    then archive_tx W t batch d = Inr (d\<lparr>sources :=
           map (\<lambda>s. if s \<in> set (pending_archive t batch d) then archived W s s else s) (sources d)\<rparr>)
    else \<not> is_ok (archive_tx W t batch d)"
proof -
  have "distinct (pending_archive t batch d)"
    using assms by (simp add: pending_archive_def distinct_limit_order distinct_rls)
  then show ?thesis
    using archive_fold [of W "pending_archive t batch d" t d]
      fold_updates_own [of "archived W", OF _ _ assms _ pending_archive_subset]
    by (simp add: archive_tx_def)
qed

text \<open>C12. Archiving is all or nothing: either every page of the batch can be stored and exactly the
  loaded rows get their text, archive link and status, or the run fails and nothing is stored. One
  page that cannot be stored (its stripped text holds a NUL byte, say) therefore blocks its batch,
  and with it every later run, which loads the same rows first.\<close>

theorem archive_all_or_nothing:
  assumes "distinct (map so_id (sources d))"
  shows "if list_all (archivable W) (pending_archive t batch d)
    then archive_tx W t batch d = Inr (d\<lparr>sources :=
           map (\<lambda>s. if s \<in> set (pending_archive t batch d) then archived W s s else s) (sources d)\<rparr>)
    else \<not> is_ok (archive_tx W t batch d)"
  using assms by (rule archive_all_or_nothing_lemma)

definition collected_source :: "nat \<Rightarrow> string \<Rightarrow> source_row" where
  "collected_source i html = source_of_item sample_outside 1 ((seed_item (replicate i CHR ''a''))\<lparr>it_HTML := html\<rparr>) i (int i)"

definition one_page :: db where
  "one_page = empty_db\<lparr>sources := [collected_source 2 ''x'']\<rparr>"

definition poisoned_batch :: db where
  "poisoned_batch = empty_db\<lparr>sources := [collected_source 2 ''x'', collected_source 3 [CHR 0x00]]\<rparr>"

theorem archive_all_or_nothing_witness:
  "(case archive_tx sample_outside 1 10 one_page of Inl _ \<Rightarrow> [] | Inr d' \<Rightarrow> map so_raw_text (sources d')) = [Some ''x'']
   \<and> \<not> is_ok (archive_tx sample_outside 1 10 poisoned_batch)"
proof -
  have ids: "distinct (map so_id (sources one_page))" "distinct (map so_id (sources poisoned_batch))"
    by (simp_all add: one_page_def poisoned_batch_def collected_source_def source_of_item_def)
  have p1: "pending_archive 1 10 one_page = [collected_source 2 ''x'']"
    and p2: "pending_archive 1 10 poisoned_batch = [collected_source 2 ''x'', collected_source 3 [CHR 0x00]]"
    by (simp_all add: pending_archive_def one_page_def poisoned_batch_def collected_source_def
        source_of_item_def order_by_def limit_rows_def)
  have html: "stripHTML ''x'' = ''x''" "stripHTML [CHR 0x00] = [CHR 0x00]"
    "decompress sample_outside ''zx'' = Inr ''x''" "decompress sample_outside (''z'' @ [CHR 0x00]) = Inr [CHR 0x00]"
    by code_simp+
  then have t1: "page_text sample_outside (collected_source 2 ''x'') = Inr ''x''"
    and t2: "page_text sample_outside (collected_source 3 [CHR 0x00]) = Inr [CHR 0x00]"
    by (simp_all add: page_text_def collected_source_def source_of_item_def sample_outside_def)
  have u: "pg_text_ok ''x''" "\<not> pg_text_ok [CHR 0x00]" "pg_text_ok []" by code_simp+
  have w: "submitWayback sample_outside u = []" for u
    by (simp add: submitWayback_def sample_outside_def)
  have ok: "list_all (archivable sample_outside) (pending_archive 1 10 one_page)"
    unfolding p1 by (simp add: archivable_def t1 w u)
  have bad: "\<not> list_all (archivable sample_outside) (pending_archive 1 10 poisoned_batch)"
    unfolding p2 by (simp add: archivable_def t2 w u)
  have page: "map so_raw_text (map (\<lambda>s. if s \<in> set (pending_archive 1 10 one_page) then archived sample_outside s s else s)
      (sources one_page)) = [Some ''x'']"
    unfolding p1 by (simp add: one_page_def archived_def t1)
  have "archive_tx sample_outside 1 10 one_page = Inr (one_page\<lparr>sources :=
      map (\<lambda>s. if s \<in> set (pending_archive 1 10 one_page) then archived sample_outside s s else s) (sources one_page)\<rparr>)"
    using archive_all_or_nothing [OF ids(1), of sample_outside 1 10] ok by presburger
  moreover have "\<not> is_ok (archive_tx sample_outside 1 10 poisoned_batch)"
    using archive_all_or_nothing [OF ids(2), of sample_outside 1 10] bad by presburger
  ultimately show ?thesis using page by (simp only: sum.case) simp
qed

text \<open>Round trip: the bytes a collector delivered come back out of the compressed column, so the
  text archived for a freshly collected source is the stripped page, provided zlib inverts itself and
  the page is within the decompression limit; and no archived text contains an angle bracket.\<close>

theorem archive_roundtrip:
  assumes "\<And>b. zlib_inflate W (zlib_compress W b) = Inr b"
    and "int (length (it_HTML item)) \<le> maxDecompressBytes (out_env W)"
  shows "page_text W (source_of_item W t item i tm) = Inr (stripHTML (it_HTML item))
    \<and> so_raw_text (archived W (source_of_item W t item i tm) s) = Some (stripHTML (it_HTML item))
    \<and> list_all (\<lambda>c. c \<noteq> CHR ''<'' \<and> c \<noteq> CHR ''>'') (stripHTML (it_HTML item))"
proof -
  have "byte CHR ''<'' = 60" "byte CHR ''>'' = 62" by (simp_all add: byte_def)
  then have "list_all (\<lambda>c. c \<noteq> CHR ''<'' \<and> c \<noteq> CHR ''>'') (stripHTML html)" for html
    using stripHTML_no_tags by (auto simp: list_all_iff)
  with assms show ?thesis by (simp add: page_text_def archived_def decompress_def source_of_item_def)
qed

theorem archive_roundtrip_witness:
  "page_text sample_outside (source_of_item sample_outside 1 (seed_item ''u'') 2 0) = Inr (stripHTML ''<p>hi</p>'')"
proof -
  have "zlib_inflate sample_outside (zlib_compress sample_outside b) = Inr b" for b
    by (simp add: sample_outside_def)
  moreover have "maxDecompressBytes (out_env sample_outside) = 104857600" by code_simp
  ultimately show ?thesis
    using archive_roundtrip [of sample_outside "seed_item ''u''" 1 2 0] by (simp add: seed_item_def)
qed

subsection \<open>Verifying\<close>

definition verified_row :: "outside \<Rightarrow> int \<Rightarrow> source_row \<Rightarrow> source_row \<Rightarrow> source_row" where
  "verified_row W tm item s = s\<lparr>so_status := mapSourceStatus (fst (verifySource W (so_url item) (so_content_hash item)))
       (so_status item), so_last_verified_at := Some tm\<rparr>"

definition notes_ok :: "outside \<Rightarrow> source_row \<Rightarrow> bool" where
  "notes_ok W s \<longleftrightarrow> (case verifySource W (so_url s) (so_content_hash s) of (status, newHash, notes) \<Rightarrow>
     pg_text_ok newHash \<and> pg_text_ok notes)"

lemma verified_row_keys [simp]: "so_id (verified_row W tm i s) = so_id s" "so_tenant (verified_row W tm i s) = so_tenant s"
  "so_raw_text (verified_row W tm i s) = so_raw_text s"
  by (simp_all add: verified_row_def)

text \<open>The row a check appends.\<close>

definition verification_for :: "outside \<Rightarrow> uuid \<Rightarrow> int \<Rightarrow> source_row \<Rightarrow> verification_row \<Rightarrow> bool" where
  "verification_for W t tm s v \<longleftrightarrow> sv_source v = so_id s \<and> sv_tenant v = t \<and> sv_verified_at v = tm
     \<and> sv_status v = fst (verifySource W (so_url s) (so_content_hash s))"

lemma rls_update_ids:
  assumes "\<And>s. so_id (g s) = so_id s" and "\<And>s. so_tenant (g s) = so_tenant s"
  shows "map so_id (rls so_tenant t (update_rows so_tenant t' p g rows)) = map so_id (rls so_tenant t rows)"
  using assms by (induction rows) (auto simp: update_rows_def)

lemma verify_item_cases:
  assumes "verify_item W t item d = Inr d'"
  obtains v where "d' = d\<lparr>next_id := Suc (next_id d), verifications := verifications d @ [v],
      sources := update_rows so_tenant t (\<lambda>s. so_id s = so_id item) (verified_row W (now d) item) (sources d)\<rparr>"
    "verification_for W t (now d) item v" "notes_ok W item"
proof -
  obtain st h n where v: "verifySource W (so_url item) (so_content_hash item) = (st, h, n)"
    by (cases "verifySource W (so_url item) (so_content_hash item)")
  let ?v = "\<lparr>sv_id = next_id d, sv_source = so_id item, sv_tenant = t, sv_verified_at = now d, sv_status = st,
      sv_new_hash = nullable h, sv_notes = nullable n\<rparr>"
  from assms have "d' = d\<lparr>next_id := Suc (next_id d), verifications := verifications d @ [?v],
      sources := update_rows so_tenant t (\<lambda>s. so_id s = so_id item) (verified_row W (now d) item) (sources d)\<rparr>"
    and "pg_text_ok h \<and> pg_text_ok n"
    by (simp_all add: verify_item_def v Let_def verified_row_def [abs_def] split: if_splits)
  then show thesis
    by (intro that [of ?v]) (simp_all add: verification_for_def notes_ok_def v)
qed

lemma verify_item_ok:
  assumes "notes_ok W item" and "so_id item \<in> so_id ` set (rls so_tenant t (sources d))"
  shows "is_ok (verify_item W t item d)"
proof -
  have "list_ex (\<lambda>s. so_id s = so_id item) (rls so_tenant t (sources d))"
    using assms(2) unfolding list_ex_iff by (metis imageE)
  with assms(1) show ?thesis
    by (auto simp: verify_item_def notes_ok_def Let_def split: prod.splits)
qed

lemma verify_fold:
  assumes "list_all (notes_ok W) items" and "so_id ` set items \<subseteq> so_id ` set (rls so_tenant t (sources d))"
  shows "\<exists>vs. fold_res (verify_item W t) items d = Inr (d\<lparr>next_id := next_id d + length items,
      verifications := verifications d @ vs,
      sources := foldl (\<lambda>rows item. update_rows so_tenant t (\<lambda>s. so_id s = so_id item) (verified_row W (now d) item) rows)
        (sources d) items\<rparr>) \<and> list_all2 (verification_for W t (now d)) items vs"
  using assms
proof (induction items arbitrary: d)
  case Nil
  show ?case by (intro exI [of _ "[]"]) simp
next
  case (Cons a items)
  then have "is_ok (verify_item W t a d)" by (intro verify_item_ok) auto
  then obtain d1 where d1: "verify_item W t a d = Inr d1" by (cases "verify_item W t a d") auto
  then obtain v where v: "d1 = d\<lparr>next_id := Suc (next_id d), verifications := verifications d @ [v],
      sources := update_rows so_tenant t (\<lambda>s. so_id s = so_id a) (verified_row W (now d) a) (sources d)\<rparr>"
    "verification_for W t (now d) a v" by (rule verify_item_cases)
  have keep: "map so_id (rls so_tenant t (sources d1)) = map so_id (rls so_tenant t (sources d))"
    by (simp add: v(1) rls_update_ids)
  have "so_id ` set items \<subseteq> so_id ` set (rls so_tenant t (sources d))" using Cons.prems(2) by simp
  with arg_cong [OF keep, of set] have "so_id ` set items \<subseteq> so_id ` set (rls so_tenant t (sources d1))" by simp
  with Cons.IH [of d1] Cons.prems obtain vs where vs: "fold_res (verify_item W t) items d1 = Inr (d1\<lparr>next_id := next_id d1 + length items,
      verifications := verifications d1 @ vs,
      sources := foldl (\<lambda>rows item. update_rows so_tenant t (\<lambda>s. so_id s = so_id item) (verified_row W (now d1) item) rows)
        (sources d1) items\<rparr>)" "list_all2 (verification_for W t (now d1)) items vs" by auto
  show ?case
    by (intro exI [of _ "v # vs"]) (use d1 vs v in simp)
qed

lemma pending_verification_subset: "set (pending_verification t cutoff batch d) \<subseteq> set (rls so_tenant t (sources d))"
  by (auto simp: pending_verification_def)

lemma verify_tx_ok:
  assumes ids: "distinct (map so_id (sources d))"
    and ok: "list_all (notes_ok W) (pending_verification t (now d - ageDays * 86400) batch d)"
  shows "\<exists>vs n. verify_tx W t ageDays batch d = Inr (d\<lparr>next_id := next_id d + n,
       verifications := verifications d @ vs,
       sources := map (\<lambda>s. if s \<in> set (pending_verification t (now d - ageDays * 86400) batch d)
                            then verified_row W (now d) s s else s) (sources d)\<rparr>)
     \<and> list_all2 (verification_for W t (now d)) (pending_verification t (now d - ageDays * 86400) batch d) vs"
proof -
  let ?p = "pending_verification t (now d - ageDays * 86400) batch d"
  have dist: "distinct ?p"
    using ids by (simp add: pending_verification_def distinct_limit_order distinct_rls)
  have "so_id ` set ?p \<subseteq> so_id ` set (rls so_tenant t (sources d))"
    using pending_verification_subset by (rule image_mono)
  from verify_fold [OF ok this] obtain vs where
    vs: "fold_res (verify_item W t) ?p d = Inr (d\<lparr>next_id := next_id d + length ?p,
      verifications := verifications d @ vs,
      sources := foldl (\<lambda>rows item. update_rows so_tenant t (\<lambda>s. so_id s = so_id item) (verified_row W (now d) item) rows)
        (sources d) ?p\<rparr>)" "list_all2 (verification_for W t (now d)) ?p vs" by blast
  have "foldl (\<lambda>rows item. update_rows so_tenant t (\<lambda>s. so_id s = so_id item) (verified_row W (now d) item) rows)
        (sources d) ?p = map (\<lambda>s. if s \<in> set ?p then verified_row W (now d) s s else s) (sources d)"
    by (rule fold_updates_own [OF _ _ ids dist pending_verification_subset]) simp_all
  with vs show ?thesis by (intro exI [of _ vs] exI [of _ "length ?p"]) (simp add: verify_tx_def)
qed

lemma verify_fold_notes: "fold_res (verify_item W t) items d = Inr d' \<Longrightarrow> list_all (notes_ok W) items"
  by (induction items arbitrary: d) (auto split: sum.splits elim: verify_item_cases)

lemma verify_tx_result:
  assumes ids: "distinct (map so_id (sources d))" and run: "verify_tx W t ageDays batch d = Inr d'"
  obtains vs n where "d' = d\<lparr>next_id := next_id d + n, verifications := verifications d @ vs,
       sources := map (\<lambda>s. if s \<in> set (pending_verification t (now d - ageDays * 86400) batch d)
                            then verified_row W (now d) s s else s) (sources d)\<rparr>"
    "list_all2 (verification_for W t (now d)) (pending_verification t (now d - ageDays * 86400) batch d) vs"
proof -
  have "list_all (notes_ok W) (pending_verification t (now d - ageDays * 86400) batch d)"
    using run verify_fold_notes unfolding verify_tx_def by blast
  from verify_tx_ok [OF ids this] run that show ?thesis by force
qed

text \<open>C13. A verification run records exactly one outcome per loaded source, in order and on top of the
  earlier ones, and moves exactly those sources: \<open>extracted\<close> stays so while the page is unchanged, any
  other unchanged source becomes \<open>verified\<close> (an \<open>archived\<close> one included, which the extractor then no
  longer loads), and a source gone dead becomes \<open>link-rot\<close>, which no later run loads again.\<close>

theorem verify_records_outcomes:
  assumes "distinct (map so_id (sources d))"
    and "list_all (notes_ok W) (pending_verification t (now d - ageDays * 86400) batch d)"
  shows "\<exists>vs d'. verify_tx W t ageDays batch d = Inr d'
     \<and> verifications d' = verifications d @ vs
     \<and> list_all2 (verification_for W t (now d)) (pending_verification t (now d - ageDays * 86400) batch d) vs
     \<and> sources d' = map (\<lambda>s. if s \<in> set (pending_verification t (now d - ageDays * 86400) batch d)
                            then verified_row W (now d) s s else s) (sources d)
     \<and> statements d' = statements d \<and> statement_sources d' = statement_sources d \<and> entities d' = entities d
     \<and> mapSourceStatus ''live'' ''archived'' = ''verified''
     \<and> \<not> verifiable (mapSourceStatus ''link-rot'' (so_status s))"
proof -
  have "mapSourceStatus ''live'' ''archived'' = ''verified''"
    "\<not> verifiable (mapSourceStatus ''link-rot'' (so_status s))"
    by (simp_all add: mapSourceStatus_def verifiable_def)
  with verify_tx_ok [OF assms] show ?thesis by force
qed

definition stale_archived :: db where
  "stale_archived = empty_db\<lparr>sources := [(collected_source 2 ''<p>hi</p>'')\<lparr>so_status := ''archived'',
     so_content_hash := ''h<p>hi</p>''\<rparr>]\<rparr>"

theorem verify_records_outcomes_witness:
  "\<exists>d'. verify_tx sample_outside 1 7 10 stale_archived = Inr (d' :: db) \<and> map so_status (sources d') = [''verified'']
     \<and> map sv_status (verifications d') = [''live'']"
proof -
  have ids: "distinct (map so_id (sources stale_archived))" by (simp add: stale_archived_def)
  have p: "pending_verification 1 (now stale_archived - 7 * 86400) 10 stale_archived = sources stale_archived"
    by (simp add: pending_verification_def stale_archived_def verifiable_def collected_source_def
        source_of_item_def order_by_def limit_rows_def)
  have v: "verifySource sample_outside u ''h<p>hi</p>'' = (''live'', ''h<p>hi</p>'', [])"
    if "u = ''aa''" for u
    unfolding that by code_simp
  have u: "so_url (collected_source 2 x) = ''aa''" for x
    by (simp add: collected_source_def source_of_item_def seed_item_def numeral_2_eq_2)
  have "pg_text_ok ''h<p>hi</p>''" "pg_text_ok []" by code_simp+
  then have "list_all (notes_ok sample_outside) (sources stale_archived)"
    by (simp add: stale_archived_def notes_ok_def v u)
  with verify_records_outcomes [OF ids, of sample_outside 1 7 10] obtain vs d' where
    d': "verify_tx sample_outside 1 7 10 stale_archived = Inr d'" "verifications d' = verifications stale_archived @ vs"
      "list_all2 (verification_for sample_outside 1 (now stale_archived)) (sources stale_archived) vs"
      "sources d' = map (\<lambda>s. if s \<in> set (sources stale_archived)
                            then verified_row sample_outside (now stale_archived) s s else s) (sources stale_archived)"
    unfolding p by blast
  then show ?thesis
    by (intro exI [of _ d'])
      (auto simp: stale_archived_def empty_db_def verified_row_def v u mapSourceStatus_def list_all2_Cons1 verification_for_def)
qed

subsection \<open>Tenant isolation\<close>

lemma collect_loop_view: "t' \<noteq> t \<Longrightarrow> view t' (collect_loop W t items d) = view t' d"
proof -
  assume "t' \<noteq> t"
  obtain new n where new: "collect_loop W t items d = d\<lparr>next_id := n, sources := sources d @ new\<rparr>"
    "list_all (collected_row W t items) new" using collect_loop_sources by blast
  have "list_all (\<lambda>r. so_tenant r = t) new"
    using new(2) by (auto simp: list_all_iff collected_row_def)
  then have "rls so_tenant t' new = []" using \<open>t' \<noteq> t\<close> by (induction new) auto
  with new(1) show ?thesis by (simp add: view_def)
qed

interpretation collect_op: tenant_op "\<lambda>t items d. (Inr (collect_loop W t items d) :: string + db)" for W
  by unfold_locales (auto simp: collect_loop_view)

lemma archive_item_view: "archive_item W t item d = Inr d' \<Longrightarrow> t' \<noteq> t \<Longrightarrow> view t' d' = view t' d"
  by (auto simp: archive_item_def rbind_Inr_iff Let_def view_def tenant_simps split: if_splits)

interpretation archive_op: tenant_op "\<lambda>t item d. archive_item W t item d" for W
  by unfold_locales (rule archive_item_view)

lemma verify_item_view: "verify_item W t item d = Inr d' \<Longrightarrow> t' \<noteq> t \<Longrightarrow> view t' d' = view t' d"
  by (elim verify_item_cases) (auto simp: view_def tenant_simps verification_for_def)

interpretation verify_op: tenant_op "\<lambda>t item d. verify_item W t item d" for W
  by unfold_locales (rule verify_item_view)

end
