(* ===== verification/Pipeline.thy ===== *)
theory Pipeline
  imports FactPipeline SourcePipeline Corroborate "HOL-Library.Sublist"
begin

text \<open>
  The workers of \<open>cmd/factvault/worker.go\<close> together: one step of the system is one run of collect,
  archive, extract, verify or corroborate for some tenant, with whatever the network, the archive
  service, the extractors and the language model answered during that run, or the passing of time.
  The invariants and the history relation below hold along every sequence of such steps.
\<close>

subsection \<open>Steps\<close>

inductive step :: "unicode_tables \<Rightarrow> (string \<Rightarrow> string) \<Rightarrow> pg_env \<Rightarrow> uuid option \<Rightarrow> db \<Rightarrow> db \<Rightarrow> bool"
  for U H pg where
  run_collect: "scan_uuid pg tid = Some t \<Longrightarrow> CollectOnce W pg tid items d = Inr d' \<Longrightarrow> step U H pg (Some t) d d'"
| run_archive: "scan_uuid pg tid = Some t \<Longrightarrow> ArchiveOnce W pg tid n d = Inr d' \<Longrightarrow> step U H pg (Some t) d d'"
| run_extract: "scan_uuid pg tid = Some t \<Longrightarrow> ExtractOnce U H pg NR c p tid n d = (d', r) \<Longrightarrow> step U H pg (Some t) d d'"
| run_verify: "scan_uuid pg tid = Some t \<Longrightarrow> VerifyOnce W pg tid age n d = Inr d' \<Longrightarrow> step U H pg (Some t) d d'"
| run_corroborate: "scan_uuid pg tid = Some t \<Longrightarrow> CorroborateOnce U h pg tid d = Inr d' \<Longrightarrow> step U H pg (Some t) d d'"
| run_tick: "now d \<le> n \<Longrightarrow> step U H pg None d (d\<lparr>now := n\<rparr>)"

inductive reach :: "unicode_tables \<Rightarrow> (string \<Rightarrow> string) \<Rightarrow> pg_env \<Rightarrow> db \<Rightarrow> db \<Rightarrow> bool" for U H pg d where
  refl: "reach U H pg d d"
| step: "reach U H pg d d' \<Longrightarrow> step U H pg l d' d'' \<Longrightarrow> reach U H pg d d''"

inductive_simps reach_from [simp]: "reach U H pg d d"

text \<open>A database with the schema and possibly seeded properties, but no sources or facts yet.\<close>

definition fresh_db :: "db \<Rightarrow> bool" where
  "fresh_db d \<longleftrightarrow> entities d = [] \<and> statements d = [] \<and> statement_sources d = [] \<and> sources d = []
     \<and> verifications d = [] \<and> proposals d = [] \<and> qualifiers d = [] \<and> relations d = []"

subsection \<open>The invariant\<close>

definition sources_ok :: "db \<Rightarrow> bool" where
  "sources_ok d \<longleftrightarrow> distinct (map so_id (sources d))
     \<and> list_all (\<lambda>s. so_id s < next_id d \<and> (so_raw_text s = None \<longleftrightarrow> so_status s = ''collected'')) (sources d)"

definition backs :: "source_row \<Rightarrow> statement_source_row \<Rightarrow> bool" where
  "backs s r \<longleftrightarrow> so_id s = ss_source r \<and> so_tenant s = ss_tenant r
     \<and> (case so_raw_text s of None \<Rightarrow> False
        | Some txt \<Rightarrow> VerifyExcerptOffset txt (ss_excerpt r) (ss_start r) (ss_end r))"

definition evidence_ok :: "db \<Rightarrow> bool" where
  "evidence_ok d \<longleftrightarrow> list_all (\<lambda>r. list_ex (\<lambda>s. backs s r) (sources d)) (statement_sources d)"

definition single_evidence :: "db \<Rightarrow> bool" where
  "single_evidence d \<longleftrightarrow> distinct (map ss_statement (statement_sources d))
     \<and> list_all (\<lambda>r. ss_statement r < next_id d
          \<and> list_ex (\<lambda>st. st_id st = ss_statement r \<and> st_tenant st = ss_tenant r) (statements d)) (statement_sources d)"

definition pipeline_inv :: "db \<Rightarrow> bool" where
  "pipeline_inv d \<longleftrightarrow> sources_ok d \<and> evidence_ok d \<and> single_evidence d"

lemmas inv_defs = pipeline_inv_def sources_ok_def evidence_ok_def single_evidence_def

lemma fresh_inv: "fresh_db d \<Longrightarrow> pipeline_inv d"
  by (simp add: fresh_db_def inv_defs)

text \<open>Evidence stays backed when sources keep their text.\<close>

lemma evidence_ok_sources:
  assumes "evidence_ok d" and "statement_sources d' = statement_sources d"
    and "\<And>s. s \<in> set (sources d) \<Longrightarrow> so_raw_text s \<noteq> None \<Longrightarrow>
           \<exists>s' \<in> set (sources d'). so_id s' = so_id s \<and> so_tenant s' = so_tenant s \<and> so_raw_text s' = so_raw_text s"
  shows "evidence_ok d'"
  using assms by (fastforce simp: evidence_ok_def list_all_iff list_ex_iff backs_def split: option.splits)

lemma single_evidence_cong:
  assumes "single_evidence d" "statement_sources d' = statement_sources d" "next_id d \<le> next_id d'"
    "map (\<lambda>s. (st_id s, st_tenant s)) (statements d') = map (\<lambda>s. (st_id s, st_tenant s)) (statements d)"
  shows "single_evidence d'"
proof -
  have ex: "list_ex (\<lambda>st. st_id st = i \<and> st_tenant st = t) ss \<longleftrightarrow> (i, t) \<in> set (map (\<lambda>s. (st_id s, st_tenant s)) ss)"
    for i t ss by (auto simp: list_ex_iff image_iff)
  show ?thesis using assms unfolding single_evidence_def ex by (auto simp: list_all_iff)
qed

subsection \<open>Each worker keeps the invariant\<close>

lemma collect_keeps:
  assumes inv: "pipeline_inv d"
  shows "pipeline_inv (collect_loop W t items d)"
proof -
  obtain new n where new: "collect_loop W t items d = d\<lparr>next_id := n, sources := sources d @ new\<rparr>"
    "next_id d \<le> n" "list_all (collected_row W t items) new"
    "list_all (\<lambda>r. next_id d \<le> so_id r \<and> so_id r < n) new" "distinct (map so_id new)"
    using collect_loop_sources by blast
  have "so_id ` set (sources d) \<inter> so_id ` set new = {}"
    using inv new(4) by (auto simp: inv_defs list_all_iff) fastforce
  then have "sources_ok (collect_loop W t items d)"
    using inv new by (auto simp: inv_defs list_all_iff collected_row_def)
  moreover have "evidence_ok (collect_loop W t items d)"
    by (rule evidence_ok_sources [of d]) (use inv in \<open>auto simp: new(1) pipeline_inv_def\<close>)
  moreover have "single_evidence (collect_loop W t items d)"
    by (rule single_evidence_cong [of d]) (use inv in \<open>auto simp: new(1,2) pipeline_inv_def\<close>)
  ultimately show ?thesis by (simp add: pipeline_inv_def)
qed

text \<open>A pass over the sources that keeps their keys and never rewrites a text.\<close>

lemma map_sources_keeps:
  assumes inv: "pipeline_inv d"
    and f: "\<And>s. s \<in> set (sources d) \<Longrightarrow> so_id (f s) = so_id s \<and> so_tenant (f s) = so_tenant s
           \<and> (so_raw_text s \<noteq> None \<longrightarrow> so_raw_text (f s) = so_raw_text s)
           \<and> (so_raw_text (f s) = None \<longleftrightarrow> so_status (f s) = ''collected'')"
    and d': "sources d' = map f (sources d)" "statement_sources d' = statement_sources d" "statements d' = statements d"
      "next_id d \<le> next_id d'"
  shows "pipeline_inv d'"
proof -
  have "map so_id (sources d') = map so_id (sources d)" using f by (simp add: d')
  with inv have ids: "distinct (map so_id (sources d'))" by (simp only: inv_defs)
  have "so_id (f s) < next_id d' \<and> (so_raw_text (f s) = None \<longleftrightarrow> so_status (f s) = ''collected'')"
    if "s \<in> set (sources d)" for s
  proof -
    have "so_id s < next_id d" using inv that by (auto simp: inv_defs list_all_iff)
    with f [OF that] d'(4) show ?thesis by simp
  qed
  with ids have "sources_ok d'" unfolding sources_ok_def by (auto simp: list_all_iff d'(1))
  moreover have "evidence_ok d'"
    by (rule evidence_ok_sources [of d]) (use inv f d' in \<open>auto simp: pipeline_inv_def\<close>)
  moreover have "single_evidence d'"
    by (rule single_evidence_cong [of d]) (use inv d' in \<open>simp_all add: pipeline_inv_def\<close>)
  ultimately show ?thesis by (simp add: pipeline_inv_def)
qed

lemma archive_keeps:
  assumes inv: "pipeline_inv d" and run: "archive_tx W t n d = Inr d'"
  shows "pipeline_inv d'"
    and "d' = d\<lparr>sources := map (\<lambda>s. if s \<in> set (pending_archive t n d) then archived W s s else s) (sources d)\<rparr>"
proof -
  have "distinct (map so_id (sources d))" using inv by (simp add: inv_defs)
  from archive_all_or_nothing_lemma [OF this, of W t n] run
  show d': "d' = d\<lparr>sources := map (\<lambda>s. if s \<in> set (pending_archive t n d) then archived W s s else s) (sources d)\<rparr>"
    by (auto split: if_splits)
  show "pipeline_inv d'"
  proof (rule map_sources_keeps [OF inv])
    show "sources d' = map (\<lambda>s. if s \<in> set (pending_archive t n d) then archived W s s else s) (sources d)"
      by (simp add: d')
    fix s assume s: "s \<in> set (sources d)"
    then have "so_raw_text s = None \<longleftrightarrow> so_status s = ''collected''" using inv by (auto simp: inv_defs list_all_iff)
    then show "so_id (if s \<in> set (pending_archive t n d) then archived W s s else s) = so_id s \<and>
      so_tenant (if s \<in> set (pending_archive t n d) then archived W s s else s) = so_tenant s \<and>
      (so_raw_text s \<noteq> None \<longrightarrow> so_raw_text (if s \<in> set (pending_archive t n d) then archived W s s else s) = so_raw_text s) \<and>
      (so_raw_text (if s \<in> set (pending_archive t n d) then archived W s s else s) = None \<longleftrightarrow>
       so_status (if s \<in> set (pending_archive t n d) then archived W s s else s) = ''collected'')"
      using pending_archive_status [of s t n d] by (auto simp: archived_def)
  qed (simp_all add: d')
qed

lemma verify_keeps:
  assumes inv: "pipeline_inv d" and run: "verify_tx W t age n d = Inr d'"
  shows "pipeline_inv d'"
proof -
  have ids: "distinct (map so_id (sources d))" using inv by (simp add: inv_defs)
  obtain vs k where d': "d' = d\<lparr>next_id := next_id d + k, verifications := verifications d @ vs,
       sources := map (\<lambda>s. if s \<in> set (pending_verification t (now d - age * 86400) n d)
                            then verified_row W (now d) s s else s) (sources d)\<rparr>"
    using ids run by (rule verify_tx_result)
  have st: "mapSourceStatus a b \<noteq> ''collected''" for a b by (simp add: mapSourceStatus_def)
  show ?thesis
  proof (rule map_sources_keeps [OF inv])
    show "sources d' = map (\<lambda>s. if s \<in> set (pending_verification t (now d - age * 86400) n d)
         then verified_row W (now d) s s else s) (sources d)" by (simp add: d')
    fix s assume s: "s \<in> set (sources d)"
    then have tx: "so_raw_text s = None \<longleftrightarrow> so_status s = ''collected''" using inv by (auto simp: inv_defs list_all_iff)
    have "so_status s \<noteq> ''collected''" if "s \<in> set (pending_verification t (now d - age * 86400) n d)"
      using that by (auto simp: pending_verification_def verifiable_def)
    with tx st show "so_id (if s \<in> set (pending_verification t (now d - age * 86400) n d) then verified_row W (now d) s s else s) = so_id s \<and>
      so_tenant (if s \<in> set (pending_verification t (now d - age * 86400) n d) then verified_row W (now d) s s else s) = so_tenant s \<and>
      (so_raw_text s \<noteq> None \<longrightarrow> so_raw_text (if s \<in> set (pending_verification t (now d - age * 86400) n d) then verified_row W (now d) s s else s) = so_raw_text s) \<and>
      (so_raw_text (if s \<in> set (pending_verification t (now d - age * 86400) n d) then verified_row W (now d) s s else s) = None \<longleftrightarrow>
       so_status (if s \<in> set (pending_verification t (now d - age * 86400) n d) then verified_row W (now d) s s else s) = ''collected'')"
      by (auto simp: verified_row_def)
  qed (simp_all add: d')
qed

lemma corroborate_keeps:
  assumes inv: "pipeline_inv d" and run: "corroborate_tx U h pg t d = Inr d'"
  shows "pipeline_inv d'"
proof -
  note d' = corroborate_tx_result [OF run]
  have src: "sources d' = map (\<lambda>s. s) (sources d)" "statement_sources d' = statement_sources d" "next_id d' = next_id d"
    by (simp_all add: d')
  have "sources_ok d'" using inv src by (simp add: pipeline_inv_def sources_ok_def)
  moreover have "evidence_ok d'" using inv src by (simp add: pipeline_inv_def evidence_ok_def)
  moreover have "single_evidence d'"
    by (rule single_evidence_cong [of d]) (use inv in \<open>auto simp: d' pipeline_inv_def\<close>)
  ultimately show ?thesis by (simp add: pipeline_inv_def)
qed

text \<open>The archive, verification and corroboration transactions keep the invariant, so any sequence of
  them, over any tenants, does (\<open>run_keeps\<close> of the contract).\<close>

interpretation archive_inv: keeps "archive_tx W" pipeline_inv for W
  by unfold_locales (rule archive_keeps(1))

interpretation verify_inv: keeps "\<lambda>t (age, n). verify_tx W t age n" pipeline_inv for W
  by unfold_locales (auto intro: verify_keeps)

interpretation corroborate_inv: keeps "\<lambda>t (_ :: unit). corroborate_tx U h pg t" pipeline_inv for U h pg
  by unfold_locales (rule corroborate_keeps)

text \<open>Writing one verified fact of a source on file.\<close>

lemma insertFact_keeps:
  assumes inv: "pipeline_inv d"
    and src: "list_ex (\<lambda>s. so_id s = sid \<and> so_tenant s = t \<and> so_raw_text s = Some rawText) (sources d)"
    and v: "VerifyExcerptOffset rawText (Excerpt fct) (ExcerptOffsetStart fct) (ExcerptOffsetEnd fct)"
    and ins: "insertFact U H pg p t sid fct d = Inr (b, d')"
  shows "pipeline_inv d'"
proof -
  note app = insertFact_cases(1) [OF ins]
  have src': "sources d' = sources d" "next_id d \<le> next_id d'" using app by (simp_all add: appends_def)
  have sok: "sources_ok d'" using inv src' by (fastforce simp: inv_defs list_all_iff)
  show ?thesis
  proof (cases b)
    case False
    from insertFact_cases(3) [OF ins False] sok src' inv show ?thesis
      by (fastforce simp: inv_defs list_all_iff)
  next
    case True
    from insertFact_cases(2) [OF ins True] obtain st r where w: "statements d' = statements d @ [st]"
      "statement_sources d' = statement_sources d @ [r]" "st_tenant st = t" "next_id d \<le> st_id st" "st_id st < next_id d'"
      "ss_tenant r = t" "ss_statement r = st_id st" "ss_source r = sid" "ss_excerpt r = Excerpt fct"
      "ss_start r = ExcerptOffsetStart fct" "ss_end r = ExcerptOffsetEnd fct"
      by (auto simp: fact_written_def)
    have "list_ex (\<lambda>s. backs s r) (sources d)"
      using src v w by (auto simp: list_ex_iff backs_def intro: bexI)
    then have "evidence_ok d'" using inv by (simp add: inv_defs w(2) src')
    moreover have "ss_statement r \<notin> set (map ss_statement (statement_sources d))"
      using inv w(4,7) by (fastforce simp: inv_defs list_all_iff)
    then have "single_evidence d'"
      using inv w src' by (fastforce simp: inv_defs list_all_iff list_ex_iff)
    ultimately show ?thesis using sok by (simp add: pipeline_inv_def)
  qed
qed

subsection \<open>History\<close>

text \<open>A status only ever moves up: \<open>verified\<close> and \<open>content-changed\<close> may alternate, \<open>link-rot\<close> is final.\<close>

definition status_rank :: "string \<Rightarrow> nat" where
  "status_rank st = (if st = ''collected'' then 0 else if st = ''archived'' then 1 else if st = ''extracted'' then 2
     else if st = ''verified'' \<or> st = ''content-changed'' then 3 else if st = ''link-rot'' then 4 else 5)"

text \<open>What may happen to a row while workers run. A source is archived (its text and archive URL are set
  together, once), is checked and gains an embedding; an entity gains an embedding; a statement gains
  an embedding, and corroboration recomputes its confidence. An embedding is never replaced.\<close>

definition lifecycle :: "source_row \<Rightarrow> source_row \<Rightarrow> bool" where
  "lifecycle s s' \<longleftrightarrow> s' = s\<lparr>so_raw_text := so_raw_text s', so_archive_url := so_archive_url s',
       so_embedding := so_embedding s', so_last_verified_at := so_last_verified_at s', so_status := so_status s'\<rparr>
     \<and> (so_raw_text s \<noteq> None \<longrightarrow> so_raw_text s' = so_raw_text s \<and> so_archive_url s' = so_archive_url s)
     \<and> (so_embedding s \<noteq> None \<longrightarrow> so_embedding s' = so_embedding s)
     \<and> status_rank (so_status s) \<le> status_rank (so_status s')"

definition entity_kept :: "entity_row \<Rightarrow> entity_row \<Rightarrow> bool" where
  "entity_kept e e' \<longleftrightarrow> e' = e\<lparr>en_embedding := en_embedding e'\<rparr>
     \<and> (en_embedding e \<noteq> None \<longrightarrow> en_embedding e' = en_embedding e)"

definition statement_kept :: "statement_row \<Rightarrow> statement_row \<Rightarrow> bool" where
  "statement_kept s s' \<longleftrightarrow> s' = s\<lparr>st_confidence := st_confidence s', st_embedding := st_embedding s'\<rparr>
     \<and> (st_embedding s \<noteq> None \<longrightarrow> st_embedding s' = st_embedding s)"

text \<open>A table grows: its rows stay, in their order and changed by \<open>R\<close> only, and new ones follow them.\<close>

definition grows :: "('a \<Rightarrow> 'a \<Rightarrow> bool) \<Rightarrow> 'a list \<Rightarrow> 'a list \<Rightarrow> bool" where
  "grows R rows rows' \<longleftrightarrow> (\<exists>old new. rows' = old @ new \<and> list_all2 R rows old)"

definition history :: "db \<Rightarrow> db \<Rightarrow> bool" where
  "history d d' \<longleftrightarrow> grows lifecycle (sources d) (sources d') \<and> grows entity_kept (entities d) (entities d')
     \<and> grows statement_kept (statements d) (statements d')
     \<and> prefix (properties d) (properties d') \<and> prefix (proposals d) (proposals d')
     \<and> prefix (statement_sources d) (statement_sources d') \<and> prefix (verifications d) (verifications d')
     \<and> qualifiers d' = qualifiers d \<and> relations d' = relations d \<and> briefs d' = briefs d"

lemma row_refls [simp]: "lifecycle s s" "entity_kept e e" "statement_kept x x"
  by (simp_all add: lifecycle_def entity_kept_def statement_kept_def)

lemma lifecycle_keys:
  assumes "lifecycle s s'"
  shows "so_id s' = so_id s" "so_tenant s' = so_tenant s" "so_url s' = so_url s"
    "so_content_hash s' = so_content_hash s" "so_raw_text s \<noteq> None \<Longrightarrow> so_raw_text s' = so_raw_text s"
  using assms by (cases s; cases s'; simp add: lifecycle_def)+

lemma lifecycle_trans: "lifecycle s s' \<Longrightarrow> lifecycle s' s'' \<Longrightarrow> lifecycle s s''"
  by (cases s; cases s'; cases s'') (auto simp: lifecycle_def)

lemma entity_kept_trans: "entity_kept s s' \<Longrightarrow> entity_kept s' s'' \<Longrightarrow> entity_kept s s''"
  by (cases s; cases s'; cases s'') (auto simp: entity_kept_def)

lemma statement_kept_trans: "statement_kept s s' \<Longrightarrow> statement_kept s' s'' \<Longrightarrow> statement_kept s s''"
  by (cases s; cases s'; cases s'') (auto simp: statement_kept_def)

lemma grows_map:
  assumes "\<And>s. s \<in> set rows \<Longrightarrow> R s (f s)"
  shows "grows R rows (map f rows @ new)"
proof -
  have "list_all2 R rows (map f rows)" using assms by (simp add: list_all2_conv_all_nth)
  then show ?thesis unfolding grows_def by blast
qed

lemma grows_append: "(\<And>s. R s s) \<Longrightarrow> grows R rows (rows @ new)"
  using grows_map [of rows R "\<lambda>s. s" new] by simp

lemma grows_appends [simp]: "grows lifecycle a (a @ x)" "grows entity_kept b (b @ y)" "grows statement_kept c (c @ z)"
  by (simp_all add: grows_append)

lemma grows_refls [simp]: "grows lifecycle a a" "grows entity_kept b b" "grows statement_kept c c"
  using grows_append [of lifecycle a "[]"] grows_append [of entity_kept b "[]"]
    grows_append [of statement_kept c "[]"] by simp_all

lemma grows_trans:
  assumes trans: "\<And>x y z. R x y \<Longrightarrow> R y z \<Longrightarrow> R x z" and "grows R a b" "grows R b c"
  shows "grows R a c"
proof -
  obtain old new where b: "b = old @ new" "list_all2 R a old" using assms(2) by (auto simp: grows_def)
  obtain old' new' where c: "c = old' @ new'" "list_all2 R b old'" using assms(3) by (auto simp: grows_def)
  obtain o1 o2 where o: "old' = o1 @ o2" "list_all2 R old o1"
    using c(2) b(1) by (auto simp: list_all2_append1)
  have "list_all2 R a o1" using list_all2_trans [of R R R] trans b(2) o(2) by blast
  then show ?thesis using c o by (auto simp: grows_def)
qed

lemma history_refl [simp]: "history d d"
  by (simp add: history_def)

lemma tables_trans:
  "grows lifecycle a a' \<Longrightarrow> grows lifecycle a' a'' \<Longrightarrow> grows lifecycle a a''"
  "grows entity_kept b b' \<Longrightarrow> grows entity_kept b' b'' \<Longrightarrow> grows entity_kept b b''"
  "grows statement_kept c c' \<Longrightarrow> grows statement_kept c' c'' \<Longrightarrow> grows statement_kept c c''"
  by (erule (1) grows_trans [rotated], erule (1) lifecycle_trans entity_kept_trans statement_kept_trans)+

lemma history_trans [trans]:
  assumes "history d d'" and "history d' d''"
  shows "history d d''"
proof -
  note h = assms [unfolded history_def]
  have "grows lifecycle (sources d) (sources d'')" "grows entity_kept (entities d) (entities d'')"
    "grows statement_kept (statements d) (statements d'')"
    using tables_trans(1) [of "sources d" "sources d'"] tables_trans(2) [of "entities d" "entities d'"]
      tables_trans(3) [of "statements d" "statements d'"] h by simp_all
  moreover have "prefix (properties d) (properties d'')" "prefix (proposals d) (proposals d'')"
    "prefix (statement_sources d) (statement_sources d'')" "prefix (verifications d) (verifications d'')"
    using h prefix_order.trans by metis+
  ultimately show ?thesis using h by (simp add: history_def)
qed

lemma history_mapped:
  assumes "\<And>s. s \<in> set (sources d) \<Longrightarrow> lifecycle s (f s)"
  shows "history d (d\<lparr>next_id := n, verifications := verifications d @ vs, sources := map f (sources d)\<rparr>)"
  using grows_map [of "sources d" lifecycle f "[]"] assms by (simp add: history_def)

lemma appends_history: "appends t d d' \<Longrightarrow> history d d'"
  by (auto simp: appends_def history_def)

subsection \<open>Extraction\<close>

definition on_file :: "uuid \<Rightarrow> source_row \<Rightarrow> db \<Rightarrow> bool" where
  "on_file t src d \<longleftrightarrow> src \<in> set (sources d) \<and> so_tenant src = t \<and> so_status src = ''archived''"

lemma write_loop_keeps:
  assumes run: "write_loop U H pg p t (so_id src) rawText facts (0, d) = Inr (m, d')"
    and inv: "pipeline_inv d" and src: "on_file t src d" "so_raw_text src = Some rawText"
  shows "pipeline_inv d' \<and> appends t d d'"
proof (rule write_loop_inv [OF run])
  fix fct n d1 b d2
  assume v: "VerifyExcerptOffset rawText (Excerpt fct) (ExcerptOffsetStart fct) (ExcerptOffsetEnd fct)"
    and ih: "pipeline_inv d1 \<and> appends t d d1" and ins: "insertFact U H pg p t (so_id src) fct d1 = Inr (b, d2)"
  have "sources d1 = sources d" using ih by (simp add: appends_def)
  with src have "list_ex (\<lambda>s. so_id s = so_id src \<and> so_tenant s = t \<and> so_raw_text s = Some rawText) (sources d1)"
    by (auto simp: list_ex_iff on_file_def)
  from insertFact_keeps [OF _ this v ins] ih insertFact_cases(1) [OF ins] appends_trans
  show "pipeline_inv d2 \<and> appends t d d2" by blast
qed (use inv in simp)

text \<open>One source of the batch.\<close>

definition extracted_only :: "uuid \<Rightarrow> source_row \<Rightarrow> db \<Rightarrow> db \<Rightarrow> bool" where
  "extracted_only t src d d' \<longleftrightarrow> history d d'
     \<and> (\<forall>s. s \<noteq> src \<longrightarrow> s \<in> set (sources d) \<longrightarrow> s \<in> set (sources d'))
     \<and> (\<exists>new. statement_sources d' = statement_sources d @ new \<and> list_all (\<lambda>r. ss_source r = so_id src) new)"

lemma extract_source_keeps:
  assumes run: "extract_source U H pg NR p t src d = Inr d'" and inv: "pipeline_inv d" and src: "on_file t src d"
  shows "pipeline_inv d' \<and> extracted_only t src d d'"
proof -
  from run consider "d' = d"
    | rawText facts where "so_raw_text src = Some rawText" "writeExtractedFacts U H pg p t src rawText facts d = Inr d'"
        "facts \<noteq> []"
  proof (cases rule: extract_source_cases)
    case (2 rawText facts)
    show ?thesis
    proof (cases "facts = []")
      case True
      with 2(3) that(1) show ?thesis by (simp add: writeExtractedFacts_def)
    next
      case False
      with 2(1,3) that(2) show ?thesis by blast
    qed
  qed (use that in blast)
  then show ?thesis
  proof cases
    case 1
    with inv show ?thesis by (simp add: extracted_only_def)
  next
    case (2 rawText facts)
    then obtain m d1 where w: "write_loop U H pg p t (so_id src) rawText facts (0, d) = Inr (m, d1)"
      and d': "d' = (if m > 0 then d1\<lparr>sources := update_rows so_tenant t (\<lambda>s. so_id s = so_id src)
                      (\<lambda>s. s\<lparr>so_status := ''extracted''\<rparr>) (sources d1)\<rparr> else d1)"
      by (auto simp: writeExtractedFacts_def rbind_Inr_iff)
    from write_loop_keeps [OF w inv src 2(1)] have d1: "pipeline_inv d1" "appends t d d1" by simp_all
    then have s1: "sources d1 = sources d" by (simp add: appends_def)
    have inj: "inj_on so_id (set (sources d))" using inv by (simp add: inv_defs distinct_map)
    have f: "(if so_tenant s = t \<and> so_id s = so_id src then s\<lparr>so_status := ''extracted''\<rparr> else s)
        = (if s = src then s\<lparr>so_status := ''extracted''\<rparr> else s)" if "s \<in> set (sources d)" for s
      using that src inj by (auto simp: on_file_def dest: inj_onD)
    let ?d2 = "d1\<lparr>sources := map (\<lambda>s. if s = src then s\<lparr>so_status := ''extracted''\<rparr> else s) (sources d1)\<rparr>"
    have upd: "update_rows so_tenant t (\<lambda>s. so_id s = so_id src) (\<lambda>s. s\<lparr>so_status := ''extracted''\<rparr>) (sources d1)
        = map (\<lambda>s. if s = src then s\<lparr>so_status := ''extracted''\<rparr> else s) (sources d1)"
      unfolding update_rows_def s1 using f by (intro map_cong) auto
    have life: "lifecycle s (if s = src then s\<lparr>so_status := ''extracted''\<rparr> else s)" for s
      using src by (simp add: lifecycle_def on_file_def status_rank_def)
    have "pipeline_inv ?d2"
    proof (rule map_sources_keeps [OF d1(1)])
      fix s assume "s \<in> set (sources d1)"
      then have "so_raw_text s = None \<longleftrightarrow> so_status s = ''collected''" using d1(1) by (auto simp: inv_defs list_all_iff)
      with 2(1) show "so_id (if s = src then s\<lparr>so_status := ''extracted''\<rparr> else s) = so_id s \<and>
        so_tenant (if s = src then s\<lparr>so_status := ''extracted''\<rparr> else s) = so_tenant s \<and>
        (so_raw_text s \<noteq> None \<longrightarrow> so_raw_text (if s = src then s\<lparr>so_status := ''extracted''\<rparr> else s) = so_raw_text s) \<and>
        (so_raw_text (if s = src then s\<lparr>so_status := ''extracted''\<rparr> else s) = None \<longleftrightarrow>
         so_status (if s = src then s\<lparr>so_status := ''extracted''\<rparr> else s) = ''collected'')" by auto
    qed simp_all
    moreover have "history d ?d2"
    proof -
      have "grows lifecycle (sources d1) (sources ?d2)" using grows_map [of "sources d1" lifecycle, OF life, where new = "[]"] by simp
      then have "history d1 ?d2" by (simp add: history_def)
      with appends_history [OF d1(2)] show ?thesis by (rule history_trans)
    qed
    moreover obtain new where "statement_sources d1 = statement_sources d @ new"
      "list_all (\<lambda>r. ss_source r = so_id src) new"
      using write_loop_evidence [OF w] by (auto simp: evidence_added_def list_all_iff)
    ultimately show ?thesis
      using d1 appends_history [OF d1(2)] unfolding d' upd
      by (auto simp: extracted_only_def s1)
  qed
qed

lemma extract_loop_keeps:
  assumes "pipeline_inv d" and "distinct srcs" and "\<forall>s \<in> set srcs. on_file t s d"
    and "commit_each (extract_source U H pg NR p t) srcs d = (d', r)"
  shows "pipeline_inv d' \<and> history d d'
    \<and> (\<exists>new. statement_sources d' = statement_sources d @ new
         \<and> list_all (\<lambda>r. list_ex (\<lambda>s. so_id s = ss_source r) srcs) new)"
  using assms
proof (induction srcs arbitrary: d)
  case (Cons src srcs)
  show ?case
  proof (cases "extract_source U H pg NR p t src d")
    case (Inl e)
    with Cons.prems show ?thesis by auto
  next
    case (Inr d1)
    with extract_source_keeps [of U H pg NR p t src d d1] Cons.prems
    have d1: "pipeline_inv d1" "extracted_only t src d d1" by auto
    have "\<forall>s \<in> set srcs. on_file t s d1"
      using d1(2) Cons.prems(2,3) by (auto simp: on_file_def extracted_only_def)
    with Cons.IH [OF d1(1)] Cons.prems(2,4) Inr have ih: "pipeline_inv d'" "history d1 d'"
      "\<exists>new. statement_sources d' = statement_sources d1 @ new
         \<and> list_all (\<lambda>r. list_ex (\<lambda>s. so_id s = ss_source r) srcs) new" by auto
    obtain n1 n2 where "statement_sources d1 = statement_sources d @ n1" "list_all (\<lambda>r. ss_source r = so_id src) n1"
      "statement_sources d' = statement_sources d1 @ n2" "list_all (\<lambda>r. list_ex (\<lambda>s. so_id s = ss_source r) srcs) n2"
      using ih(3) d1(2) by (auto simp: extracted_only_def)
    then have "\<exists>new. statement_sources d' = statement_sources d @ new
         \<and> list_all (\<lambda>r. list_ex (\<lambda>s. so_id s = ss_source r) (src # srcs)) new"
      by (intro exI [of _ "n1 @ n2"]) (auto simp: list_all_iff)
    with ih(1,2) d1(2) show ?thesis using history_trans by (auto simp: extracted_only_def)
  qed
qed simp

lemma loadArchivedSources_on_file:
  assumes "pipeline_inv d"
  shows "distinct (loadArchivedSources t n d)" and "s \<in> set (loadArchivedSources t n d) \<Longrightarrow> on_file t s d"
  using assms distinct_rls [of "sources d" t]
  by (auto simp: loadArchivedSources_def inv_defs distinct_limit_order on_file_def)

subsection \<open>Every step\<close>

lemma extract_once_keeps:
  assumes inv: "pipeline_inv d" and t: "scan_uuid pg tid = Some t"
    and run: "ExtractOnce U H pg NR c p tid n d = (d', r)"
  shows "pipeline_inv d' \<and> history d d'
    \<and> (\<exists>new. statement_sources d' = statement_sources d @ new
         \<and> list_all (\<lambda>r. list_ex (\<lambda>s. so_id s = ss_source r \<and> so_status s = ''archived'') (sources d)) new)
    \<and> (t' \<noteq> t \<longrightarrow> view t' d' = view t' d)"
proof -
  consider "d' = d" | batch where "commit_each (extract_source U H pg NR p t) (loadArchivedSources t batch d) d = (d', r)"
    using run t by (auto simp: ExtractOnce_def Let_def split: if_splits sum.splits)
  then show ?thesis
  proof cases
    case (2 batch)
    let ?srcs = "loadArchivedSources t batch d"
    from extract_loop_keeps [OF inv loadArchivedSources_on_file(1) [OF inv] _ 2] loadArchivedSources_on_file(2) [OF inv]
    have k: "pipeline_inv d'" "history d d'" "\<exists>new. statement_sources d' = statement_sources d @ new
         \<and> list_all (\<lambda>r. list_ex (\<lambda>s. so_id s = ss_source r) ?srcs) new" by blast+
    have "view t' d' = view t' d" if "t' \<noteq> t"
      using commit_each_inv [of ?srcs "\<lambda>e. view t' e = view t' d" "extract_source U H pg NR p t" d]
        extract_op.other_tenants [where t' = t' and t = t] that 2 by (metis fst_conv)
    moreover have "so_status s = ''archived'' \<and> s \<in> set (sources d)" if "s \<in> set ?srcs" for s
      using loadArchivedSources_on_file(2) [OF inv that] by (simp add: on_file_def)
    ultimately show ?thesis using k by (fastforce simp: list_all_iff list_ex_iff)
  qed (use inv in simp)
qed

lemma archived_lifecycle: "so_status s = ''collected'' \<Longrightarrow> so_raw_text s = None \<Longrightarrow> lifecycle s (archived W i s)"
  by (simp add: lifecycle_def archived_def status_rank_def)

lemma verified_lifecycle: "verifiable (so_status s) \<Longrightarrow> lifecycle s (verified_row W tm s s)"
  by (auto simp: lifecycle_def verified_row_def status_rank_def verifiable_def mapSourceStatus_def)

lemma step_facts:
  assumes "step U H pg l d d'" and inv: "pipeline_inv d"
  shows "pipeline_inv d' \<and> history d d'
    \<and> (\<exists>new. statement_sources d' = statement_sources d @ new
         \<and> list_all (\<lambda>r. list_ex (\<lambda>s. so_id s = ss_source r \<and> so_status s = ''archived'') (sources d)) new)
    \<and> (l \<noteq> Some t' \<longrightarrow> view t' d' = view t' d)"
  using assms(1)
proof cases
  case (run_collect tid t W items)
  then obtain its where d': "d' = collect_loop W t its d"
    by (auto simp: CollectOnce_def split: sum.splits)
  obtain new n where "collect_loop W t its d = d\<lparr>next_id := n, sources := sources d @ new\<rparr>"
    using collect_loop_sources by blast
  with d' have "history d d'" "statement_sources d' = statement_sources d" by (simp_all add: history_def)
  with collect_keeps [OF inv] collect_loop_view d' run_collect(1) show ?thesis by auto
next
  case (run_archive tid t W n)
  then obtain batch where tx: "archive_tx W t batch d = Inr d'" by (auto simp: ArchiveOnce_def Let_def)
  note k = archive_keeps [OF inv tx]
  let ?f = "\<lambda>s. if s \<in> set (pending_archive t batch d) then archived W s s else s"
  have src: "sources d' = map ?f (sources d)" by (subst k(2)) simp
  have eqs: "statements d' = statements d" "entities d' = entities d" "properties d' = properties d"
    "proposals d' = proposals d" "statement_sources d' = statement_sources d" "verifications d' = verifications d"
    "qualifiers d' = qualifiers d" "relations d' = relations d" "briefs d' = briefs d"
    by (subst k(2), simp)+
  have "lifecycle s (?f s)" if "s \<in> set (sources d)" for s
  proof (cases "s \<in> set (pending_archive t batch d)")
    case True
    then have "so_status s = ''collected''" by (rule pending_archive_status)
    moreover from this have "so_raw_text s = None" using inv that by (auto simp: inv_defs list_all_iff)
    ultimately show ?thesis using True by (simp add: archived_lifecycle)
  qed simp
  then have "grows lifecycle (sources d) (sources d')"
    using grows_map [of "sources d" lifecycle ?f "[]"] by (simp add: src)
  with eqs have "history d d'" by (simp add: history_def)
  moreover have "view t' d' = view t' d" if "l \<noteq> Some t'"
    using fold_res_inv [of "pending_archive t batch d" "\<lambda>e. view t' e = view t' d" "archive_item W t" d d']
      archive_item_view tx that run_archive(1) by (metis archive_tx_def)
  ultimately show ?thesis using k(1) eqs(5) by simp
next
  case (run_extract tid t NR c p n r)
  from extract_once_keeps [OF inv run_extract(2,3), of t'] run_extract(1) show ?thesis by auto
next
  case (run_verify tid t W age n)
  then obtain a b where tx: "verify_tx W t a b d = Inr d'" by (auto simp: VerifyOnce_def Let_def)
  have ids: "distinct (map so_id (sources d))" using inv by (simp add: inv_defs)
  obtain vs k where d': "d' = d\<lparr>next_id := next_id d + k, verifications := verifications d @ vs,
       sources := map (\<lambda>s. if s \<in> set (pending_verification t (now d - a * 86400) b d)
                            then verified_row W (now d) s s else s) (sources d)\<rparr>"
    using ids tx by (rule verify_tx_result)
  have "history d d'" unfolding d'
    by (rule history_mapped) (auto simp: pending_verification_def intro!: verified_lifecycle)
  moreover have "view t' d' = view t' d" if "l \<noteq> Some t'"
    using fold_res_inv [of "pending_verification t (now d - a * 86400) b d" "\<lambda>e. view t' e = view t' d" "verify_item W t" d d']
      verify_item_view tx that run_verify(1) by (metis verify_tx_def)
  ultimately show ?thesis using verify_keeps [OF inv tx] d' by simp
next
  case (run_corroborate tid t h)
  then have tx: "corroborate_tx U h pg t d = Inr d'" by (auto simp: CorroborateOnce_def split: if_splits)
  note d' = corroborate_tx_result [OF tx]
  have "grows statement_kept (statements d) (statements d')"
    using grows_map [of "statements d" statement_kept _ "[]"] by (subst d') (simp add: statement_kept_def)
  moreover have eqs: "sources d' = sources d" "entities d' = entities d" "properties d' = properties d"
    "proposals d' = proposals d" "statement_sources d' = statement_sources d" "verifications d' = verifications d"
    "qualifiers d' = qualifiers d" "relations d' = relations d" "briefs d' = briefs d"
    by (subst d', simp)+
  ultimately have "history d d'" by (simp add: history_def)
  moreover have "view t' d' = view t' d" if "l \<noteq> Some t'"
    using corroborate_op.other_tenants [OF tx] that run_corroborate(1) by auto
  ultimately show ?thesis using corroborate_keeps [OF inv tx] eqs(5) by simp
next
  case (run_tick n)
  then show ?thesis using inv by (simp add: inv_defs history_def view_def)
qed

lemma reach_facts:
  assumes "reach U H pg d d'" and "pipeline_inv d"
  shows "pipeline_inv d' \<and> history d d'"
  using assms
proof (induction rule: reach.induct)
  case (step d' l d'')
  with step_facts [of U H pg l d' d''] show ?case using history_trans by blast
qed simp

subsection \<open>An example run\<close>

definition run0 :: db where
  "run0 = empty_db\<lparr>now := 1000000\<rparr>"

definition run1 :: db where
  "run1 = run0\<lparr>next_id := 2, sources := [source_of_item sample_outside 1 ((seed_item ''u'')\<lparr>it_HTML := ''doi 10''\<rparr>) 1 1000000]\<rparr>"

definition run2 :: db where
  "run2 = run1\<lparr>sources := map (\<lambda>s. s\<lparr>so_raw_text := Some ''doi 10'', so_archive_url := Some [],
     so_status := ''archived''\<rparr>) (sources run1)\<rparr>"

lemma run1_eq: "CollectOnce sample_outside sample_pg ''t'' (Inr [(seed_item ''u'')\<lparr>it_HTML := ''doi 10''\<rparr>]) run0 = Inr run1"
proof -
  have "pg_text_ok ''u''" "pg_text_ok ''p''" "pg_text_ok ''{}''" "pg_text_ok []" "trim_space ''u'' = ''u''" "trim_space ''p'' = ''p''"
    by code_simp+
  then show ?thesis
    by (simp add: CollectOnce_def sample_pg_def insert_source_def item_publisher_def item_meta_def Let_def
        seed_item_def run0_def run1_def empty_db_def)
qed

lemma sample_zlib: "zlib_compress sample_outside b = CHR ''z'' # b"
  by (simp add: sample_outside_def)

lemma run2_eq: "ArchiveOnce sample_outside sample_pg ''t'' 10 run1 = Inr run2"
proof -
  have "stripHTML ''doi 10'' = ''doi 10''" "pg_text_ok ''doi 10''" "pg_text_ok []"
    "decompress sample_outside ''zdoi 10'' = Inr ''doi 10''" by code_simp+
  moreover have "submitWayback sample_outside u = []" for u by (simp add: submitWayback_def sample_outside_def)
  ultimately show ?thesis
    by (simp add: ArchiveOnce_def Let_def sample_pg_def archive_tx_def pending_archive_def run1_def run2_def
        source_of_item_def order_by_def limit_rows_def archive_item_def update_rows_def seed_item_def
        sample_zlib)
qed

definition run_extract :: "db \<times> string option" where
  "run_extract = ExtractOnce ascii_tables id sample_pg (\<lambda>_ _. Inr []) False strict_pipeline ''t'' 10 run2"

definition run3 :: db where
  "run3 = \<lparr>entities =
     [\<lparr>en_id = 2, en_tenant = 1,
     en_ext_id = Some ''extract:subject:61636d65'', en_label = ''Acme'',
     en_type_uri = None, en_description = None, en_embedding = None,
     en_meta = ''{}'', en_created = 1000000, en_updated = 1000000\<rparr>],
     properties =
     [\<lparr>pp_id = 3, pp_tenant = Some 1, pp_slug = ''doi'',
     pp_label = ''DOI'', pp_value_type = ''string'', pp_description = None\<rparr>],
     statements =
     [\<lparr>st_id = 4, st_tenant = 1, st_subject = 2, st_property = 3,
     st_val_entity = None, st_val_text = Some ''10'',
     st_val_number = None, st_val_date = None, st_val_json = None,
     st_rank = ''normal'', st_confidence = 1 / 2, st_embedding = None,
     st_created = 1000000\<rparr>],
     statement_sources =
     [\<lparr>ss_id = 5, ss_statement = 4, ss_source = 1, ss_excerpt = ''10'',
     ss_start = 4, ss_end = 6, ss_method = ''m'',
     ss_extracted_at = 1000000, ss_confidence = Some (1 / 2),
     ss_tenant = 1\<rparr>],
     sources =
     [\<lparr>so_id = 1, so_tenant = 1, so_url = ''u'', so_fetched_at = 1000000,
     so_content_hash = ''hdoi 10'', so_raw_html = Some ''zdoi 10'',
     so_raw_text = Some ''doi 10'', so_archive_url = Some [],
     so_publisher = Some ''p'', so_title = None,
     so_published_at = None, so_embedding = None,
     so_last_verified_at = None, so_status = ''extracted'',
     so_created = 1000000, so_meta = ''{}''\<rparr>],
     verifications = [], proposals = [], qualifiers = [], relations = [], dossiers = [], briefs = [],
     next_id = 6, now = 1000000\<rparr>"

lemma run_extract_eq: "run_extract = (run3, None)"
  unfolding run_extract_def run2_def run1_def run0_def by code_simp

lemma run3_evidence: "map ss_excerpt (statement_sources run3) = [''10'']"
  by (simp add: run3_def)

lemma run_reach: "reach ascii_tables id sample_pg run0 run3" "reach ascii_tables id sample_pg run0 run2"
proof -
  have t: "scan_uuid sample_pg ''t'' = Some 1" by (simp add: sample_pg_def)
  have "step ascii_tables id sample_pg (Some 1) run0 run1" by (rule run_collect [OF t run1_eq])
  then have r1: "reach ascii_tables id sample_pg run0 run1" by (rule reach.step [OF reach.refl])
  have "step ascii_tables id sample_pg (Some 1) run1 run2" by (rule run_archive [OF t run2_eq])
  with r1 show r2: "reach ascii_tables id sample_pg run0 run2" by (rule reach.step)
  have "step ascii_tables id sample_pg (Some 1) run2 run3"
    by (rule run_extract [OF t run_extract_eq [unfolded run_extract_def]])
  with r2 show "reach ascii_tables id sample_pg run0 run3" by (rule reach.step)
qed

lemma run0_fresh: "fresh_db run0"
  by (simp add: fresh_db_def run0_def empty_db_def)

subsection \<open>Properties\<close>

text \<open>C1. The guarantee of the whole system: whatever the workers did, in whatever order and for
  whatever tenants, and whatever the extractors and the language model returned, every evidence row
  points at a stored source of its own tenant that has been archived, and its excerpt is, byte for
  byte, a non-empty part of that source's text.\<close>

theorem evidence_always_verbatim:
  assumes "fresh_db d0" and "reach U H pg d0 d" and "r \<in> set (statement_sources d)"
  shows "\<exists>s txt us vs. s \<in> set (sources d) \<and> so_id s = ss_source r \<and> so_tenant s = ss_tenant r
     \<and> so_status s \<noteq> ''collected'' \<and> so_raw_text s = Some txt
     \<and> txt = us @ ss_excerpt r @ vs \<and> ss_excerpt r \<noteq> []
     \<and> int (rune_count us) = ss_start r \<and> int (rune_count (us @ ss_excerpt r)) = ss_end r"
proof -
  have inv: "pipeline_inv d" using reach_facts [OF assms(2) fresh_inv [OF assms(1)]] ..
  with assms(3) obtain s where s: "s \<in> set (sources d)" "backs s r"
    by (auto simp: inv_defs list_all_iff list_ex_iff)
  then obtain x where x: "so_raw_text s = Some x" "so_id s = ss_source r" "so_tenant s = ss_tenant r"
    and v: "VerifyExcerptOffset x (ss_excerpt r) (ss_start r) (ss_end r)"
    by (auto simp: backs_def split: option.splits)
  have "so_status s \<noteq> ''collected''" using inv s(1) x(1) by (auto simp: inv_defs list_all_iff)
  moreover obtain us vs where "x = us @ ss_excerpt r @ vs" "ss_excerpt r \<noteq> []"
      "int (rune_count us) = ss_start r" "int (rune_count (us @ ss_excerpt r)) = ss_end r"
    using VerifyExcerptOffset_split [OF v] by blast
  ultimately show ?thesis using s(1) x by blast
qed

theorem evidence_always_verbatim_witness:
  "\<exists>r s us vs. statement_sources run3 = [r] \<and> s \<in> set (sources run3)
     \<and> so_raw_text s = Some (us @ ss_excerpt r @ vs) \<and> ss_excerpt r = ''10''"
proof -
  obtain r where r: "statement_sources run3 = [r]" "ss_excerpt r = ''10''"
    using run3_evidence by auto
  from evidence_always_verbatim [OF run0_fresh run_reach(1), of r] r show ?thesis by fastforce
qed

text \<open>C4. Tenant isolation of the workers: a step taken for one tenant leaves everything any other
  tenant can see exactly as it was.\<close>

theorem steps_isolate_tenants:
  assumes "fresh_db d0" and "reach U H pg d0 d" and "step U H pg l d d'" and "l \<noteq> Some t'"
  shows "view t' d' = view t' d"
  using step_facts [OF assms(3), of t'] reach_facts [OF assms(2) fresh_inv [OF assms(1)]] assms(4) by blast

theorem steps_isolate_tenants_witness:
  "view 2 run1 = view 2 run0 \<and> view 1 run1 \<noteq> view 1 run0"
proof -
  have t: "scan_uuid sample_pg ''t'' = Some 1" by (simp add: sample_pg_def)
  have "step ascii_tables id sample_pg (Some 1) run0 run1" by (rule run_collect [OF t run1_eq])
  from steps_isolate_tenants [OF run0_fresh reach.refl this, of 2]
  show ?thesis by (simp add: view_def run1_def run0_def empty_db_def source_of_item_def)
qed

text \<open>Evidence is only ever added for sources whose status is \<open>archived\<close>: a source that the verifier
  reached before the extractor (and so became \<open>verified\<close>) gets no evidence by any later step.\<close>

theorem evidence_only_from_archived:
  assumes "fresh_db d0" and "reach U H pg d0 d" and "step U H pg l d d'"
    and "s \<in> set (sources d)" and "so_status s \<noteq> ''archived''"
  shows "filter (\<lambda>r. ss_source r = so_id s) (statement_sources d') = filter (\<lambda>r. ss_source r = so_id s) (statement_sources d)"
proof -
  have inv: "pipeline_inv d" using reach_facts [OF assms(2) fresh_inv [OF assms(1)]] ..
  from step_facts [OF assms(3) inv, of 0] obtain new where new: "statement_sources d' = statement_sources d @ new"
    "list_all (\<lambda>r. list_ex (\<lambda>s. so_id s = ss_source r \<and> so_status s = ''archived'') (sources d)) new" by blast
  have inj: "inj_on so_id (set (sources d))" using inv by (simp add: inv_defs distinct_map)
  have "ss_source r \<noteq> so_id s" if "r \<in> set new" for r
    using new(2) that assms(4,5) inj by (fastforce simp: list_all_iff list_ex_iff dest: inj_onD)
  then have "filter (\<lambda>r. ss_source r = so_id s) new = []" by (auto simp: filter_empty_conv)
  with new(1) show ?thesis by simp
qed

theorem evidence_only_from_archived_witness:
  "\<exists>s d'. sources run3 = [s] \<and> so_status s = ''extracted''
     \<and> d' = fst (ExtractOnce ascii_tables id sample_pg (\<lambda>_ _. Inr []) False strict_pipeline ''t'' 10 run3)
     \<and> filter (\<lambda>r. ss_source r = so_id s) (statement_sources d')
         = filter (\<lambda>r. ss_source r = so_id s) (statement_sources run3)"
proof -
  let ?e = "ExtractOnce ascii_tables id sample_pg (\<lambda>_ _. Inr []) False strict_pipeline ''t'' 10 run3"
  have t: "scan_uuid sample_pg ''t'' = Some 1" by (simp add: sample_pg_def)
  have "map so_status (sources run3) = [''extracted'']"
    by (simp add: run3_def)
  then obtain s where s: "sources run3 = [s]" "so_status s = ''extracted''" by auto
  have st: "step ascii_tables id sample_pg (Some 1) run3 (fst ?e)"
    by (rule run_extract [OF t]) (rule surjective_pairing)
  from evidence_only_from_archived [OF run0_fresh run_reach(1) st, of s] s
  show ?thesis by (intro exI [of _ s] exI [of _ "fst ?e"]) simp
qed

subsection \<open>What corroboration can see\<close>

lemma filter_key:
  "distinct (map k xs) \<Longrightarrow> filter (\<lambda>x. k x = c) xs = [] \<or> (\<exists>x. filter (\<lambda>x. k x = c) xs = [x])"
proof (induction xs)
  case (Cons a xs)
  show ?case
  proof (cases "k a = c")
    case True
    then have "filter (\<lambda>x. k x = c) xs = []" using Cons.prems by (auto simp: filter_empty_conv) (metis imageI)
    with True show ?thesis by simp
  qed (use Cons in simp)
qed simp

lemma filter_key_cases:
  assumes "distinct (map k xs)"
  obtains "filter (\<lambda>x. k x = c) xs = []" | x where "filter (\<lambda>x. k x = c) xs = [x]"
  using filter_key [OF assms] by blast

lemma distinct_evidence:
  assumes "distinct (map ss_statement rows)" and "distinct (map so_id srcs)"
  shows "distinct (map (ss_statement \<circ> fst) (concat (map (\<lambda>ss. map (Pair ss) (filter (\<lambda>s. so_id s = ss_source ss) srcs)) rows)))"
  using assms(1)
proof (induction rows)
  case (Cons r rows)
  have "distinct (map (ss_statement \<circ> fst) (map (Pair r) (filter (\<lambda>s. so_id s = ss_source r) srcs)))"
    using assms(2) by (rule filter_key_cases [where c = "ss_source r"]) simp_all
  moreover have "ss_statement r \<notin> set (map ss_statement rows)" using Cons.prems by simp
  ultimately show ?case using Cons by (auto simp: o_def)
qed simp

lemma distinct_window:
  assumes "pipeline_inv d"
  shows "distinct (map ev_StatementID (evidence_window pg t d))"
proof -
  have "distinct (map ss_statement (rls ss_tenant t (statement_sources d)))"
    "distinct (map so_id (rls so_tenant t (sources d)))"
    using assms by (simp_all add: inv_defs rls_def distinct_map_filter)
  from distinct_evidence [OF this] have "distinct (map (ss_statement \<circ> fst) (evidence_join pg t d))"
    by (simp add: evidence_join_def)
  then have "distinct (map (ss_statement \<circ> fst) (order_by (ss_statement \<circ> fst) (order_by (ss_source \<circ> fst) (evidence_join pg t d))))"
    by (simp add: order_by_def distinct_map)
  then have "distinct (map (ss_statement \<circ> fst) (limit_rows 1000 (order_by (ss_statement \<circ> fst) (order_by (ss_source \<circ> fst) (evidence_join pg t d)))))"
    by (simp add: limit_rows_def take_map [symmetric] distinct_take)
  then show ?thesis by (simp add: evidence_window_def o_def case_prod_unfold)
qed

lemma list_all_mapI: "(\<And>x. P (f x)) \<Longrightarrow> list_all P (map f xs)"
  by (induction xs) simp_all

lemma single_source_ceiling:
  assumes "distinct (map ev_StatementID evs)"
  shows "statement_confidence U h evs sid \<le> 1 / 2 \<or> sid \<notin> set (map ev_StatementID evs)"
proof (rule filter_key_cases [OF assms, of sid])
  assume "filter (\<lambda>x. ev_StatementID x = sid) evs = []"
  then show ?thesis by (auto simp: filter_empty_conv)
next
  fix x assume x: "filter (\<lambda>x. ev_StatementID x = sid) evs = [x]"
  then show ?thesis
    by (simp add: statement_confidence_def Let_def CountIndependentSources_def cluster_step ComputeConfidence_def
        corroborationCeiling_def oneSourceCeiling_def del: cluster_loop.simps)
qed

text \<open>C5. Independent confirmation never reaches the store: a second source for a statement already on
  file is dropped with its fact (the unique key of \<open>statements\<close> makes the insert return no row, and
  \<open>insertFact\<close> then skips the evidence row). So in every reachable database each statement has one
  evidence row, and a corroboration run leaves every statement it touches at 0.5 or below, however
  many sources say the same.\<close>

theorem corroboration_capped_at_half:
  assumes "fresh_db d0" and "reach U H pg d0 d" and "CorroborateOnce U h pg tid d = Inr d'"
  shows "distinct (map ss_statement (statement_sources d))
    \<and> list_all (\<lambda>st. st_confidence st \<le> 1 / 2
         \<or> (\<exists>t. scan_uuid pg tid = Some t \<and> \<not> (st_tenant st = t \<and> st_id st \<in> ev_StatementID ` set (evidence_window pg t d))))
       (statements d')"
proof -
  have inv: "pipeline_inv d" using reach_facts [OF assms(2) fresh_inv [OF assms(1)]] ..
  from assms(3) obtain t where t: "scan_uuid pg tid = Some t" and tx: "corroborate_tx U h pg t d = Inr d'"
    by (auto simp: CorroborateOnce_def split: if_splits option.splits)
  have cap: "numeric43 (statement_confidence U h (evidence_window pg t d) sid) \<le> 1 / 2"
    if "sid \<in> ev_StatementID ` set (evidence_window pg t d)" for sid
  proof -
    have "statement_confidence U h (evidence_window pg t d) sid \<le> 1 / 2"
      using single_source_ceiling [OF distinct_window [OF inv], of U h pg t sid] that by auto
    from numeric43_mono [OF this] numeric43_thousandths [of 500] show ?thesis by simp
  qed
  have st: "statements d' = map (\<lambda>r. if st_tenant r = t \<and> st_id r \<in> ev_StatementID ` set (evidence_window pg t d)
      then r\<lparr>st_confidence := numeric43 (statement_confidence U h (evidence_window pg t d) (st_id r))\<rparr> else r) (statements d)"
    using arg_cong [OF corroborate_tx_result [OF tx], of statements] by simp
  have "distinct (map ss_statement (statement_sources d))" using inv by (simp add: inv_defs)
  moreover have "list_all (\<lambda>st. st_confidence st \<le> 1 / 2
      \<or> \<not> (st_tenant st = t \<and> st_id st \<in> ev_StatementID ` set (evidence_window pg t d))) (statements d')"
    unfolding st
  proof (rule list_all_mapI)
    fix r
    show "st_confidence (if st_tenant r = t \<and> st_id r \<in> ev_StatementID ` set (evidence_window pg t d)
          then r\<lparr>st_confidence := numeric43 (statement_confidence U h (evidence_window pg t d) (st_id r))\<rparr> else r) \<le> 1 / 2
        \<or> \<not> (st_tenant (if st_tenant r = t \<and> st_id r \<in> ev_StatementID ` set (evidence_window pg t d)
          then r\<lparr>st_confidence := numeric43 (statement_confidence U h (evidence_window pg t d) (st_id r))\<rparr> else r) = t
          \<and> st_id (if st_tenant r = t \<and> st_id r \<in> ev_StatementID ` set (evidence_window pg t d)
          then r\<lparr>st_confidence := numeric43 (statement_confidence U h (evidence_window pg t d) (st_id r))\<rparr> else r)
            \<in> ev_StatementID ` set (evidence_window pg t d))"
      using cap [of "st_id r"]
      by (cases "st_tenant r = t \<and> st_id r \<in> ev_StatementID ` set (evidence_window pg t d)") simp_all
  qed
  ultimately show ?thesis unfolding t by (simp add: list_all_iff)
qed

theorem corroboration_capped_at_half_witness:
  "\<exists>d' :: db. CorroborateOnce ascii_tables (\<lambda>_. None) sample_pg ''t'' run3 = Inr d'
     \<and> distinct (map ss_statement (statement_sources run3))
     \<and> map st_confidence (statements d') = [1 / 2]"
proof -
  let ?r = "CorroborateOnce ascii_tables (\<lambda>_. None) sample_pg ''t'' run3"
  have "(case ?r of Inl e \<Rightarrow> False | Inr d' \<Rightarrow> map st_confidence (statements d') = [1 / 2])"
    unfolding run3_def by code_simp
  then obtain d' where d': "?r = Inr d'" "map st_confidence (statements d') = [1 / 2]" by (cases ?r) simp_all
  from corroboration_capped_at_half [OF run0_fresh run_reach(1) d'(1)]
  have "distinct (map ss_statement (statement_sources run3))" by blast
  with d' show ?thesis by (intro exI [of _ d'] conjI)
qed

end
