(* ===== verification/Assembler.thy ===== *)
theory Assembler
  imports Database "HOL-Library.List_Lexorder" "HOL-Library.Char_ord" "HOL-Library.Product_Lexorder"
begin

text \<open>
  \<open>internal/assembler/bundle.go\<close> and \<open>graph.go\<close>: the bundle behind dossiers, stories and briefs.
  \<open>Assemble\<close> starts from seed entities, follows the relations of confidence at least 0.4 for up to
  three hops, and loads the entities, their statements, the sources and qualifiers of these and the
  relations among the entities, all as queries of one transaction. Identifiers are strings here, as
  in the Go code: they pass through casts to \<open>uuid\<close> on the way to the database and are the
  canonical text on the way back. \<open>t\<close> is the tenant of the transaction (the row-level policies),
  \<open>tenantID\<close> the argument the queries filter by. Confidences are exact rationals where the code has
  \<open>float8\<close> copies of \<open>NUMERIC(4,3)\<close> values. Text sorts by bytes (the \<open>C\<close> collation).
\<close>

subsection \<open>The bundle\<close>

record BundleEntity =
  be_ID :: string
  be_Name :: string
  be_CanonicalName :: "string option"
  be_TypeURI :: string
  be_Description :: "string option"

record BundleStatement =
  bst_ID :: string
  bst_EntityID :: string
  bst_PropertySlug :: string
  bst_Value :: string
  bst_ValueType :: string
  bst_Rank :: int
  bst_Confidence :: rat
  bst_SourceIDs :: "string list"
  bst_QualifierIDs :: "string list"

record BundleSource =
  bso_ID :: string
  bso_URL :: string
  bso_ArchiveURL :: "string option"
  bso_PublishedAt :: "string option"
  bso_VerificationStatus :: string
  bso_RawText :: string
  bso_ExcerptOffsetStart :: int
  bso_ExcerptOffsetEnd :: int

record BundleQualifier =
  bqu_ID :: string
  bqu_StatementID :: string
  bqu_PropertySlug :: string
  bqu_Value :: string
  bqu_ValueType :: string

record BundleRelation =
  bre_ID :: string
  bre_SourceEntityID :: string
  bre_TargetEntityID :: string
  bre_RelationTypeSlug :: string
  bre_Confidence :: rat

record Bundle =
  bu_EntityID :: string
  bu_Entities :: "BundleEntity list"
  bu_Statements :: "BundleStatement list"
  bu_Sources :: "BundleSource list"
  bu_Qualifiers :: "BundleQualifier list"
  bu_Relations :: "BundleRelation list"
  bu_AssembledAt :: int
  bu_TenantID :: string

definition ErrEntityNotFound :: string where
  "ErrEntityNotFound = ''entity not found''"
definition ErrInvalidDepth :: string where
  "ErrInvalidDepth = ''depth must be between 0 and 3''"
definition ErrInvalidEntityCount :: string where
  "ErrInvalidEntityCount = ''must provide at least one entity ID''"

subsection \<open>Helpers\<close>

definition uniqueStrings :: "string list \<Rightarrow> string list" where
  "uniqueStrings values = dedup_by (\<lambda>v. v) [[]] values"

definition bundleRank :: "string \<Rightarrow> int" where
  "bundleRank rank = (if rank = ''preferred'' then 1 else if rank = ''normal'' then 2
     else if rank = ''deprecated'' then 3 else 2)"

definition firstStatementValue ::
    "pg_env \<Rightarrow> string option \<Rightarrow> string option \<Rightarrow> string option \<Rightarrow> int option \<Rightarrow> string option \<Rightarrow> string" where
  "firstStatementValue pg valEntity valText valNumber valDate valJSON =
     (case valEntity of Some s \<Rightarrow> s
      | None \<Rightarrow> (case valText of Some s \<Rightarrow> s
      | None \<Rightarrow> (case valNumber of Some s \<Rightarrow> s
      | None \<Rightarrow> (case valDate of Some i \<Rightarrow> rfc3339 pg i
      | None \<Rightarrow> (case valJSON of Some s \<Rightarrow> s | None \<Rightarrow> [])))))"

text \<open>The Go map \<open>byStatement\<close>: appending to the entry of a key, and reading an entry.\<close>

definition by_statement :: "(string \<times> string) list \<Rightarrow> string \<Rightarrow> string list" where
  "by_statement pairs k = map snd (filter (\<lambda>(a, _). a = k) pairs)"

lemma uniqueStrings_facts:
  "distinct (uniqueStrings vs)" "set (uniqueStrings vs) = set vs - {[]}"
  using distinct_dedup_by [of "\<lambda>v. v" "[[]]" vs] keys_dedup_by [of "\<lambda>v. v" "[[]]" vs]
  by (simp_all add: uniqueStrings_def)

lemma uniqueStrings_id: "distinct vs \<Longrightarrow> [] \<notin> set vs \<Longrightarrow> uniqueStrings vs = vs"
  unfolding uniqueStrings_def by (rule dedup_by_id) auto

subsection \<open>Graph expansion\<close>

text \<open>The relations the recursive query joins: of the tenant, with confidence at least 0.4.\<close>

definition strong_relations :: "uuid \<Rightarrow> uuid \<Rightarrow> db \<Rightarrow> relation_row list" where
  "strong_relations t tid d = filter (\<lambda>r. re_tenant r = tid \<and>
     (case re_confidence r of None \<Rightarrow> 0 | Some c \<Rightarrow> c) \<ge> 2 / 5) (rls re_tenant t (relations d))"

text \<open>The inner \<open>UNION ALL\<close>: every relation is an edge in both directions.\<close>

definition edge_targets :: "relation_row list \<Rightarrow> uuid \<Rightarrow> uuid list" where
  "edge_targets rels e = map re_target (filter (\<lambda>r. re_source r = e) rels)
     @ map re_source (filter (\<lambda>r. re_target r = e) rels)"

text \<open>One iteration of the recursive part on the working table, and the evaluation of
  \<open>WITH RECURSIVE ... UNION\<close>: iterate on the rows that are new until there are none.\<close>

definition graph_step :: "relation_row list \<Rightarrow> nat \<Rightarrow> (uuid \<times> nat) list \<Rightarrow> (uuid \<times> nat) list" where
  "graph_step rels depth work =
     concat (map (\<lambda>(e, g). if g < depth then map (\<lambda>n. (n, Suc g)) (edge_targets rels e) else []) work)"

function graph :: "relation_row list \<Rightarrow> nat \<Rightarrow> (uuid \<times> nat) list \<Rightarrow> (uuid \<times> nat) list \<Rightarrow> (uuid \<times> nat) list" where
  "graph rels depth result work =
     (if work = [] then result
      else (let new = filter (\<lambda>x. x \<notin> set result) (remdups (graph_step rels depth work))
            in graph rels depth (result @ new) new))"
  by pat_completeness auto

lemma graph_step_depth:
  "(n, g) \<in> set (graph_step rels depth work) \<Longrightarrow> g \<le> depth \<and> (\<exists>e h. (e, h) \<in> set work \<and> g = Suc h)"
  by (auto simp: graph_step_def split: if_splits)

text \<open>The depth of the shallowest row of the working table grows in every iteration, up to the bound.\<close>

termination graph
proof (relation "measure (\<lambda>(rels, depth, result, work).
    if work = [] then 0 else Suc (Suc depth - Min (snd ` set work)))", simp)
  fix rels depth result work new
  assume w: "work \<noteq> []" and new: "new = filter (\<lambda>x. x \<notin> set result) (remdups (graph_step rels depth work))"
  show "((rels, depth, result @ new, new), rels, depth, result, work)
     \<in> measure (\<lambda>(rels, depth, result, work). if work = [] then 0 else Suc (Suc depth - Min (snd ` set work)))"
  proof (cases "new = []")
    case False
    have "Min (snd ` set work) < Min (snd ` set new)"
    proof (rule Min_gr_iff [THEN iffD2])
      show "\<forall>a \<in> snd ` set new. Min (snd ` set work) < a"
      proof clarify
        fix n g assume "(n, g) \<in> set new"
        then have "(n, g) \<in> set (graph_step rels depth work)" by (simp add: new)
        then obtain e h where "(e, h) \<in> set work" "g = Suc h" by (auto dest: graph_step_depth)
        then show "Min (snd ` set work) < snd (n, g)" by (force simp: less_Suc_eq_le intro: Min_le)
      qed
    qed (use False in auto)
    moreover have "Min (snd ` set new) \<le> depth"
    proof -
      have "Min (snd ` set new) \<in> snd ` set new" by (rule Min_in) (use False in auto)
      then obtain n where "(n, Min (snd ` set new)) \<in> set (graph_step rels depth work)" by (auto simp: new)
      then show ?thesis by (auto dest: graph_step_depth)
    qed
    ultimately have "Suc depth - Min (snd ` set new) < Suc depth - Min (snd ` set work)" by linarith
    with w False show ?thesis by simp
  qed (use w in simp)
qed

declare graph.simps [simp del]

text \<open>\<open>SELECT DISTINCT entity_id::text ... ORDER BY entity_id::text\<close>.\<close>

definition ExpandGraph ::
    "pg_env \<Rightarrow> uuid \<Rightarrow> db \<Rightarrow> string list \<Rightarrow> int \<Rightarrow> string \<Rightarrow> string list result" where
  "ExpandGraph pg t d seedEntityIDs depth tenantID =
     (if depth < 0 \<or> depth > 3 then Err ErrInvalidDepth
      else if seedEntityIDs = [] then Err ErrInvalidEntityCount
      else if depth = 0 then Ok (uniqueStrings seedEntityIDs)
      else rbind (cast_uuids pg (uniqueStrings seedEntityIDs)) (\<lambda>seeds.
           rbind (cast_uuid pg tenantID) (\<lambda>tid.
             (let start = remdups (map (\<lambda>u. (u, 0)) seeds);
                  rows = graph (strong_relations t tid d) (nat depth) start start
              in Ok (order_by (\<lambda>s. s) (remdups (map (\<lambda>(e, _). uuid_text pg e) rows)))))))"

text \<open>What the query should compute: the entities a path of at most \<open>depth\<close> strong relations leads to.\<close>

definition strong_edges :: "relation_row list \<Rightarrow> (uuid \<times> uuid) set" where
  "strong_edges rels = {(a, b). \<exists>r \<in> set rels. (re_source r = a \<and> re_target r = b) \<or> (re_source r = b \<and> re_target r = a)}"

definition within_hops :: "relation_row list \<Rightarrow> nat \<Rightarrow> uuid set \<Rightarrow> uuid set" where
  "within_hops rels depth S = (\<Union>k \<le> depth. (strong_edges rels ^^ k) `` S)"

lemma edge_targets_edges: "set (edge_targets rels e) = strong_edges rels `` {e}"
  by (auto simp: edge_targets_def strong_edges_def)

lemma graph_step_level:
  assumes "set work = (\<lambda>e. (e, j)) ` ((strong_edges rels ^^ j) `` S)"
  shows "set (graph_step rels depth work) =
     (if j < depth then (\<lambda>e. (e, Suc j)) ` ((strong_edges rels ^^ Suc j) `` S) else {})"
  using assms by (auto simp: graph_step_def edge_targets_edges relcomp_unfold image_iff Bex_def)

lemma graph_levels:
  assumes "set result = (\<Union>k \<le> j. (\<lambda>e. (e, k)) ` ((strong_edges rels ^^ k) `` S))"
    and "set work = (\<lambda>e. (e, j)) ` ((strong_edges rels ^^ j) `` S)" and "j \<le> depth"
  shows "set (graph rels depth result work) = (\<Union>k \<le> depth. (\<lambda>e. (e, k)) ` ((strong_edges rels ^^ k) `` S))"
  using assms
proof (induction rels depth result work arbitrary: j rule: graph.induct)
  case (1 rels depth result work)
  let ?L = "\<lambda>k. (strong_edges rels ^^ k) `` S"
  let ?new = "filter (\<lambda>x. x \<notin> set result) (remdups (graph_step rels depth work))"
  note lvl = graph_step_level [OF "1.prems"(2), of depth]
  show ?case
  proof (cases "work = []")
    case True
    then have e: "?L j = {}" using "1.prems"(2) by simp
    have "?L k = {}" if "j \<le> k" for k
      using that
    proof (induction rule: dec_induct)
      case (step n)
      then show ?case by (auto simp: relcomp_unfold)
    qed (rule e)
    then have "k \<le> j" if "x \<in> ?L k" for k x using that by (metis empty_iff nle_le)
    then have "(\<Union>k \<le> depth. (\<lambda>e. (e, k)) ` ?L k) = (\<Union>k \<le> j. (\<lambda>e. (e, k)) ` ?L k)"
      using "1.prems"(3) by (fastforce simp del: Image_singleton_iff)
    then show ?thesis using True "1.prems"(1) by (simp add: graph.simps)
  next
    case False
    have eq: "graph rels depth result work = graph rels depth (result @ ?new) ?new"
      using False by (subst graph.simps) (simp add: Let_def)
    show ?thesis
    proof (cases "j < depth")
      case True
      have new: "set ?new = (\<lambda>e. (e, Suc j)) ` ?L (Suc j)"
        using lvl True "1.prems"(1) by auto
      have "set (result @ ?new) = (\<Union>k \<le> Suc j. (\<lambda>e. (e, k)) ` ?L k)"
        unfolding atMost_Suc using new "1.prems"(1) by auto
      from "1.IH" [OF False refl this new] True eq show ?thesis by simp
    next
      case False
      then have "?new = []" using lvl by simp
      moreover have "j = depth" using False "1.prems"(3) by simp
      ultimately show ?thesis using eq "1.prems"(1) by (simp add: graph.simps)
    qed
  qed
qed

lemma graph_within_hops:
  "fst ` set (graph rels depth (remdups (map (\<lambda>u. (u, 0)) seeds)) (remdups (map (\<lambda>u. (u, 0)) seeds)))
   = within_hops rels depth (set seeds)"
proof -
  let ?s = "remdups (map (\<lambda>u. (u, 0 :: nat)) seeds)"
  have "set (graph rels depth ?s ?s) = (\<Union>k \<le> depth. (\<lambda>e. (e, k)) ` ((strong_edges rels ^^ k) `` set seeds))"
    by (rule graph_levels [where j = 0]) auto
  then show ?thesis by (simp add: within_hops_def image_UN image_image)
qed

lemma ExpandGraph_ok:
  assumes "1 \<le> depth" "depth \<le> 3" "seeds \<noteq> []"
    and "cast_uuids pg (uniqueStrings seeds) = Inr us" and "scan_uuid pg tenantID = Some tid"
  shows "\<exists>out. ExpandGraph pg t d seeds depth tenantID = Inr out \<and> sorted out \<and> distinct out
    \<and> set out = uuid_text pg ` within_hops (strong_relations t tid d) (nat depth) (set us)"
proof -
  let ?s = "remdups (map (\<lambda>u. (u, 0)) us)"
  let ?out = "order_by (\<lambda>s. s) (remdups (map (\<lambda>(e, _). uuid_text pg e) (graph (strong_relations t tid d) (nat depth) ?s ?s)))"
  have "ExpandGraph pg t d seeds depth tenantID = Inr ?out"
    using assms by (simp add: ExpandGraph_def Let_def)
  moreover have "sorted ?out" "distinct ?out" by (simp_all add: order_by_def)
  moreover have "set ?out = uuid_text pg ` fst ` set (graph (strong_relations t tid d) (nat depth) ?s ?s)"
    by (force simp: image_image)
  then have "set ?out = uuid_text pg ` within_hops (strong_relations t tid d) (nat depth) (set us)"
    by (simp only: graph_within_hops)
  ultimately show ?thesis by blast
qed

text \<open>C19. Graph expansion always ends and computes reachability: from seeds that are UUIDs, for a
  depth of one to three, \<open>ExpandGraph\<close> returns exactly the entities that at most \<open>depth\<close> relations of
  the tenant with confidence at least 0.4 lead to, in either direction, the seeds among them, each
  once and in the order of their text.\<close>

theorem expand_graph_exact:
  assumes "1 \<le> depth" "depth \<le> 3" "seeds \<noteq> []"
    and "cast_uuids pg (uniqueStrings seeds) = Inr us" and "scan_uuid pg tenantID = Some tid"
  shows "\<exists>out. ExpandGraph pg t d seeds depth tenantID = Inr out \<and> sorted out \<and> distinct out
    \<and> set out = uuid_text pg ` within_hops (strong_relations t tid d) (nat depth) (set us)"
  using assms by (rule ExpandGraph_ok)

definition linked_pair :: db where
  "linked_pair = empty_db\<lparr>relations :=
     [\<lparr>re_id = 9, re_tenant = 1, re_source = 2, re_target = 3, re_type = ''owns'', re_weight = None,
       re_confidence = Some (2 / 5), re_description = None, re_embedding = None, re_meta = ''{}'', re_statement = None\<rparr>,
      \<lparr>re_id = 10, re_tenant = 1, re_source = 3, re_target = 4, re_type = ''owns'', re_weight = None,
       re_confidence = None, re_description = None, re_embedding = None, re_meta = ''{}'', re_statement = None\<rparr>]\<rparr>"

theorem expand_graph_exact_witness:
  "\<exists>out. ExpandGraph sample_pg 1 linked_pair [''uuu''] 2 ''t'' = Inr out \<and> ''uu'' \<in> set out \<and> distinct out"
proof -
  have c: "cast_uuids sample_pg (uniqueStrings [''uuu'']) = Inr [3]"
    by (simp add: uniqueStrings_def cast_uuid_def sample_pg_def)
  have t: "scan_uuid sample_pg ''t'' = Some 1" by (simp add: sample_pg_def)
  from expand_graph_exact [OF _ _ _ c t, of 2 1 linked_pair] obtain out
    where out: "ExpandGraph sample_pg 1 linked_pair [''uuu''] 2 ''t'' = Inr out" "distinct out"
      "set out = uuid_text sample_pg ` within_hops (strong_relations 1 1 linked_pair) 2 {3}" by auto
  have "(3, 2) \<in> strong_edges (strong_relations 1 1 linked_pair)"
    by (simp add: strong_edges_def strong_relations_def linked_pair_def)
  then have "2 \<in> within_hops (strong_relations 1 1 linked_pair) 2 {3}"
    unfolding within_hops_def by (intro UN_I [of 1]) auto
  moreover have "uuid_text sample_pg 2 = ''uu''" by (simp add: sample_pg_def numeral_2_eq_2)
  ultimately show ?thesis using out by force
qed

subsection \<open>Loading the parts\<close>

definition bundle_entity :: "pg_env \<Rightarrow> entity_row \<Rightarrow> BundleEntity" where
  "bundle_entity pg e = \<lparr>be_ID = uuid_text pg (en_id e), be_Name = en_label e, be_CanonicalName = en_ext_id e,
     be_TypeURI = (case en_type_uri e of None \<Rightarrow> [] | Some u \<Rightarrow> u), be_Description = en_description e\<rparr>"

definition loadBundleEntities ::
    "pg_env \<Rightarrow> uuid \<Rightarrow> db \<Rightarrow> string list \<Rightarrow> string \<Rightarrow> BundleEntity list result" where
  "loadBundleEntities pg t d entityIDs tenantID =
     rbind (cast_uuid pg tenantID) (\<lambda>tid.
     rbind (cast_uuids pg (uniqueStrings entityIDs)) (\<lambda>ids.
       Ok (map (bundle_entity pg) (order_by (\<lambda>e. (en_label e, en_id e))
         (filter (\<lambda>e. en_tenant e = tid \<and> en_id e \<in> set ids) (rls en_tenant t (entities d)))))))"

definition rank_order :: "string \<Rightarrow> nat" where
  "rank_order r = (if r = ''preferred'' then 1 else if r = ''normal'' then 2 else 3)"

definition bundle_statement :: "pg_env \<Rightarrow> statement_row \<times> property_row \<Rightarrow> BundleStatement" where
  "bundle_statement pg = (\<lambda>(s, p). \<lparr>bst_ID = uuid_text pg (st_id s), bst_EntityID = uuid_text pg (st_subject s),
     bst_PropertySlug = pp_slug p,
     bst_Value = firstStatementValue pg (map_option (uuid_text pg) (st_val_entity s)) (st_val_text s)
       (st_val_number s) (st_val_date s) (st_val_json s),
     bst_ValueType = pp_value_type p, bst_Rank = bundleRank (st_rank s), bst_Confidence = st_confidence s,
     bst_SourceIDs = [], bst_QualifierIDs = []\<rparr>)"

definition statement_rows :: "uuid \<Rightarrow> uuid \<Rightarrow> uuid list \<Rightarrow> db \<Rightarrow> (statement_row \<times> property_row) list" where
  "statement_rows t tid ids d =
     order_by (\<lambda>(s, p). (rank_order (st_rank s), - st_confidence s, - st_created s, st_id s))
       (concat (map (\<lambda>s. map (\<lambda>p. (s, p)) (filter (\<lambda>p. pp_id p = st_property s) (rls_properties t (properties d))))
         (filter (\<lambda>s. st_tenant s = tid \<and> st_subject s \<in> set ids) (rls st_tenant t (statements d)))))"

definition loadBundleStatements ::
    "pg_env \<Rightarrow> uuid \<Rightarrow> db \<Rightarrow> string list \<Rightarrow> string \<Rightarrow> (BundleStatement list \<times> string list) result" where
  "loadBundleStatements pg t d entityIDs tenantID =
     rbind (cast_uuid pg tenantID) (\<lambda>tid.
     rbind (cast_uuids pg (uniqueStrings entityIDs)) (\<lambda>ids.
       (let stmts = map (bundle_statement pg) (statement_rows t tid ids d)
        in Ok (stmts, map bst_ID stmts))))"

definition bundle_source :: "pg_env \<Rightarrow> statement_source_row \<times> source_row \<Rightarrow> BundleSource" where
  "bundle_source pg = (\<lambda>(r, s). \<lparr>bso_ID = uuid_text pg (so_id s), bso_URL = so_url s,
     bso_ArchiveURL = so_archive_url s, bso_PublishedAt = map_option (rfc3339 pg) (so_published_at s),
     bso_VerificationStatus = so_status s, bso_RawText = ss_excerpt r,
     bso_ExcerptOffsetStart = ss_start r, bso_ExcerptOffsetEnd = ss_end r\<rparr>)"

definition evidence_rows :: "uuid \<Rightarrow> uuid \<Rightarrow> uuid list \<Rightarrow> db \<Rightarrow> (statement_source_row \<times> source_row) list" where
  "evidence_rows t tid ids d =
     order_by (\<lambda>(r, s). (ss_statement r, - ss_extracted_at r, so_id s))
       (concat (map (\<lambda>r. map (\<lambda>s. (r, s)) (filter (\<lambda>s. so_id s = ss_source r) (rls so_tenant t (sources d))))
         (filter (\<lambda>r. ss_tenant r = tid \<and> ss_statement r \<in> set ids) (rls ss_tenant t (statement_sources d)))))"

text \<open>The second component is what the code collects in the map \<open>byStatement\<close>.\<close>

definition loadBundleSources ::
    "pg_env \<Rightarrow> uuid \<Rightarrow> db \<Rightarrow> string list \<Rightarrow> string \<Rightarrow> (BundleSource list \<times> (string \<times> string) list) result" where
  "loadBundleSources pg t d statementIDs tenantID =
     (if statementIDs = [] then Ok ([], [])
      else rbind (cast_uuid pg tenantID) (\<lambda>tid.
           rbind (cast_uuids pg statementIDs) (\<lambda>ids.
             (let rows = evidence_rows t tid ids d
              in Ok (dedup_by bso_ID [] (map (bundle_source pg) rows),
                     map (\<lambda>(r, s). (uuid_text pg (ss_statement r), uuid_text pg (so_id s))) rows)))))"

definition bundle_qualifier :: "pg_env \<Rightarrow> qualifier_row \<times> property_row \<Rightarrow> BundleQualifier" where
  "bundle_qualifier pg = (\<lambda>(q, p). \<lparr>bqu_ID = uuid_text pg (qu_id q), bqu_StatementID = uuid_text pg (qu_statement q),
     bqu_PropertySlug = pp_slug p,
     bqu_Value = firstStatementValue pg (map_option (uuid_text pg) (qu_val_entity q)) (qu_val_text q)
       (qu_val_number q) (qu_val_date q) None,
     bqu_ValueType = pp_value_type p\<rparr>)"

definition qualifier_rows :: "uuid \<Rightarrow> uuid \<Rightarrow> uuid list \<Rightarrow> db \<Rightarrow> (qualifier_row \<times> property_row) list" where
  "qualifier_rows t tid ids d =
     order_by (\<lambda>(q, p). (qu_statement q, pp_slug p, qu_id q))
       (concat (map (\<lambda>q. concat (map (\<lambda>p. map (\<lambda>s. (q, p))
            (filter (\<lambda>s. st_id s = qu_statement q \<and> st_tenant s = tid) (rls st_tenant t (statements d))))
          (filter (\<lambda>p. pp_id p = qu_property q) (rls_properties t (properties d)))))
        (filter (\<lambda>q. qu_statement q \<in> set ids)
          (rls_qualifiers (rls st_tenant t (statements d)) (qualifiers d)))))"

definition loadBundleQualifiers ::
    "pg_env \<Rightarrow> uuid \<Rightarrow> db \<Rightarrow> string list \<Rightarrow> string \<Rightarrow> (BundleQualifier list \<times> (string \<times> string) list) result" where
  "loadBundleQualifiers pg t d statementIDs tenantID =
     (if statementIDs = [] then Ok ([], [])
      else rbind (cast_uuids pg statementIDs) (\<lambda>ids.
           rbind (cast_uuid pg tenantID) (\<lambda>tid.
             (let quals = map (bundle_qualifier pg) (qualifier_rows t tid ids d)
              in Ok (quals, map (\<lambda>q. (bqu_StatementID q, bqu_ID q)) quals)))))"

definition bundle_relation :: "pg_env \<Rightarrow> relation_row \<Rightarrow> BundleRelation" where
  "bundle_relation pg r = \<lparr>bre_ID = uuid_text pg (re_id r), bre_SourceEntityID = uuid_text pg (re_source r),
     bre_TargetEntityID = uuid_text pg (re_target r), bre_RelationTypeSlug = re_type r,
     bre_Confidence = (case re_confidence r of None \<Rightarrow> 0 | Some c \<Rightarrow> c)\<rparr>"

definition loadBundleRelations ::
    "pg_env \<Rightarrow> uuid \<Rightarrow> db \<Rightarrow> string list \<Rightarrow> string \<Rightarrow> BundleRelation list result" where
  "loadBundleRelations pg t d entityIDs tenantID =
     rbind (cast_uuid pg tenantID) (\<lambda>tid.
     rbind (cast_uuids pg (uniqueStrings entityIDs)) (\<lambda>ids.
       Ok (map (bundle_relation pg)
         (order_by (\<lambda>r. (case re_confidence r of None \<Rightarrow> (1 :: nat, 0) | Some c \<Rightarrow> (0, - c), re_id r))
           (filter (\<lambda>r. re_tenant r = tid \<and> re_source r \<in> set ids \<and> re_target r \<in> set ids)
             (rls re_tenant t (relations d)))))))"

definition Assemble ::
    "pg_env \<Rightarrow> uuid \<Rightarrow> db \<Rightarrow> string list \<Rightarrow> int \<Rightarrow> string \<Rightarrow> Bundle result" where
  "Assemble pg t d entityIDs depth tenantID =
     (if entityIDs = [] then Err ErrInvalidEntityCount
      else if depth < 0 \<or> depth > 3 then Err ErrInvalidDepth
      else
        rbind (if depth > 0 then ExpandGraph pg t d entityIDs depth tenantID else Ok entityIDs) (\<lambda>allEntityIDs.
        rbind (loadBundleEntities pg t d allEntityIDs tenantID) (\<lambda>ents.
          if length ents \<noteq> length (uniqueStrings allEntityIDs) then Err ErrEntityNotFound
          else
            rbind (loadBundleStatements pg t d allEntityIDs tenantID) (\<lambda>(stmts, statementIDs).
            rbind (loadBundleSources pg t d statementIDs tenantID) (\<lambda>(srcs, sourceIDsByStatement).
            rbind (loadBundleQualifiers pg t d statementIDs tenantID) (\<lambda>(quals, qualifierIDsByStatement).
            rbind (loadBundleRelations pg t d allEntityIDs tenantID) (\<lambda>rels.
              Ok \<lparr>bu_EntityID = hd entityIDs, bu_Entities = ents,
                 bu_Statements = map (\<lambda>s. s\<lparr>bst_SourceIDs := by_statement sourceIDsByStatement (bst_ID s),
                   bst_QualifierIDs := by_statement qualifierIDsByStatement (bst_ID s)\<rparr>) stmts,
                 bu_Sources = srcs, bu_Qualifiers = quals, bu_Relations = rels,
                 bu_AssembledAt = now d, bu_TenantID = tenantID\<rparr>)))))))"

subsection \<open>What a returned bundle is\<close>

text \<open>A successful call, step by step: the tenant, the entities, and the five parts.\<close>

definition seed_ids :: "pg_env \<Rightarrow> uuid \<Rightarrow> db \<Rightarrow> string list \<Rightarrow> int \<Rightarrow> string \<Rightarrow> string list result" where
  "seed_ids pg t d entityIDs depth tenantID =
     (if depth > 0 then ExpandGraph pg t d entityIDs depth tenantID else Ok entityIDs)"

lemma Assemble_ok:
  assumes "Assemble pg t d entityIDs depth tenantID = Inr b"
  obtains allIDs tid ids ents stmts where
    "entityIDs \<noteq> []" "seed_ids pg t d entityIDs depth tenantID = Inr allIDs" "scan_uuid pg tenantID = Some tid"
    "cast_uuids pg (uniqueStrings allIDs) = Inr ids"
    "loadBundleEntities pg t d allIDs tenantID = Inr ents" "length ents = length (uniqueStrings allIDs)"
    "stmts = map (bundle_statement pg) (statement_rows t tid ids d)"
    "\<exists>srcs sp quals qp rels. loadBundleSources pg t d (map bst_ID stmts) tenantID = Inr (srcs, sp)
       \<and> loadBundleQualifiers pg t d (map bst_ID stmts) tenantID = Inr (quals, qp)
       \<and> loadBundleRelations pg t d allIDs tenantID = Inr rels
       \<and> b = \<lparr>bu_EntityID = hd entityIDs, bu_Entities = ents,
             bu_Statements = map (\<lambda>s. s\<lparr>bst_SourceIDs := by_statement sp (bst_ID s),
               bst_QualifierIDs := by_statement qp (bst_ID s)\<rparr>) stmts,
             bu_Sources = srcs, bu_Qualifiers = quals, bu_Relations = rels, bu_AssembledAt = now d, bu_TenantID = tenantID\<rparr>"
proof -
  from assms obtain allIDs ents where 1: "entityIDs \<noteq> []" "seed_ids pg t d entityIDs depth tenantID = Inr allIDs"
    "loadBundleEntities pg t d allIDs tenantID = Inr ents" "length ents = length (uniqueStrings allIDs)"
    and rest: "rbind (loadBundleStatements pg t d allIDs tenantID) (\<lambda>(stmts, statementIDs).
            rbind (loadBundleSources pg t d statementIDs tenantID) (\<lambda>(srcs, sourceIDsByStatement).
            rbind (loadBundleQualifiers pg t d statementIDs tenantID) (\<lambda>(quals, qualifierIDsByStatement).
            rbind (loadBundleRelations pg t d allIDs tenantID) (\<lambda>rels.
              Inr \<lparr>bu_EntityID = hd entityIDs, bu_Entities = ents,
                 bu_Statements = map (\<lambda>s. s\<lparr>bst_SourceIDs := by_statement sourceIDsByStatement (bst_ID s),
                   bst_QualifierIDs := by_statement qualifierIDsByStatement (bst_ID s)\<rparr>) stmts,
                 bu_Sources = srcs, bu_Qualifiers = quals, bu_Relations = rels,
                 bu_AssembledAt = now d, bu_TenantID = tenantID\<rparr>)))) = Inr b"
    by (auto simp: Assemble_def seed_ids_def rbind_Inr_iff split: if_splits)
  from 1(3) obtain tid ids where 2: "scan_uuid pg tenantID = Some tid" "cast_uuids pg (uniqueStrings allIDs) = Inr ids"
    by (auto simp: loadBundleEntities_def rbind_Inr_iff)
  let ?stmts = "map (bundle_statement pg) (statement_rows t tid ids d)"
  have "loadBundleStatements pg t d allIDs tenantID = Inr (?stmts, map bst_ID ?stmts)"
    using 2 by (simp add: loadBundleStatements_def Let_def)
  with rest have "\<exists>srcs sp quals qp rels. loadBundleSources pg t d (map bst_ID ?stmts) tenantID = Inr (srcs, sp)
       \<and> loadBundleQualifiers pg t d (map bst_ID ?stmts) tenantID = Inr (quals, qp)
       \<and> loadBundleRelations pg t d allIDs tenantID = Inr rels
       \<and> b = \<lparr>bu_EntityID = hd entityIDs, bu_Entities = ents,
             bu_Statements = map (\<lambda>s. s\<lparr>bst_SourceIDs := by_statement sp (bst_ID s),
               bst_QualifierIDs := by_statement qp (bst_ID s)\<rparr>) ?stmts,
             bu_Sources = srcs, bu_Qualifiers = quals, bu_Relations = rels, bu_AssembledAt = now d, bu_TenantID = tenantID\<rparr>"
    by (auto simp: rbind_Inr_iff)
  from that [OF 1(1,2) 2 1(3,4) refl this] show thesis .
qed

text \<open>The length test of \<open>Assemble\<close>: every requested identifier names an entity of the tenant.\<close>

definition tenant_entities :: "uuid \<Rightarrow> uuid \<Rightarrow> db \<Rightarrow> uuid set" where
  "tenant_entities t tid d = {en_id e | e. e \<in> set (entities d) \<and> en_tenant e = t \<and> en_tenant e = tid}"

lemma loaded_entities:
  assumes "distinct (map en_id (entities d))" and "loadBundleEntities pg t d allIDs tenantID = Inr ents"
    and "scan_uuid pg tenantID = Some tid" and "cast_uuids pg (uniqueStrings allIDs) = Inr ids"
  shows "length ents = card (set ids \<inter> tenant_entities t tid d)"
    and "be_ID ` set ents = uuid_text pg ` (set ids \<inter> tenant_entities t tid d)"
proof -
  let ?es = "filter (\<lambda>e. en_tenant e = tid \<and> en_id e \<in> set ids) (rls en_tenant t (entities d))"
  have ents: "ents = map (bundle_entity pg) (order_by (\<lambda>e. (en_label e, en_id e)) ?es)"
    using assms(2-4) by (simp add: loadBundleEntities_def)
  have img: "en_id ` set ?es = set ids \<inter> tenant_entities t tid d"
    by (auto simp: tenant_entities_def)
  have "inj_on en_id (set (entities d))" "distinct (entities d)" using assms(1) by (simp_all add: distinct_map)
  then have "inj_on en_id (set ?es)" "distinct ?es" by (auto simp: rls_def inj_on_def)
  then have "card (en_id ` set ?es) = length ?es" by (simp only: card_image distinct_card)
  with img show "length ents = card (set ids \<inter> tenant_entities t tid d)" by (simp add: ents order_by_def)
  show "be_ID ` set ents = uuid_text pg ` (set ids \<inter> tenant_entities t tid d)"
    unfolding img [symmetric] by (force simp: ents bundle_entity_def)
qed

lemma entity_count_test:
  assumes "distinct (map en_id (entities d))" and "loadBundleEntities pg t d allIDs tenantID = Inr ents"
    and "scan_uuid pg tenantID = Some tid" and "cast_uuids pg (uniqueStrings allIDs) = Inr ids"
  shows "length ents = length (uniqueStrings allIDs) \<longleftrightarrow> distinct ids \<and> set ids \<subseteq> tenant_entities t tid d"
proof -
  have "map Some ids = map (scan_uuid pg) (uniqueStrings allIDs)" using assms(4) by (simp add: cast_uuids_Inr_iff)
  then have "length (uniqueStrings allIDs) = length ids" by (metis length_map)
  moreover have "card (set ids \<inter> tenant_entities t tid d) \<le> card (set ids)" by (simp add: card_mono)
  moreover have "card (set ids) \<le> length ids" by (rule card_length)
  moreover have "card (set ids \<inter> A) = card (set ids) \<longleftrightarrow> set ids \<subseteq> A" for A
    by (metis card_subset_eq finite_set inf.absorb_iff1 inf.cobounded1)
  ultimately show ?thesis
    using loaded_entities(1) [OF assms] card_distinct [of ids] distinct_card [of ids] by (metis dual_order.antisym)
qed

lemma statement_rows_facts:
  "(s, p) \<in> set (statement_rows t tid ids d) \<longleftrightarrow> s \<in> set (statements d) \<and> st_tenant s = t \<and> st_tenant s = tid
     \<and> st_subject s \<in> set ids \<and> p \<in> set (rls_properties t (properties d)) \<and> pp_id p = st_property s"
  by (auto simp: statement_rows_def)

lemma loaded_sources:
  assumes "loadBundleSources pg t d ids tenantID = Inr (srcs, sp)"
  shows "distinct (map bso_ID srcs)" "bso_ID ` set srcs = snd ` set sp"
proof -
  consider "srcs = []" "sp = []" | rows where "srcs = dedup_by bso_ID [] (map (bundle_source pg) rows)"
    "sp = map (\<lambda>(r, s). (uuid_text pg (ss_statement r), uuid_text pg (so_id s))) rows"
    using assms by (auto simp: loadBundleSources_def rbind_Inr_iff Let_def split: if_splits)
  then have "distinct (map bso_ID srcs) \<and> bso_ID ` set srcs = snd ` set sp"
  proof cases
    case (2 rows)
    have "bso_ID ` set srcs = bso_ID ` set (map (bundle_source pg) rows)"
      by (simp add: 2(1) keys_dedup_by)
    also have "\<dots> = snd ` set sp" unfolding 2(2) set_map image_image by (intro image_cong) (auto simp: bundle_source_def)
    finally show ?thesis by (simp add: 2(1) distinct_dedup_by)
  qed simp
  then show "distinct (map bso_ID srcs)" "bso_ID ` set srcs = snd ` set sp" by simp_all
qed

lemma loaded_source_statements:
  assumes "loadBundleSources pg t d (map (uuid_text pg) us) tenantID = Inr (srcs, sp)" and "uuid_roundtrip pg"
  shows "fst ` set sp \<subseteq> uuid_text pg ` set us"
proof (cases "us = []")
  case False
  then obtain tid where "sp = map (\<lambda>(r, s). (uuid_text pg (ss_statement r), uuid_text pg (so_id s))) (evidence_rows t tid us d)"
    using assms(1) cast_uuids_text [OF assms(2)] by (auto simp: loadBundleSources_def rbind_Inr_iff Let_def)
  then show ?thesis by (auto simp: evidence_rows_def)
qed (use assms in \<open>simp add: loadBundleSources_def\<close>)

lemma loaded_qualifiers:
  assumes "loadBundleQualifiers pg t d (map (uuid_text pg) us) tenantID = Inr (quals, qp)" and "uuid_roundtrip pg"
  shows "bqu_StatementID ` set quals \<subseteq> uuid_text pg ` set us" "snd ` set qp = bqu_ID ` set quals"
proof -
  consider "quals = []" "qp = []" | tid where "quals = map (bundle_qualifier pg) (qualifier_rows t tid us d)"
    "qp = map (\<lambda>q. (bqu_StatementID q, bqu_ID q)) quals"
    using assms(1) cast_uuids_text [OF assms(2)]
    by (auto simp: loadBundleQualifiers_def rbind_Inr_iff Let_def split: if_splits)
  then have "bqu_StatementID ` set quals \<subseteq> uuid_text pg ` set us \<and> snd ` set qp = bqu_ID ` set quals"
    by cases (auto simp: qualifier_rows_def rls_qualifiers_def bundle_qualifier_def image_image)
  then show "bqu_StatementID ` set quals \<subseteq> uuid_text pg ` set us" "snd ` set qp = bqu_ID ` set quals" by simp_all
qed

lemma loaded_relations:
  assumes "loadBundleRelations pg t d allIDs tenantID = Inr rels" and "cast_uuids pg (uniqueStrings allIDs) = Inr ids"
    and "r \<in> set rels"
  shows "bre_SourceEntityID r \<in> uuid_text pg ` set ids" "bre_TargetEntityID r \<in> uuid_text pg ` set ids"
  using assms by (auto simp: loadBundleRelations_def rbind_Inr_iff bundle_relation_def)

lemma by_statement_subset: "set (by_statement pairs k) \<subseteq> snd ` set pairs"
  by (force simp: by_statement_def)

text \<open>The references inside a bundle resolve inside it.\<close>

definition bundle_closed :: "Bundle \<Rightarrow> bool" where
  "bundle_closed b \<longleftrightarrow>
     (\<forall>s \<in> set (bu_Statements b). bst_EntityID s \<in> be_ID ` set (bu_Entities b)
        \<and> set (bst_SourceIDs s) \<subseteq> bso_ID ` set (bu_Sources b)
        \<and> set (bst_QualifierIDs s) \<subseteq> bqu_ID ` set (bu_Qualifiers b))
     \<and> (\<forall>x \<in> set (bu_Sources b). \<exists>s \<in> set (bu_Statements b). bso_ID x \<in> set (bst_SourceIDs s))
     \<and> (\<forall>q \<in> set (bu_Qualifiers b). bqu_StatementID q \<in> bst_ID ` set (bu_Statements b))
     \<and> (\<forall>r \<in> set (bu_Relations b). bre_SourceEntityID r \<in> be_ID ` set (bu_Entities b)
        \<and> bre_TargetEntityID r \<in> be_ID ` set (bu_Entities b))
     \<and> distinct (map bso_ID (bu_Sources b))"

text \<open>C18. A bundle is self-contained: whenever \<open>Assemble\<close> returns one, every statement is about an
  entity of the bundle and cites only sources and qualifiers of the bundle, every source is cited by
  some statement and listed once, every qualifier belongs to a statement of the bundle, and both ends
  of every relation are entities of the bundle.\<close>

theorem assembled_bundle_closed:
  assumes rt: "uuid_roundtrip pg" and pk: "distinct (map en_id (entities d))"
    and ok: "Assemble pg t d entityIDs depth tenantID = Inr b"
  shows "bundle_closed b"
proof -
  from ok obtain allIDs tid ids ents stmts srcs sp quals qp rels where
    tid: "scan_uuid pg tenantID = Some tid" and ids: "cast_uuids pg (uniqueStrings allIDs) = Inr ids"
    and ents: "loadBundleEntities pg t d allIDs tenantID = Inr ents" "length ents = length (uniqueStrings allIDs)"
    and stmts: "stmts = map (bundle_statement pg) (statement_rows t tid ids d)"
    and srcs: "loadBundleSources pg t d (map bst_ID stmts) tenantID = Inr (srcs, sp)"
    and quals: "loadBundleQualifiers pg t d (map bst_ID stmts) tenantID = Inr (quals, qp)"
    and rels: "loadBundleRelations pg t d allIDs tenantID = Inr rels"
    and b: "b = \<lparr>bu_EntityID = hd entityIDs, bu_Entities = ents,
             bu_Statements = map (\<lambda>s. s\<lparr>bst_SourceIDs := by_statement sp (bst_ID s),
               bst_QualifierIDs := by_statement qp (bst_ID s)\<rparr>) stmts,
             bu_Sources = srcs, bu_Qualifiers = quals, bu_Relations = rels, bu_AssembledAt = now d, bu_TenantID = tenantID\<rparr>"
    by (elim Assemble_ok) blast
  have E: "be_ID ` set ents = uuid_text pg ` set ids"
    using loaded_entities(2) [OF pk ents(1) tid ids] entity_count_test [OF pk ents(1) tid ids] ents(2)
    by (simp add: inf.absorb1)
  let ?us = "map (\<lambda>(s, p). st_id s) (statement_rows t tid ids d)"
  have us: "map bst_ID stmts = map (uuid_text pg) ?us" by (auto simp: stmts bundle_statement_def)
  then have S: "bst_ID ` set stmts = uuid_text pg ` set ?us" by (metis image_set)
  have subj: "bst_EntityID s \<in> uuid_text pg ` set ids" if "s \<in> set stmts" for s
    using that by (auto simp: stmts bundle_statement_def statement_rows_facts)
  have cited: "\<exists>s \<in> set stmts. bso_ID x \<in> set (by_statement sp (bst_ID s))" if "x \<in> set srcs" for x
  proof -
    from that loaded_sources(2) [OF srcs] obtain k where k: "(k, bso_ID x) \<in> set sp" by force
    then have "k \<in> bst_ID ` set stmts" using loaded_source_statements [OF srcs [unfolded us] rt] S by force
    with k show ?thesis by (force simp: by_statement_def)
  qed
  have "set (by_statement sp k) \<subseteq> bso_ID ` set srcs" "set (by_statement qp k) \<subseteq> bqu_ID ` set quals" for k
    using by_statement_subset loaded_sources(2) [OF srcs] loaded_qualifiers(2) [OF quals [unfolded us] rt] by metis+
  moreover have "bqu_StatementID q \<in> bst_ID ` set stmts" if "q \<in> set quals" for q
    using loaded_qualifiers(1) [OF quals [unfolded us] rt] that S by blast
  moreover have "bre_SourceEntityID r \<in> be_ID ` set ents \<and> bre_TargetEntityID r \<in> be_ID ` set ents"
    if "r \<in> set rels" for r using loaded_relations [OF rels ids that] E by blast
  ultimately show ?thesis
    using E subj cited loaded_sources(1) [OF srcs] by (simp add: bundle_closed_def b image_image)
qed

definition cited_company :: db where
  "cited_company = empty_db\<lparr>
     entities := [\<lparr>en_id = 2, en_tenant = 1, en_ext_id = None, en_label = ''Acme'', en_type_uri = None,
       en_description = None, en_embedding = None, en_meta = ''{}'', en_created = 0, en_updated = 0\<rparr>],
     properties := [\<lparr>pp_id = 3, pp_tenant = Some 1, pp_slug = ''cik'', pp_label = ''CIK'',
       pp_value_type = ''string'', pp_description = None\<rparr>],
     statements := map (\<lambda>(i, v). \<lparr>st_id = i, st_tenant = 1, st_subject = 2, st_property = 3, st_val_entity = None,
       st_val_text = Some v, st_val_number = None, st_val_date = None, st_val_json = None, st_rank = ''normal'',
       st_confidence = 1 / 2, st_embedding = None, st_created = 0\<rparr>) [(4, ''7''), (5, ''8'')],
     statement_sources := map (\<lambda>(i, st, x, a). \<lparr>ss_id = i, ss_statement = st, ss_source = 6, ss_excerpt = x,
       ss_start = a, ss_end = a + 1, ss_method = ''m'', ss_extracted_at = 0, ss_confidence = None, ss_tenant = 1\<rparr>)
       [(7, 4, ''7'', 0), (8, 5, ''8'', 2)],
     sources := [\<lparr>so_id = 6, so_tenant = 1, so_url = ''u'', so_fetched_at = 0, so_content_hash = [],
       so_raw_html = None, so_raw_text = Some ''7 8'', so_archive_url = None, so_publisher = None, so_title = None,
       so_published_at = None, so_embedding = None, so_last_verified_at = None, so_status = ''extracted'',
       so_created = 0, so_meta = ''{}''\<rparr>]\<rparr>"

text \<open>Two statements quote the same source at different places. The bundle lists the source once, with
  the excerpt of the first: the excerpt and offsets behind the second statement are gone.\<close>

lemma shared_source_one_excerpt:
  "(case Assemble sample_pg 1 cited_company [''uu''] 0 ''t'' of Inl e \<Rightarrow> False | Inr b \<Rightarrow>
      map bst_Value (bu_Statements b) = [''7'', ''8'']
      \<and> map bst_SourceIDs (bu_Statements b) = [[''uuuuuu''], [''uuuuuu'']]
      \<and> map bso_RawText (bu_Sources b) = [''7''])"
  by code_simp

theorem assembled_bundle_closed_witness:
  "\<exists>b. Assemble sample_pg 1 cited_company [''uu''] 0 ''t'' = Inr b \<and> bundle_closed b
     \<and> map bst_Value (bu_Statements b) = [''7'', ''8'']"
proof -
  obtain b where b: "Assemble sample_pg 1 cited_company [''uu''] 0 ''t'' = Inr b"
    "map bst_Value (bu_Statements b) = [''7'', ''8'']"
    using shared_source_one_excerpt by (auto split: sum.splits)
  have pk: "distinct (map en_id (entities cited_company))" by (simp add: cited_company_def)
  have "bundle_closed b" by (rule assembled_bundle_closed [OF sample_pg_roundtrip pk b(1)])
  with b show ?thesis by (intro exI [of _ b] conjI)
qed

text \<open>When a bundle is assembled, for any depth.\<close>

lemma Assemble_is_ok_iff:
  assumes rt: "uuid_roundtrip pg" and pk: "distinct (map en_id (entities d))"
  shows "is_ok (Assemble pg t d entityIDs depth tenantID) \<longleftrightarrow> entityIDs \<noteq> [] \<and> 0 \<le> depth \<and> depth \<le> 3 \<and>
    (\<exists>allIDs tid ids. seed_ids pg t d entityIDs depth tenantID = Inr allIDs \<and> scan_uuid pg tenantID = Some tid
       \<and> cast_uuids pg (uniqueStrings allIDs) = Inr ids \<and> distinct ids \<and> set ids \<subseteq> tenant_entities t tid d)"
    (is "?ok \<longleftrightarrow> ?cond")
proof
  assume ?ok
  then obtain b where b: "Assemble pg t d entityIDs depth tenantID = Inr b"
    by (cases "Assemble pg t d entityIDs depth tenantID") auto
  then have "0 \<le> depth" "depth \<le> 3" by (auto simp: Assemble_def split: if_splits)
  moreover from b obtain allIDs tid ids ents where a: "entityIDs \<noteq> []"
      "seed_ids pg t d entityIDs depth tenantID = Inr allIDs" "scan_uuid pg tenantID = Some tid"
      "cast_uuids pg (uniqueStrings allIDs) = Inr ids" "loadBundleEntities pg t d allIDs tenantID = Inr ents"
      "length ents = length (uniqueStrings allIDs)" by (rule Assemble_ok)
  from entity_count_test [OF pk a(5,3,4)] a(6) have "distinct ids" "set ids \<subseteq> tenant_entities t tid d" by simp_all
  ultimately show ?cond using a(1-4) by blast
next
  assume ?cond
  then obtain allIDs tid ids where c: "entityIDs \<noteq> []" "scan_uuid pg tenantID = Some tid"
    "cast_uuids pg (uniqueStrings allIDs) = Inr ids" "distinct ids" "set ids \<subseteq> tenant_entities t tid d"
    "seed_ids pg t d entityIDs depth tenantID = Inr allIDs" "0 \<le> depth" "depth \<le> 3" by blast
  obtain ents where ents: "loadBundleEntities pg t d allIDs tenantID = Inr ents"
    using c by (simp add: loadBundleEntities_def)
  have n: "length ents = length (uniqueStrings allIDs)"
    using entity_count_test [OF pk ents c(2,3)] c(4,5) by simp
  let ?stmts = "map (bundle_statement pg) (statement_rows t tid ids d)"
  have stmts: "loadBundleStatements pg t d allIDs tenantID = Inr (?stmts, map bst_ID ?stmts)"
    using c by (simp add: loadBundleStatements_def Let_def)
  have us: "map bst_ID ?stmts = map (uuid_text pg) (map (\<lambda>(s, p). st_id s) (statement_rows t tid ids d))"
    by (auto simp: bundle_statement_def)
  have "is_ok (loadBundleSources pg t d (map bst_ID ?stmts) tenantID)"
    "is_ok (loadBundleQualifiers pg t d (map bst_ID ?stmts) tenantID)"
    unfolding us loadBundleSources_def loadBundleQualifiers_def
    using cast_uuids_text [OF rt] c(2) by (simp_all add: Let_def del: map_map)
  then obtain x y where "loadBundleSources pg t d (map bst_ID ?stmts) tenantID = Inr x"
    "loadBundleQualifiers pg t d (map bst_ID ?stmts) tenantID = Inr y" by (metis is_ok_simps(1) sum.exhaust)
  moreover obtain r where "loadBundleRelations pg t d allIDs tenantID = Inr r"
    using c by (simp add: loadBundleRelations_def)
  ultimately show ?ok
    using c(1,7,8) c(6) [unfolded seed_ids_def] ents n stmts
    by (cases x; cases y) (simp add: Assemble_def del: map_map)
qed

text \<open>C20. When a dossier (depth 0) is assembled: exactly if an identifier is given, the tenant is a
  UUID, and the distinct non-empty identifiers are texts of different entities of that tenant.
  Two spellings of one UUID therefore fail like a missing entity, and a list of empty strings
  succeeds with a bundle that has no entity.\<close>

theorem assemble_dossier_succeeds_iff:
  assumes "uuid_roundtrip pg" and "distinct (map en_id (entities d))"
  shows "is_ok (Assemble pg t d entityIDs 0 tenantID) \<longleftrightarrow> entityIDs \<noteq> [] \<and>
    (\<exists>tid ids. scan_uuid pg tenantID = Some tid \<and> map (scan_uuid pg) (uniqueStrings entityIDs) = map Some ids
       \<and> distinct ids \<and> set ids \<subseteq> tenant_entities t tid d)"
  unfolding Assemble_is_ok_iff [OF assms] by (simp add: seed_ids_def cast_uuids_Inr_iff)

theorem assemble_dossier_succeeds_iff_witness:
  "is_ok (Assemble sample_pg 1 cited_company [[]] 0 ''t'')
   \<and> \<not> is_ok (Assemble sample_pg 1 cited_company [''uu'', ''UU''] 0 ''t'')"
proof -
  have pk: "distinct (map en_id (entities cited_company))" by (simp add: cited_company_def)
  have "scan_uuid sample_pg ''t'' = Some 1" "map (scan_uuid sample_pg) (uniqueStrings [[]]) = map Some []"
    by (simp_all add: sample_pg_def uniqueStrings_def)
  with assemble_dossier_succeeds_iff [OF sample_pg_roundtrip pk, of 1 "[[]]" "''t''"]
  have 1: "is_ok (Assemble sample_pg 1 cited_company [[]] 0 ''t'')" by fastforce
  have "map (scan_uuid sample_pg) (uniqueStrings [''uu'', ''UU'']) = [Some 2, Some 2]"
    by (simp add: sample_pg_def uniqueStrings_def)
  with assemble_dossier_succeeds_iff [OF sample_pg_roundtrip pk, of 1 "[''uu'', ''UU'']" "''t''"]
  have "\<not> is_ok (Assemble sample_pg 1 cited_company [''uu'', ''UU''] 0 ''t'')"
    by (auto simp: Cons_eq_map_conv)
  with 1 show ?thesis by blast
qed

text \<open>Retrieval is isolated: what \<open>Assemble\<close> returns for a tenant, bundle or error, depends only
  on the rows that tenant can see (and the clock), at every depth and for any identifiers.\<close>

theorem assemble_reads_own_tenant:
  assumes "view t d = view t d'" and "now d = now d'"
  shows "Assemble pg t d entityIDs depth tenantID = Assemble pg t d' entityIDs depth tenantID"
proof -
  have v: "rls en_tenant t (entities d) = rls en_tenant t (entities d')"
    "rls_properties t (properties d) = rls_properties t (properties d')"
    "rls st_tenant t (statements d) = rls st_tenant t (statements d')"
    "rls ss_tenant t (statement_sources d) = rls ss_tenant t (statement_sources d')"
    "rls so_tenant t (sources d) = rls so_tenant t (sources d')"
    "rls re_tenant t (relations d) = rls re_tenant t (relations d')"
    using assms(1) by (simp_all add: view_def)
  have q: "rls_qualifiers (rls st_tenant t (statements d)) (qualifiers d)
       = rls_qualifiers (rls st_tenant t (statements d')) (qualifiers d')"
    using arg_cong [OF assms(1), of v_qualifiers] by (simp only: view_def tenant_view.select_convs)
  have e1: "ExpandGraph pg t d = ExpandGraph pg t d'"
    by (intro ext) (simp add: ExpandGraph_def strong_relations_def v(6))
  have e2: "loadBundleEntities pg t d = loadBundleEntities pg t d'"
    by (intro ext) (simp add: loadBundleEntities_def v(1))
  have e3: "loadBundleStatements pg t d = loadBundleStatements pg t d'"
    by (intro ext) (simp add: loadBundleStatements_def statement_rows_def v(2,3))
  have e4: "loadBundleSources pg t d = loadBundleSources pg t d'"
    by (intro ext) (simp add: loadBundleSources_def evidence_rows_def v(4,5))
  have e5: "loadBundleQualifiers pg t d = loadBundleQualifiers pg t d'"
    by (intro ext) (simp only: loadBundleQualifiers_def qualifier_rows_def v(2) q, simp add: v(3))
  have e6: "loadBundleRelations pg t d = loadBundleRelations pg t d'"
    by (intro ext) (simp add: loadBundleRelations_def v(6))
  show ?thesis unfolding Assemble_def e1 e2 e3 e4 e5 e6 assms(2) ..
qed

theorem assemble_reads_own_tenant_witness:
  "Assemble sample_pg 1 cited_company [''uu''] 0 ''t''
   = Assemble sample_pg 1 (cited_company\<lparr>entities := entities cited_company
       @ [\<lparr>en_id = 9, en_tenant = 2, en_ext_id = None, en_label = ''Other'', en_type_uri = None,
           en_description = None, en_embedding = None, en_meta = ''{}'', en_created = 0, en_updated = 0\<rparr>]\<rparr>) [''uu''] 0 ''t''"
  by (rule assemble_reads_own_tenant) (simp_all add: view_def)

end
