(* ===== verification/Dossiers.thy ===== *)
theory Dossiers
  imports Assembler
begin

text \<open>
  \<open>internal/workers/dossier.go\<close>: the worker that precomputes dossiers. One transaction picks the
  entities without a dossier of the last 24 hours, assembles each at depth 0 and stores the bundle as
  JSON, one row per entity. \<open>M\<close> is \<open>json.Marshal\<close> on bundles.
\<close>

record DossierOptions =
  dw_TenantID :: string
  dw_EntityID :: string
  dw_All :: bool
  dw_Limit :: int

subsection \<open>Which entities\<close>

text \<open>The \<open>LEFT JOIN\<close> of entities and dossiers, filtered and ordered by creation.\<close>

definition stale_entities :: "uuid \<Rightarrow> uuid \<Rightarrow> bool \<Rightarrow> db \<Rightarrow> entity_row list" where
  "stale_entities t tid every d =
     order_by en_created (concat (map (\<lambda>e.
       (case filter (\<lambda>r. do_tenant r = en_tenant e \<and> do_entity r = en_id e) (rls do_tenant t (dossiers d)) of
          [] \<Rightarrow> [e]
        | ds \<Rightarrow> map (\<lambda>_. e) (filter (\<lambda>r. every \<or> do_assembled_at r \<le> now d - 86400) ds)))
       (filter (\<lambda>e. en_tenant e = tid) (rls en_tenant t (entities d)))))"

definition dossierEntityIDs :: "pg_env \<Rightarrow> uuid \<Rightarrow> DossierOptions \<Rightarrow> db \<Rightarrow> string list result" where
  "dossierEntityIDs pg t opts d =
     (if dw_EntityID opts \<noteq> [] then Ok [dw_EntityID opts]
      else
        (let lim = (if dw_Limit opts \<le> 0 then 100 else dw_Limit opts)
         in rbind (cast_uuid pg (dw_TenantID opts)) (\<lambda>tid.
              Ok (map (\<lambda>e. uuid_text pg (en_id e)) (limit_rows lim (stale_entities t tid (dw_All opts) d))))))"

subsection \<open>Storing one dossier\<close>

text \<open>\<open>INSERT INTO dossiers ... ON CONFLICT (tenant_id, entity_id) DO UPDATE\<close>.\<close>

definition upsert_dossier :: "pg_env \<Rightarrow> uuid \<Rightarrow> string \<Rightarrow> string \<Rightarrow> string \<Rightarrow> db \<Rightarrow> db result" where
  "upsert_dossier pg t tenantID entityID data d =
     rbind (cast_uuid pg tenantID) (\<lambda>tid.
     rbind (cast_uuid pg entityID) (\<lambda>eid.
       if tid \<noteq> t then Err ''new row violates row-level security policy for table dossiers''
       else if list_ex (\<lambda>r. do_tenant r = tid \<and> do_entity r = eid) (dossiers d)
       then Ok (d\<lparr>next_id := Suc (next_id d),
                 dossiers := update_rows do_tenant t (\<lambda>r. do_entity r = eid)
                   (\<lambda>r. r\<lparr>do_assembled_at := now d, do_bundle := data\<rparr>) (dossiers d)\<rparr>)
       else if \<not> list_ex (\<lambda>e. en_tenant e = tid \<and> en_id e = eid) (entities d)
       then Err ''violates foreign key constraint fk_dossiers_entity_tenant''
       else Ok (d\<lparr>next_id := Suc (next_id d), dossiers := dossiers d @
                 [\<lparr>do_id = next_id d, do_tenant = tid, do_entity = eid, do_assembled_at = now d, do_bundle = data\<rparr>]\<rparr>)))"

definition dossier_item ::
    "(Bundle \<Rightarrow> string result) \<Rightarrow> pg_env \<Rightarrow> uuid \<Rightarrow> string \<Rightarrow> string \<Rightarrow> db \<Rightarrow> db result" where
  "dossier_item M pg t tenantID entityID d =
     rbind (Assemble pg t d [entityID] 0 tenantID) (\<lambda>bundle.
     rbind (M bundle) (\<lambda>data. upsert_dossier pg t tenantID entityID data d))"

text \<open>The transaction, and \<open>DossierWorker.RunOnce\<close>: the number of dossiers and the new database, or
  the error of the first entity that fails, everything rolled back.\<close>

definition dossier_tx ::
    "(Bundle \<Rightarrow> string result) \<Rightarrow> pg_env \<Rightarrow> uuid \<Rightarrow> DossierOptions \<Rightarrow> db \<Rightarrow> (nat \<times> db) result" where
  "dossier_tx M pg t opts d =
     rbind (dossierEntityIDs pg t opts d) (\<lambda>ids.
     rbind (fold_res (dossier_item M pg t (dw_TenantID opts)) ids d) (\<lambda>d'. Ok (length ids, d')))"

definition Dossier_RunOnce ::
    "(Bundle \<Rightarrow> string result) \<Rightarrow> pg_env \<Rightarrow> DossierOptions \<Rightarrow> db \<Rightarrow> (nat \<times> db) result" where
  "Dossier_RunOnce M pg opts d =
     (if dw_TenantID opts = [] then Err ''tenant id required''
      else (case scan_uuid pg (dw_TenantID opts) of
              None \<Rightarrow> Err ''invalid tenant id''
            | Some t \<Rightarrow> dossier_tx M pg t opts d))"

subsection \<open>What a run does\<close>

text \<open>Assembling reads no dossier, so the order within the batch does not matter.\<close>

lemma Assemble_dossiers: "Assemble pg t (d\<lparr>next_id := n, dossiers := ds\<rparr>) ids depth tenantID = Assemble pg t d ids depth tenantID"
proof -
  let ?d = "d\<lparr>next_id := n, dossiers := ds\<rparr>"
  have e1: "ExpandGraph pg t ?d = ExpandGraph pg t d"
    by (intro ext) (simp add: ExpandGraph_def strong_relations_def)
  have e2: "loadBundleEntities pg t ?d = loadBundleEntities pg t d"
    by (intro ext) (simp add: loadBundleEntities_def)
  have e3: "loadBundleStatements pg t ?d = loadBundleStatements pg t d"
    by (intro ext) (simp add: loadBundleStatements_def statement_rows_def)
  have e4: "loadBundleSources pg t ?d = loadBundleSources pg t d"
    by (intro ext) (simp add: loadBundleSources_def evidence_rows_def)
  have e5: "loadBundleQualifiers pg t ?d = loadBundleQualifiers pg t d"
    by (intro ext) (simp add: loadBundleQualifiers_def qualifier_rows_def)
  have e6: "loadBundleRelations pg t ?d = loadBundleRelations pg t d"
    by (intro ext) (simp add: loadBundleRelations_def)
  have e7: "now ?d = now d" by simp
  show ?thesis unfolding Assemble_def e1 e2 e3 e4 e5 e6 e7 ..
qed

definition dossier_of :: "uuid \<Rightarrow> uuid \<Rightarrow> db \<Rightarrow> (int \<times> string) list" where
  "dossier_of t e d = map (\<lambda>r. (do_assembled_at r, do_bundle r)) (filter (\<lambda>r. do_tenant r = t \<and> do_entity r = e) (dossiers d))"

text \<open>Only dossiers and the identifier supply change.\<close>

definition only_dossiers :: "db \<Rightarrow> db \<Rightarrow> bool" where
  "only_dossiers d d' \<longleftrightarrow> (\<exists>n ds. d' = d\<lparr>next_id := n, dossiers := ds\<rparr>)"

lemma only_dossiers_trans: "only_dossiers d d' \<Longrightarrow> only_dossiers d' d'' \<Longrightarrow> only_dossiers d d''"
  unfolding only_dossiers_def by (elim exE, intro exI) auto

definition unique_dossiers :: "db \<Rightarrow> bool" where
  "unique_dossiers d \<longleftrightarrow> distinct (map (\<lambda>r. (do_tenant r, do_entity r)) (dossiers d))"

lemma dossier_of_unique: "unique_dossiers d \<Longrightarrow> length (dossier_of t e d) \<le> 1"
proof -
  assume u: "unique_dossiers d"
  let ?k = "\<lambda>r. (do_tenant r, do_entity r)"
  have "length (filter (\<lambda>r. ?k r = k) rows) \<le> 1" if "distinct (map ?k rows)" for k and rows :: "dossier_row list"
    using that by (induction rows) (auto simp: filter_empty_conv image_iff)
  from this [of "dossiers d" "(t, e)"] u show ?thesis by (simp add: unique_dossiers_def dossier_of_def)
qed

lemma update_dossier_rows:
  "map pr (filter (\<lambda>r. do_tenant r = t' \<and> do_entity r = e') (update_rows do_tenant t (\<lambda>r. do_entity r = e) f rows))
   = map (if t' = t \<and> e' = e then pr \<circ> f else pr) (filter (\<lambda>r. do_tenant r = t' \<and> do_entity r = e') rows)"
  if "\<And>r. do_tenant (f r) = do_tenant r" "\<And>r. do_entity (f r) = do_entity r"
  using that by (induction rows) (auto simp: update_rows_def)

lemma upsert_dossier_ok:
  assumes ok: "upsert_dossier pg t tenantID entityID data d = Inr d'" and u: "unique_dossiers d"
  obtains e where "scan_uuid pg entityID = Some e" "only_dossiers d d'" "unique_dossiers d'"
    "\<And>t' e'. dossier_of t' e' d' = (if t' = t \<and> e' = e then [(now d, data)] else dossier_of t' e' d)"
proof -
  from ok obtain e where e: "scan_uuid pg tenantID = Some t" "scan_uuid pg entityID = Some e"
    by (auto simp: upsert_dossier_def rbind_Inr_iff split: if_splits)
  show thesis
  proof (cases "list_ex (\<lambda>r. do_tenant r = t \<and> do_entity r = e) (dossiers d)")
    case True
    let ?f = "\<lambda>r. r\<lparr>do_assembled_at := now d, do_bundle := data\<rparr>"
    let ?rows = "update_rows do_tenant t (\<lambda>r. do_entity r = e) ?f (dossiers d)"
    from ok e True have d': "d' = d\<lparr>next_id := Suc (next_id d), dossiers := ?rows\<rparr>" by (simp add: upsert_dossier_def)
    have "map (\<lambda>r. (do_tenant r, do_entity r)) ?rows = map (\<lambda>r. (do_tenant r, do_entity r)) (dossiers d)"
      by (rule update_rows_keys) simp
    then have "unique_dossiers d'" using u by (simp add: unique_dossiers_def d' del: map_eq_conv)
    moreover have "dossier_of t' e' d' = (if t' = t \<and> e' = e then [(now d, data)] else dossier_of t' e' d)" for t' e'
    proof -
      have upd: "dossier_of t' e' d' = map (if t' = t \<and> e' = e
          then (\<lambda>r. (do_assembled_at r, do_bundle r)) \<circ> ?f else (\<lambda>r. (do_assembled_at r, do_bundle r)))
        (filter (\<lambda>r. do_tenant r = t' \<and> do_entity r = e') (dossiers d))"
        unfolding dossier_of_def d' by (simp add: update_dossier_rows)
      moreover have "length (filter (\<lambda>r. do_tenant r = t \<and> do_entity r = e) (dossiers d)) = 1"
        using dossier_of_unique [OF u, of t e] True
        by (cases "filter (\<lambda>r. do_tenant r = t \<and> do_entity r = e) (dossiers d)")
          (auto simp: dossier_of_def filter_empty_conv list_ex_iff)
      then obtain r where "filter (\<lambda>r. do_tenant r = t \<and> do_entity r = e) (dossiers d) = [r]"
        by (auto simp: length_Suc_conv)
      ultimately show ?thesis by (auto simp: dossier_of_def)
    qed
    moreover have "only_dossiers d d'" unfolding only_dossiers_def using d' by blast
    ultimately show thesis using that e(2) by blast
  next
    case False
    let ?r = "\<lparr>do_id = next_id d, do_tenant = t, do_entity = e, do_assembled_at = now d, do_bundle = data\<rparr>"
    from ok e False have d': "d' = d\<lparr>next_id := Suc (next_id d), dossiers := dossiers d @ [?r]\<rparr>"
      by (auto simp: upsert_dossier_def split: if_splits)
    have "unique_dossiers d'" using u False by (auto simp: unique_dossiers_def d' list_ex_iff)
    moreover have "dossier_of t e d = []" using False by (auto simp: dossier_of_def filter_empty_conv list_ex_iff)
    then have "dossier_of t' e' d' = (if t' = t \<and> e' = e then [(now d, data)] else dossier_of t' e' d)" for t' e'
      by (auto simp: dossier_of_def d')
    moreover have "only_dossiers d d'" unfolding only_dossiers_def using d' by blast
    ultimately show thesis using that e(2) by blast
  qed
qed

lemma dossier_item_ok:
  assumes ok: "dossier_item M pg t tenantID x d1 = Inr d2" and base: "only_dossiers d d1" and u: "unique_dossiers d1"
  obtains e b data where "scan_uuid pg x = Some e" "Assemble pg t d [x] 0 tenantID = Inr b" "M b = Inr data"
    "only_dossiers d d2" "unique_dossiers d2"
    "\<And>t' e'. dossier_of t' e' d2 = (if t' = t \<and> e' = e then [(now d, data)] else dossier_of t' e' d1)"
proof -
  from ok obtain b data where b: "Assemble pg t d1 [x] 0 tenantID = Inr b" "M b = Inr data"
    "upsert_dossier pg t tenantID x data d1 = Inr d2"
    by (auto simp: dossier_item_def rbind_Inr_iff)
  have "Assemble pg t d [x] 0 tenantID = Inr b" "now d1 = now d"
    using base b(1) by (auto simp: only_dossiers_def Assemble_dossiers)
  with upsert_dossier_ok [OF b(3) u] b(2) that only_dossiers_trans [OF base] show thesis by metis
qed

lemma dossier_batch:
  assumes "fold_res (dossier_item M pg t tenantID) ids d1 = Inr d2" "only_dossiers d d1" "unique_dossiers d1"
    and "distinct (map (scan_uuid pg) ids)"
  shows "only_dossiers d d2 \<and> unique_dossiers d2
    \<and> (\<forall>x \<in> set ids. \<exists>e b data. scan_uuid pg x = Some e \<and> Assemble pg t d [x] 0 tenantID = Inr b
         \<and> M b = Inr data \<and> dossier_of t e d2 = [(now d, data)])
    \<and> (\<forall>t' e'. t' \<noteq> t \<or> Some e' \<notin> scan_uuid pg ` set ids \<longrightarrow> dossier_of t' e' d2 = dossier_of t' e' d1)"
  using assms
proof (induction ids arbitrary: d1)
  case (Cons x ids)
  from Cons.prems(1) obtain dm where dm: "dossier_item M pg t tenantID x d1 = Inr dm"
    "fold_res (dossier_item M pg t tenantID) ids dm = Inr d2" by (auto split: sum.splits)
  obtain e b data where e: "scan_uuid pg x = Some e" "Assemble pg t d [x] 0 tenantID = Inr b" "M b = Inr data"
    "only_dossiers d dm" "unique_dossiers dm"
    "\<And>t' e'. dossier_of t' e' dm = (if t' = t \<and> e' = e then [(now d, data)] else dossier_of t' e' d1)"
    using dossier_item_ok [OF dm(1) Cons.prems(2,3)] by metis
  have dist: "distinct (map (scan_uuid pg) ids)" and new: "Some e \<notin> scan_uuid pg ` set ids"
    using Cons.prems(4) e(1) by (simp_all add: image_iff)
  from Cons.IH [OF dm(2) e(4,5) dist] have ih: "only_dossiers d d2" "unique_dossiers d2"
    "\<forall>x \<in> set ids. \<exists>e b data. scan_uuid pg x = Some e \<and> Assemble pg t d [x] 0 tenantID = Inr b
         \<and> M b = Inr data \<and> dossier_of t e d2 = [(now d, data)]"
    "\<And>t' e'. t' \<noteq> t \<or> Some e' \<notin> scan_uuid pg ` set ids \<Longrightarrow> dossier_of t' e' d2 = dossier_of t' e' dm" by blast+
  have "dossier_of t e d2 = [(now d, data)]" using ih(4) [of t e] new e(6) by simp
  moreover have "dossier_of t' e' d2 = dossier_of t' e' d1" if "t' \<noteq> t \<or> Some e' \<notin> scan_uuid pg ` set (x # ids)" for t' e'
    using ih(4) [of t' e'] that e(1,6) by auto
  ultimately show ?case using ih(1-3) e(1-3) by auto
qed simp

text \<open>With one dossier per entity the join yields every entity at most once.\<close>

definition stale :: "uuid \<Rightarrow> bool \<Rightarrow> db \<Rightarrow> entity_row \<Rightarrow> bool" where
  "stale t every d e = (case dossier_of t (en_id e) d of [] \<Rightarrow> True | (a, _) # _ \<Rightarrow> every \<or> a \<le> now d - 86400)"

lemma stale_entities_eq:
  assumes "unique_dossiers d"
  shows "stale_entities t tid every d
    = order_by en_created (filter (stale t every d) (filter (\<lambda>e. en_tenant e = tid) (rls en_tenant t (entities d))))"
proof -
  let ?p = "\<lambda>e. case filter (\<lambda>r. do_tenant r = en_tenant e \<and> do_entity r = en_id e) (rls do_tenant t (dossiers d)) of
          [] \<Rightarrow> [e] | ds \<Rightarrow> map (\<lambda>_. e) (filter (\<lambda>r. every \<or> do_assembled_at r \<le> now d - 86400) ds)"
  have p: "?p e = (if stale t every d e then [e] else [])" if "en_tenant e = t" for e
  proof -
    have eq: "filter (\<lambda>r. do_tenant r = en_tenant e \<and> do_entity r = en_id e) (rls do_tenant t (dossiers d))
        = filter (\<lambda>r. do_tenant r = t \<and> do_entity r = en_id e) (dossiers d)"
      unfolding rls_def filter_filter by (rule filter_cong) (auto simp: that)
    have "length (filter (\<lambda>r. do_tenant r = t \<and> do_entity r = en_id e) (dossiers d)) \<le> 1"
      using dossier_of_unique [OF assms, of t "en_id e"] by (simp add: dossier_of_def)
    then show ?thesis unfolding eq stale_def dossier_of_def
      by (cases "filter (\<lambda>r. do_tenant r = t \<and> do_entity r = en_id e) (dossiers d)") auto
  qed
  have sel: "concat (map (\<lambda>e. if stale t every d e then [e] else []) es) = filter (stale t every d) es" for es
    by (induction es) auto
  have "concat (map ?p es) = filter (stale t every d) es" if "\<forall>e \<in> set es. en_tenant e = t" for es
    unfolding sel [symmetric] by (rule arg_cong [where f = concat], rule map_cong [OF refl]) (use that p in blast)
  then show ?thesis unfolding stale_entities_def by simp
qed

lemma stale_entities_distinct:
  assumes "unique_dossiers d" "distinct (map en_id (entities d))"
  shows "distinct (map en_id (stale_entities t tid every d))"
proof -
  have "distinct (map en_id (filter P (entities d)))" for P by (rule distinct_map_filter [OF assms(2)])
  then have "distinct (map en_id (filter (stale t every d) (filter (\<lambda>e. en_tenant e = tid) (rls en_tenant t (entities d)))))"
    by (simp only: rls_def filter_filter)
  then show ?thesis unfolding stale_entities_eq [OF assms(1)] by (simp add: order_by_def distinct_map)
qed

lemma dossier_ids_distinct:
  assumes "uuid_roundtrip pg" "unique_dossiers d" "distinct (map en_id (entities d))"
    and "dossierEntityIDs pg t opts d = Inr ids"
  shows "distinct (map (scan_uuid pg) ids)"
proof (cases "dw_EntityID opts = []")
  case True
  then obtain tid n where ids: "ids = map (\<lambda>e. uuid_text pg (en_id e)) (take n (stale_entities t tid (dw_All opts) d))"
    using assms(4) by (auto simp: dossierEntityIDs_def rbind_Inr_iff Let_def limit_rows_def)
  have "distinct (map en_id (take n (stale_entities t tid (dw_All opts) d)))"
    using stale_entities_distinct [OF assms(2,3)] by (simp add: take_map [symmetric])
  then have "distinct (map Some (map en_id (take n (stale_entities t tid (dw_All opts) d))))"
    unfolding distinct_map by (simp add: inj_on_def)
  then show ?thesis using assms(1) by (simp add: ids uuid_roundtrip_def o_def)
next
  case False
  then show ?thesis using assms(4) by (auto simp: dossierEntityIDs_def)
qed

subsection \<open>The run as a whole\<close>

text \<open>A dossier run does its whole batch: when \<open>RunOnce\<close> succeeds it reports the number of picked
  entities, every one of them has exactly one dossier, dated now, holding the bundle \<open>Assemble\<close> gives
  for the database as it was, every other dossier (of this or another tenant) is as before, and no
  other table has changed. When it fails nothing has changed.\<close>

theorem dossier_run_complete:
  assumes rt: "uuid_roundtrip pg" and pk: "distinct (map en_id (entities d))" and u: "unique_dossiers d"
    and t: "scan_uuid pg (dw_TenantID opts) = Some t" and ids: "dossierEntityIDs pg t opts d = Inr ids"
    and run: "Dossier_RunOnce M pg opts d = Inr (n, d')"
  shows "n = length ids \<and> only_dossiers d d' \<and> unique_dossiers d'
    \<and> (\<forall>x \<in> set ids. \<exists>e b data. scan_uuid pg x = Some e \<and> Assemble pg t d [x] 0 (dw_TenantID opts) = Inr b
         \<and> M b = Inr data \<and> dossier_of t e d' = [(now d, data)])
    \<and> (\<forall>t' e'. t' \<noteq> t \<or> Some e' \<notin> scan_uuid pg ` set ids \<longrightarrow> dossier_of t' e' d' = dossier_of t' e' d)"
proof -
  from run t ids have n: "n = length ids" and f: "fold_res (dossier_item M pg t (dw_TenantID opts)) ids d = Inr d'"
    by (auto simp: Dossier_RunOnce_def dossier_tx_def rbind_Inr_iff split: if_splits)
  have "only_dossiers d d" unfolding only_dossiers_def by (intro exI [of _ "next_id d"] exI [of _ "dossiers d"]) simp
  from dossier_batch [OF f this u dossier_ids_distinct [OF rt u pk ids]] n show ?thesis by blast
qed

definition acme_opts :: DossierOptions where
  "acme_opts = \<lparr>dw_TenantID = ''t'', dw_EntityID = [], dw_All = False, dw_Limit = 0\<rparr>"

definition sample_marshal :: "Bundle \<Rightarrow> string result" where
  "sample_marshal b = Ok (concat (map be_Name (bu_Entities b)))"

theorem dossier_run_complete_witness:
  "\<exists>d'. Dossier_RunOnce sample_marshal sample_pg acme_opts cited_company = Inr (1, d')
     \<and> dossier_of 1 2 d' = [(0, ''Acme'')] \<and> unique_dossiers d'"
proof -
  have ids: "dossierEntityIDs sample_pg 1 acme_opts cited_company = Inr [''uu'']" by code_simp
  have t: "scan_uuid sample_pg (dw_TenantID acme_opts) = Some 1" by (simp add: sample_pg_def acme_opts_def)
  have pk: "distinct (map en_id (entities cited_company))" and u: "unique_dossiers cited_company"
    by (simp_all add: cited_company_def unique_dossiers_def empty_db_def)
  have e: "(case Dossier_RunOnce sample_marshal sample_pg acme_opts cited_company of Inl e \<Rightarrow> False
      | Inr (n, d') \<Rightarrow> n = 1 \<and> dossier_of 1 2 d' = [(0, ''Acme'')])" by code_simp
  then obtain d' where d': "Dossier_RunOnce sample_marshal sample_pg acme_opts cited_company = Inr (1, d')"
    "dossier_of 1 2 d' = [(0, ''Acme'')]" by (auto split: sum.splits prod.splits)
  from dossier_run_complete [OF sample_pg_roundtrip pk u t ids d'(1)] d' show ?thesis by blast
qed

text \<open>Runs make progress: a run over the stale entities leaves as stale exactly those beyond its
  limit, in the same order, so repeated runs reach every entity.\<close>

theorem dossier_runs_progress:
  assumes rt: "uuid_roundtrip pg" and pk: "distinct (map en_id (entities d))" and u: "unique_dossiers d"
    and t: "scan_uuid pg (dw_TenantID opts) = Some t" and o: "dw_EntityID opts = []" "\<not> dw_All opts" "0 < dw_Limit opts"
    and run: "Dossier_RunOnce M pg opts d = Inr (n, d')"
  shows "stale_entities t t False d' = drop (nat (dw_Limit opts)) (stale_entities t t False d)"
proof -
  let ?S = "stale_entities t t False d" and ?n = "nat (dw_Limit opts)"
  let ?ids = "map (\<lambda>e. uuid_text pg (en_id e)) (take ?n ?S)"
  have ids: "dossierEntityIDs pg t opts d = Inr ?ids"
    using t o by (simp add: dossierEntityIDs_def Let_def limit_rows_def)
  from run t ids have f: "fold_res (dossier_item M pg t (dw_TenantID opts)) ?ids d = Inr d'"
    by (auto simp: Dossier_RunOnce_def dossier_tx_def rbind_Inr_iff split: if_splits)
  have "only_dossiers d d" unfolding only_dossiers_def by (intro exI [of _ "next_id d"] exI [of _ "dossiers d"]) simp
  from dossier_batch [OF f this u dossier_ids_distinct [OF rt u pk ids]]
  have b: "only_dossiers d d'" "unique_dossiers d'"
    "\<forall>x \<in> set ?ids. \<exists>e b data. scan_uuid pg x = Some e \<and> Assemble pg t d [x] 0 (dw_TenantID opts) = Inr b
         \<and> M b = Inr data \<and> dossier_of t e d' = [(now d, data)]"
    "\<forall>t' e'. t' \<noteq> t \<or> Some e' \<notin> scan_uuid pg ` set ?ids \<longrightarrow> dossier_of t' e' d' = dossier_of t' e' d" by blast+
  have same: "now d' = now d" "entities d' = entities d" using b(1) by (auto simp: only_dossiers_def)
  have dist: "distinct (map en_id ?S)" by (rule stale_entities_distinct [OF u pk])
  then have dS: "distinct ?S" by (simp add: distinct_map)
  have scan: "scan_uuid pg ` set ?ids = Some ` en_id ` set (take ?n ?S)"
    using rt by (auto simp: uuid_roundtrip_def image_image)
  have st: "stale t False d' e \<longleftrightarrow> stale t False d e \<and> e \<notin> set (take ?n ?S)"
    if e: "e \<in> set (entities d)" for e
  proof (cases "en_id e \<in> en_id ` set (take ?n ?S)")
    case True
    then obtain e2 where e2: "e2 \<in> set (take ?n ?S)" "en_id e2 = en_id e" by auto
    then have "e2 \<in> set (entities d)" using set_take_subset by (fastforce simp: stale_entities_eq [OF u])
    with pk e e2 have "e \<in> set (take ?n ?S)" by (metis distinct_map inj_onD)
    moreover have "uuid_text pg (en_id e) \<in> set ?ids" using True by auto
    then obtain e3 data where "scan_uuid pg (uuid_text pg (en_id e)) = Some e3" "dossier_of t e3 d' = [(now d, data)]"
      using b(3) by blast
    then have "dossier_of t (en_id e) d' = [(now d, data)]" using rt by (simp add: uuid_roundtrip_def)
    ultimately show ?thesis by (simp add: stale_def same)
  next
    case False
    then have "Some (en_id e) \<notin> scan_uuid pg ` set ?ids" unfolding scan by auto
    then have "dossier_of t (en_id e) d' = dossier_of t (en_id e) d" using b(4) by blast
    then have "stale t False d' e \<longleftrightarrow> stale t False d e" by (simp only: stale_def same(1))
    with False show ?thesis by blast
  qed
  let ?E = "filter (\<lambda>e. en_tenant e = t) (rls en_tenant t (entities d))"
  have "?S = order_by en_created (filter (stale t False d) ?E)" by (rule stale_entities_eq [OF u])
  from sorted_filter_rest [OF this dS, of "stale t False d'" ?n] st
  have "order_by en_created (filter (stale t False d') ?E) = drop ?n ?S" by simp
  then show ?thesis by (simp only: stale_entities_eq [OF b(2)] same(2))
qed

theorem dossier_runs_progress_witness:
  "\<exists>d'. Dossier_RunOnce sample_marshal sample_pg (acme_opts\<lparr>dw_Limit := 1\<rparr>) cited_company = Inr (1, d')
     \<and> stale_entities 1 1 False d' = []"
proof -
  have t: "scan_uuid sample_pg (dw_TenantID (acme_opts\<lparr>dw_Limit := 1\<rparr>)) = Some 1" by (simp add: sample_pg_def acme_opts_def)
  have o: "dw_EntityID (acme_opts\<lparr>dw_Limit := 1\<rparr>) = []" "\<not> dw_All (acme_opts\<lparr>dw_Limit := 1\<rparr>)"
    "0 < dw_Limit (acme_opts\<lparr>dw_Limit := 1\<rparr>)" by (simp_all add: acme_opts_def)
  have pk: "distinct (map en_id (entities cited_company))" and u: "unique_dossiers cited_company"
    by (simp_all add: cited_company_def unique_dossiers_def empty_db_def)
  have "(case Dossier_RunOnce sample_marshal sample_pg (acme_opts\<lparr>dw_Limit := 1\<rparr>) cited_company of
      Inl e \<Rightarrow> False | Inr (n, d') \<Rightarrow> n = 1)" by code_simp
  then obtain d' where d': "Dossier_RunOnce sample_marshal sample_pg (acme_opts\<lparr>dw_Limit := 1\<rparr>) cited_company = Inr (1, d')"
    by (auto split: sum.splits prod.splits)
  have "length (stale_entities 1 1 False cited_company) = 1" by code_simp
  with dossier_runs_progress [OF sample_pg_roundtrip pk u t o d'] d' show ?thesis by (simp add: acme_opts_def)
qed

subsection \<open>The worker and the tenant contract\<close>

interpretation dossier_op: tenant_op
  "\<lambda>t opts d. rbind (dossier_tx M pg t opts d) (\<lambda>(n, d'). Inr d')" for M pg
proof unfold_locales
  fix t opts d d' t'
  assume run: "rbind (dossier_tx M pg t opts d) (\<lambda>(n, d'). Inr d') = Inr d'" and ne: "t' \<noteq> t"
  then obtain ids where "fold_res (dossier_item M pg t (dw_TenantID opts)) ids d = Inr d'"
    by (auto simp: dossier_tx_def rbind_Inr_iff)
  then show "view t' d' = view t' d"
  proof (rule fold_res_inv [rotated])
    show "view t' d = view t' d" ..
    fix x d1 d2
    assume ih: "view t' d1 = view t' d" and st: "dossier_item M pg t (dw_TenantID opts) x d1 = Inr d2"
    then obtain tenantID data where "upsert_dossier pg t tenantID x data d1 = Inr d2"
      by (auto simp: dossier_item_def rbind_Inr_iff)
    then have "rls do_tenant t' (dossiers d2) = rls do_tenant t' (dossiers d1) \<and> (\<exists>n ds. d2 = d1\<lparr>next_id := n, dossiers := ds\<rparr>)"
      using ne by (auto simp: upsert_dossier_def rbind_Inr_iff tenant_simps split: if_splits)
    then have "view t' d2 = view t' d1" by (auto simp: view_def)
    with ih show "view t' d2 = view t' d" by simp
  qed
qed

end
