(* ===== verification/Briefs.thy ===== *)
theory Briefs
  imports Assembler "HOL-Library.Multiset"
begin

text \<open>
  \<open>internal/briefs/briefs.go\<close>: evidence briefs. \<open>Generate\<close> derives key claims, citations, conflicts,
  source health, evidence gaps and writer prompts from a bundle; \<open>Service\<close> stores and reads briefs
  under the row-level policy of the tenant. What Go leaves open is an argument: the order in which a
  map is iterated (\<open>key_order\<close>) and where \<open>sort.Slice\<close>, which is not stable, puts conflicts that
  compare equal (\<open>sort_conflicts\<close>). The other sorts of the file are on keys that identify the element
  (statement and source identifiers), so a stable sort gives the only possible answer. The quoting
  of \<open>%q\<close>, \<open>json.Marshal\<close> and the text form of a \<open>JSONB\<close> value are arguments as well.
\<close>

subsection \<open>The document\<close>

record keyClaim =
  kc_StatementID :: string
  kc_EntityID :: string
  kc_PropertySlug :: string
  kc_Value :: string
  kc_Confidence :: rat

record citation =
  ci_SourceID :: string
  ci_URL :: string
  ci_VerificationStatus :: string

record conflict =
  co_EntityID :: string
  co_PropertySlug :: string
  co_ValueA :: string
  co_ValueB :: string

record sourceEntry =
  se_SourceID :: string
  se_Status :: string

record evidenceGap =
  eg_StatementID :: string
  eg_PropertySlug :: string

record briefDoc =
  bd_KeyClaims :: "keyClaim list"
  bd_Citations :: "citation list"
  bd_Conflicts :: "conflict list"
  bd_SourceHealth :: "sourceEntry list"
  bd_EvidenceGaps :: "evidenceGap list"
  bd_WriterPrompts :: "string list"

record brief_env =
  key_order :: "(string \<times> string) list \<Rightarrow> (string \<times> string) list"
  sort_conflicts :: "conflict list \<Rightarrow> conflict list"
  quote_string :: "string \<Rightarrow> string"
  marshal_brief :: "briefDoc \<Rightarrow> string result"
  jsonb_text :: "string \<Rightarrow> string option"   \<comment> \<open>the cast to jsonb and back to text\<close>

subsection \<open>Deriving the document\<close>

definition extractKeyClaims :: "Bundle \<Rightarrow> keyClaim list" where
  "extractKeyClaims b = order_by (\<lambda>c. (kc_StatementID c, kc_PropertySlug c))
     (map (\<lambda>s. \<lparr>kc_StatementID = bst_ID s, kc_EntityID = bst_EntityID s, kc_PropertySlug = bst_PropertySlug s,
        kc_Value = bst_Value s, kc_Confidence = bst_Confidence s\<rparr>)
       (filter (\<lambda>s. bst_Confidence s \<ge> 7 / 10) (bu_Statements b)))"

definition extractCitations :: "Bundle \<Rightarrow> citation list" where
  "extractCitations b = order_by ci_SourceID
     (map (\<lambda>x. \<lparr>ci_SourceID = bso_ID x, ci_URL = bso_URL x, ci_VerificationStatus = bso_VerificationStatus x\<rparr>)
       (dedup_by bso_ID [] (bu_Sources b)))"

text \<open>The map \<open>byKey\<close>: its keys in the order of iteration, and the statements of one key.\<close>

definition conflict_keys :: "Bundle \<Rightarrow> (string \<times> string) list" where
  "conflict_keys b = remdups (map (\<lambda>s. (bst_EntityID s, bst_PropertySlug s)) (bu_Statements b))"

definition keyed_statements :: "Bundle \<Rightarrow> string \<times> string \<Rightarrow> BundleStatement list" where
  "keyed_statements b k = filter (\<lambda>s. (bst_EntityID s, bst_PropertySlug s) = k) (bu_Statements b)"

text \<open>The two inner loops over \<open>i < j\<close>.\<close>

fun pair_conflicts :: "BundleStatement list \<Rightarrow> conflict list" where
  "pair_conflicts [] = []"
| "pair_conflicts (s # ss) =
     map (\<lambda>s'. \<lparr>co_EntityID = bst_EntityID s, co_PropertySlug = bst_PropertySlug s,
           co_ValueA = bst_Value s, co_ValueB = bst_Value s'\<rparr>) (filter (\<lambda>s'. bst_Value s \<noteq> bst_Value s') ss)
     @ pair_conflicts ss"

definition key_conflicts :: "Bundle \<Rightarrow> string \<times> string \<Rightarrow> conflict list" where
  "key_conflicts b k =
     (let stmts = keyed_statements b k
      in if length stmts < 2 then [] else pair_conflicts (order_by bst_ID stmts))"

definition conflict_key :: "conflict \<Rightarrow> string \<times> string \<times> string" where
  "conflict_key c = (co_EntityID c, co_PropertySlug c, co_ValueA c)"

definition detectConflicts :: "brief_env \<Rightarrow> Bundle \<Rightarrow> conflict list" where
  "detectConflicts E b = sort_conflicts E (concat (map (key_conflicts b) (key_order E (conflict_keys b))))"

definition buildSourceHealth :: "Bundle \<Rightarrow> sourceEntry list" where
  "buildSourceHealth b = order_by se_SourceID
     (map (\<lambda>x. \<lparr>se_SourceID = bso_ID x, se_Status = bso_VerificationStatus x\<rparr>) (dedup_by bso_ID [] (bu_Sources b)))"

definition findEvidenceGaps :: "Bundle \<Rightarrow> evidenceGap list" where
  "findEvidenceGaps b = order_by eg_StatementID
     (map (\<lambda>s. \<lparr>eg_StatementID = bst_ID s, eg_PropertySlug = bst_PropertySlug s\<rparr>)
       (filter (\<lambda>s. bst_SourceIDs s = []) (bu_Statements b)))"

definition deriveWriterPrompts :: "brief_env \<Rightarrow> Bundle \<Rightarrow> string list" where
  "deriveWriterPrompts E b =
     (let summary = ''Summarize the evidence for entity '' @ bu_EntityID b @ '' based on the assembled claims.'';
          investigate = (case detectConflicts E b of [] \<Rightarrow> []
            | c # _ \<Rightarrow> [''Investigate the conflicting values for '' @ quote_string E (co_PropertySlug c)
                @ '' on entity '' @ co_EntityID c @ '': '' @ quote_string E (co_ValueA c)
                @ '' vs '' @ quote_string E (co_ValueB c) @ ''.'']);
          fill = (case findEvidenceGaps b of [] \<Rightarrow> []
            | g # _ \<Rightarrow> [''Find sources to fill the evidence gap for property '' @ quote_string E (eg_PropertySlug g)
                @ '' on statement '' @ eg_StatementID g @ ''.''])
      in order_by (\<lambda>s. s) ([summary] @ investigate @ fill))"

definition brief_doc :: "brief_env \<Rightarrow> Bundle \<Rightarrow> briefDoc" where
  "brief_doc E b = \<lparr>bd_KeyClaims = extractKeyClaims b, bd_Citations = extractCitations b,
     bd_Conflicts = detectConflicts E b, bd_SourceHealth = buildSourceHealth b,
     bd_EvidenceGaps = findEvidenceGaps b, bd_WriterPrompts = deriveWriterPrompts E b\<rparr>"

definition ErrNilBundle :: string where
  "ErrNilBundle = ''briefs: bundle is required''"

definition Generate :: "brief_env \<Rightarrow> Bundle option \<Rightarrow> string result" where
  "Generate E b = (case b of None \<Rightarrow> Err ErrNilBundle | Some b \<Rightarrow> marshal_brief E (brief_doc E b))"

subsection \<open>What the document says\<close>

text \<open>An environment as Go guarantees it: some order of the keys, and a sort by the comparison.\<close>

definition go_order :: "brief_env \<Rightarrow> bool" where
  "go_order E \<longleftrightarrow> (\<forall>ks. mset (key_order E ks) = mset ks)
     \<and> (\<forall>cs. mset (sort_conflicts E cs) = mset cs \<and> sorted (map conflict_key (sort_conflicts E cs)))"

lemma pair_conflicts_sound:
  "c \<in> set (pair_conflicts ss) \<Longrightarrow> \<exists>s \<in> set ss. \<exists>s' \<in> set ss. bst_Value s \<noteq> bst_Value s'
     \<and> c = \<lparr>co_EntityID = bst_EntityID s, co_PropertySlug = bst_PropertySlug s,
           co_ValueA = bst_Value s, co_ValueB = bst_Value s'\<rparr>"
  by (induction ss) auto

lemma pair_conflicts_complete:
  "s \<in> set ss \<Longrightarrow> s' \<in> set ss \<Longrightarrow> bst_Value s \<noteq> bst_Value s' \<Longrightarrow>
     \<exists>c \<in> set (pair_conflicts ss). {co_ValueA c, co_ValueB c} = {bst_Value s, bst_Value s'}"
proof (induction ss)
  case (Cons x ss)
  consider "s = x" "s' \<in> set ss" | "s' = x" "s \<in> set ss" | "s \<in> set ss" "s' \<in> set ss"
    using Cons.prems by auto
  then show ?case
  proof cases
    case 1
    let ?c = "\<lparr>co_EntityID = bst_EntityID x, co_PropertySlug = bst_PropertySlug x, co_ValueA = bst_Value x, co_ValueB = bst_Value s'\<rparr>"
    have mem: "?c \<in> set (pair_conflicts (x # ss))" using 1 Cons.prems(3) by auto
    show ?thesis by (rule bexI [OF _ mem]) (simp add: 1)
  next
    case 2
    let ?c = "\<lparr>co_EntityID = bst_EntityID x, co_PropertySlug = bst_PropertySlug x, co_ValueA = bst_Value x, co_ValueB = bst_Value s\<rparr>"
    have mem: "?c \<in> set (pair_conflicts (x # ss))" using 2 Cons.prems(3) by auto
    show ?thesis by (rule bexI [OF _ mem]) (simp add: 2 insert_commute)
  next
    case 3
    from Cons.IH [OF 3 Cons.prems(3)] show ?thesis by auto
  qed
qed simp

lemma key_conflicts_sound:
  assumes "c \<in> set (key_conflicts b k)"
  shows "(co_EntityID c, co_PropertySlug c) = k
    \<and> (\<exists>s \<in> set (bu_Statements b). \<exists>s' \<in> set (bu_Statements b). (bst_EntityID s, bst_PropertySlug s) = k
        \<and> (bst_EntityID s', bst_PropertySlug s') = k
        \<and> bst_Value s = co_ValueA c \<and> bst_Value s' = co_ValueB c \<and> co_ValueA c \<noteq> co_ValueB c)"
proof -
  from assms have "c \<in> set (pair_conflicts (order_by bst_ID (keyed_statements b k)))"
    by (simp add: key_conflicts_def Let_def split: if_splits)
  from pair_conflicts_sound [OF this] obtain s s' where "s \<in> set (keyed_statements b k)" "s' \<in> set (keyed_statements b k)"
    "bst_Value s \<noteq> bst_Value s'" "c = \<lparr>co_EntityID = bst_EntityID s, co_PropertySlug = bst_PropertySlug s,
           co_ValueA = bst_Value s, co_ValueB = bst_Value s'\<rparr>" by auto
  then show ?thesis by (auto simp: keyed_statements_def)
qed

lemma key_conflicts_complete:
  assumes "s \<in> set (keyed_statements b k)" "s' \<in> set (keyed_statements b k)" "bst_Value s \<noteq> bst_Value s'"
  shows "\<exists>c \<in> set (key_conflicts b k). {co_ValueA c, co_ValueB c} = {bst_Value s, bst_Value s'}"
proof -
  have "\<not> length (keyed_statements b k) < 2"
  proof
    assume "length (keyed_statements b k) < 2"
    then have "length (keyed_statements b k) \<le> 1" by simp
    with assms show False by (cases "keyed_statements b k") auto
  qed
  then show ?thesis
    using pair_conflicts_complete [of s "order_by bst_ID (keyed_statements b k)" s'] assms
    by (simp add: key_conflicts_def Let_def)
qed

text \<open>C21. The conflicts of a brief are exactly the disagreements of the bundle, whatever order Go
  iterates and sorts in: each is between two statements of the bundle on the same entity and property
  with the two different values it names, any two such statements are reported, and the list is in
  the order of entity, property and first value.\<close>

theorem conflicts_exact:
  assumes go: "go_order E"
  shows "(\<forall>c \<in> set (detectConflicts E b). \<exists>s \<in> set (bu_Statements b). \<exists>s' \<in> set (bu_Statements b).
            bst_EntityID s = co_EntityID c \<and> bst_EntityID s' = co_EntityID c
            \<and> bst_PropertySlug s = co_PropertySlug c \<and> bst_PropertySlug s' = co_PropertySlug c
            \<and> bst_Value s = co_ValueA c \<and> bst_Value s' = co_ValueB c \<and> co_ValueA c \<noteq> co_ValueB c)
    \<and> (\<forall>s \<in> set (bu_Statements b). \<forall>s' \<in> set (bu_Statements b).
            bst_EntityID s = bst_EntityID s' \<longrightarrow> bst_PropertySlug s = bst_PropertySlug s' \<longrightarrow> bst_Value s \<noteq> bst_Value s' \<longrightarrow>
            (\<exists>c \<in> set (detectConflicts E b). co_EntityID c = bst_EntityID s \<and> co_PropertySlug c = bst_PropertySlug s
               \<and> {co_ValueA c, co_ValueB c} = {bst_Value s, bst_Value s'}))
    \<and> sorted (map conflict_key (detectConflicts E b))"
proof -
  have "set (key_order E (conflict_keys b)) = set (conflict_keys b)"
    using go by (metis go_order_def set_mset_mset)
  moreover have "set (sort_conflicts E cs) = set cs" for cs using go by (metis go_order_def set_mset_mset)
  ultimately have D: "set (detectConflicts E b) = (\<Union>k \<in> set (conflict_keys b). set (key_conflicts b k))"
    by (simp add: detectConflicts_def)
  have "\<exists>c \<in> set (detectConflicts E b). co_EntityID c = bst_EntityID s \<and> co_PropertySlug c = bst_PropertySlug s
      \<and> {co_ValueA c, co_ValueB c} = {bst_Value s, bst_Value s'}"
    if s: "s \<in> set (bu_Statements b)" "s' \<in> set (bu_Statements b)" "bst_EntityID s = bst_EntityID s'"
      "bst_PropertySlug s = bst_PropertySlug s'" "bst_Value s \<noteq> bst_Value s'" for s s'
  proof -
    let ?k = "(bst_EntityID s, bst_PropertySlug s)"
    have "?k \<in> set (conflict_keys b)" using s(1) by (auto simp: conflict_keys_def)
    moreover obtain c where c: "c \<in> set (key_conflicts b ?k)" "{co_ValueA c, co_ValueB c} = {bst_Value s, bst_Value s'}"
      using key_conflicts_complete [of s b ?k s'] s by (auto simp: keyed_statements_def)
    moreover from key_conflicts_sound [OF c(1)] have "co_EntityID c = bst_EntityID s" "co_PropertySlug c = bst_PropertySlug s"
      by simp_all
    ultimately show ?thesis unfolding D by blast
  qed
  moreover have "\<exists>s \<in> set (bu_Statements b). \<exists>s' \<in> set (bu_Statements b).
            bst_EntityID s = co_EntityID c \<and> bst_EntityID s' = co_EntityID c
            \<and> bst_PropertySlug s = co_PropertySlug c \<and> bst_PropertySlug s' = co_PropertySlug c
            \<and> bst_Value s = co_ValueA c \<and> bst_Value s' = co_ValueB c \<and> co_ValueA c \<noteq> co_ValueB c"
    if "c \<in> set (detectConflicts E b)" for c
  proof -
    from that obtain k where "c \<in> set (key_conflicts b k)" unfolding D by auto
    from key_conflicts_sound [OF this] show ?thesis by auto
  qed
  moreover have "sorted (map conflict_key (detectConflicts E b))"
    using go by (simp add: go_order_def detectConflicts_def)
  ultimately show ?thesis by blast
qed

definition sample_brief_env :: brief_env where
  "sample_brief_env = \<lparr>key_order = (\<lambda>ks. ks), sort_conflicts = order_by conflict_key, quote_string = (\<lambda>s. s),
     marshal_brief = (\<lambda>doc. Ok (concat (bd_WriterPrompts doc))), jsonb_text = Some\<rparr>"

lemma sample_go_order: "go_order sample_brief_env"
  by (simp add: go_order_def sample_brief_env_def order_by_def)

definition rival_bundle :: Bundle where
  "rival_bundle = \<lparr>bu_EntityID = ''e'', bu_Entities = [],
     bu_Statements = map (\<lambda>(i, v, c, srcs). \<lparr>bst_ID = i, bst_EntityID = ''e'', bst_PropertySlug = ''ceo'', bst_Value = v,
       bst_ValueType = ''string'', bst_Rank = 2, bst_Confidence = c, bst_SourceIDs = srcs, bst_QualifierIDs = []\<rparr>)
       [(''s1'', ''Ann'', 1 / 2, [''x'']), (''s2'', ''Bob'', 9 / 10, [])],
     bu_Sources = [], bu_Qualifiers = [], bu_Relations = [], bu_AssembledAt = 0, bu_TenantID = ''t''\<rparr>"

theorem conflicts_exact_witness:
  "\<exists>c \<in> set (detectConflicts sample_brief_env rival_bundle). {co_ValueA c, co_ValueB c} = {''Ann'', ''Bob''}"
proof -
  let ?s = "bu_Statements rival_bundle ! 0" and ?s' = "bu_Statements rival_bundle ! 1"
  have s: "?s \<in> set (bu_Statements rival_bundle)" "?s' \<in> set (bu_Statements rival_bundle)"
    "bst_EntityID ?s = bst_EntityID ?s'" "bst_PropertySlug ?s = bst_PropertySlug ?s'"
    "bst_Value ?s = ''Ann''" "bst_Value ?s' = ''Bob''"
    by (simp_all add: rival_bundle_def)
  then have "bst_Value ?s \<noteq> bst_Value ?s'" by simp
  with conflicts_exact [OF sample_go_order, of rival_bundle] s show ?thesis by metis
qed

text \<open>How far briefs are deterministic: two runs on one bundle, whatever orders Go picks, report
  the same conflicts with the same sort keys in the same places; only conflicts that agree in
  entity, property and first value may change places.\<close>

theorem conflicts_deterministic_up_to_ties:
  assumes "go_order E" and "go_order E'"
  shows "mset (detectConflicts E b) = mset (detectConflicts E' b)
    \<and> map conflict_key (detectConflicts E b) = map conflict_key (detectConflicts E' b)"
proof -
  let ?cs = "\<lambda>E. concat (map (key_conflicts b) (key_order E (conflict_keys b)))"
  have cs: "mset (?cs E) = (\<Sum>k \<in># mset (conflict_keys b). mset (key_conflicts b k))" if "go_order E" for E
  proof -
    have "mset (concat (map g ks)) = (\<Sum>k \<in># mset ks. mset (g k))" for g :: "string \<times> string \<Rightarrow> conflict list" and ks
      by (induction ks) auto
    then show ?thesis using that by (simp add: go_order_def)
  qed
  have m: "mset (detectConflicts E b) = mset (detectConflicts E' b)"
    using cs [OF assms(1)] cs [OF assms(2)] assms by (simp add: go_order_def detectConflicts_def)
  then have "mset (map conflict_key (detectConflicts E b)) = mset (map conflict_key (detectConflicts E' b))" by simp
  moreover have "sorted (map conflict_key (detectConflicts E b))" "sorted (map conflict_key (detectConflicts E' b))"
    using assms by (simp_all add: go_order_def detectConflicts_def)
  ultimately show ?thesis using m properties_for_sort by metis
qed

definition reversed_brief_env :: brief_env where
  "reversed_brief_env = sample_brief_env\<lparr>key_order := rev, sort_conflicts := \<lambda>cs. order_by conflict_key (rev cs)\<rparr>"

theorem conflicts_deterministic_up_to_ties_witness:
  "mset (detectConflicts sample_brief_env rival_bundle) = mset (detectConflicts reversed_brief_env rival_bundle)"
proof -
  have "go_order reversed_brief_env"
    by (simp add: go_order_def reversed_brief_env_def sample_brief_env_def order_by_def)
  from conflicts_deterministic_up_to_ties [OF sample_go_order this] show ?thesis by simp
qed

text \<open>Ties do occur: three values of one property give two conflicts with the same key.\<close>

lemma conflict_ties:
  "\<exists>b E E'. go_order E \<and> go_order E' \<and> detectConflicts E b \<noteq> detectConflicts E' b"
proof (intro exI conjI)
  let ?b = "rival_bundle\<lparr>bu_Statements := bu_Statements rival_bundle @
    [(bu_Statements rival_bundle ! 1)\<lparr>bst_ID := ''s3'', bst_Value := ''Cay''\<rparr>]\<rparr>"
  show "go_order sample_brief_env" by (rule sample_go_order)
  show "go_order reversed_brief_env"
    by (simp add: go_order_def reversed_brief_env_def sample_brief_env_def order_by_def)
  show "detectConflicts sample_brief_env ?b \<noteq> detectConflicts reversed_brief_env ?b" by code_simp
qed

text \<open>The rest of a brief, exactly: the key claims are the statements of confidence 0.7 or more,
  the evidence gaps the statements without a source; citations and source health list every source of
  the bundle once, in the order of identifiers.\<close>

theorem brief_sections_exact:
  "set (extractKeyClaims b) = {\<lparr>kc_StatementID = bst_ID s, kc_EntityID = bst_EntityID s, kc_PropertySlug = bst_PropertySlug s,
       kc_Value = bst_Value s, kc_Confidence = bst_Confidence s\<rparr> | s. s \<in> set (bu_Statements b) \<and> 7 / 10 \<le> bst_Confidence s}
   \<and> eg_StatementID ` set (findEvidenceGaps b) = {bst_ID s | s. s \<in> set (bu_Statements b) \<and> bst_SourceIDs s = []}
   \<and> map ci_SourceID (extractCitations b) = sorted_list_of_set (bso_ID ` set (bu_Sources b))
   \<and> map se_SourceID (buildSourceHealth b) = map ci_SourceID (extractCitations b)"
proof -
  have ids: "map key (order_by key (map f (dedup_by bso_ID [] xs))) = sorted_list_of_set (bso_ID ` set xs)"
    if k: "\<And>x. key (f x) = bso_ID x" for key :: "'a \<Rightarrow> string" and f and xs :: "BundleSource list"
  proof (rule sorted_distinct_set_unique)
    let ?l = "order_by key (map f (dedup_by bso_ID [] xs))"
    have "set (map key ?l) = bso_ID ` set (dedup_by bso_ID [] xs)" by (simp add: image_image k)
    then show "set (map key ?l) = set (sorted_list_of_set (bso_ID ` set xs))" by (simp add: keys_dedup_by)
    have "map key (map f (dedup_by bso_ID [] xs)) = map bso_ID (dedup_by bso_ID [] xs)" by (simp add: k)
    then have "distinct (map key (map f (dedup_by bso_ID [] xs)))" by (simp only: distinct_dedup_by)
    moreover have "mset (map key ?l) = mset (map key (map f (dedup_by bso_ID [] xs)))"
      unfolding order_by_def mset_map mset_sort ..
    ultimately show "distinct (map key ?l)" by (metis mset_eq_imp_distinct_iff)
  qed (simp_all add: order_by_def)
  have "map ci_SourceID (extractCitations b) = sorted_list_of_set (bso_ID ` set (bu_Sources b))"
    "map se_SourceID (buildSourceHealth b) = sorted_list_of_set (bso_ID ` set (bu_Sources b))"
    unfolding extractCitations_def buildSourceHealth_def by (rule ids, simp)+
  then show ?thesis by (auto simp: extractKeyClaims_def findEvidenceGaps_def image_iff)
qed

subsection \<open>Storing and reading briefs\<close>

record GenerateRequest =
  gr_SourceKind :: string
  gr_EntityID :: "string option"
  gr_Query :: "string option"

record ListOptions =
  lo_Limit :: int
  lo_SourceKind :: "string option"
  lo_EntityID :: "string option"
  lo_CreatedAfter :: "int option"
  lo_CreatedBefore :: "int option"

record Brief =
  bf_ID :: string
  bf_SourceKind :: string
  bf_EntityID :: "string option"
  bf_Payload :: string
  bf_BundleHash :: "string option"

definition SourceKindDossier :: string where "SourceKindDossier = ''dossier''"
definition SourceKindStory :: string where "SourceKindStory = ''story''"
definition ErrInvalidGenerateRequest :: string where
  "ErrInvalidGenerateRequest = ''briefs: invalid generate request''"
definition ErrBundleLoaderRequired :: string where
  "ErrBundleLoaderRequired = ''briefs: bundle loader is required''"
definition ErrBundleTenantMismatch :: string where
  "ErrBundleTenantMismatch = ''briefs: bundle tenant does not match caller tenant''"
definition ErrBundleEntityMismatch :: string where
  "ErrBundleEntityMismatch = ''briefs: bundle entity does not match request entity''"

definition blank :: "string option \<Rightarrow> bool" where
  "blank s = (case s of None \<Rightarrow> True | Some s \<Rightarrow> trim_space s = [])"

definition validateGenerateRequest :: "brief_env \<Rightarrow> GenerateRequest \<Rightarrow> unit result" where
  "validateGenerateRequest E req =
     (if gr_SourceKind req = SourceKindDossier then
        (if blank (gr_EntityID req) then Err (ErrInvalidGenerateRequest @ '': dossier briefs require entity_id'') else Ok ())
      else if gr_SourceKind req = SourceKindStory then
        (if blank (gr_Query req) then Err (ErrInvalidGenerateRequest @ '': story briefs require query'') else Ok ())
      else Err (ErrInvalidGenerateRequest @ '': unsupported source_kind '' @ quote_string E (gr_SourceKind req)))"

definition validateBundle :: "brief_env \<Rightarrow> string \<Rightarrow> GenerateRequest \<Rightarrow> Bundle option \<Rightarrow> unit result" where
  "validateBundle E tenantID req bundle =
     (case bundle of
        None \<Rightarrow> Err ErrNilBundle
      | Some b \<Rightarrow>
          if bu_TenantID b \<noteq> tenantID then Err (ErrBundleTenantMismatch @ '': bundle tenant '' @ quote_string E (bu_TenantID b))
          else if gr_EntityID req \<noteq> None \<and> Some (bu_EntityID b) \<noteq> gr_EntityID req then
            Err (ErrBundleEntityMismatch @ '': bundle entity '' @ quote_string E (bu_EntityID b))
          else Ok ())"

text \<open>\<open>fmt.Errorf("briefs: ...: %w", err)\<close>.\<close>

definition wrapped :: "string \<Rightarrow> 'a result \<Rightarrow> 'a result" where
  "wrapped prefix r = (case r of Inl e \<Rightarrow> Err (prefix @ e) | Inr x \<Rightarrow> Ok x)"

lemma wrapped_simps [simp]: "wrapped p (Inl e) = Inl (p @ e)" "wrapped p (Inr x) = Inr x"
  "wrapped p r = Inr x \<longleftrightarrow> r = Inr x"
  by (simp_all add: wrapped_def split: sum.split)

text \<open>\<open>tenantTx\<close> sets the tenant of the session; its policy casts the setting to \<open>uuid\<close> when a row is
  touched, so a text that is no UUID fails the statement that follows.\<close>

definition tenantTx :: "pg_env \<Rightarrow> string \<Rightarrow> uuid result" where
  "tenantTx pg tenantID = cast_uuid pg tenantID"

definition cast_optional :: "pg_env \<Rightarrow> string option \<Rightarrow> uuid option result" where
  "cast_optional pg s = (case s of None \<Rightarrow> Ok None | Some s \<Rightarrow> rbind (cast_uuid pg s) (\<lambda>u. Ok (Some u)))"

text \<open>The \<open>INSERT INTO evidence_briefs ... RETURNING id\<close> with the constraints of the table. The
  foreign key to \<open>entities(id)\<close> is checked by the table owner, across tenants.\<close>

definition insert_brief ::
    "brief_env \<Rightarrow> pg_env \<Rightarrow> uuid \<Rightarrow> string \<Rightarrow> GenerateRequest \<Rightarrow> string \<Rightarrow> db \<Rightarrow> (uuid \<times> db) result" where
  "insert_brief E pg t tenantID req payload d =
     rbind (cast_uuid pg tenantID) (\<lambda>tid.
     rbind (cast_optional pg (gr_EntityID req)) (\<lambda>eid.
       if tid \<noteq> t then Err ''new row violates row-level security policy for table evidence_briefs''
       else if gr_SourceKind req \<notin> {''dossier'', ''story''} then Err ''violates check constraint''
       else if gr_Query req \<noteq> None \<and> \<not> pg_text_ok (the (gr_Query req)) then Err ''invalid byte sequence for encoding''
       else (case jsonb_text E payload of
               None \<Rightarrow> Err ''invalid input syntax for type json''
             | Some js \<Rightarrow>
                 if eid \<noteq> None \<and> \<not> list_ex (\<lambda>e. Some (en_id e) = eid) (entities d)
                 then Err ''violates foreign key constraint evidence_briefs_entity_id_fkey''
                 else Ok (next_id d, d\<lparr>next_id := Suc (next_id d), briefs := briefs d @
                   [\<lparr>br_id = next_id d, br_tenant = tid, br_source_kind = gr_SourceKind req, br_entity = eid,
                     br_query = gr_Query req, br_payload = js, br_created = now d, br_bundle_hash = None\<rparr>]\<rparr>))))"

definition generateAndStoreBundle ::
    "brief_env \<Rightarrow> pg_env \<Rightarrow> string \<Rightarrow> GenerateRequest \<Rightarrow> Bundle option \<Rightarrow> db \<Rightarrow> (Brief \<times> db) result" where
  "generateAndStoreBundle E pg tenantID req bundle d =
     rbind (validateGenerateRequest E req) (\<lambda>_.
     rbind (validateBundle E tenantID req bundle) (\<lambda>_.
     rbind (wrapped ''briefs: generate: '' (Generate E bundle)) (\<lambda>payload.
     rbind (wrapped ''briefs: insert: '' (tenantTx pg tenantID)) (\<lambda>t.
     rbind (wrapped ''briefs: insert: '' (insert_brief E pg t tenantID req payload d)) (\<lambda>(i, d').
       Ok (\<lparr>bf_ID = uuid_text pg i, bf_SourceKind = gr_SourceKind req, bf_EntityID = gr_EntityID req,
            bf_Payload = payload, bf_BundleHash = None\<rparr>, d'))))))"

text \<open>\<open>BundleLoader\<close> is an interface that may be nil; a loader reads the database.\<close>

definition GenerateAndStore ::
    "brief_env \<Rightarrow> pg_env \<Rightarrow> (string \<Rightarrow> GenerateRequest \<Rightarrow> db \<Rightarrow> Bundle option result) option
       \<Rightarrow> string \<Rightarrow> GenerateRequest \<Rightarrow> db \<Rightarrow> (Brief \<times> db) result" where
  "GenerateAndStore E pg loader tenantID req d =
     rbind (validateGenerateRequest E req) (\<lambda>_.
       (case loader of
          None \<Rightarrow> Err ErrBundleLoaderRequired
        | Some load \<Rightarrow>
            rbind (wrapped ''briefs: load bundle: '' (load tenantID req d)) (\<lambda>bundle. generateAndStoreBundle E pg tenantID req bundle d)))"

definition stored_brief :: "pg_env \<Rightarrow> brief_row \<Rightarrow> Brief" where
  "stored_brief pg r = \<lparr>bf_ID = uuid_text pg (br_id r), bf_SourceKind = br_source_kind r,
     bf_EntityID = map_option (uuid_text pg) (br_entity r), bf_Payload = br_payload r, bf_BundleHash = None\<rparr>"

definition brief_selected :: "ListOptions \<Rightarrow> uuid option \<Rightarrow> brief_row \<Rightarrow> bool" where
  "brief_selected opts eid r \<longleftrightarrow>
     (case lo_SourceKind opts of None \<Rightarrow> True | Some k \<Rightarrow> br_source_kind r = k)
     \<and> (case lo_EntityID opts of None \<Rightarrow> True | Some _ \<Rightarrow> br_entity r = eid)
     \<and> (case lo_CreatedAfter opts of None \<Rightarrow> True | Some a \<Rightarrow> a \<le> br_created r)
     \<and> (case lo_CreatedBefore opts of None \<Rightarrow> True | Some b \<Rightarrow> br_created r \<le> b)"

text \<open>\<open>Service.List\<close> and \<open>Service.Get\<close>. Postgres rejects a negative \<open>LIMIT\<close>. The identifiers are
  encoded when the query is sent; what Postgres refuses comes up with the rows.\<close>

definition List_briefs :: "pg_env \<Rightarrow> string \<Rightarrow> ListOptions \<Rightarrow> db \<Rightarrow> Brief list result" where
  "List_briefs pg tenantID opts d =
     rbind (wrapped ''briefs: list query: '' (tenantTx pg tenantID)) (\<lambda>t.
     rbind (wrapped ''briefs: list query: '' (cast_uuid pg tenantID)) (\<lambda>tid.
     rbind (wrapped ''briefs: list query: '' (cast_optional pg (lo_EntityID opts))) (\<lambda>eid.
       if lo_SourceKind opts \<noteq> None \<and> \<not> pg_text_ok (the (lo_SourceKind opts))
       then Err ''briefs: list rows: invalid byte sequence for encoding''
       else if lo_Limit opts < 0 then Err ''briefs: list rows: LIMIT must not be negative''
       else Ok (map (stored_brief pg) (limit_rows (lo_Limit opts) (order_by (\<lambda>r. - br_created r)
              (filter (\<lambda>r. br_tenant r = tid \<and> brief_selected opts eid r) (rls br_tenant t (briefs d)))))))))"

definition ErrNoRows :: string where
  "ErrNoRows = ''no rows in result set''"

definition Get_brief :: "pg_env \<Rightarrow> string \<Rightarrow> string \<Rightarrow> db \<Rightarrow> Brief result" where
  "Get_brief pg tenantID i d =
     rbind (wrapped ''briefs: get: '' (tenantTx pg tenantID)) (\<lambda>t.
     rbind (wrapped ''briefs: get: '' (cast_uuid pg tenantID)) (\<lambda>tid.
     rbind (wrapped ''briefs: get: '' (cast_uuid pg i)) (\<lambda>u.
       (case filter (\<lambda>r. br_tenant r = tid \<and> br_id r = u) (rls br_tenant t (briefs d)) of
          [] \<Rightarrow> Err (''briefs: get: '' @ ErrNoRows)
        | r # _ \<Rightarrow> Ok (stored_brief pg r)))))"

lemma insert_brief_ok:
  assumes "insert_brief E pg t tenantID req payload d = Inr (i, d')"
  shows "\<exists>eid js. scan_uuid pg tenantID = Some t \<and> cast_optional pg (gr_EntityID req) = Inr eid
    \<and> jsonb_text E payload = Some js \<and> i = next_id d
    \<and> d' = d\<lparr>next_id := Suc (next_id d), briefs := briefs d @
        [\<lparr>br_id = next_id d, br_tenant = t, br_source_kind = gr_SourceKind req, br_entity = eid,
          br_query = gr_Query req, br_payload = js, br_created = now d, br_bundle_hash = None\<rparr>]\<rparr>"
proof -
  from assms obtain tid eid where 1: "scan_uuid pg tenantID = Some tid" "cast_optional pg (gr_EntityID req) = Inr eid" "tid = t"
    by (auto simp: insert_brief_def rbind_Inr_iff split: if_splits)
  with assms show ?thesis by (auto simp: insert_brief_def split: if_splits option.splits)
qed

text \<open>C22. A stored brief reads back: \<open>Get\<close> with the identifier that \<open>GenerateAndStore\<close> returned gives
  the same brief, its payload in the form \<open>JSONB\<close> keeps and its entity in canonical text; for any
  other tenant the same identifier finds nothing; and storing changes no brief on file.\<close>

theorem stored_brief_reads_back:
  assumes rt: "uuid_roundtrip pg" and fresh: "\<forall>r \<in> set (briefs d). br_id r < next_id d"
    and store: "GenerateAndStore E pg loader tenantID req d = Inr (b, d')"
  shows "(\<exists>js eid. jsonb_text E (bf_Payload b) = Some js \<and> cast_optional pg (gr_EntityID req) = Inr eid
      \<and> Get_brief pg tenantID (bf_ID b) d' = Inr (b\<lparr>bf_Payload := js, bf_EntityID := map_option (uuid_text pg) eid\<rparr>))
    \<and> (\<forall>other u. scan_uuid pg other = Some u \<longrightarrow> scan_uuid pg tenantID \<noteq> Some u \<longrightarrow>
         Get_brief pg other (bf_ID b) d' = Inl (''briefs: get: '' @ ErrNoRows))
    \<and> (\<exists>r. briefs d' = briefs d @ [r])"
proof -
  from store obtain bnd where s: "generateAndStoreBundle E pg tenantID req bnd d = Inr (b, d')"
    by (auto simp: GenerateAndStore_def rbind_Inr_iff split: option.splits)
  then obtain payload t i where p: "scan_uuid pg tenantID = Some t"
    "insert_brief E pg t tenantID req payload d = Inr (i, d')"
    "b = \<lparr>bf_ID = uuid_text pg i, bf_SourceKind = gr_SourceKind req, bf_EntityID = gr_EntityID req,
          bf_Payload = payload, bf_BundleHash = None\<rparr>"
    by (auto simp: generateAndStoreBundle_def tenantTx_def rbind_Inr_iff)
  from insert_brief_ok [OF p(2)] obtain r eid js where r: "d' = d\<lparr>next_id := Suc (next_id d), briefs := briefs d @ [r]\<rparr>"
    "i = next_id d" "cast_optional pg (gr_EntityID req) = Inr eid" "jsonb_text E payload = Some js"
    "r = \<lparr>br_id = next_id d, br_tenant = t, br_source_kind = gr_SourceKind req, br_entity = eid,
          br_query = gr_Query req, br_payload = js, br_created = now d, br_bundle_hash = None\<rparr>" by blast
  have scan: "scan_uuid pg (bf_ID b) = Some (next_id d)" using rt by (simp add: p(3) r(2) uuid_roundtrip_def)
  have old: "filter (\<lambda>r. br_tenant r = tid \<and> br_id r = next_id d) (rls br_tenant t' (briefs d)) = []" for tid t'
    using fresh by (fastforce simp: filter_empty_conv)
  have "Get_brief pg tenantID (bf_ID b) d' = Inr (b\<lparr>bf_Payload := js, bf_EntityID := map_option (uuid_text pg) eid\<rparr>)"
    using p(1) scan old by (simp add: Get_brief_def tenantTx_def r(1,5) stored_brief_def p(3) r(2))
  moreover have "Get_brief pg other (bf_ID b) d' = Inl (''briefs: get: '' @ ErrNoRows)"
    if "scan_uuid pg other = Some u" "scan_uuid pg tenantID \<noteq> Some u" for other u
    using that p(1) scan old by (simp add: Get_brief_def tenantTx_def r(1,5))
  ultimately show ?thesis using r(1,3,4) p(3) by auto
qed

definition story_request :: GenerateRequest where
  "story_request = \<lparr>gr_SourceKind = ''story'', gr_EntityID = None, gr_Query = Some ''q''\<rparr>"

theorem stored_brief_reads_back_witness:
  "\<exists>b d'. GenerateAndStore sample_brief_env sample_pg (Some (\<lambda>_ _ _. Inr (Some rival_bundle))) ''t'' story_request empty_db = Inr (b, d')
     \<and> is_ok (Get_brief sample_pg ''t'' (bf_ID b) d')
     \<and> Get_brief sample_pg ''tt'' (bf_ID b) d' = Inl (''briefs: get: '' @ ErrNoRows)"
proof -
  have "is_ok (GenerateAndStore sample_brief_env sample_pg (Some (\<lambda>_ _ _. Inr (Some rival_bundle))) ''t'' story_request empty_db)"
    by code_simp
  then obtain b d' where s: "GenerateAndStore sample_brief_env sample_pg (Some (\<lambda>_ _ _. Inr (Some rival_bundle))) ''t''
      story_request empty_db = Inr (b, d')"
    by (cases "GenerateAndStore sample_brief_env sample_pg (Some (\<lambda>_ _ _. Inr (Some rival_bundle))) ''t'' story_request empty_db") auto
  have "\<forall>r \<in> set (briefs empty_db). br_id r < next_id empty_db" by (simp add: empty_db_def)
  note rb = stored_brief_reads_back [OF sample_pg_roundtrip this s]
  have u: "scan_uuid sample_pg ''tt'' = Some 2" "scan_uuid sample_pg ''t'' \<noteq> Some 2" by (simp_all add: sample_pg_def)
  have "is_ok (Get_brief sample_pg ''t'' (bf_ID b) d')" using rb by fastforce
  moreover have "Get_brief sample_pg ''tt'' (bf_ID b) d' = Inl (''briefs: get: '' @ ErrNoRows)" using rb u by blast
  ultimately show ?thesis using s by blast
qed

subsection \<open>The service and the tenant contract\<close>

interpretation brief_op: tenant_op
  "\<lambda>t (tenantID, req, payload) d. rbind (insert_brief E pg t tenantID req payload d) (\<lambda>(_, d'). Inr d')" for E pg
proof unfold_locales
  fix t x d d' t'
  assume run: "(case x of (tenantID, req, payload) \<Rightarrow> \<lambda>d. rbind (insert_brief E pg t tenantID req payload d) (\<lambda>(_, d'). Inr d')) d = Inr d'"
    and ne: "t' \<noteq> t"
  obtain tenantID req payload where x: "x = (tenantID, req, payload)" by (cases x)
  from run obtain i where "insert_brief E pg t tenantID req payload d = Inr (i, d')"
    by (auto simp: x rbind_Inr_iff)
  from insert_brief_ok [OF this] ne show "view t' d' = view t' d" by (auto simp: view_def)
qed

end
