(* ===== verification/Retrieval.thy ===== *)
theory Retrieval
  imports Assembler "HOL-Library.Sublist"
begin

text \<open>
  \<open>internal/retrieval/service.go\<close> with \<open>SearchNearest\<close> of \<open>internal/store/postgres/backend.go\<close>: finding
  seed entities for a query, by embedding similarity or by text, and assembling the bundle around
  them. The embedder is an argument (it is a service), and so is the cosine distance of pgvector,
  which answers an error for vectors of different dimension and no number (\<open>NaN\<close>) for a null vector.
  The vector store queries the pool outside the tenant transaction: which entities such a session
  can read depends on its role, so that too is an argument. Scores are exact rationals.
\<close>

subsection \<open>Nearest entities\<close>

record EntityWithScore =
  ews_Entity :: entity_row
  ews_Score :: "rat option"    \<comment> \<open>\<open>None\<close> for NaN\<close>

type_synonym distance = "rat list \<Rightarrow> rat list \<Rightarrow> rat option result"

definition errInvalidLimit :: string where
  "errInvalidLimit = ''limit must be greater than zero''"

definition row_distance :: "distance \<Rightarrow> rat list \<Rightarrow> entity_row \<Rightarrow> rat option result" where
  "row_distance cosd v e = (case en_embedding e of None \<Rightarrow> Err ''null'' | Some w \<Rightarrow> cosd w v)"

text \<open>The order of \<open>embedding <=> $2\<close>: Postgres sorts NaN last.\<close>

definition distance_key :: "rat option result \<Rightarrow> nat \<times> rat" where
  "distance_key r = (case r of Inr (Some x) \<Rightarrow> (0, x) | _ \<Rightarrow> (1, 0))"

definition SearchNearest ::
    "distance \<Rightarrow> entity_row list \<Rightarrow> uuid \<Rightarrow> rat list \<Rightarrow> int \<Rightarrow> EntityWithScore list result" where
  "SearchNearest cosd readable tid embedding k =
     (if k \<le> 0 then Err errInvalidLimit
      else
        (let rows = filter (\<lambda>e. en_tenant e = tid \<and> en_embedding e \<noteq> None) readable
         in if list_ex (\<lambda>e. \<not> is_ok (row_distance cosd embedding e)) rows then Err ''different vector dimensions''
            else Ok (map (\<lambda>e. \<lparr>ews_Entity = e, ews_Score = (case row_distance cosd embedding e of
                             Inr (Some x) \<Rightarrow> Some (1 - x) | _ \<Rightarrow> None)\<rparr>)
                   (limit_rows k (order_by (\<lambda>e. distance_key (row_distance cosd embedding e)) rows)))))"

subsection \<open>Text search\<close>

text \<open>\<open>LIKE\<close> on runes: \<open>%\<close> (37) any text, \<open>_\<close> (95) any rune, a backslash (92) escapes. A backslash at the
  very end, which Postgres reports, cannot occur below: the pattern ends in \<open>%\<close>.\<close>

fun like :: "rune list \<Rightarrow> rune list \<Rightarrow> bool" where
  "like [] s = (s = [])"
| "like (c # p) [] = (if c = 37 then like p [] else False)"
| "like (c # p) (x # s) =
     (if c = 37 then like p (x # s) \<or> like (c # p) s
      else if c = 92 then (case p of [] \<Rightarrow> False | e # p' \<Rightarrow> x = e \<and> like p' s)
      else (c = 95 \<or> x = c) \<and> like p s)"

definition ilike :: "unicode_tables \<Rightarrow> string \<Rightarrow> string \<Rightarrow> bool" where
  "ilike U query s = like (37 # runes (to_lower U query) @ [37]) (runes (to_lower U s))"

definition ilikeSeed :: "unicode_tables \<Rightarrow> pg_env \<Rightarrow> uuid \<Rightarrow> db \<Rightarrow> string \<Rightarrow> string \<Rightarrow> int \<Rightarrow> string list result" where
  "ilikeSeed U pg t d tenantID query lmt =
     rbind (cast_uuid pg tenantID) (\<lambda>tid.
       if \<not> pg_text_ok query then Err ''invalid byte sequence for encoding''
       else if lmt < 0 then Err ''LIMIT must not be negative''
       else Ok (map (\<lambda>e. uuid_text pg (en_id e)) (limit_rows lmt (order_by (\<lambda>e. - en_created e)
              (filter (\<lambda>e. en_tenant e = tid \<and> (query = [] \<or> ilike U query (en_label e)
                 \<or> ilike U query (case en_description e of None \<Rightarrow> [] | Some x \<Rightarrow> x)))
                (rls en_tenant t (entities d)))))))"

subsection \<open>The service\<close>

record Service =
  embedder :: "(string list \<Rightarrow> rat list list result) option"
  vectorStore :: "(uuid \<Rightarrow> rat list \<Rightarrow> int \<Rightarrow> EntityWithScore list result) option"

definition cosineSeedThreshold :: rat where
  "cosineSeedThreshold = 3 / 5"

definition cosineSeed :: "pg_env \<Rightarrow> Service \<Rightarrow> string \<Rightarrow> string \<Rightarrow> int \<Rightarrow> string list result" where
  "cosineSeed pg s tenantID query lmt =
     (case scan_uuid pg tenantID of
        None \<Rightarrow> Err ''retrieval: invalid tenant id for cosine seed''
      | Some tid \<Rightarrow>
          rbind (the (embedder s) [query]) (\<lambda>vecs.
            if vecs = [] \<or> hd vecs = [] then Err ''retrieval: embedder returned empty vector''
            else rbind (the (vectorStore s) tid (hd vecs) lmt) (\<lambda>results.
              Ok (map (\<lambda>r. uuid_text pg (en_id (ews_Entity r)))
                    (filter (\<lambda>r. case ews_Score r of None \<Rightarrow> False | Some x \<Rightarrow> x \<ge> cosineSeedThreshold) results)))))"

definition seedEntities ::
    "unicode_tables \<Rightarrow> pg_env \<Rightarrow> Service \<Rightarrow> uuid \<Rightarrow> db \<Rightarrow> string \<Rightarrow> string \<Rightarrow> int \<Rightarrow> string list result" where
  "seedEntities U pg s t d tenantID query lmt0 =
     (let lmt = (if lmt0 \<le> 0 then 10 else lmt0);
          text_seeds = ilikeSeed U pg t d tenantID query lmt
      in if query \<noteq> [] \<and> embedder s \<noteq> None \<and> vectorStore s \<noteq> None
         then (case cosineSeed pg s tenantID query lmt of
                 Inl _ \<Rightarrow> text_seeds
               | Inr ids \<Rightarrow> if ids \<noteq> [] then Ok ids else text_seeds)
         else text_seeds)"

text \<open>\<open>withTenantTx\<close>: a transaction of the tenant, always rolled back; the operations only read.\<close>

definition withTenantTx :: "pg_env \<Rightarrow> string \<Rightarrow> (uuid \<Rightarrow> 'a result) \<Rightarrow> 'a result" where
  "withTenantTx pg tenantID fn = (case scan_uuid pg tenantID of None \<Rightarrow> Err ''invalid tenant id'' | Some t \<Rightarrow> fn t)"

record DossierResponse =
  dr_Bundle :: Bundle
  dr_CachedAt :: "string option"

record StoryRequest =
  sr_Query :: string
  sr_Depth :: int
  sr_MaxFacts :: "int option"
  sr_MinConfidence :: rat

record FactsQueryRequest =
  fq_Query :: string
  fq_MaxFacts :: "int option"
  fq_MinConfidence :: rat

definition Dossier :: "pg_env \<Rightarrow> db \<Rightarrow> string \<Rightarrow> string \<Rightarrow> DossierResponse result" where
  "Dossier pg d tenantID entityID = withTenantTx pg tenantID (\<lambda>t.
     rbind (Assemble pg t d [entityID] 0 tenantID) (\<lambda>b. Ok \<lparr>dr_Bundle = b, dr_CachedAt = None\<rparr>))"

definition seeded_bundle ::
    "unicode_tables \<Rightarrow> pg_env \<Rightarrow> Service \<Rightarrow> db \<Rightarrow> string \<Rightarrow> string \<Rightarrow> int \<Rightarrow> Bundle result" where
  "seeded_bundle U pg s d tenantID query depth = withTenantTx pg tenantID (\<lambda>t.
     rbind (seedEntities U pg s t d tenantID query 10) (\<lambda>seeds.
       if seeds = [] then Err ErrEntityNotFound else Assemble pg t d seeds depth tenantID))"

definition Story :: "unicode_tables \<Rightarrow> pg_env \<Rightarrow> Service \<Rightarrow> db \<Rightarrow> string \<Rightarrow> StoryRequest \<Rightarrow> Bundle result" where
  "Story U pg s d tenantID req =
     (let depth = (if sr_Depth req = 0 then 2 else sr_Depth req)
      in if depth < 1 \<or> depth > 3 then Err ErrInvalidDepth
         else seeded_bundle U pg s d tenantID (sr_Query req) depth)"

definition FactsQuery :: "unicode_tables \<Rightarrow> pg_env \<Rightarrow> Service \<Rightarrow> db \<Rightarrow> string \<Rightarrow> FactsQueryRequest \<Rightarrow> Bundle result" where
  "FactsQuery U pg s d tenantID req = seeded_bundle U pg s d tenantID (fq_Query req) 0"

subsection \<open>Text search finds substrings\<close>

text \<open>A leading \<open>%\<close> matches every suffix.\<close>

lemma like_percent: "like (37 # p) s \<longleftrightarrow> (\<exists>us vs. s = us @ vs \<and> like p vs)"
proof (induction s)
  case (Cons x s)
  have "like (37 # p) (x # s) \<longleftrightarrow> like p (x # s) \<or> like (37 # p) s" by simp
  also have "\<dots> \<longleftrightarrow> (\<exists>us vs. x # s = us @ vs \<and> like p vs)"
    unfolding Cons.IH by (auto simp: Cons_eq_append_conv)
  finally show ?case .
qed simp

definition plain_runes :: "rune list \<Rightarrow> bool" where
  "plain_runes q = list_all (\<lambda>c. c \<noteq> 37 \<and> c \<noteq> 92 \<and> c \<noteq> 95) q"

lemma like_plain_prefix: "plain_runes q \<Longrightarrow> like (q @ p) s \<longleftrightarrow> (\<exists>vs. s = q @ vs \<and> like p vs)"
proof (induction q arbitrary: s)
  case (Cons c q)
  then show ?case by (cases s) (auto simp: plain_runes_def)
qed simp

lemma ilike_plain:
  assumes "plain_runes (runes (to_lower U query))"
  shows "ilike U query s \<longleftrightarrow> sublist (runes (to_lower U query)) (runes (to_lower U s))"
proof -
  let ?q = "runes (to_lower U query)"
  have all: "like [37] vs" for vs using like_percent [of "[]" vs] by auto
  have "ilike U query s \<longleftrightarrow> (\<exists>us vs. runes (to_lower U s) = us @ vs \<and> (\<exists>ws. vs = ?q @ ws))"
    unfolding ilike_def like_percent like_plain_prefix [OF assms] using all by simp
  then show ?thesis by (auto simp: sublist_def)
qed

text \<open>Text search returns exactly what it should: for a query without \<open>%\<close>, \<open>_\<close> and backslash the seeds are
  entities of the tenant, at most as many as the limit, newest first, and an entity qualifies exactly
  if the lower-cased query occurs in its lower-cased label or description. (The query is not escaped:
  with these three characters it is a pattern.)\<close>

theorem text_search_exact:
  assumes "plain_runes (runes (to_lower U query))" and "pg_text_ok query" and "query \<noteq> []" and "0 \<le> lmt"
    and "scan_uuid pg tenantID = Some t"
  shows "\<exists>hits. ilikeSeed U pg t d tenantID query lmt = Inr (map (\<lambda>e. uuid_text pg (en_id e)) (take (nat lmt) hits))
    \<and> sorted (map (\<lambda>e. - en_created e) hits)
    \<and> set hits = {e \<in> set (entities d). en_tenant e = t \<and>
         (sublist (runes (to_lower U query)) (runes (to_lower U (en_label e)))
          \<or> (\<exists>x. en_description e = Some x \<and> sublist (runes (to_lower U query)) (runes (to_lower U x))))}"
proof -
  let ?hit = "\<lambda>e. en_tenant e = t \<and> (query = [] \<or> ilike U query (en_label e)
                 \<or> ilike U query (case en_description e of None \<Rightarrow> [] | Some x \<Rightarrow> x))"
  let ?hits = "order_by (\<lambda>e. - en_created e) (filter ?hit (rls en_tenant t (entities d)))"
  have "ilikeSeed U pg t d tenantID query lmt = Inr (map (\<lambda>e. uuid_text pg (en_id e)) (take (nat lmt) ?hits))"
    using assms by (simp add: ilikeSeed_def limit_rows_def)
  moreover have "\<not> sublist (runes (to_lower U query)) []" if "runes (to_lower U query) \<noteq> []"
    using that by simp
  moreover have "runes (to_lower U query) \<noteq> []"
  proof -
    have "encode_rune r \<noteq> []" for r by (simp add: encode_rune_def)
    moreover have "runes query \<noteq> []" using assms(3) by (simp add: runes_def)
    ultimately have "to_lower U query \<noteq> []" by (cases "runes query") (auto simp: to_lower_def map_runes_def)
    then show ?thesis by (simp add: runes_def)
  qed
  moreover have "to_lower U [] = []" by (simp add: to_lower_def)
  ultimately show ?thesis
    using assms(3) by (intro exI [of _ ?hits])
      (auto simp: ilike_plain [OF assms(1)] order_by_def split: option.splits)
qed

definition labelled_entity :: "uuid \<Rightarrow> string \<Rightarrow> entity_row" where
  "labelled_entity i l = \<lparr>en_id = i, en_tenant = 1, en_ext_id = None, en_label = l, en_type_uri = None,
     en_description = None, en_embedding = None, en_meta = ''{}'', en_created = int i, en_updated = 0\<rparr>"

definition two_entities :: db where
  "two_entities = empty_db\<lparr>entities := [labelled_entity 2 ''Acme Corp'', labelled_entity 3 ''Beta''],
     relations := [\<lparr>re_id = 9, re_tenant = 1, re_source = 2, re_target = 3, re_type = ''owns'', re_weight = None,
       re_confidence = Some 1, re_description = None, re_embedding = None, re_meta = ''{}'', re_statement = None\<rparr>]\<rparr>"

theorem text_search_exact_witness:
  "ilikeSeed ascii_tables sample_pg 1 two_entities ''t'' ''corp'' 10 = Inr [''uu'']
   \<and> sublist (runes (to_lower ascii_tables ''corp'')) (runes (to_lower ascii_tables ''Acme Corp''))"
proof -
  have q: "plain_runes (runes (to_lower ascii_tables ''corp''))" by code_simp
  have ok: "pg_text_ok ''corp''" by code_simp
  have t: "scan_uuid sample_pg ''t'' = Some 1" by (simp add: sample_pg_def)
  have r: "ilikeSeed ascii_tables sample_pg 1 two_entities ''t'' ''corp'' 10 = Inr [''uu'']" by code_simp
  from text_search_exact [OF q ok _ _ t, of 10 two_entities] obtain hits where h:
    "ilikeSeed ascii_tables sample_pg 1 two_entities ''t'' ''corp'' 10 = Inr (map (\<lambda>e. uuid_text sample_pg (en_id e)) (take 10 hits))"
    "set hits = {e \<in> set (entities two_entities). en_tenant e = 1 \<and>
         (sublist (runes (to_lower ascii_tables ''corp'')) (runes (to_lower ascii_tables (en_label e)))
          \<or> (\<exists>x. en_description e = Some x \<and> sublist (runes (to_lower ascii_tables ''corp'')) (runes (to_lower ascii_tables x))))}"
    by auto
  from h(1) r have "map (\<lambda>e. uuid_text sample_pg (en_id e)) (take 10 hits) = [''uu'']" by simp
  then obtain e where e: "e \<in> set hits" "uuid_text sample_pg (en_id e) = ''uu''"
    by (cases hits) auto
  have "en_id e \<noteq> 3" using e(2) by (auto simp: sample_pg_def eval_nat_numeral)
  moreover have "e \<in> set (entities two_entities)" using e(1) h(2) by blast
  ultimately have acme: "en_label e = ''Acme Corp''" "en_description e = None"
    by (auto simp: two_entities_def labelled_entity_def)
  from e(1) h(2) have "sublist (runes (to_lower ascii_tables ''corp'')) (runes (to_lower ascii_tables (en_label e)))
      \<or> (\<exists>x. en_description e = Some x \<and> sublist (runes (to_lower ascii_tables ''corp'')) (runes (to_lower ascii_tables x)))"
    by blast
  then have "sublist (runes (to_lower ascii_tables ''corp'')) (runes (to_lower ascii_tables (en_label e)))"
    unfolding acme(2) by (elim disjE exE conjE) simp_all
  with acme(1) r show ?thesis by simp
qed

subsection \<open>Degrading without the embedder\<close>

text \<open>An embedder that is down costs quality, never availability: with an embedder that always fails
  both searches answer exactly as if no embedder were configured.\<close>

theorem search_degrades_gracefully:
  assumes "\<And>texts. \<not> is_ok (em texts)"
  shows "Story U pg (s\<lparr>embedder := Some em\<rparr>) d tenantID req = Story U pg (s\<lparr>embedder := None\<rparr>) d tenantID req
    \<and> FactsQuery U pg (s\<lparr>embedder := Some em\<rparr>) d tenantID req' = FactsQuery U pg (s\<lparr>embedder := None\<rparr>) d tenantID req'"
proof -
  have "\<exists>e. em texts = Inl e" for texts using assms [of texts] by (cases "em texts") simp_all
  then obtain e where e: "em texts = Inl (e texts)" for texts by metis
  have "seedEntities U pg (s\<lparr>embedder := Some em\<rparr>) t d tenantID query n
      = seedEntities U pg (s\<lparr>embedder := None\<rparr>) t d tenantID query n" for t query n
  proof -
    have "cosineSeed pg (s\<lparr>embedder := Some em\<rparr>) tenantID query m \<noteq> Inr ys" for m ys
      by (simp add: cosineSeed_def e split: option.split)
    then show ?thesis by (auto simp: seedEntities_def Let_def split: sum.split)
  qed
  then show ?thesis by (simp add: Story_def FactsQuery_def seeded_bundle_def Let_def)
qed

definition no_service :: Service where
  "no_service = \<lparr>embedder = None, vectorStore = Some (\<lambda>_ _ _. Inr [])\<rparr>"

definition corp_story :: StoryRequest where
  "corp_story = \<lparr>sr_Query = ''corp'', sr_Depth = 0, sr_MaxFacts = None, sr_MinConfidence = 0\<rparr>"

theorem search_degrades_gracefully_witness:
  "Story ascii_tables sample_pg (no_service\<lparr>embedder := Some (\<lambda>_. Inl ''down'')\<rparr>) two_entities ''t'' corp_story
   = Story ascii_tables sample_pg (no_service\<lparr>embedder := None\<rparr>) two_entities ''t'' corp_story"
  by (rule search_degrades_gracefully [THEN conjunct1]) simp

subsection \<open>A seed suffices\<close>

text \<open>The foreign keys of \<open>relations\<close> for one tenant.\<close>

definition relations_within :: "uuid \<Rightarrow> db \<Rightarrow> bool" where
  "relations_within t d \<longleftrightarrow> (\<forall>r \<in> set (relations d). re_tenant r = t \<longrightarrow>
     {re_source r, re_target r} \<subseteq> tenant_entities t t d)"

lemma within_hops_closed:
  assumes "relations_within t d" and "S \<subseteq> tenant_entities t t d"
  shows "within_hops (strong_relations t t d) n S \<subseteq> tenant_entities t t d"
proof -
  let ?E = "strong_edges (strong_relations t t d)"
  have "(?E ^^ k) `` S \<subseteq> tenant_entities t t d" for k
  proof (induction k)
    case (Suc k)
    have "?E `` tenant_entities t t d \<subseteq> tenant_entities t t d"
      using assms(1) by (auto simp: relations_within_def strong_edges_def strong_relations_def)
    with Suc show ?case by (force simp: relcomp_unfold)
  qed (use assms(2) in simp)
  then show ?thesis unfolding within_hops_def by blast
qed

lemma canonical_texts:
  assumes "uuid_roundtrip pg" "set out = uuid_text pg ` A"
  obtains es where "cast_uuids pg (uniqueStrings out) = Inr es" "distinct es" "set es = A"
proof -
  have "set (uniqueStrings out) \<subseteq> uuid_text pg ` A" using assms(2) uniqueStrings_facts(2) by auto
  then have "\<forall>s \<in> set (uniqueStrings out). \<exists>e. e \<in> A \<and> s = uuid_text pg e" by blast
  then obtain g where g: "\<And>s. s \<in> set (uniqueStrings out) \<Longrightarrow> g s \<in> A \<and> s = uuid_text pg (g s)" by metis
  let ?es = "map g (uniqueStrings out)"
  have u: "uniqueStrings out = map (uuid_text pg) ?es" using g by (simp add: map_idI)
  have "distinct (map (uuid_text pg) ?es)" using uniqueStrings_facts(1) u by metis
  then have "distinct ?es" by (simp only: distinct_map)
  moreover have "set ?es = A"
  proof
    show "set ?es \<subseteq> A" using g by auto
    show "A \<subseteq> set ?es"
    proof
      fix e assume "e \<in> A"
      then have "uuid_text pg e \<in> set (uniqueStrings out)"
        using assms uuid_text_ne [OF assms(1), of e] uniqueStrings_facts(2) [of out] by auto
      then have "g (uuid_text pg e) = e" using g uuid_text_inj [OF assms(1)] by metis
      then show "e \<in> set ?es" using \<open>uuid_text pg e \<in> set (uniqueStrings out)\<close> by (metis image_eqI list.set_map)
    qed
  qed
  moreover have "cast_uuids pg (uniqueStrings out) = Inr ?es" by (subst u) (rule cast_uuids_text [OF assms(1)])
  ultimately show thesis using that by blast
qed

lemma seeds_assemble:
  assumes rt: "uuid_roundtrip pg" and pk: "distinct (map en_id (entities d))" and fk: "relations_within t d"
    and t: "scan_uuid pg tenantID = Some t" and depth: "0 \<le> depth" "depth \<le> 3"
    and seeds: "seeds \<noteq> []" "set seeds \<subseteq> uuid_text pg ` tenant_entities t t d"
  shows "is_ok (Assemble pg t d seeds depth tenantID)"
proof -
  obtain S where S: "set seeds = uuid_text pg ` S" "S \<subseteq> tenant_entities t t d"
    using seeds(2) by (metis subset_image_iff)
  obtain us where us: "cast_uuids pg (uniqueStrings seeds) = Inr us" "distinct us" "set us = S"
    using canonical_texts [OF rt S(1)] by blast
  show ?thesis
  proof (cases "depth = 0")
    case True
    then show ?thesis using us S t seeds depth by (auto simp: Assemble_is_ok_iff [OF rt pk] seed_ids_def)
  next
    case False
    with depth have "1 \<le> depth" by simp
    from ExpandGraph_ok [OF this depth(2) seeds(1) us(1) t] obtain out where
      out: "ExpandGraph pg t d seeds depth tenantID = Inr out"
      "set out = uuid_text pg ` within_hops (strong_relations t t d) (nat depth) (set us)" by blast
    obtain es where "cast_uuids pg (uniqueStrings out) = Inr es" "distinct es"
      "set es = within_hops (strong_relations t t d) (nat depth) (set us)"
      using canonical_texts [OF rt out(2)] by blast
    moreover have "within_hops (strong_relations t t d) (nat depth) (set us) \<subseteq> tenant_entities t t d"
      using within_hops_closed [OF fk] S(2) us(3) by simp
    ultimately show ?thesis
      using t seeds depth False out(1) by (auto simp: Assemble_is_ok_iff [OF rt pk] seed_ids_def)
  qed
qed

lemma SearchNearest_tenant:
  "SearchNearest D readable tid v k = Inr rs \<Longrightarrow> r \<in> set rs \<Longrightarrow>
     ews_Entity r \<in> set readable \<and> en_tenant (ews_Entity r) = tid"
  by (auto simp: SearchNearest_def Let_def split: if_splits dest!: in_limit_order)

lemma seeds_of_tenant:
  assumes t: "scan_uuid pg tenantID = Some t"
    and store: "\<And>vs. vectorStore s = Some vs \<Longrightarrow> \<exists>D readable. vs = SearchNearest D readable \<and> set readable \<subseteq> set (entities d)"
    and seeds: "seedEntities U pg s t d tenantID query n = Inr seeds"
  shows "set seeds \<subseteq> uuid_text pg ` tenant_entities t t d"
proof -
  have text_seeds: "set ids \<subseteq> uuid_text pg ` tenant_entities t t d" if "ilikeSeed U pg t d tenantID query m = Inr ids" for m ids
    using that t by (force simp: ilikeSeed_def tenant_entities_def split: if_splits)
  have "set ids \<subseteq> uuid_text pg ` tenant_entities t t d"
    if ids: "cosineSeed pg s tenantID query m = Inr ids" and v: "vectorStore s = Some vs" for m ids vs
  proof -
    from store [OF v] obtain D readable where vs: "vs = SearchNearest D readable" "set readable \<subseteq> set (entities d)" by blast
    from ids t v obtain x rs where rs: "SearchNearest D readable t x m = Inr rs"
      and sub: "set ids \<subseteq> (\<lambda>r. uuid_text pg (en_id (ews_Entity r))) ` set rs"
      by (fastforce simp: cosineSeed_def rbind_Inr_iff vs(1) split: if_splits)
    have "en_id (ews_Entity r) \<in> tenant_entities t t d" if "r \<in> set rs" for r
      using SearchNearest_tenant [OF rs that] vs(2) by (auto simp: tenant_entities_def)
    with sub show ?thesis by blast
  qed
  with text_seeds seeds show ?thesis
    by (auto simp: seedEntities_def Let_def split: if_splits sum.splits)
qed

text \<open>A search with a hit never fails: if any seed is found, the story around it is assembled, at
  every depth from one to three, and so is the answer to a facts query. (The store may be the
  Postgres one over any part of the entities; relations obey their foreign keys.)\<close>

theorem story_with_seeds_succeeds:
  assumes rt: "uuid_roundtrip pg" and pk: "distinct (map en_id (entities d))" and fk: "relations_within t d"
    and t: "scan_uuid pg tenantID = Some t"
    and store: "\<And>vs. vectorStore s = Some vs \<Longrightarrow> \<exists>D readable. vs = SearchNearest D readable \<and> set readable \<subseteq> set (entities d)"
    and seeds: "seedEntities U pg s t d tenantID (sr_Query req) 10 = Inr seeds" "seeds \<noteq> []"
    and depth: "0 \<le> sr_Depth req" "sr_Depth req \<le> 3"
  shows "is_ok (Story U pg s d tenantID req)
    \<and> is_ok (FactsQuery U pg s d tenantID \<lparr>fq_Query = sr_Query req, fq_MaxFacts = m, fq_MinConfidence = c\<rparr>)"
proof
  note sub = seeds_of_tenant [OF t store seeds(1)]
  show "is_ok (Story U pg s d tenantID req)"
    using seeds_assemble [OF rt pk fk t _ _ seeds(2) sub] depth t seeds
    by (simp add: Story_def Let_def seeded_bundle_def withTenantTx_def)
  show "is_ok (FactsQuery U pg s d tenantID \<lparr>fq_Query = sr_Query req, fq_MaxFacts = m, fq_MinConfidence = c\<rparr>)"
    using seeds_assemble [OF rt pk fk t _ _ seeds(2) sub, of 0] t seeds
    by (simp add: FactsQuery_def seeded_bundle_def withTenantTx_def)
qed

theorem story_with_seeds_succeeds_witness:
  "is_ok (Story ascii_tables sample_pg \<lparr>embedder = None, vectorStore = None\<rparr> two_entities ''t'' corp_story)"
proof (rule story_with_seeds_succeeds [where t = 1 and seeds = "[''uu'']", OF sample_pg_roundtrip, THEN conjunct1])
  show "distinct (map en_id (entities two_entities))" by (simp add: two_entities_def labelled_entity_def)
  show "relations_within 1 two_entities"
    by (simp add: relations_within_def two_entities_def tenant_entities_def labelled_entity_def) force
  show "scan_uuid sample_pg ''t'' = Some 1" by (simp add: sample_pg_def)
  show "seedEntities ascii_tables sample_pg \<lparr>embedder = None, vectorStore = None\<rparr> 1 two_entities ''t'' (sr_Query corp_story) 10 = Inr [''uu'']"
    by code_simp
qed (simp_all add: corp_story_def)

text \<open>The limits of a request do not reach the search: neither operation looks at them.\<close>

lemma request_limits_ignored:
  "Story U pg s d tenantID (req\<lparr>sr_MaxFacts := m, sr_MinConfidence := c\<rparr>) = Story U pg s d tenantID req"
  "FactsQuery U pg s d tenantID (freq\<lparr>fq_MaxFacts := m, fq_MinConfidence := c\<rparr>) = FactsQuery U pg s d tenantID freq"
  by (simp_all add: Story_def FactsQuery_def Let_def)

end
