(* ===== verification/Embedding.thy ===== *)
theory Embedding
  imports Database
begin

text \<open>
  \<open>internal/embed/client.go\<close> and \<open>internal/workers/embed.go\<close>: the embedding client and the worker that
  fills the empty embedding columns of entities, sources and statements. For each table the worker
  reads a batch in one transaction, calls the embedder with none open, and writes the vectors in a
  second transaction; the model runs the three one after the other with no other writer in between.
  HTTP, JSON and the conversion to \<open>float32\<close> are arguments of the client.
\<close>

subsection \<open>The client\<close>

record Client =
  baseURL :: string
  http_post :: "string \<Rightarrow> string \<Rightarrow> (int \<times> string) result"      \<comment> \<open>URL and body to status and body\<close>
  json_request :: "string list \<Rightarrow> string result"
  json_vectors :: "string \<Rightarrow> rat list list result"
  float32 :: "rat \<Rightarrow> rat"

definition NewClient :: "Client \<Rightarrow> string \<Rightarrow> Client" where
  "NewClient c embedderURL = c\<lparr>baseURL := trim_right_char CHR ''/'' embedderURL\<rparr>"

definition Embed :: "Client \<Rightarrow> string list \<Rightarrow> rat list list result" where
  "Embed c texts =
     (if texts = [] then Ok []
      else rbind (json_request c texts) (\<lambda>body.
           rbind (http_post c (baseURL c @ ''/embed'') body) (\<lambda>(status, resp).
             if status \<noteq> 200 then Err ''embed: POST /embed status''
             else rbind (json_vectors c resp) (\<lambda>vectors. Ok (map (map (float32 c)) vectors)))))"

subsection \<open>Texts to embed\<close>

definition entityEmbedText :: "string \<Rightarrow> string option \<Rightarrow> string" where
  "entityEmbedText label description =
     (case description of
        None \<Rightarrow> trim_space label
      | Some x \<Rightarrow> if trim_space x \<noteq> [] then trim_space label @ '' '' @ trim_space x else trim_space label)"

definition present_text :: "string option \<Rightarrow> string list" where
  "present_text x = (case x of None \<Rightarrow> [] | Some s \<Rightarrow> if trim_space s \<noteq> [] then [trim_space s] else [])"

definition sourceEmbedText :: "string option \<Rightarrow> string option \<Rightarrow> string" where
  "sourceEmbedText title rawText =
     (let parts = present_text title @ map (\<lambda>text. if length text > 2048 then take 2048 text else text) (present_text rawText)
      in if parts = [] then ''(no content)'' else join [CHR 0x0A] parts)"

definition statementEmbedText :: "string \<Rightarrow> string \<Rightarrow> string \<Rightarrow> string" where
  "statementEmbedText subject property val =
     (let parts = filter (\<lambda>s. s \<noteq> []) (map trim_space [subject, property, val])
      in if parts = [] then ''(empty statement)'' else join '' '' parts)"

subsection \<open>Rows of one table\<close>

text \<open>The shape the three tables share: the rows still without an embedding, oldest first, and the
  update \<open>SET embedding = $1 WHERE id = $2 AND embedding IS NULL\<close> for one row and for a batch.\<close>

definition unembedded :: "('r \<Rightarrow> uuid) \<Rightarrow> ('r \<Rightarrow> rat list option) \<Rightarrow> ('r \<Rightarrow> int) \<Rightarrow> uuid \<Rightarrow> 'r list \<Rightarrow> 'r list" where
  "unembedded tenant_of emb created t rows = order_by created (filter (\<lambda>r. emb r = None) (rls tenant_of t rows))"

definition write_embedding ::
    "('r \<Rightarrow> uuid) \<Rightarrow> ('r \<Rightarrow> uuid) \<Rightarrow> ('r \<Rightarrow> rat list option) \<Rightarrow> (rat list \<Rightarrow> 'r \<Rightarrow> 'r) \<Rightarrow> uuid
       \<Rightarrow> uuid \<times> rat list \<Rightarrow> 'r list \<Rightarrow> 'r list" where
  "write_embedding tenant_of key emb set_emb t = (\<lambda>(i, v) rows.
     update_rows tenant_of t (\<lambda>r. key r = i \<and> emb r = None) (set_emb v) rows)"

definition write_embeddings ::
    "('r \<Rightarrow> uuid) \<Rightarrow> ('r \<Rightarrow> uuid) \<Rightarrow> ('r \<Rightarrow> rat list option) \<Rightarrow> (rat list \<Rightarrow> 'r \<Rightarrow> 'r) \<Rightarrow> uuid
       \<Rightarrow> (uuid \<times> rat list) list \<Rightarrow> 'r list \<Rightarrow> 'r list" where
  "write_embeddings tenant_of key emb set_emb t ws rows = fold (write_embedding tenant_of key emb set_emb t) ws rows"

definition expectedEmbedDim :: nat where
  "expectedEmbedDim = 1024"

definition checkVectorDims :: "rat list list \<Rightarrow> unit result" where
  "checkVectorDims vecs =
     (if list_ex (\<lambda>v. length v \<noteq> expectedEmbedDim) vecs then Err ''embed: vector has the wrong dimension'' else Ok ())"

text \<open>The middle of each \<open>populate\<close> function: the vectors for the pending texts, checked.\<close>

definition batch_vectors :: "Client \<Rightarrow> string list \<Rightarrow> rat list list result" where
  "batch_vectors c texts =
     rbind (Embed c texts) (\<lambda>vecs.
       if length vecs \<noteq> length texts then Err ''embed: wrong number of vectors''
       else rbind (checkVectorDims vecs) (\<lambda>_. Ok vecs))"

text \<open>The common course of the three functions below, for the proofs: pending rows, their texts, the
  vectors, the update.\<close>

definition populate_rows ::
    "Client \<Rightarrow> 'r list \<Rightarrow> ('r list \<Rightarrow> rat list list \<Rightarrow> 'r list) \<Rightarrow> ('r \<Rightarrow> string) \<Rightarrow> int \<Rightarrow> 'r list \<Rightarrow> (nat \<times> 'r list) result" where
  "populate_rows c candidates upd label lmt rows =
     (let pending = limit_rows lmt candidates
      in if pending = [] then Ok (0, rows)
         else rbind (batch_vectors c (map label pending)) (\<lambda>vecs. Ok (length pending, upd pending vecs)))"

subsection \<open>The three tables\<close>

definition fetchEntityRows :: "uuid \<Rightarrow> int \<Rightarrow> db \<Rightarrow> (uuid \<times> string) list" where
  "fetchEntityRows t lmt d = map (\<lambda>e. (en_id e, entityEmbedText (en_label e) (en_description e)))
     (limit_rows lmt (unembedded en_tenant en_embedding en_created t (entities d)))"

definition populateEntities :: "Client \<Rightarrow> uuid \<Rightarrow> int \<Rightarrow> db \<Rightarrow> (nat \<times> db) result" where
  "populateEntities c t lmt d =
     (let pending = fetchEntityRows t lmt d
      in if pending = [] then Ok (0, d)
         else rbind (batch_vectors c (map snd pending)) (\<lambda>vecs.
           Ok (length pending, d\<lparr>entities := write_embeddings en_tenant en_id en_embedding
                (\<lambda>v e. e\<lparr>en_embedding := Some v\<rparr>) t (zip (map fst pending) vecs) (entities d)\<rparr>)))"

definition fetchSourceRows :: "uuid \<Rightarrow> int \<Rightarrow> db \<Rightarrow> (uuid \<times> string) list" where
  "fetchSourceRows t lmt d = map (\<lambda>s. (so_id s, sourceEmbedText (so_title s) (so_raw_text s)))
     (limit_rows lmt (unembedded so_tenant so_embedding so_created t (sources d)))"

definition populateSources :: "Client \<Rightarrow> uuid \<Rightarrow> int \<Rightarrow> db \<Rightarrow> (nat \<times> db) result" where
  "populateSources c t lmt d =
     (let pending = fetchSourceRows t lmt d
      in if pending = [] then Ok (0, d)
         else rbind (batch_vectors c (map snd pending)) (\<lambda>vecs.
           Ok (length pending, d\<lparr>sources := write_embeddings so_tenant so_id so_embedding
                (\<lambda>v s. s\<lparr>so_embedding := Some v\<rparr>) t (zip (map fst pending) vecs) (sources d)\<rparr>)))"

text \<open>The left joins: identifiers are unique, so each finds one row or none; \<open>COALESCE\<close> to the empty text.\<close>

definition subject_label :: "uuid \<Rightarrow> db \<Rightarrow> statement_row \<Rightarrow> string" where
  "subject_label t d s = (case filter (\<lambda>e. en_id e = st_subject s) (rls en_tenant t (entities d)) of
     [] \<Rightarrow> [] | e # _ \<Rightarrow> en_label e)"

definition property_slug :: "uuid \<Rightarrow> db \<Rightarrow> statement_row \<Rightarrow> string" where
  "property_slug t d s = (case filter (\<lambda>p. pp_id p = st_property s) (rls_properties t (properties d)) of
     [] \<Rightarrow> [] | p # _ \<Rightarrow> pp_slug p)"

definition fetchStatementRows :: "uuid \<Rightarrow> int \<Rightarrow> db \<Rightarrow> (uuid \<times> string) list" where
  "fetchStatementRows t lmt d = map (\<lambda>s. (st_id s, statementEmbedText (subject_label t d s) (property_slug t d s)
       (case st_val_text s of None \<Rightarrow> [] | Some x \<Rightarrow> x)))
     (limit_rows lmt (unembedded st_tenant st_embedding st_created t (statements d)))"

definition populateStatements :: "Client \<Rightarrow> uuid \<Rightarrow> int \<Rightarrow> db \<Rightarrow> (nat \<times> db) result" where
  "populateStatements c t lmt d =
     (let pending = fetchStatementRows t lmt d
      in if pending = [] then Ok (0, d)
         else rbind (batch_vectors c (map snd pending)) (\<lambda>vecs.
           Ok (length pending, d\<lparr>statements := write_embeddings st_tenant st_id st_embedding
                (\<lambda>v s. s\<lparr>st_embedding := Some v\<rparr>) t (zip (map fst pending) vecs) (statements d)\<rparr>)))"

subsection \<open>A run\<close>

record EmbedResult =
  Populated :: nat
  Skipped :: nat

text \<open>\<open>EmbedWorker.RunOnce\<close>: the tables commit one by one, and an error keeps what the tables before it
  have written. The result is the total so far and the error, if any.\<close>

definition Embed_RunOnce :: "Client \<Rightarrow> pg_env \<Rightarrow> string \<Rightarrow> int \<Rightarrow> db \<Rightarrow> db \<times> EmbedResult \<times> string option" where
  "Embed_RunOnce c pg tenantID opt_limit d =
     (let total = (\<lambda>n. \<lparr>Populated = n, Skipped = 0\<rparr>);
          lmt = (if opt_limit \<le> 0 then 100 else opt_limit)
      in if tenantID = [] then (d, total 0, Some ''embed worker: tenant id required'')
         else (case scan_uuid pg tenantID of
            None \<Rightarrow> (d, total 0, Some ''embed worker: invalid tenant id'')
          | Some t \<Rightarrow>
            (case populateEntities c t lmt d of
               Inl e \<Rightarrow> (d, total 0, Some (''embed worker: entities: '' @ e))
             | Inr (n1, d1) \<Rightarrow>
               (case populateSources c t lmt d1 of
                  Inl e \<Rightarrow> (d1, total n1, Some (''embed worker: sources: '' @ e))
                | Inr (n2, d2) \<Rightarrow>
                  (case populateStatements c t lmt d2 of
                     Inl e \<Rightarrow> (d2, total (n1 + n2), Some (''embed worker: statements: '' @ e))
                   | Inr (n3, d3) \<Rightarrow> (d3, total (n1 + n2 + n3), None))))))"

subsection \<open>The contract of an embedded table\<close>

locale embedded_table =
  fixes tenant_of :: "'r \<Rightarrow> uuid" and key :: "'r \<Rightarrow> uuid" and emb :: "'r \<Rightarrow> rat list option"
    and set_emb :: "rat list \<Rightarrow> 'r \<Rightarrow> 'r" and created :: "'r \<Rightarrow> int"
  assumes emb_set: "emb (set_emb v r) = Some v"
    and tenant_set: "tenant_of (set_emb v r) = tenant_of r"
    and key_set: "key (set_emb v r) = key r"
begin

lemma write_embeddings_eq:
  "write_embeddings tenant_of key emb set_emb t ws rows = map (\<lambda>r. if tenant_of r = t \<and> emb r = None
     then (case map_of ws (key r) of None \<Rightarrow> r | Some v \<Rightarrow> set_emb v r) else r) rows"
proof (induction ws arbitrary: rows)
  case Nil
  then show ?case by (simp add: write_embeddings_def map_idI)
next
  case (Cons w ws)
  obtain i v where w: "w = (i, v)" by (cases w)
  have "write_embeddings tenant_of key emb set_emb t (w # ws) rows
      = write_embeddings tenant_of key emb set_emb t ws (write_embedding tenant_of key emb set_emb t w rows)"
    by (simp add: write_embeddings_def)
  then show ?case
    unfolding Cons.IH by (auto simp: w write_embedding_def update_rows_def emb_set key_set tenant_set)
qed

lemma write_embeddings_other:
  "t' \<noteq> t \<Longrightarrow> rls tenant_of t' (write_embeddings tenant_of key emb set_emb t ws rows) = rls tenant_of t' rows"
  unfolding write_embeddings_eq by (induction rows) (auto simp: tenant_set split: option.split)

text \<open>A batch of the oldest rows, written: what is still without an embedding are the other rows.\<close>

lemma batch_progress:
  assumes keys: "distinct (map key rows)" and n: "length vecs = length (take n (unembedded tenant_of emb created t rows))"
  shows "unembedded tenant_of emb created t
      (write_embeddings tenant_of key emb set_emb t (zip (map key (take n (unembedded tenant_of emb created t rows))) vecs) rows)
    = drop n (unembedded tenant_of emb created t rows)"
proof -
  let ?U = "unembedded tenant_of emb created t rows"
  let ?ws = "zip (map key (take n ?U)) vecs"
  have U: "?U = order_by created (filter (\<lambda>r. emb r = None) (rls tenant_of t rows))" by (simp add: unembedded_def)
  have inj: "inj_on key (set rows)" and "distinct rows" using keys by (simp_all add: distinct_map)
  then have dU: "distinct ?U" by (simp add: U order_by_def rls_def)
  have dom: "dom (map_of ?ws) = key ` set (take n ?U)" using n by (simp add: dom_map_of_conv_image_fst flip: set_map)
  have hit: "map_of ?ws (key r) = None \<longleftrightarrow> r \<notin> set (take n ?U)" if "r \<in> set rows" for r
  proof -
    have "set (take n ?U) \<subseteq> set rows" using set_take_subset [of n ?U] by (auto simp: U)
    then have "key r \<in> key ` set (take n ?U) \<longleftrightarrow> r \<in> set (take n ?U)" using inj that by (auto dest: inj_onD)
    then show ?thesis using dom by blast
  qed
  have "filter (\<lambda>r. emb r = None) (rls tenant_of t (map (\<lambda>r. if tenant_of r = t \<and> emb r = None
        then (case map_of ws (key r) of None \<Rightarrow> r | Some v \<Rightarrow> set_emb v r) else r) rs))
      = filter (\<lambda>r. emb r = None \<and> map_of ws (key r) = None) (rls tenant_of t rs)" for ws rs
    by (induction rs) (auto simp: tenant_set emb_set split: option.split)
  then have "unembedded tenant_of emb created t (write_embeddings tenant_of key emb set_emb t ?ws rows)
      = order_by created (filter (\<lambda>r. emb r = None \<and> map_of ?ws (key r) = None) (rls tenant_of t rows))"
    by (simp only: unembedded_def write_embeddings_eq)
  also have "\<dots> = drop n ?U"
    by (rule sorted_filter_rest [OF U dU]) (simp add: hit)
  finally show ?thesis .
qed

end

interpretation entity_table: embedded_table en_tenant en_id en_embedding "\<lambda>v e. e\<lparr>en_embedding := Some v\<rparr>" en_created
  by unfold_locales simp_all

interpretation source_table: embedded_table so_tenant so_id so_embedding "\<lambda>v s. s\<lparr>so_embedding := Some v\<rparr>" so_created
  by unfold_locales simp_all

interpretation statement_table: embedded_table st_tenant st_id st_embedding "\<lambda>v s. s\<lparr>st_embedding := Some v\<rparr>" st_created
  by unfold_locales simp_all

subsection \<open>What a run does\<close>

text \<open>Rows that gained an embedding of the expected dimension where they had none, and are otherwise as before.\<close>

definition filled :: "('r \<Rightarrow> uuid) \<Rightarrow> ('r \<Rightarrow> rat list option) \<Rightarrow> (rat list \<Rightarrow> 'r \<Rightarrow> 'r) \<Rightarrow> uuid \<Rightarrow> 'r list \<Rightarrow> 'r list \<Rightarrow> bool" where
  "filled tenant_of emb set_emb t rows rows' \<longleftrightarrow>
     list_all2 (\<lambda>r r'. r' = r \<or> (tenant_of r = t \<and> emb r = None \<and> (\<exists>v. length v = expectedEmbedDim \<and> r' = set_emb v r))) rows rows'"

lemma filled_refl [simp]: "filled tenant_of emb set_emb t rows rows"
  by (simp add: filled_def list_all2_conv_all_nth)

lemma batch_vectors_ok:
  "batch_vectors c texts = Inr vecs \<Longrightarrow> length vecs = length texts \<and> (\<forall>v \<in> set vecs. length v = expectedEmbedDim)"
  by (auto simp: batch_vectors_def rbind_Inr_iff checkVectorDims_def list_ex_iff split: if_splits)

context embedded_table
begin

lemma write_embeddings_filled:
  assumes "\<forall>v \<in> set vecs. length v = expectedEmbedDim"
  shows "filled tenant_of emb set_emb t rows (write_embeddings tenant_of key emb set_emb t (zip ks vecs) rows)"
proof -
  have "length v = expectedEmbedDim" if "map_of (zip ks vecs) k = Some v" for k v
    using map_of_SomeD [OF that] assms by (auto dest: set_zip_rightD)
  then show ?thesis
    unfolding filled_def write_embeddings_eq by (auto simp: list_all2_conv_all_nth split: option.split)
qed

text \<open>One table in one pass, as each of the three \<open>populate\<close> functions goes through it.\<close>

lemma populate_rows_ok:
  assumes "populate_rows c (unembedded tenant_of emb created t rows)
      (\<lambda>pending vecs. write_embeddings tenant_of key emb set_emb t (zip (map key pending) vecs) rows) label lmt rows = Inr (n, rows')"
  shows "filled tenant_of emb set_emb t rows rows'"
    and "n = min (nat lmt) (length (unembedded tenant_of emb created t rows))"
    and "distinct (map key rows) \<Longrightarrow> unembedded tenant_of emb created t rows' = drop (nat lmt) (unembedded tenant_of emb created t rows)"
proof -
  let ?U = "unembedded tenant_of emb created t rows"
  have "filled tenant_of emb set_emb t rows rows' \<and> n = min (nat lmt) (length ?U)
      \<and> (distinct (map key rows) \<longrightarrow> unembedded tenant_of emb created t rows' = drop (nat lmt) ?U)"
  proof (cases "take (nat lmt) ?U = []")
    case True
    then have "drop (nat lmt) ?U = ?U" "min (nat lmt) (length ?U) = 0" by auto
    with True assms show ?thesis by (simp add: populate_rows_def limit_rows_def Let_def)
  next
    case False
    with assms obtain vecs where v: "batch_vectors c (map label (take (nat lmt) ?U)) = Inr vecs"
      "rows' = write_embeddings tenant_of key emb set_emb t (zip (map key (take (nat lmt) ?U)) vecs) rows"
      "n = length (take (nat lmt) ?U)"
      by (auto simp: populate_rows_def limit_rows_def rbind_Inr_iff Let_def)
    from batch_vectors_ok [OF v(1)] have len: "length vecs = length (take (nat lmt) ?U)"
      and dim: "\<forall>v \<in> set vecs. length v = expectedEmbedDim" by simp_all
    from write_embeddings_filled [OF dim] batch_progress [OF _ len] v(2,3) show ?thesis by simp
  qed
  then show "filled tenant_of emb set_emb t rows rows'" "n = min (nat lmt) (length ?U)"
    "distinct (map key rows) \<Longrightarrow> unembedded tenant_of emb created t rows' = drop (nat lmt) ?U" by blast+
qed

end

lemmas populate_defs = populate_rows_def populateEntities_def populateSources_def populateStatements_def
  fetchEntityRows_def fetchSourceRows_def fetchStatementRows_def Let_def o_def

lemma populateEntities_ok:
  assumes "populateEntities c t lmt d = Inr (n, d')"
  shows "\<exists>rows. d' = d\<lparr>entities := rows\<rparr> \<and> filled en_tenant en_embedding (\<lambda>v e. e\<lparr>en_embedding := Some v\<rparr>) t (entities d) rows
      \<and> n = min (nat lmt) (length (unembedded en_tenant en_embedding en_created t (entities d)))
      \<and> (distinct (map en_id (entities d)) \<longrightarrow> unembedded en_tenant en_embedding en_created t rows
           = drop (nat lmt) (unembedded en_tenant en_embedding en_created t (entities d)))"
proof -
  let ?run = "populate_rows c (unembedded en_tenant en_embedding en_created t (entities d))
      (\<lambda>pending vecs. write_embeddings en_tenant en_id en_embedding (\<lambda>v e. e\<lparr>en_embedding := Some v\<rparr>) t
         (zip (map en_id pending) vecs) (entities d)) (\<lambda>e. entityEmbedText (en_label e) (en_description e)) lmt (entities d)"
  have "populateEntities c t lmt d = rbind ?run (\<lambda>(n, rows). Inr (n, d\<lparr>entities := rows\<rparr>))"
    by (simp add: populate_defs rbind_def split: sum.split)
  with assms obtain rows where r: "?run = Inr (n, rows)" "d' = d\<lparr>entities := rows\<rparr>" by (auto simp: rbind_Inr_iff)
  from entity_table.populate_rows_ok [OF r(1)] r(2) show ?thesis by blast
qed

lemma populateSources_ok:
  assumes "populateSources c t lmt d = Inr (n, d')"
  shows "\<exists>rows. d' = d\<lparr>sources := rows\<rparr> \<and> filled so_tenant so_embedding (\<lambda>v s. s\<lparr>so_embedding := Some v\<rparr>) t (sources d) rows
      \<and> n = min (nat lmt) (length (unembedded so_tenant so_embedding so_created t (sources d)))
      \<and> (distinct (map so_id (sources d)) \<longrightarrow> unembedded so_tenant so_embedding so_created t rows
           = drop (nat lmt) (unembedded so_tenant so_embedding so_created t (sources d)))"
proof -
  let ?run = "populate_rows c (unembedded so_tenant so_embedding so_created t (sources d))
      (\<lambda>pending vecs. write_embeddings so_tenant so_id so_embedding (\<lambda>v s. s\<lparr>so_embedding := Some v\<rparr>) t
         (zip (map so_id pending) vecs) (sources d)) (\<lambda>s. sourceEmbedText (so_title s) (so_raw_text s)) lmt (sources d)"
  have "populateSources c t lmt d = rbind ?run (\<lambda>(n, rows). Inr (n, d\<lparr>sources := rows\<rparr>))"
    by (simp add: populate_defs rbind_def split: sum.split)
  with assms obtain rows where r: "?run = Inr (n, rows)" "d' = d\<lparr>sources := rows\<rparr>" by (auto simp: rbind_Inr_iff)
  from source_table.populate_rows_ok [OF r(1)] r(2) show ?thesis by blast
qed

lemma populateStatements_ok:
  assumes "populateStatements c t lmt d = Inr (n, d')"
  shows "\<exists>rows. d' = d\<lparr>statements := rows\<rparr> \<and> filled st_tenant st_embedding (\<lambda>v s. s\<lparr>st_embedding := Some v\<rparr>) t (statements d) rows
      \<and> n = min (nat lmt) (length (unembedded st_tenant st_embedding st_created t (statements d)))
      \<and> (distinct (map st_id (statements d)) \<longrightarrow> unembedded st_tenant st_embedding st_created t rows
           = drop (nat lmt) (unembedded st_tenant st_embedding st_created t (statements d)))"
proof -
  let ?run = "populate_rows c (unembedded st_tenant st_embedding st_created t (statements d))
      (\<lambda>pending vecs. write_embeddings st_tenant st_id st_embedding (\<lambda>v s. s\<lparr>st_embedding := Some v\<rparr>) t
         (zip (map st_id pending) vecs) (statements d))
      (\<lambda>s. statementEmbedText (subject_label t d s) (property_slug t d s) (case st_val_text s of None \<Rightarrow> [] | Some x \<Rightarrow> x))
      lmt (statements d)"
  have "populateStatements c t lmt d = rbind ?run (\<lambda>(n, rows). Inr (n, d\<lparr>statements := rows\<rparr>))"
    by (simp add: populate_defs rbind_def split: sum.split)
  with assms obtain rows where r: "?run = Inr (n, rows)" "d' = d\<lparr>statements := rows\<rparr>" by (auto simp: rbind_Inr_iff)
  from statement_table.populate_rows_ok [OF r(1)] r(2) show ?thesis by blast
qed

text \<open>The states a run passes through.\<close>

lemma Embed_RunOnce_stages:
  assumes "Embed_RunOnce c pg tenantID opt_limit d = (d', res, err)" and t: "scan_uuid pg tenantID = Some t" "tenantID \<noteq> []"
  defines "lmt \<equiv> (if opt_limit \<le> 0 then 100 else opt_limit)"
  obtains "d' = d" "Populated res = 0" "err \<noteq> None"
    | n1 where "populateEntities c t lmt d = Inr (n1, d')" "Populated res = n1" "err \<noteq> None"
    | n1 d1 n2 where "populateEntities c t lmt d = Inr (n1, d1)" "populateSources c t lmt d1 = Inr (n2, d')"
        "Populated res = n1 + n2" "err \<noteq> None"
    | n1 d1 n2 d2 n3 where "populateEntities c t lmt d = Inr (n1, d1)" "populateSources c t lmt d1 = Inr (n2, d2)"
        "populateStatements c t lmt d2 = Inr (n3, d')" "Populated res = n1 + n2 + n3" "err = None"
  using assms(1) t unfolding Embed_RunOnce_def lmt_def Let_def
  by (auto split: sum.splits prod.splits)

definition embeddings_filled :: "uuid \<Rightarrow> db \<Rightarrow> db \<Rightarrow> bool" where
  "embeddings_filled t d d' \<longleftrightarrow> (\<exists>es ss sts. d' = d\<lparr>entities := es, statements := sts, sources := ss\<rparr>
     \<and> filled en_tenant en_embedding (\<lambda>v e. e\<lparr>en_embedding := Some v\<rparr>) t (entities d) es
     \<and> filled so_tenant so_embedding (\<lambda>v s. s\<lparr>so_embedding := Some v\<rparr>) t (sources d) ss
     \<and> filled st_tenant st_embedding (\<lambda>v s. s\<lparr>st_embedding := Some v\<rparr>) t (statements d) sts)"

lemma embed_fills:
  assumes "Embed_RunOnce c pg tenantID opt_limit d = (d', res, err)" and "scan_uuid pg tenantID = Some t" "tenantID \<noteq> []"
  shows "embeddings_filled t d d'"
  using assms
proof (cases rule: Embed_RunOnce_stages)
  case 1
  then show ?thesis unfolding embeddings_filled_def
    by (intro exI [of _ "entities d"] exI [of _ "sources d"] exI [of _ "statements d"]) simp
next
  case (2 n1)
  from populateEntities_ok [OF 2(1)] obtain es where "d' = d\<lparr>entities := es\<rparr>"
    "filled en_tenant en_embedding (\<lambda>v e. e\<lparr>en_embedding := Some v\<rparr>) t (entities d) es" by blast
  then show ?thesis unfolding embeddings_filled_def
    by (intro exI [of _ es] exI [of _ "sources d"] exI [of _ "statements d"]) simp
next
  case (3 n1 d1 n2)
  from populateEntities_ok [OF 3(1)] obtain es where 1: "d1 = d\<lparr>entities := es\<rparr>"
    "filled en_tenant en_embedding (\<lambda>v e. e\<lparr>en_embedding := Some v\<rparr>) t (entities d) es" by blast
  from populateSources_ok [OF 3(2)] 1 obtain ss where "d' = d1\<lparr>sources := ss\<rparr>"
    "filled so_tenant so_embedding (\<lambda>v s. s\<lparr>so_embedding := Some v\<rparr>) t (sources d) ss" by auto
  with 1 show ?thesis unfolding embeddings_filled_def
    by (intro exI [of _ es] exI [of _ ss] exI [of _ "statements d"]) simp
next
  case (4 n1 d1 n2 d2 n3)
  from populateEntities_ok [OF 4(1)] obtain es where 1: "d1 = d\<lparr>entities := es\<rparr>"
    "filled en_tenant en_embedding (\<lambda>v e. e\<lparr>en_embedding := Some v\<rparr>) t (entities d) es" by blast
  from populateSources_ok [OF 4(2)] 1 obtain ss where 2: "d2 = d1\<lparr>sources := ss\<rparr>"
    "filled so_tenant so_embedding (\<lambda>v s. s\<lparr>so_embedding := Some v\<rparr>) t (sources d) ss" by auto
  from populateStatements_ok [OF 4(3)] 1 2 obtain sts where "d' = d2\<lparr>statements := sts\<rparr>"
    "filled st_tenant st_embedding (\<lambda>v s. s\<lparr>st_embedding := Some v\<rparr>) t (statements d) sts" by auto
  with 1 2 show ?thesis unfolding embeddings_filled_def
    by (intro exI [of _ es] exI [of _ ss] exI [of _ sts]) simp
qed

text \<open>C23. Embedding only ever fills gaps: after any run, successful or cut short by an error in any table,
  every row of the three tables is as before, except rows of the tenant that had no embedding and now
  have one of exactly 1024 numbers; no other table has changed.\<close>

theorem embed_run_only_fills:
  assumes "Embed_RunOnce c pg tenantID opt_limit d = (d', res, err)" and "scan_uuid pg tenantID = Some t" "tenantID \<noteq> []"
  shows "embeddings_filled t d d'"
  using assms by (rule embed_fills)

definition sample_client :: Client where
  "sample_client = \<lparr>baseURL = ''http://e'', http_post = (\<lambda>_ body. Ok (200, body)),
     json_request = (\<lambda>texts. Ok (map (\<lambda>_. CHR ''v'') texts)),
     json_vectors = (\<lambda>resp. Ok (map (\<lambda>_. replicate expectedEmbedDim 1) resp)), float32 = (\<lambda>x. x)\<rparr>"

definition bare_entity :: "uuid \<Rightarrow> entity_row" where
  "bare_entity i = \<lparr>en_id = i, en_tenant = 1, en_ext_id = None, en_label = ''a'', en_type_uri = None,
     en_description = None, en_embedding = None, en_meta = ''{}'', en_created = int i, en_updated = 0\<rparr>"

definition bare_db :: db where
  "bare_db = empty_db\<lparr>entities := [bare_entity 2, bare_entity 3]\<rparr>"

lemma sample_batch: "batch_vectors sample_client (x # xs) = Inr (replicate (length (x # xs)) (replicate expectedEmbedDim 1))"
  by (simp add: batch_vectors_def Embed_def sample_client_def checkVectorDims_def list_ex_iff
      map_replicate_const flip: replicate_Suc)

lemma bare_run:
  "\<exists>d'. Embed_RunOnce sample_client sample_pg ''t'' 1 bare_db = (d', \<lparr>Populated = 1, Skipped = 0\<rparr>, None)"
proof -
  have t: "scan_uuid sample_pg ''t'' = Some 1" by (simp add: sample_pg_def)
  have f: "fetchEntityRows 1 1 bare_db = [(2, ''a'')]" by code_simp
  have "\<exists>es. populateEntities sample_client 1 1 bare_db = Inr (1, bare_db\<lparr>entities := es\<rparr>)"
    unfolding populateEntities_def f Let_def by (intro exI) (simp add: sample_batch)
  then obtain es where e: "populateEntities sample_client 1 1 bare_db = Inr (1, bare_db\<lparr>entities := es\<rparr>)" by blast
  have s: "populateSources sample_client 1 1 (bare_db\<lparr>entities := es\<rparr>) = Inr (0, bare_db\<lparr>entities := es\<rparr>)"
    by (simp add: populateSources_def fetchSourceRows_def unembedded_def limit_rows_def order_by_def bare_db_def empty_db_def)
  have st: "populateStatements sample_client 1 1 (bare_db\<lparr>entities := es\<rparr>) = Inr (0, bare_db\<lparr>entities := es\<rparr>)"
    by (simp add: populateStatements_def fetchStatementRows_def unembedded_def limit_rows_def order_by_def bare_db_def empty_db_def)
  have "Embed_RunOnce sample_client sample_pg ''t'' 1 bare_db = (bare_db\<lparr>entities := es\<rparr>, \<lparr>Populated = 1, Skipped = 0\<rparr>, None)"
    unfolding Embed_RunOnce_def t Let_def option.case using e s st by simp
  then show ?thesis by blast
qed

theorem embed_run_only_fills_witness:
  "\<exists>d' res err. Embed_RunOnce sample_client sample_pg ''t'' 1 bare_db = (d', res, err) \<and> embeddings_filled 1 bare_db d'"
proof -
  have t: "scan_uuid sample_pg ''t'' = Some 1" by (simp add: sample_pg_def)
  obtain d' res err where r: "Embed_RunOnce sample_client sample_pg ''t'' 1 bare_db = (d', res, err)"
    by (cases "Embed_RunOnce sample_client sample_pg ''t'' 1 bare_db") auto
  from embed_run_only_fills [OF r t] r show ?thesis by blast
qed

text \<open>C24. A complete run makes progress in every table: of the rows without an embedding, oldest first,
  exactly the first \<open>limit\<close> (100 if none is given) gain one, the others stay in order, and
  \<open>Populated\<close> is the number of rows that gained one. Repeated runs therefore fill every row.\<close>

theorem embed_run_progress:
  assumes run: "Embed_RunOnce c pg tenantID opt_limit d = (d', res, None)" and t: "scan_uuid pg tenantID = Some t" "tenantID \<noteq> []"
    and keys: "distinct (map en_id (entities d))" "distinct (map so_id (sources d))" "distinct (map st_id (statements d))"
    and n: "n = (if opt_limit \<le> 0 then 100 else nat opt_limit)"
  shows "unembedded en_tenant en_embedding en_created t (entities d')
           = drop n (unembedded en_tenant en_embedding en_created t (entities d))
    \<and> unembedded so_tenant so_embedding so_created t (sources d')
           = drop n (unembedded so_tenant so_embedding so_created t (sources d))
    \<and> unembedded st_tenant st_embedding st_created t (statements d')
           = drop n (unembedded st_tenant st_embedding st_created t (statements d))
    \<and> Populated res = min n (length (unembedded en_tenant en_embedding en_created t (entities d)))
        + min n (length (unembedded so_tenant so_embedding so_created t (sources d)))
        + min n (length (unembedded st_tenant st_embedding st_created t (statements d)))"
  using run t
proof (cases rule: Embed_RunOnce_stages)
  case (4 n1 d1 n2 d2 n3)
  have l: "nat (if opt_limit \<le> 0 then 100 else opt_limit) = n" by (simp add: n)
  from populateEntities_ok [OF 4(1), unfolded l] keys obtain es where 1: "d1 = d\<lparr>entities := es\<rparr>"
    "n1 = min n (length (unembedded en_tenant en_embedding en_created t (entities d)))"
    "unembedded en_tenant en_embedding en_created t es = drop n (unembedded en_tenant en_embedding en_created t (entities d))"
    by blast
  from populateSources_ok [OF 4(2), unfolded l] keys 1(1) obtain ss where 2: "d2 = d1\<lparr>sources := ss\<rparr>"
    "n2 = min n (length (unembedded so_tenant so_embedding so_created t (sources d)))"
    "unembedded so_tenant so_embedding so_created t ss = drop n (unembedded so_tenant so_embedding so_created t (sources d))"
    by auto
  from populateStatements_ok [OF 4(3), unfolded l] keys 1(1) 2(1) obtain sts where 3: "d' = d2\<lparr>statements := sts\<rparr>"
    "n3 = min n (length (unembedded st_tenant st_embedding st_created t (statements d)))"
    "unembedded st_tenant st_embedding st_created t sts = drop n (unembedded st_tenant st_embedding st_created t (statements d))"
    by auto
  show ?thesis using 1 2 3 4(4) by simp
qed simp_all

theorem embed_run_progress_witness:
  "\<exists>d'. Embed_RunOnce sample_client sample_pg ''t'' 1 bare_db = (d', \<lparr>Populated = 1, Skipped = 0\<rparr>, None)
     \<and> unembedded en_tenant en_embedding en_created 1 (entities d') = [bare_entity 3]"
proof -
  obtain d' where r: "Embed_RunOnce sample_client sample_pg ''t'' 1 bare_db = (d', \<lparr>Populated = 1, Skipped = 0\<rparr>, None)"
    using bare_run by blast
  have t: "scan_uuid sample_pg ''t'' = Some 1" by (simp add: sample_pg_def)
  have k: "distinct (map en_id (entities bare_db))" "distinct (map so_id (sources bare_db))" "distinct (map st_id (statements bare_db))"
    by (simp_all add: bare_db_def empty_db_def bare_entity_def)
  have "drop 1 (unembedded en_tenant en_embedding en_created 1 (entities bare_db)) = [bare_entity 3]"
    by (simp add: unembedded_def bare_db_def order_by_def bare_entity_def)
  with embed_run_progress [OF r t _ k, of 1] r show ?thesis by auto
qed

subsection \<open>Bounds of the texts\<close>

lemma length_trim_space: "length (trim_space s) \<le> length s"
proof -
  have split_while: "length (concat (dropWhile p xs)) \<le> length (concat xs)" for p and xs :: "string list"
  proof -
    have "concat xs = concat (takeWhile p xs) @ concat (dropWhile p xs)"
      by (simp only: takeWhile_dropWhile_id flip: concat_append)
    then show ?thesis by simp
  qed
  have r: "length (concat (rev xs)) = length (concat xs)" for xs :: "string list" by (induction xs) auto
  have "length (concat (trim_ends p xs)) \<le> length (concat xs)" for p and xs :: "string list"
    unfolding trim_ends_def r using split_while [of p "rev (dropWhile p xs)"] split_while [of p xs] by (simp add: r)
  from this [of space_chunk "chunks s"] show ?thesis by (simp add: trim_space_def)
qed

text \<open>The embedder is never sent an empty text for a source or a statement, and the text of a source is
  at most its title, a line break and 2048 bytes of its content.\<close>

theorem embed_text_bounds:
  "sourceEmbedText title rawText \<noteq> [] \<and> statementEmbedText subject property val \<noteq> []
   \<and> length (sourceEmbedText title rawText) \<le> (case title of None \<Rightarrow> 0 | Some x \<Rightarrow> length x) + 2049"
proof -
  have p: "present_text x = [] \<or> (\<exists>y. present_text x = [y] \<and> y \<noteq> [] \<and> length y \<le> (case x of None \<Rightarrow> 0 | Some s \<Rightarrow> length s))" for x
    using length_trim_space by (auto simp: present_text_def split: option.split)
  have "sourceEmbedText title rawText \<noteq> []"
    using p [of title] p [of rawText] by (auto simp: sourceEmbedText_def split: if_splits)
  moreover have "join '' '' parts \<noteq> []" if "parts \<noteq> []" "\<forall>w \<in> set parts. w \<noteq> []" for parts
    using that by (induction "'' ''" parts rule: join.induct) auto
  then have "statementEmbedText subject property val \<noteq> []"
    by (simp add: statementEmbedText_def Let_def)
  moreover have "length (sourceEmbedText title rawText) \<le> (case title of None \<Rightarrow> 0 | Some x \<Rightarrow> length x) + 2049"
    using p [of title] p [of rawText] by (auto simp: sourceEmbedText_def)
  ultimately show ?thesis by blast
qed

end
