(* ===== verification/Wire.thy ===== *)
theory Wire
  imports Config
begin

text \<open>
  The encodings of the standard library that tokens and requests travel in: \<open>strconv.FormatInt\<close>,
  \<open>base64.RawURLEncoding\<close> and \<open>encoding/json\<close>, with the rules of Go's implementations: base64 skips
  line breaks and ignores trailing bits; a JSON string is decoded with replacement of invalid UTF-8
  and of lone surrogates, nesting is bounded, object keys match struct fields without regard to
  case, \<open>null\<close> leaves a field as it is, and a repeated array is decoded over the elements of the
  one before. Numbers keep their literal text.
\<close>

subsection \<open>Integers in decimal\<close>

function nat_digits :: "nat \<Rightarrow> string" where
  "nat_digits n = (if n < 10 then [char_of (48 + int n)]
     else nat_digits (n div 10) @ [char_of (48 + int (n mod 10))])"
  by pat_completeness auto
termination
  by (relation "measure id") auto

declare nat_digits.simps [simp del]

definition itoa :: "int \<Rightarrow> string" where
  "itoa n = (if n < 0 then CHR ''-'' # nat_digits (nat (- n)) else nat_digits (nat n))"

definition digit_char :: "nat \<Rightarrow> char" where
  "digit_char d = char_of (48 + int d)"

lemma byte_digit_char: "d < 10 \<Longrightarrow> byte (digit_char d) = 48 + int d"
  by (simp add: digit_char_def byte_char_of)

lemma is_digit_char_digit: "d < 10 \<Longrightarrow> is_digit_char (digit_char d)"
  by (simp add: is_digit_char_def byte_digit_char)

lemma nat_digits_rec:
  "nat_digits n = (if n < 10 then [digit_char n] else nat_digits (n div 10) @ [digit_char (n mod 10)])"
  by (subst nat_digits.simps) (simp add: digit_char_def)

lemma decimal_append: "decimal m (xs @ ys) = decimal (decimal m xs) ys"
  by (induction xs arbitrary: m) simp_all

lemma decimal_nat_digits: "decimal 0 (nat_digits n) = int n"
proof (induction n rule: nat_digits.induct)
  case (1 n)
  show ?case
  proof (cases "n < 10")
    case True
    then show ?thesis by (subst nat_digits_rec) (simp add: byte_digit_char)
  next
    case False
    with "1.IH" have IH: "decimal 0 (nat_digits (n div 10)) = int (n div 10)" by simp
    have "int n = 10 * int (n div 10) + int (n mod 10)" by (simp add: zdiv_int zmod_int)
    with False show ?thesis
      by (subst nat_digits_rec) (simp add: decimal_append IH byte_digit_char)
  qed
qed

lemma nat_digits_all: "list_all is_digit_char (nat_digits n)"
proof (induction n rule: nat_digits.induct)
  case (1 n)
  then show ?case
    by (subst nat_digits_rec) (auto simp: is_digit_char_digit list_all_append)
qed

lemma nat_digits_ne: "nat_digits n \<noteq> []"
  by (subst nat_digits_rec) simp

lemma nat_digits_no_leading_zero: "0 < n \<Longrightarrow> byte (hd (nat_digits n)) \<noteq> 48"
proof (induction n rule: nat_digits.induct)
  case (1 n)
  show ?case
  proof (cases "n < 10")
    case True
    with "1.prems" show ?thesis by (subst nat_digits_rec) (simp add: byte_digit_char)
  next
    case False
    then have "0 < n div 10" by simp
    with "1.IH" False have "byte (hd (nat_digits (n div 10))) \<noteq> 48" by simp
    with False show ?thesis by (subst nat_digits_rec) (simp add: nat_digits_ne)
  qed
qed

lemma nat_digits_0: "nat_digits 0 = ''0''"
  by (subst nat_digits_rec) (simp add: digit_char_def char_of_def)

lemma digit_not_sign: "is_digit_char c \<Longrightarrow> c \<noteq> CHR ''-'' \<and> c \<noteq> CHR ''+''"
  by (auto simp: is_digit_char_def byte_def)

text \<open>Every 64-bit integer survives formatting and parsing.\<close>

lemma atoi_itoa: "min_int \<le> n \<Longrightarrow> n \<le> max_int \<Longrightarrow> atoi (itoa n) = Inr n"
proof -
  assume b: "min_int \<le> n" "n \<le> max_int"
  have hd: "is_digit_char (hd (nat_digits k))" for k
    using nat_digits_all [of k] nat_digits_ne [of k] by (cases "nat_digits k") auto
  obtain c cs where pos: "nat_digits (nat n) = c # cs" using nat_digits_ne by (cases "nat_digits (nat n)") auto
  have c: "c \<noteq> CHR ''-''" "c \<noteq> CHR ''+''" using hd [of "nat n"] pos digit_not_sign by auto
  show ?thesis
  proof (cases "n < 0")
    case True
    then show ?thesis
      using b nat_digits_ne [of "nat (- n)"] nat_digits_all [of "nat (- n)"] decimal_nat_digits [of "nat (- n)"]
      by (simp add: itoa_def atoi_def)
  next
    case False
    then show ?thesis
      using b c pos nat_digits_all [of "nat n"] decimal_nat_digits [of "nat n"]
      by (simp add: itoa_def atoi_def)
  qed
qed

subsection \<open>base64.RawURLEncoding\<close>

definition b64_alphabet :: string where
  "b64_alphabet = ''ABCDEFGHIJKLMNOPQRSTUVWXYZabcdefghijklmnopqrstuvwxyz0123456789-_''"

definition b64_char :: "int \<Rightarrow> char" where
  "b64_char d = b64_alphabet ! nat d"

definition b64_value :: "char \<Rightarrow> int option" where
  "b64_value c =
     (let n = byte c
      in if 65 \<le> n \<and> n \<le> 90 then Some (n - 65)
         else if 97 \<le> n \<and> n \<le> 122 then Some (n - 71)
         else if 48 \<le> n \<and> n \<le> 57 then Some (n + 4)
         else if n = 45 then Some 62 else if n = 95 then Some 63 else None)"

fun b64_digits :: "string \<Rightarrow> int list" where
  "b64_digits [] = []"
| "b64_digits [a] = [byte a div 4, byte a mod 4 * 16]"
| "b64_digits [a, b] = [byte a div 4, byte a mod 4 * 16 + byte b div 16, byte b mod 16 * 4]"
| "b64_digits (a # b # c # s) =
     [byte a div 4, byte a mod 4 * 16 + byte b div 16, byte b mod 16 * 4 + byte c div 64, byte c mod 64]
     @ b64_digits s"

definition EncodeToString :: "string \<Rightarrow> string" where
  "EncodeToString s = map b64_char (b64_digits s)"

fun b64_bytes :: "int list \<Rightarrow> string option" where
  "b64_bytes [] = Some []"
| "b64_bytes [a] = None"
| "b64_bytes [a, b] = Some [char_of (a * 4 + b div 16)]"
| "b64_bytes [a, b, c] = Some [char_of (a * 4 + b div 16), char_of (b mod 16 * 16 + c div 4)]"
| "b64_bytes (a # b # c # d # ds) =
     map_option (\<lambda>s. char_of (a * 4 + b div 16) # char_of (b mod 16 * 16 + c div 4)
                      # char_of (c mod 4 * 64 + d) # s) (b64_bytes ds)"

definition DecodeString :: "string \<Rightarrow> string option" where
  "DecodeString s =
     (let vs = map b64_value (filter (\<lambda>c. byte c \<noteq> 10 \<and> byte c \<noteq> 13) s)
      in if None \<in> set vs then None else b64_bytes (map the vs))"

lemma b64_char_value: "0 \<le> d \<Longrightarrow> d < 64 \<Longrightarrow> b64_value (b64_char d) = Some d
   \<and> byte (b64_char d) \<noteq> 10 \<and> byte (b64_char d) \<noteq> 13 \<and> b64_char d \<noteq> CHR ''.''"
proof -
  assume "0 \<le> d" "d < 64"
  then obtain n where d: "d = int n" "n < 64" by (metis nat_0_le nat_less_numeral_power_cancel_iff
    of_nat_less_numeral_iff)
  have "list_all (\<lambda>n. b64_value (b64_char (int n)) = Some (int n) \<and> byte (b64_char (int n)) \<noteq> 10
      \<and> byte (b64_char (int n)) \<noteq> 13 \<and> b64_char (int n) \<noteq> CHR ''.'') [0..<64]"
    by code_simp
  with d show ?thesis by (auto simp: list_all_iff)
qed

lemma b64_digits_range: "d \<in> set (b64_digits s) \<Longrightarrow> 0 \<le> d \<and> d < 64"
proof (induction s rule: b64_digits.induct)
  case (2 a)
  then show ?case using byte_bounds [of a] by auto
next
  case (3 a b)
  then show ?case using byte_bounds [of a] byte_bounds [of b] by auto
next
  case (4 a b c s)
  then show ?case using byte_bounds [of a] byte_bounds [of b] byte_bounds [of c] by auto
qed simp

lemma char_of_byte [simp]: "char_of (byte c) = c"
  by (simp add: byte_def)

lemma pack_div_mod:
  "0 \<le> q \<Longrightarrow> q < k \<Longrightarrow> (m * k + q) div k = (m :: int)"
  "0 \<le> q \<Longrightarrow> q < k \<Longrightarrow> (m * k + q) mod k = (q :: int)"
  by simp_all

lemma byte_parts:
  "0 \<le> byte a div 16" "byte a div 16 < 16" "0 \<le> byte a div 64" "byte a div 64 < 4"
  using byte_bounds [of a] by auto

lemma join_bytes:
  "byte a div 4 * 4 + (byte a mod 4 * 16 + byte b div 16) div 16 = byte a"
  "(byte a mod 4 * 16 + byte b div 16) mod 16 * 16 + (byte b mod 16 * 4 + byte c div 64) div 4 = byte b"
  "(byte b mod 16 * 4 + byte c div 64) mod 4 * 64 + byte c mod 64 = byte c"
  by (simp_all add: pack_div_mod byte_parts)

lemma join_byte_ends:
  "byte a div 4 * 4 + byte a mod 4 * 16 div 16 = byte a"
  "(byte a mod 4 * 16 + byte b div 16) mod 16 * 16 + byte b mod 16 * 4 div 4 = byte b"
  by (simp_all add: pack_div_mod byte_parts)

lemma b64_bytes_digits: "b64_bytes (b64_digits s) = Some s"
proof (induction s rule: b64_digits.induct)
  case (2 a)
  then show ?case by (simp add: join_byte_ends)
next
  case (3 a b)
  show ?case by (simp only: b64_digits.simps b64_bytes.simps join_bytes(1) join_byte_ends(2) char_of_byte)
next
  case (4 a b c s)
  then show ?case
    by (simp only: b64_digits.simps b64_bytes.simps join_bytes char_of_byte append.simps option.map)
qed simp

lemma DecodeString_EncodeToString: "DecodeString (EncodeToString s) = Some s"
proof -
  let ?ds = "b64_digits s"
  have "filter (\<lambda>c. byte c \<noteq> 10 \<and> byte c \<noteq> 13) (map b64_char ?ds) = map b64_char ?ds"
    by (rule filter_True) (use b64_digits_range b64_char_value in auto)
  moreover have "map (b64_value \<circ> b64_char) ?ds = map Some ?ds"
    by (rule map_cong) (use b64_digits_range b64_char_value in auto)
  moreover have "None \<notin> set (map Some ?ds)" by auto
  moreover have "map (the \<circ> Some) ?ds = ?ds" by simp
  ultimately show ?thesis
    by (simp only: DecodeString_def EncodeToString_def Let_def b64_bytes_digits map_map [symmetric]
        if_False)
qed

lemma EncodeToString_no_dot: "CHR ''.'' \<notin> set (EncodeToString s)"
  using b64_digits_range b64_char_value by (fastforce simp: EncodeToString_def)


subsection \<open>JSON text\<close>

datatype json = JNull | JBool bool | JNum string | JStr string | JArr "json list"
  | JObj "(string \<times> json) list"

datatype token = T_LBrace | T_RBrace | T_LBracket | T_RBracket | T_Colon | T_Comma
  | T_Str string | T_Num string | T_True | T_False | T_Null

abbreviation quote_char :: char where "quote_char \<equiv> CHR 0x22"
abbreviation backslash :: char where "backslash \<equiv> CHR 0x5C"

definition json_space :: "char \<Rightarrow> bool" where
  "json_space c \<longleftrightarrow> byte c = 32 \<or> byte c = 9 \<or> byte c = 13 \<or> byte c = 10"

definition hex_value :: "char \<Rightarrow> int option" where
  "hex_value c =
     (let n = byte c
      in if 48 \<le> n \<and> n \<le> 57 then Some (n - 48)
         else if 97 \<le> n \<and> n \<le> 102 then Some (n - 87)
         else if 65 \<le> n \<and> n \<le> 70 then Some (n - 55) else None)"

definition hex_chars :: "string \<Rightarrow> bool" where
  "hex_chars hs \<longleftrightarrow> None \<notin> hex_value ` set hs"

definition simple_escape :: "char \<Rightarrow> bool" where
  "simple_escape e \<longleftrightarrow> e \<in> {CHR ''b'', CHR ''f'', CHR ''n'', CHR ''r'', CHR ''t'', backslash, CHR ''/'', quote_char}"

text \<open>The end of a string literal, checked byte by byte (the scanner's \<open>stateInString\<close>): the text
  between the quotes, with its escapes, and what follows.\<close>

function scan_string :: "string \<Rightarrow> (string \<times> string) option" where
  "scan_string s =
     (case s of
        [] \<Rightarrow> None
      | c # s1 \<Rightarrow>
        if c = quote_char then Some ([], s1)
        else if c = backslash then
          (if has_prefix ''u'' s1 \<and> 5 \<le> length s1 \<and> hex_chars (slice 1 5 s1)
             then map_option (\<lambda>(b, r). (take 6 s @ b, r)) (scan_string (drop 6 s))
           else if s1 \<noteq> [] \<and> simple_escape (hd s1)
             then map_option (\<lambda>(b, r). (take 2 s @ b, r)) (scan_string (drop 2 s))
           else None)
        else if byte c < 32 then None
        else map_option (\<lambda>(b, r). (c # b, r)) (scan_string s1))"
  by pat_completeness auto
termination
  by (relation "measure length") auto

declare scan_string.simps [simp del]

text \<open>\<open>getu4\<close> and \<open>utf16.DecodeRune\<close>.\<close>

fun getu4 :: "string \<Rightarrow> rune option" where
  "getu4 (c # u # h1 # h2 # h3 # h4 # _) =
     (if c = backslash \<and> u = CHR ''u'' then
        (case (hex_value h1, hex_value h2, hex_value h3, hex_value h4) of
           (Some a, Some b, Some d, Some e) \<Rightarrow> Some (a * 4096 + b * 256 + d * 16 + e)
         | _ \<Rightarrow> None)
      else None)"
| "getu4 _ = None"

definition surrogate :: "rune \<Rightarrow> bool" where
  "surrogate r \<longleftrightarrow> 55296 \<le> r \<and> r < 57344"

definition surrogate_pair :: "rune \<Rightarrow> rune option \<Rightarrow> rune option" where
  "surrogate_pair r1 r2 =
     (case r2 of
        Some r2 \<Rightarrow> if 55296 \<le> r1 \<and> r1 < 56320 \<and> 56320 \<le> r2 \<and> r2 < 57344
          then Some ((r1 - 55296) * 1024 + (r2 - 56320) + 65536) else None
      | None \<Rightarrow> None)"

definition escaped_char :: "char \<Rightarrow> char" where
  "escaped_char e = (if e = CHR ''b'' then CHR 0x08 else if e = CHR ''f'' then CHR 0x0C
     else if e = CHR ''n'' then CHR 0x0A else if e = CHR ''r'' then CHR 0x0D
     else if e = CHR ''t'' then CHR 0x09 else e)"

text \<open>\<open>unquoteBytes\<close>, on the text of a scanned literal.\<close>

function unquote :: "string \<Rightarrow> string" where
  "unquote s =
     (case s of
        [] \<Rightarrow> []
      | c # s1 \<Rightarrow>
        if c = backslash then
          (case getu4 s of
             Some r \<Rightarrow>
               if surrogate r then
                 (case surrogate_pair r (getu4 (drop 6 s)) of
                    Some r' \<Rightarrow> encode_rune r' @ unquote (drop 12 s)
                  | None \<Rightarrow> encode_rune rune_error @ unquote (drop 6 s))
               else encode_rune r @ unquote (drop 6 s)
           | None \<Rightarrow> map escaped_char (take 1 s1) @ unquote (drop 1 s1))
        else encode_rune (fst (decode_rune s)) @ unquote (drop (rune_width s) s))"
  by pat_completeness auto
termination
  by (relation "measure length") (auto simp: rune_width_pos diff_less)

declare unquote.simps [simp del]

lemma unquote_Nil [simp]: "unquote [] = []"
  by (subst unquote.simps) simp

text \<open>Number literals (\<open>state1\<close>, \<open>state0\<close>, \<open>stateDot\<close>, \<open>stateE\<close> of the scanner).\<close>

definition scan_fraction :: "string \<Rightarrow> (string \<times> string) option" where
  "scan_fraction s =
     (case s of
        [] \<Rightarrow> Some ([], s)
      | c # r \<Rightarrow>
        if c = CHR ''.'' then
          (if takeWhile is_digit_char r = [] then None
           else Some (c # takeWhile is_digit_char r, dropWhile is_digit_char r))
        else Some ([], s))"

definition scan_exponent :: "string \<Rightarrow> (string \<times> string) option" where
  "scan_exponent s =
     (case s of
        [] \<Rightarrow> Some ([], s)
      | c # r \<Rightarrow>
        if c = CHR ''e'' \<or> c = CHR ''E'' then
          (let (sign, ds) = (case r of [] \<Rightarrow> ([], r)
                 | d # q \<Rightarrow> if d = CHR ''+'' \<or> d = CHR ''-'' then ([d], q) else ([], r))
           in if takeWhile is_digit_char ds = [] then None
              else Some (c # sign @ takeWhile is_digit_char ds, dropWhile is_digit_char ds))
        else Some ([], s))"

definition scan_whole :: "string \<Rightarrow> (string \<times> string) option" where
  "scan_whole s =
     (case s of
        [] \<Rightarrow> None
      | d # r \<Rightarrow> if d = CHR ''0'' then Some ([d], r)
                 else if is_digit_char d then Some (takeWhile is_digit_char s, dropWhile is_digit_char s)
                 else None)"

definition scan_sign :: "string \<Rightarrow> string \<times> string" where
  "scan_sign s = (case s of [] \<Rightarrow> ([], s) | c # r \<Rightarrow> if c = CHR ''-'' then ([c], r) else ([], s))"

definition scan_number :: "string \<Rightarrow> (string \<times> string) option" where
  "scan_number s =
     (case scan_whole (snd (scan_sign s)) of
        None \<Rightarrow> None
      | Some (w, r) \<Rightarrow>
        (case scan_fraction r of
           None \<Rightarrow> None
         | Some (f, r1) \<Rightarrow>
           (case scan_exponent r1 of
              None \<Rightarrow> None
            | Some (e, r2) \<Rightarrow> Some (fst (scan_sign s) @ w @ f @ e, r2))))"

definition skip_space :: "string \<Rightarrow> string" where
  "skip_space = dropWhile json_space"

definition next_token :: "string \<Rightarrow> (token \<times> string) option" where
  "next_token s =
     (case skip_space s of
        [] \<Rightarrow> None
      | c # r \<Rightarrow>
        if c = CHR ''{'' then Some (T_LBrace, r) else if c = CHR ''}'' then Some (T_RBrace, r)
        else if c = CHR ''['' then Some (T_LBracket, r) else if c = CHR '']'' then Some (T_RBracket, r)
        else if c = CHR '':'' then Some (T_Colon, r) else if c = CHR '','' then Some (T_Comma, r)
        else if c = quote_char then map_option (\<lambda>(b, r). (T_Str (unquote b), r)) (scan_string r)
        else if c = CHR ''t'' then (if has_prefix ''rue'' r then Some (T_True, drop 3 r) else None)
        else if c = CHR ''f'' then (if has_prefix ''alse'' r then Some (T_False, drop 4 r) else None)
        else if c = CHR ''n'' then (if has_prefix ''ull'' r then Some (T_Null, drop 3 r) else None)
        else map_option (\<lambda>(n, r). (T_Num n, r)) (scan_number (c # r)))"


lemma scan_string_shorter: "scan_string s = Some (b, r) \<Longrightarrow> length r < length s"
proof (induction s arbitrary: b rule: length_induct)
  case (1 s)
  then have IH: "length t < length s \<Longrightarrow> scan_string t = Some (b', r) \<Longrightarrow> length r < length s" for t b'
    using less_trans by blast
  show ?case
  proof (cases s)
    case Nil
    with "1.prems" show ?thesis by (simp add: scan_string.simps)
  next
    case (Cons c s1)
    have "r = s1 \<or> (\<exists>t b'. length t < length s \<and> scan_string t = Some (b', r))"
      using "1.prems" Cons by (subst (asm) scan_string.simps) (auto split: if_splits)
    with IH Cons show ?thesis by auto
  qed
qed

lemma length_dropWhile_less: "takeWhile p s \<noteq> [] \<Longrightarrow> length (dropWhile p s) < length s"
  by (metis add_less_cancel_right add_0 length_append length_greater_0_conv takeWhile_dropWhile_id)

lemma scan_fraction_le: "scan_fraction s = Some (f, r) \<Longrightarrow> length r \<le> length s"
  by (auto simp: scan_fraction_def intro: le_trans [OF length_dropWhile_le]
      split: list.splits if_splits)

lemma scan_exponent_le: "scan_exponent s = Some (f, r) \<Longrightarrow> length r \<le> length s"
  by (auto simp: scan_exponent_def intro: le_trans [OF length_dropWhile_le]
      split: list.splits if_splits)

lemma scan_whole_shorter: "scan_whole s = Some (w, r) \<Longrightarrow> length r < length s"
  by (auto simp: scan_whole_def split: list.splits if_splits intro: le_imp_less_Suc length_dropWhile_le)

lemma scan_number_shorter: "scan_number s = Some (n, r) \<Longrightarrow> length r < length s"
proof -
  assume "scan_number s = Some (n, r)"
  then obtain w r0 f r1 e where w: "scan_whole (snd (scan_sign s)) = Some (w, r0)"
    "scan_fraction r0 = Some (f, r1)" "scan_exponent r1 = Some (e, r)"
    by (auto simp: scan_number_def split: option.splits)
  have "length (snd (scan_sign s)) \<le> length s" by (simp add: scan_sign_def split: list.split)
  then show ?thesis
    using scan_whole_shorter [OF w(1)] scan_fraction_le [OF w(2)] scan_exponent_le [OF w(3)] by simp
qed

lemma next_token_shorter: "next_token s = Some (t, r) \<Longrightarrow> length r < length s"
proof -
  assume a: "next_token s = Some (t, r)"
  obtain c q where c: "skip_space s = c # q"
    using a by (cases "skip_space s") (auto simp: next_token_def)
  have "length (c # q) \<le> length s"
    unfolding c [symmetric] skip_space_def by (rule length_dropWhile_le)
  moreover have "length r < length (c # q)"
    using a scan_string_shorter [of q] scan_number_shorter [of "c # q"]
    by (auto simp: next_token_def c split: if_splits)
  ultimately show ?thesis by simp
qed

subsection \<open>Parsing\<close>

text \<open>The parser keeps a stack of open arrays and objects, as the scanner's \<open>parseState\<close> does.\<close>

datatype frame = A_frame "json list" | O_frame "(string \<times> json) list" string

datatype expect = E_Value | E_ValueOrEnd | E_KeyOrEnd | E_Key | E_Colon | E_After | E_Done json

definition maxNestingDepth :: nat where
  "maxNestingDepth = 10000"

fun put_value :: "json \<Rightarrow> frame list \<Rightarrow> frame list \<times> expect" where
  "put_value v [] = ([], E_Done v)"
| "put_value v (A_frame vs # st) = (A_frame (v # vs) # st, E_After)"
| "put_value v (O_frame kvs k # st) = (O_frame ((k, v) # kvs) k # st, E_After)"

definition push_frame :: "frame \<Rightarrow> expect \<Rightarrow> frame list \<Rightarrow> (frame list \<times> expect) option" where
  "push_frame f e st = (if length st < maxNestingDepth then Some (f # st, e) else None)"

fun value_step :: "frame list \<Rightarrow> token \<Rightarrow> (frame list \<times> expect) option" where
  "value_step st T_LBrace = push_frame (O_frame [] []) E_KeyOrEnd st"
| "value_step st T_LBracket = push_frame (A_frame []) E_ValueOrEnd st"
| "value_step st (T_Str s) = Some (put_value (JStr s) st)"
| "value_step st (T_Num n) = Some (put_value (JNum n) st)"
| "value_step st T_True = Some (put_value (JBool True) st)"
| "value_step st T_False = Some (put_value (JBool False) st)"
| "value_step st T_Null = Some (put_value JNull st)"
| "value_step st _ = None"

fun token_step :: "frame list \<times> expect \<Rightarrow> token \<Rightarrow> (frame list \<times> expect) option" where
  "token_step (st, E_Value) t = value_step st t"
| "token_step (A_frame vs # st, E_ValueOrEnd) T_RBracket = Some (put_value (JArr (rev vs)) st)"
| "token_step (st, E_ValueOrEnd) t = value_step st t"
| "token_step (O_frame kvs k # st, E_KeyOrEnd) T_RBrace = Some (put_value (JObj (rev kvs)) st)"
| "token_step (O_frame kvs k # st, E_KeyOrEnd) (T_Str s) = Some (O_frame kvs s # st, E_Colon)"
| "token_step (O_frame kvs k # st, E_Key) (T_Str s) = Some (O_frame kvs s # st, E_Colon)"
| "token_step (st, E_Colon) T_Colon = Some (st, E_Value)"
| "token_step (A_frame vs # st, E_After) T_Comma = Some (A_frame vs # st, E_Value)"
| "token_step (A_frame vs # st, E_After) T_RBracket = Some (put_value (JArr (rev vs)) st)"
| "token_step (O_frame kvs k # st, E_After) T_Comma = Some (O_frame kvs k # st, E_Key)"
| "token_step (O_frame kvs k # st, E_After) T_RBrace = Some (put_value (JObj (rev kvs)) st)"
| "token_step _ _ = None"

function parse_json :: "frame list \<times> expect \<Rightarrow> string \<Rightarrow> (json \<times> string) option" where
  "parse_json pst s =
     (case next_token s of
        None \<Rightarrow> None
      | Some (t, r) \<Rightarrow>
        (case token_step pst t of
           None \<Rightarrow> None
         | Some (st, e) \<Rightarrow> (case e of E_Done v \<Rightarrow> Some (v, r) | _ \<Rightarrow> parse_json (st, e) r)))"
  by pat_completeness auto
termination
  by (relation "measure (length \<circ> snd)") (auto simp: next_token_shorter)

declare parse_json.simps [simp del]

text \<open>\<open>json.Unmarshal\<close> reads one value and nothing after it; a \<open>json.Decoder\<close> reads the first value
  of the stream and leaves the rest.\<close>

definition Unmarshal :: "string \<Rightarrow> json option" where
  "Unmarshal s = (case parse_json ([], E_Value) s of
     Some (v, r) \<Rightarrow> if skip_space r = [] then Some v else None
   | None \<Rightarrow> None)"

definition Decode_first :: "string \<Rightarrow> json option" where
  "Decode_first s = map_option fst (parse_json ([], E_Value) s)"

subsection \<open>Writing\<close>

text \<open>\<open>appendString\<close> with HTML escaping, as \<open>json.Marshal\<close> does.\<close>

definition hex_lower :: "int \<Rightarrow> char" where
  "hex_lower d = char_of (if d < 10 then 48 + d else 87 + d)"

definition unicode_escape :: "int \<Rightarrow> string" where
  "unicode_escape r = [backslash, CHR ''u'', hex_lower (r div 4096 mod 16), hex_lower (r div 256 mod 16),
     hex_lower (r div 16 mod 16), hex_lower (r mod 16)]"

definition quote_chunk :: "string \<Rightarrow> string" where
  "quote_chunk c =
     (let r = chunk_rune c
      in if length c = 1 then
           (if r = 34 \<or> r = 92 then backslash # c
            else if r = 8 then [backslash, CHR ''b''] else if r = 12 then [backslash, CHR ''f'']
            else if r = 10 then [backslash, CHR ''n''] else if r = 13 then [backslash, CHR ''r'']
            else if r = 9 then [backslash, CHR ''t'']
            else if r < 32 \<or> r = 60 \<or> r = 62 \<or> r = 38 \<or> r = rune_error then unicode_escape r
            else c)
         else if r = 8232 \<or> r = 8233 then unicode_escape r
         else c)"

definition quote_string :: "string \<Rightarrow> string" where
  "quote_string s = quote_char # concat (map quote_chunk (chunks s)) @ [quote_char]"

fun render :: "json \<Rightarrow> string" where
  "render JNull = ''null''"
| "render (JBool b) = (if b then ''true'' else ''false'')"
| "render (JNum n) = n"
| "render (JStr s) = quote_string s"
| "render (JArr vs) = ''['' @ join '','' (map render vs) @ '']''"
| "render (JObj kvs) = ''{'' @ join '','' (map (\<lambda>(k, v). quote_string k @ '':'' @ render v) kvs) @ ''}''"


subsection \<open>Decoding into Go values\<close>

text \<open>
  A target of type \<open>'a\<close> is decoded by a function of the value it holds, \<open>None\<close> being a type error
  (Go goes on after such an error but reports it at the end, and every caller here gives up then).
  \<open>foldName\<close> compares keys; besides the two cases of a letter only U+017F and U+212A fold to ASCII.
\<close>

definition fold_rune :: "rune \<Rightarrow> rune" where
  "fold_rune r = (if 97 \<le> r \<and> r \<le> 122 then r - 32 else if r = 383 then 83 else if r = 8490 then 75 else r)"

definition fold_name :: "string \<Rightarrow> rune list" where
  "fold_name s = map fold_rune (runes s)"

type_synonym 'a decoder = "'a \<Rightarrow> json \<Rightarrow> 'a option"

fun dec_string :: "string decoder" where
  "dec_string old JNull = Some old"
| "dec_string old (JStr s) = Some s"
| "dec_string old _ = None"

fun dec_int :: "int decoder" where
  "dec_int old JNull = Some old"
| "dec_int old (JNum n) = (case atoi n of Inl _ \<Rightarrow> None | Inr k \<Rightarrow> Some k)"
| "dec_int old _ = None"

fun dec_pointer :: "'a \<Rightarrow> 'a decoder \<Rightarrow> 'a option decoder" where
  "dec_pointer zero d old JNull = Some None"
| "dec_pointer zero d old j = map_option Some (d (case old of None \<Rightarrow> zero | Some x \<Rightarrow> x) j)"

fun dec_members :: "(string \<times> 'a decoder) list \<Rightarrow> 'a \<Rightarrow> (string \<times> json) list \<Rightarrow> 'a option" where
  "dec_members fs x [] = Some x"
| "dec_members fs x ((k, v) # kvs) =
     (case find (\<lambda>(name, _). fold_name name = fold_name k) fs of
        None \<Rightarrow> dec_members fs x kvs
      | Some (_, d) \<Rightarrow> (case d x v of None \<Rightarrow> None | Some x' \<Rightarrow> dec_members fs x' kvs))"

fun dec_struct :: "(string \<times> 'a decoder) list \<Rightarrow> 'a decoder" where
  "dec_struct fs old JNull = Some old"
| "dec_struct fs old (JObj kvs) = dec_members fs old kvs"
| "dec_struct fs old _ = None"

definition field :: "('r \<Rightarrow> 'a) \<Rightarrow> ('a \<Rightarrow> 'r \<Rightarrow> 'r) \<Rightarrow> 'a decoder \<Rightarrow> 'r decoder" where
  "field get put d r j = map_option (\<lambda>x. put x r) (d (get r) j)"

text \<open>A slice is its elements and what its array holds beyond them.\<close>

type_synonym 'a go_slice = "'a list \<times> 'a list"

fun dec_elements :: "'a \<Rightarrow> 'a decoder \<Rightarrow> 'a list \<Rightarrow> json list \<Rightarrow> 'a list option" where
  "dec_elements zero d old [] = Some []"
| "dec_elements zero d old (j # js) =
     (case d (case old of [] \<Rightarrow> zero | x # _ \<Rightarrow> x) j of
        None \<Rightarrow> None
      | Some x \<Rightarrow> map_option ((#) x) (dec_elements zero d (drop 1 old) js))"

fun dec_slice :: "'a \<Rightarrow> 'a decoder \<Rightarrow> 'a go_slice decoder" where
  "dec_slice zero d old JNull = Some ([], [])"
| "dec_slice zero d old (JArr js) =
     (if js = [] then Some ([], [])
      else map_option (\<lambda>xs. (xs, drop (length js) (fst old @ snd old)))
        (dec_elements zero d (fst old @ snd old) js))"
| "dec_slice zero d old _ = None"

definition unmarshal_into :: "'a \<Rightarrow> 'a decoder \<Rightarrow> string \<Rightarrow> 'a option" where
  "unmarshal_into zero d s = (case Unmarshal s of None \<Rightarrow> None | Some j \<Rightarrow> d zero j)"

end
