(* ===== verification/WireLemmas.thy ===== *)
theory WireLemmas
  imports Wire
begin

text \<open>
  Round trips of the encodings in \<open>Wire\<close>: a well-formed UTF-8 sequence is decoded and encoded again
  without loss, an escaped string literal is read back as the string, and a JSON text is parsed to the
  value it was written from, inside any surrounding text. The last lemma is what the token and
  request theories use.
\<close>

subsection \<open>Well-formed UTF-8\<close>

lemma ascii_valid_utf8: "is_ascii s \<Longrightarrow> valid_utf8 s"
  by (induction s) (auto simp: valid_utf8_def chunks_ascii_Cons chunk_rune_ascii rune_error_def)

definition good_chunk :: "string \<Rightarrow> bool" where
  "good_chunk c \<longleftrightarrow>
     (case c of
        [b] \<Rightarrow> byte b < 128
      | [b0, b1] \<Rightarrow> seq_len b0 = 2 \<and> second_ok b0 b1
      | [b0, b1, b2] \<Rightarrow> seq_len b0 = 3 \<and> second_ok b0 b1 \<and> cont_byte b2
      | [b0, b1, b2, b3] \<Rightarrow> seq_len b0 = 4 \<and> second_ok b0 b1 \<and> cont_byte b2 \<and> cont_byte b3
      | _ \<Rightarrow> False)"

lemma good_chunk_simps [simp]:
  "\<not> good_chunk []" "good_chunk [b] \<longleftrightarrow> byte b < 128"
  "good_chunk [b, b1] \<longleftrightarrow> seq_len b = 2 \<and> second_ok b b1"
  "good_chunk [b, b1, b2] \<longleftrightarrow> seq_len b = 3 \<and> second_ok b b1 \<and> cont_byte b2"
  "good_chunk [b, b1, b2, b3] \<longleftrightarrow> seq_len b = 4 \<and> second_ok b b1 \<and> cont_byte b2 \<and> cont_byte b3"
  by (simp_all add: good_chunk_def)

lemma seq_len_1: "seq_len b = 1 \<longleftrightarrow> byte b < 128" "seq_len b = Suc 0 \<longleftrightarrow> byte b < 128"
  by (auto simp: seq_len_def)

lemma first_chunk_good:
  assumes "s \<noteq> []" "rune_width s = 1 \<longrightarrow> fst (decode_rune s) \<noteq> rune_error"
  shows "good_chunk (take (rune_width s) s)"
proof (cases s)
  case (Cons b0 bs)
  then show ?thesis
    using assms(2)
    by (cases bs; cases "tl bs"; cases "tl (tl bs)")
      (auto simp: rune_width_def decode_rune.simps(2) seq_len_1 split: if_splits)
qed (use assms in simp)

lemma rune_of_first_chunk: "chunk_rune (take (rune_width s) s) = fst (decode_rune s)"
  by (simp add: chunk_rune_def decode_rune_take)

lemma valid_chunks_good: "valid_utf8 s \<Longrightarrow> list_all good_chunk (chunks s)"
proof (induction s rule: chunks.induct)
  case (1 s)
  show ?case
  proof (cases "s = []")
    case False
    note c = chunks_nonempty [OF False]
    have len: "length (take (rune_width s) s) = rune_width s" using rune_width_le [of s] by simp
    from "1.prems" have "rune_width s = 1 \<longrightarrow> fst (decode_rune s) \<noteq> rune_error"
      "valid_utf8 (drop (rune_width s) s)"
      using len by (auto simp: valid_utf8_def c rune_of_first_chunk)
    with "1.IH" [OF False] first_chunk_good [OF False] show ?thesis by (simp add: c)
  qed simp
qed

lemma good_chunk_cases:
  assumes "good_chunk c"
  obtains (one) b where "c = [b]" "byte b < 128"
  | (two) b0 b1 where "c = [b0, b1]" "seq_len b0 = 2" "second_ok b0 b1"
  | (three) b0 b1 b2 where "c = [b0, b1, b2]" "seq_len b0 = 3" "second_ok b0 b1" "cont_byte b2"
  | (four) b0 b1 b2 b3 where "c = [b0, b1, b2, b3]" "seq_len b0 = 4" "second_ok b0 b1"
      "cont_byte b2" "cont_byte b3"
  using assms by (auto simp: good_chunk_def split: list.splits)

lemma seq_len_ranges:
  "seq_len b = 2 \<Longrightarrow> 194 \<le> byte b \<and> byte b \<le> 223"
  "seq_len b = 3 \<Longrightarrow> 224 \<le> byte b \<and> byte b \<le> 239"
  "seq_len b = 4 \<Longrightarrow> 240 \<le> byte b \<and> byte b \<le> 244"
  by (auto simp: seq_len_def split: if_splits)

lemma decode_good_chunk:
  "good_chunk c \<Longrightarrow> decode_rune (c @ s) = (chunk_rune c, length c)"
  by (erule good_chunk_cases) (simp_all add: chunk_rune_def decode_rune.simps(2) seq_len_1)

lemma good_chunk_high_bytes:
  "good_chunk c \<Longrightarrow> length c \<noteq> 1 \<Longrightarrow> b \<in> set c \<Longrightarrow> 128 \<le> byte b"
  by (erule good_chunk_cases)
    (auto simp: cont_byte_def second_ok_def dest!: seq_len_ranges split: if_splits)

text \<open>Encoding the rune of a well-formed sequence gives the sequence back.\<close>

lemma encode_good_chunk:
  assumes "good_chunk c"
  shows "encode_rune (chunk_rune c) = c"
  using assms
proof (cases rule: good_chunk_cases)
  case (one b)
  then show ?thesis by (simp add: chunk_rune_ascii encode_rune_byte)
next
  case (two b0 b1)
  define x y where "x = byte b0 - 192" and "y = byte b1 - 128"
  have b: "byte b0 = 192 + x" "byte b1 = 128 + y" "2 \<le> x" "x < 32" "0 \<le> y" "y < 64"
    using two seq_len_ranges [of b0] by (auto simp: x_def y_def second_ok_def split: if_splits)
  have "chunk_rune c = x * 64 + y"
    using two by (simp add: chunk_rune_def decode_rune.simps(2) x_def y_def)
  moreover have "128 \<le> x * 64 + y" "x * 64 + y < 2048" using b by auto
  moreover have "(x * 64 + y) div 64 = x" "(x * 64 + y) mod 64 = y" using b by (simp_all add: pack_div_mod)
  ultimately show ?thesis
    using two b char_of_byte [of b0] char_of_byte [of b1] by (simp add: encode_rune_def)
next
  case (three b0 b1 b2)
  define x y z where "x = byte b0 - 224" and "y = byte b1 - 128" and "z = byte b2 - 128"
  have b: "byte b0 = 224 + x" "byte b1 = 128 + y" "byte b2 = 128 + z" "0 \<le> x" "x < 16"
    "0 \<le> y" "y < 64" "0 \<le> z" "z < 64" "x = 0 \<longrightarrow> 32 \<le> y" "x = 13 \<longrightarrow> y < 32"
    using three seq_len_ranges [of b0]
    by (auto simp: x_def y_def z_def second_ok_def cont_byte_def split: if_splits)
  define r where "r = x * 4096 + y * 64 + z"
  have "chunk_rune c = r"
    using three by (simp add: chunk_rune_def decode_rune.simps(2) x_def y_def z_def r_def)
  moreover have "2048 \<le> r" using b unfolding r_def by (cases "x = 0") linarith+
  moreover have "r < 65536" using b unfolding r_def by linarith
  moreover have "\<not> (55296 \<le> r \<and> r \<le> 57343)"
  proof -
    consider "x \<le> 12" | "x = 13" | "14 \<le> x" by linarith
    then show ?thesis using b unfolding r_def by cases linarith+
  qed
  moreover have "r div 64 = x * 64 + y"
    using pack_div_mod(1) [of z 64 "x * 64 + y"] b by (simp add: r_def algebra_simps)
  moreover have "r mod 64 = z"
    using pack_div_mod(2) [of z 64 "x * 64 + y"] b by (simp add: r_def algebra_simps)
  moreover have "r div 4096 = x"
    using pack_div_mod(1) [of "y * 64 + z" 4096 x] b by (simp add: r_def algebra_simps)
  ultimately show ?thesis
    using three b char_of_byte [of b0] char_of_byte [of b1] char_of_byte [of b2]
    by (auto simp: encode_rune_def pack_div_mod)
next
  case (four b0 b1 b2 b3)
  define x y z w where "x = byte b0 - 240" and "y = byte b1 - 128" and "z = byte b2 - 128"
    and "w = byte b3 - 128"
  have b: "byte b0 = 240 + x" "byte b1 = 128 + y" "byte b2 = 128 + z" "byte b3 = 128 + w"
    "0 \<le> x" "x < 5" "0 \<le> y" "y < 64" "0 \<le> z" "z < 64" "0 \<le> w" "w < 64"
    "x = 0 \<longrightarrow> 16 \<le> y" "x = 4 \<longrightarrow> y < 16"
    using four seq_len_ranges [of b0]
    by (auto simp: x_def y_def z_def w_def second_ok_def cont_byte_def split: if_splits)
  define r where "r = x * 262144 + y * 4096 + z * 64 + w"
  have "chunk_rune c = r"
    using four by (simp add: chunk_rune_def decode_rune.simps(2) x_def y_def z_def w_def r_def)
  moreover have "65536 \<le> r" using b unfolding r_def by (cases "x = 0") linarith+
  moreover have "r \<le> 1114111" using b unfolding r_def by (cases "x = 4") linarith+
  moreover have "r div 64 = (x * 64 + y) * 64 + z"
    using pack_div_mod(1) [of w 64 "(x * 64 + y) * 64 + z"] b by (simp add: r_def algebra_simps)
  moreover have "r div 64 mod 64 = z"
    using pack_div_mod(2) [of z 64 "x * 64 + y"] calculation(4) b by simp
  moreover have "r mod 64 = w"
    using pack_div_mod(2) [of w 64 "(x * 64 + y) * 64 + z"] b by (simp add: r_def algebra_simps)
  moreover have "r div 4096 = x * 64 + y"
    using pack_div_mod(1) [of "z * 64 + w" 4096 "x * 64 + y"] b by (simp add: r_def algebra_simps)
  moreover have "r div 262144 = x"
    using pack_div_mod(1) [of "y * 4096 + z * 64 + w" 262144 x] b by (simp add: r_def algebra_simps)
  ultimately show ?thesis
    using four b char_of_byte [of b0] char_of_byte [of b1] char_of_byte [of b2] char_of_byte [of b3]
    by (simp add: encode_rune_def pack_div_mod)
qed


subsection \<open>Reading back what was written\<close>

lemma hex_lower_value: "0 \<le> d \<Longrightarrow> d < 16 \<Longrightarrow> hex_value (hex_lower d) = Some d"
  by (auto simp: hex_value_def hex_lower_def byte_char_of Let_def)

lemma getu4_hex_digits:
  "0 \<le> w \<Longrightarrow> w < 16 \<Longrightarrow> 0 \<le> x \<Longrightarrow> x < 16 \<Longrightarrow> 0 \<le> y \<Longrightarrow> y < 16 \<Longrightarrow> 0 \<le> z \<Longrightarrow> z < 16 \<Longrightarrow>
   getu4 (backslash # CHR ''u'' # hex_lower w # hex_lower x # hex_lower y # hex_lower z # t)
     = Some (w * 4096 + x * 256 + y * 16 + z)"
  by (simp add: hex_lower_value)

lemma hex_digits_sum:
  fixes r :: int
  assumes "0 \<le> r" "r < 65536"
  shows "r div 4096 mod 16 * 4096 + r div 256 mod 16 * 256 + r div 16 mod 16 * 16 + r mod 16 = r"
proof -
  define a b where "a = r div 16" and "b = r div 256"
  have ab: "a div 16 = b" "r div 4096 = b div 16"
    by (simp_all add: a_def b_def zdiv_zmult2_eq [symmetric])
  have "r = 16 * a + r mod 16" "a = 16 * b + a mod 16" "b = 16 * (b div 16) + b mod 16"
    unfolding ab(1) [symmetric] by (simp_all add: a_def)
  moreover have "b div 16 < 16" "0 \<le> b div 16" using assms by (auto simp: b_def)
  ultimately have "b div 16 mod 16 * 4096 + b mod 16 * 256 + a mod 16 * 16 + r mod 16 = r"
    by (simp only: mod_pos_pos_trivial)
  with ab show ?thesis by (simp only: a_def b_def)
qed

lemma getu4_unicode_escape:
  "0 \<le> r \<Longrightarrow> r < 65536 \<Longrightarrow> getu4 (unicode_escape r @ t) = Some r"
  by (simp only: unicode_escape_def append.simps getu4_hex_digits hex_digits_sum
      pos_mod_sign pos_mod_bound zero_less_numeral)

lemma scan_plain:
  "list_all (\<lambda>b. b \<noteq> quote_char \<and> b \<noteq> backslash \<and> 32 \<le> byte b) c \<Longrightarrow>
     scan_string (c @ t) = map_option (\<lambda>(b, r). (c @ b, r)) (scan_string t)"
proof (induction c)
  case (Cons b c)
  then show ?case
    by (subst scan_string.simps) (simp add: option.map_comp o_def case_prod_unfold)
qed (simp add: case_prod_unfold option.map_ident)

lemma scan_unicode_escape:
  "scan_string (unicode_escape r @ t) = map_option (\<lambda>(b, q). (unicode_escape r @ b, q)) (scan_string t)"
proof -
  have "hex_chars [hex_lower (r div 4096 mod 16), hex_lower (r div 256 mod 16),
     hex_lower (r div 16 mod 16), hex_lower (r mod 16)]"
    by (simp add: hex_chars_def hex_lower_value)
  then show ?thesis
    by (subst scan_string.simps) (simp add: unicode_escape_def has_prefix_def slice_def)
qed

lemma scan_simple_escape:
  "simple_escape e \<Longrightarrow> e \<noteq> CHR ''u'' \<Longrightarrow>
     scan_string (backslash # e # t) = map_option (\<lambda>(b, q). (backslash # e # b, q)) (scan_string t)"
  by (subst scan_string.simps) (simp add: has_prefix_def)

lemma simple_escapes:
  "simple_escape CHR ''b''" "simple_escape CHR ''f''" "simple_escape CHR ''n''"
  "simple_escape CHR ''r''" "simple_escape CHR ''t''" "simple_escape backslash" "simple_escape quote_char"
  by (simp_all add: simple_escape_def)

lemma unquote_simple_escape:
  "e \<noteq> CHR ''u'' \<Longrightarrow> unquote (backslash # e # t) = escaped_char e # unquote t"
proof -
  assume e: "e \<noteq> CHR ''u''"
  have "getu4 (backslash # e # t) = None"
    using e by (cases "(backslash # e # t)" rule: getu4.cases) auto
  then show ?thesis by (subst unquote.simps) simp
qed

lemma unquote_unicode_escape:
  "0 \<le> r \<Longrightarrow> r < 65536 \<Longrightarrow> \<not> surrogate r \<Longrightarrow> unquote (unicode_escape r @ t) = encode_rune r @ unquote t"
proof -
  assume r: "0 \<le> r" "r < 65536" "\<not> surrogate r"
  obtain c q where c: "unicode_escape r @ t = c # q" "c = backslash" "drop 6 (c # q) = t"
    by (simp add: unicode_escape_def)
  from getu4_unicode_escape [OF r(1,2), of t] r(3) c show ?thesis
    by (subst unquote.simps) simp
qed

lemma unquote_plain:
  assumes "good_chunk c" "hd c \<noteq> backslash"
  shows "unquote (c @ t) = c @ unquote t"
proof -
  obtain b bs where c: "c = b # bs" using assms(1) by (cases c) auto
  with assms(2) decode_good_chunk [OF assms(1), of t] encode_good_chunk [OF assms(1)] show ?thesis
    by (subst unquote.simps) (simp add: rune_width_def)
qed

lemma quote_chunk_cases:
  assumes "good_chunk c"
  obtains (simple) e where "quote_chunk c = [backslash, e]" "simple_escape e" "e \<noteq> CHR ''u''" "c = [escaped_char e]"
  | (unicode) "quote_chunk c = unicode_escape (chunk_rune c)" "0 \<le> chunk_rune c"
      "chunk_rune c < 65536" "\<not> surrogate (chunk_rune c)"
  | (plain) "quote_chunk c = c" "list_all (\<lambda>b. b \<noteq> quote_char \<and> b \<noteq> backslash \<and> 32 \<le> byte b) c"
proof (cases "length c = 1")
  case True
  then obtain b where c: "c = [b]" by (cases c) auto
  then have b: "byte b < 128" "chunk_rune c = byte b" "0 \<le> byte b"
    using assms byte_bounds by (simp_all add: chunk_rune_ascii)
  have eq: "b = char_of n \<longleftrightarrow> byte b = n" if "0 \<le> n" "n < 256" for n
    using that byte_char_of [of n] char_of_byte [of b] by metis
  have chars: "b = quote_char \<longleftrightarrow> byte b = 34" "b = backslash \<longleftrightarrow> byte b = 92"
    "b = CHR 0x08 \<longleftrightarrow> byte b = 8" "b = CHR 0x0C \<longleftrightarrow> byte b = 12" "b = CHR 0x0A \<longleftrightarrow> byte b = 10"
    "b = CHR 0x0D \<longleftrightarrow> byte b = 13" "b = CHR 0x09 \<longleftrightarrow> byte b = 9"
    using eq [of 34] eq [of 92] eq [of 8] eq [of 12] eq [of 10] eq [of 13] eq [of 9]
    by (simp_all add: char_of_def)
  consider "byte b = 34" | "byte b = 92" | "byte b = 8" | "byte b = 12" | "byte b = 10" | "byte b = 13"
    | "byte b = 9" | "byte b \<notin> {34, 92, 8, 12, 10, 13, 9}" by blast
  then show ?thesis
  proof cases
    case 8
    show ?thesis
    proof (cases "byte b < 32 \<or> byte b = 60 \<or> byte b = 62 \<or> byte b = 38 \<or> byte b = rune_error")
      case True
      then have "quote_chunk c = unicode_escape (chunk_rune c)"
        using 8 b c by (auto simp: quote_chunk_def Let_def)
      then show ?thesis using b unicode by (simp add: surrogate_def)
    next
      case False
      then show ?thesis using 8 b c chars plain by (simp add: quote_chunk_def Let_def)
    qed
  qed (use b c chars simple [of quote_char] simple [of backslash] simple [of "CHR ''b''"]
      simple [of "CHR ''f''"] simple [of "CHR ''n''"] simple [of "CHR ''r''"] simple [of "CHR ''t''"]
      simple_escapes in \<open>simp_all add: quote_chunk_def Let_def escaped_char_def\<close>)
next
  case False
  show ?thesis
  proof (cases "chunk_rune c = 8232 \<or> chunk_rune c = 8233")
    case True
    then show ?thesis using False unicode by (auto simp: quote_chunk_def Let_def surrogate_def)
  next
    case no: False
    have "list_all (\<lambda>b. b \<noteq> quote_char \<and> b \<noteq> backslash \<and> 32 \<le> byte b) c"
      using good_chunk_high_bytes [OF assms False] by (force simp: list_all_iff byte_def)
    then show ?thesis using False no plain by (simp add: quote_chunk_def Let_def)
  qed
qed

lemma scan_quote_chunk:
  "good_chunk c \<Longrightarrow> scan_string (quote_chunk c @ t) = map_option (\<lambda>(b, r). (quote_chunk c @ b, r)) (scan_string t)"
  by (erule quote_chunk_cases) (simp_all add: scan_simple_escape scan_unicode_escape scan_plain)

lemma unquote_quote_chunk:
  assumes "good_chunk c"
  shows "unquote (quote_chunk c @ t) = c @ unquote t"
  using assms
proof (cases rule: quote_chunk_cases)
  case plain
  then have "hd c \<noteq> backslash" using assms by (cases c) auto
  with plain assms show ?thesis by (simp add: unquote_plain)
qed (simp_all add: unquote_simple_escape unquote_unicode_escape encode_good_chunk assms)

lemma quote_chunks_back:
  "list_all good_chunk cs \<Longrightarrow>
     scan_string (concat (map quote_chunk cs) @ quote_char # t) = Some (concat (map quote_chunk cs), t)
     \<and> unquote (concat (map quote_chunk cs)) = concat cs"
proof (induction cs)
  case Nil
  then show ?case by (subst scan_string.simps) simp
qed (simp add: scan_quote_chunk unquote_quote_chunk)

lemma next_token_string:
  "valid_utf8 s \<Longrightarrow> next_token (quote_string s @ t) = Some (T_Str s, t)"
proof -
  assume "valid_utf8 s"
  from quote_chunks_back [OF valid_chunks_good [OF this], of t] show ?thesis
    by (simp add: quote_string_def next_token_def skip_space_def json_space_def byte_def)
qed


fun json_ok :: "json \<Rightarrow> bool" where
  "json_ok (JNum n) = (\<exists>k. n = itoa k)"
| "json_ok (JStr s) = valid_utf8 s"
| "json_ok (JArr vs) = (\<forall>v \<in> set vs. json_ok v)"
| "json_ok (JObj kvs) = (\<forall>kv \<in> set kvs. valid_utf8 (fst kv) \<and> json_ok (snd kv))"
| "json_ok _ = True"

fun json_depth :: "json \<Rightarrow> nat" where
  "json_depth (JArr vs) = Suc (fold max (map json_depth vs) 0)"
| "json_depth (JObj kvs) = Suc (fold max (map (json_depth \<circ> snd) kvs) 0)"
| "json_depth _ = 0"

definition number_end :: "string \<Rightarrow> bool" where
  "number_end s \<longleftrightarrow> (case s of [] \<Rightarrow> True
     | c # _ \<Rightarrow> \<not> is_digit_char c \<and> c \<noteq> CHR ''.'' \<and> c \<noteq> CHR ''e'' \<and> c \<noteq> CHR ''E'')"

lemma number_end_simps: "number_end []" "number_end ('','' @ s)" "number_end (CHR '','' # s)"
  "number_end (CHR '']'' # s)" "number_end (CHR ''}'' # s)"
  by (simp_all add: number_end_def is_digit_char_def byte_def)

definition resume :: "frame list \<times> expect \<Rightarrow> string \<Rightarrow> (json \<times> string) option" where
  "resume pst s = (case snd pst of E_Done v \<Rightarrow> Some (v, s) | _ \<Rightarrow> parse_json pst s)"

lemma parse_step:
  "next_token s = Some (t, r) \<Longrightarrow> token_step pst t = Some pst' \<Longrightarrow> parse_json pst s = resume pst' r"
  by (subst parse_json.simps) (cases pst', auto simp: resume_def split: expect.split)

lemma take_digits_stop:
  "list_all is_digit_char ds \<Longrightarrow> number_end s \<Longrightarrow>
     takeWhile is_digit_char (ds @ s) = ds \<and> dropWhile is_digit_char (ds @ s) = s"
  by (induction ds) (auto simp: number_end_def split: list.splits)

lemma scan_whole_digits:
  assumes "number_end s"
  shows "scan_whole (nat_digits n @ s) = Some (nat_digits n, s)"
proof (cases "n = 0")
  case True
  then show ?thesis by (simp add: nat_digits_0 scan_whole_def)
next
  case False
  obtain d ds where d: "nat_digits n = d # ds" using nat_digits_ne by (cases "nat_digits n") auto
  have "d \<noteq> CHR ''0''" using nat_digits_no_leading_zero [of n] False d by (auto simp: byte_def)
  then show ?thesis
    using take_digits_stop [OF nat_digits_all [of n] assms] d nat_digits_all [of n]
    by (simp add: scan_whole_def)
qed

lemma scan_number_itoa: "number_end s \<Longrightarrow> scan_number (itoa k @ s) = Some (itoa k, s)"
proof -
  assume e: "number_end s"
  then have tail: "scan_fraction s = Some ([], s)" "scan_exponent s = Some ([], s)"
    by (auto simp: number_end_def scan_fraction_def scan_exponent_def split: list.splits)
  obtain d ds where d: "nat_digits (nat k) = d # ds" using nat_digits_ne by (cases "nat_digits (nat k)") auto
  have "d \<noteq> CHR ''-''" using digit_not_sign nat_digits_all [of "nat k"] d by auto
  then have "snd (scan_sign (itoa k @ s)) = nat_digits (if k < 0 then nat (- k) else nat k) @ s
     \<and> fst (scan_sign (itoa k @ s)) = (if k < 0 then ''-'' else [])"
    by (simp add: scan_sign_def itoa_def d)
  then show ?thesis
    using scan_whole_digits [OF e] tail by (simp add: scan_number_def itoa_def)
qed

lemma next_token_number: "number_end s \<Longrightarrow> next_token (itoa k @ s) = Some (T_Num (itoa k), s)"
proof -
  assume e: "number_end s"
  obtain c r where c: "itoa k = c # r" by (cases "itoa k") (auto simp: itoa_def nat_digits_ne split: if_splits)
  have "c = CHR ''-'' \<or> is_digit_char c"
    using c nat_digits_all [of "nat k"] nat_digits_ne [of "nat k"]
    by (cases "nat_digits (nat k)") (auto simp: itoa_def split: if_splits)
  then have "byte c = 45 \<or> 48 \<le> byte c \<and> byte c \<le> 57" by (auto simp: is_digit_char_def byte_def)
  then have "\<not> json_space c \<and> c \<noteq> CHR ''{'' \<and> c \<noteq> CHR ''}'' \<and> c \<noteq> CHR ''['' \<and> c \<noteq> CHR '']''
     \<and> c \<noteq> CHR '':'' \<and> c \<noteq> CHR '','' \<and> c \<noteq> quote_char \<and> c \<noteq> CHR ''t'' \<and> c \<noteq> CHR ''f'' \<and> c \<noteq> CHR ''n''"
    by (auto simp: json_space_def byte_def)
  with c scan_number_itoa [OF e, of k] show ?thesis by (simp add: next_token_def skip_space_def)
qed

lemma next_token_punct:
  "next_token (CHR ''['' # s) = Some (T_LBracket, s)" "next_token (CHR '']'' # s) = Some (T_RBracket, s)"
  "next_token (CHR ''{'' # s) = Some (T_LBrace, s)" "next_token (CHR ''}'' # s) = Some (T_RBrace, s)"
  "next_token (CHR '':'' # s) = Some (T_Colon, s)" "next_token (CHR '','' # s) = Some (T_Comma, s)"
  "next_token (''null'' @ s) = Some (T_Null, s)" "next_token (''true'' @ s) = Some (T_True, s)"
  "next_token (''false'' @ s) = Some (T_False, s)"
  by (simp_all add: next_token_def skip_space_def json_space_def byte_def has_prefix_def)

lemma fold_max_le: "fold max xs (a :: nat) \<le> m \<longleftrightarrow> a \<le> m \<and> (\<forall>x \<in> set xs. x \<le> m)"
  by (induction xs arbitrary: a) auto


lemma value_token:
  "t \<noteq> T_RBracket \<Longrightarrow> e = E_Value \<or> e = E_ValueOrEnd \<Longrightarrow> token_step (st, e) t = value_step st t"
  by (cases t; cases st; cases "hd st") auto

lemma resume_simps [simp]:
  "resume (st, E_Done v) s = Some (v, s)" "resume (st, E_Value) s = parse_json (st, E_Value) s"
  "resume (st, E_ValueOrEnd) s = parse_json (st, E_ValueOrEnd) s"
  "resume (st, E_KeyOrEnd) s = parse_json (st, E_KeyOrEnd) s" "resume (st, E_Key) s = parse_json (st, E_Key) s"
  "resume (st, E_Colon) s = parse_json (st, E_Colon) s" "resume (st, E_After) s = parse_json (st, E_After) s"
  by (simp_all add: resume_def)

definition reads_back :: "json \<Rightarrow> bool" where
  "reads_back v \<longleftrightarrow> (\<forall>st e s. (e = E_Value \<or> e = E_ValueOrEnd) \<longrightarrow> number_end s \<longrightarrow>
     length st + json_depth v \<le> maxNestingDepth \<longrightarrow>
     parse_json (st, e) (render v @ s) = resume (put_value v st) s)"

lemma reads_backD:
  "reads_back v \<Longrightarrow> e = E_Value \<or> e = E_ValueOrEnd \<Longrightarrow> number_end s \<Longrightarrow>
     length st + json_depth v \<le> maxNestingDepth \<Longrightarrow>
     parse_json (st, e) (render v @ s) = resume (put_value v st) s"
  unfolding reads_back_def by blast

lemma scalar_back:
  assumes "\<And>s. number_end s \<Longrightarrow> next_token (render v @ s) = Some (t, s)" "t \<noteq> T_RBracket"
    and "\<And>st. value_step st t = Some (put_value v st)"
  shows "reads_back v"
  unfolding reads_back_def
proof (intro allI impI)
  fix st :: "frame list" and e s
  assume e: "e = E_Value \<or> e = E_ValueOrEnd" and s: "number_end s"
  have "token_step (st, e) t = Some (put_value v st)" using value_token [OF assms(2) e] assms(3) by simp
  from parse_step [OF assms(1) [OF s] this]
  show "parse_json (st, e) (render v @ s) = resume (put_value v st) s" .
qed

lemma array_elements_back:
  "vs \<noteq> [] \<Longrightarrow> \<forall>v \<in> set vs. reads_back v \<and> Suc (length st) + json_depth v \<le> maxNestingDepth \<Longrightarrow>
   e = E_Value \<or> e = E_ValueOrEnd \<Longrightarrow>
   parse_json (A_frame acc # st, e) (join '','' (map render vs) @ CHR '']'' # s)
     = resume (put_value (JArr (rev acc @ vs)) st) s"
proof (induction vs arbitrary: acc e)
  case (Cons v vs)
  have v: "parse_json (A_frame acc # st, e) (render v @ r) = parse_json (A_frame (v # acc) # st, E_After) r"
    if "number_end r" for r
    using reads_backD [of v e r "A_frame acc # st"] Cons.prems that by simp
  show ?case
  proof (cases vs)
    case Nil
    then show ?thesis
      using v [OF number_end_simps(4)] parse_step [OF next_token_punct(2)] by simp
  next
    case (Cons w ws)
    then have "parse_json (A_frame acc # st, e) (join '','' (map render (v # vs)) @ CHR '']'' # s)
        = parse_json (A_frame (v # acc) # st, E_Value) (join '','' (map render vs) @ CHR '']'' # s)"
      using v [OF number_end_simps(3)] parse_step [OF next_token_punct(6)] by simp
    with Cons.IH [of E_Value "v # acc"] Cons.prems Cons show ?thesis by simp
  qed
qed simp

definition render_member :: "string \<times> json \<Rightarrow> string" where
  "render_member kv = quote_string (fst kv) @ '':'' @ render (snd kv)"

lemma object_members_back:
  "kvs \<noteq> [] \<Longrightarrow> \<forall>kv \<in> set kvs. valid_utf8 (fst kv) \<and> reads_back (snd kv)
      \<and> Suc (length st) + json_depth (snd kv) \<le> maxNestingDepth \<Longrightarrow>
   e = E_Key \<or> e = E_KeyOrEnd \<Longrightarrow>
   parse_json (O_frame acc k0 # st, e) (join '','' (map render_member kvs) @ CHR ''}'' # s)
     = resume (put_value (JObj (rev acc @ kvs)) st) s"
proof (induction kvs arbitrary: acc e k0)
  case (Cons kv kvs)
  obtain k v where kv: "kv = (k, v)" by (cases kv)
  have v: "parse_json (O_frame acc k0 # st, e) (render_member kv @ r)
      = parse_json (O_frame ((k, v) # acc) k # st, E_After) r"
    if "number_end r" for r
  proof -
    have "parse_json (O_frame acc k0 # st, e) (render_member kv @ r)
        = parse_json (O_frame acc k # st, E_Colon) ('':'' @ render v @ r)"
      using Cons.prems kv parse_step [OF next_token_string] by (auto simp: render_member_def)
    also have "\<dots> = parse_json (O_frame acc k # st, E_Value) (render v @ r)"
      using parse_step [OF next_token_punct(5)] by simp
    also have "\<dots> = parse_json (O_frame ((k, v) # acc) k # st, E_After) r"
      using reads_backD [of v E_Value r "O_frame acc k # st"] Cons.prems kv that by simp
    finally show ?thesis .
  qed
  show ?case
  proof (cases kvs)
    case Nil
    then show ?thesis
      using v [OF number_end_simps(5)] parse_step [OF next_token_punct(4)] kv by simp
  next
    case (Cons w ws)
    then have "parse_json (O_frame acc k0 # st, e) (join '','' (map render_member (kv # kvs)) @ CHR ''}'' # s)
        = parse_json (O_frame ((k, v) # acc) k # st, E_Key) (join '','' (map render_member kvs) @ CHR ''}'' # s)"
      using v [OF number_end_simps(3)] parse_step [OF next_token_punct(6)] by simp
    with Cons.IH [of E_Key "(k, v) # acc" k] Cons.prems Cons kv show ?thesis by simp
  qed
qed simp

lemma render_obj: "render (JObj kvs) = CHR ''{'' # join '','' (map render_member kvs) @ ''}''"
  by (simp add: render_member_def [abs_def] case_prod_unfold)

lemma render_reads_back: "json_ok v \<Longrightarrow> reads_back v"
proof (induction v)
  case (JArr vs)
  then have IH: "\<forall>v \<in> set vs. reads_back v" by simp
  show ?case
  proof (unfold reads_back_def, intro allI impI)
    fix st :: "frame list" and e s
    assume e: "e = E_Value \<or> e = E_ValueOrEnd" and d: "length st + json_depth (JArr vs) \<le> maxNestingDepth"
    have "parse_json (st, e) (render (JArr vs) @ s)
        = parse_json (A_frame [] # st, E_ValueOrEnd) (join '','' (map render vs) @ CHR '']'' # s)"
      using parse_step [OF next_token_punct(1)] value_token [of T_LBracket e st] e d
      by (simp add: push_frame_def)
    also have "\<dots> = resume (put_value (JArr vs) st) s"
    proof (cases "vs = []")
      case True
      then show ?thesis using parse_step [OF next_token_punct(2)] by simp
    next
      case False
      have "\<forall>v \<in> set vs. Suc (length st) + json_depth v \<le> maxNestingDepth"
        using d fold_max_le [of "map json_depth vs" 0 "maxNestingDepth - Suc (length st)"] by auto
      with array_elements_back [OF False, of st E_ValueOrEnd "[]" s] IH show ?thesis by simp
    qed
    finally show "parse_json (st, e) (render (JArr vs) @ s) = resume (put_value (JArr vs) st) s" .
  qed
next
  case (JObj kvs)
  then have IH: "\<forall>kv \<in> set kvs. valid_utf8 (fst kv) \<and> reads_back (snd kv)" by fastforce
  show ?case
  proof (unfold reads_back_def, intro allI impI)
    fix st :: "frame list" and e s
    assume e: "e = E_Value \<or> e = E_ValueOrEnd" and d: "length st + json_depth (JObj kvs) \<le> maxNestingDepth"
    have "parse_json (st, e) (render (JObj kvs) @ s)
        = parse_json (O_frame [] [] # st, E_KeyOrEnd) (join '','' (map render_member kvs) @ CHR ''}'' # s)"
      using parse_step [OF next_token_punct(3)] value_token [of T_LBrace e st] e d
      by (simp add: push_frame_def render_obj del: render.simps)
    also have "\<dots> = resume (put_value (JObj kvs) st) s"
    proof (cases "kvs = []")
      case True
      then show ?thesis using parse_step [OF next_token_punct(4)] by simp
    next
      case False
      have "\<forall>kv \<in> set kvs. Suc (length st) + json_depth (snd kv) \<le> maxNestingDepth"
        using d fold_max_le [of "map (json_depth \<circ> snd) kvs" 0 "maxNestingDepth - Suc (length st)"] by auto
      with object_members_back [OF False, of st E_KeyOrEnd "[]" "[]" s] IH show ?thesis by simp
    qed
    finally show "parse_json (st, e) (render (JObj kvs) @ s) = resume (put_value (JObj kvs) st) s" .
  qed
next
  case JNull
  then show ?case using next_token_punct(7) by (intro scalar_back [where t = T_Null]) simp_all
next
  case (JBool b)
  then show ?case
    using next_token_punct(8,9) by (intro scalar_back [where t = "if b then T_True else T_False"]) simp_all
next
  case (JNum n)
  then show ?case using next_token_number by (intro scalar_back [where t = "T_Num n"]) auto
next
  case (JStr s)
  then show ?case using next_token_string by (intro scalar_back [where t = "T_Str s"]) auto
qed

lemma Unmarshal_render:
  "json_ok v \<Longrightarrow> json_depth v \<le> maxNestingDepth \<Longrightarrow> Unmarshal (render v) = Some v"
  using reads_backD [OF render_reads_back, of v E_Value "[]" "[]"]
  by (simp add: Unmarshal_def number_end_simps skip_space_def)

subsection \<open>Decoders on fresh values\<close>

lemma fold_name_eqs: "is_ascii s \<Longrightarrow> fold_name s = map (\<lambda>c. fold_rune (byte c)) s"
  by (induction s) (simp_all add: fold_name_def runes_ascii_Cons)

lemma dec_elements_fresh:
  "(\<And>x. x \<in> set xs \<Longrightarrow> d zero (enc x) = Some x) \<Longrightarrow> dec_elements zero d [] (map enc xs) = Some xs"
  by (induction xs) simp_all

lemma dec_slice_fresh:
  "(\<And>x. x \<in> set xs \<Longrightarrow> d zero (enc x) = Some x) \<Longrightarrow>
     dec_slice zero d ([], []) (JArr (map enc xs)) = Some (xs, [])"
  using dec_elements_fresh [of xs d zero enc] by auto

end
