(* ===== verification/Auth.thy ===== *)
theory Auth
  imports WireLemmas
begin

text \<open>
  \<open>internal/auth/jwt.go\<close>, the HTTP middleware of \<open>internal/api/middleware.go\<close>, the authorization of
  \<open>internal/mcp/server.go\<close> and the \<open>auth\<close> command of \<open>cmd/factvault/auth.go\<close>. Tokens are built and
  taken apart byte by byte (\<open>Wire\<close>); RSA, SHA-256, PEM and the X.509 key formats are arguments. A key
  is an opaque name; \<open>public_of\<close> is the public half of a private key.
\<close>

subsection \<open>Keys\<close>

type_synonym rsa_key = nat

datatype parsed_key = RSA_key rsa_key | Other_key

record crypto =
  sha256_sum :: "string \<Rightarrow> string"
  rsa_sign :: "rsa_key \<Rightarrow> string \<Rightarrow> string result"
  rsa_verify :: "rsa_key \<Rightarrow> string \<Rightarrow> string \<Rightarrow> bool"
  rsa_generate :: "string \<Rightarrow> rsa_key result"     \<comment> \<open>the key made of what the random reader yields\<close>
  public_of :: "rsa_key \<Rightarrow> rsa_key"
  pem_encode :: "string \<Rightarrow> string \<Rightarrow> string"
  pem_decode :: "string \<Rightarrow> string option"
  marshal_pkcs1 :: "rsa_key \<Rightarrow> string"
  marshal_pkix :: "rsa_key \<Rightarrow> string result"
  parse_pkcs1 :: "string \<Rightarrow> rsa_key result"
  parse_pkcs8 :: "string \<Rightarrow> parsed_key result"
  parse_pkix :: "string \<Rightarrow> parsed_key result"

text \<open>\<open>rnd\<close> is what \<open>rand.Reader\<close> yields: another run draws other bytes and makes another key.\<close>

definition GenerateKeyPair :: "crypto \<Rightarrow> string \<Rightarrow> (string \<times> string) result" where
  "GenerateKeyPair K rnd =
     rbind (rsa_generate K rnd) (\<lambda>key.
     rbind (marshal_pkix K (public_of K key)) (\<lambda>pub.
       Ok (pem_encode K ''RSA PRIVATE KEY'' (marshal_pkcs1 K key), pem_encode K ''PUBLIC KEY'' pub)))"

definition ParsePrivateKeyPEM :: "crypto \<Rightarrow> string \<Rightarrow> rsa_key result" where
  "ParsePrivateKeyPEM K data =
     (case pem_decode K data of
        None \<Rightarrow> Err ''parse private key: no PEM block''
      | Some block \<Rightarrow>
        (case parse_pkcs1 K block of
           Inr key \<Rightarrow> Ok key
         | Inl _ \<Rightarrow>
           (case parse_pkcs8 K block of
              Inl e \<Rightarrow> Err (''parse private key: '' @ e)
            | Inr (RSA_key key) \<Rightarrow> Ok key
            | Inr Other_key \<Rightarrow> Err ''parse private key: not RSA'')))"

definition ParsePublicKeyPEM :: "crypto \<Rightarrow> string \<Rightarrow> rsa_key result" where
  "ParsePublicKeyPEM K data =
     (case pem_decode K data of
        None \<Rightarrow> Err ''parse public key: no PEM block''
      | Some block \<Rightarrow>
        (case parse_pkix K block of
           Inl e \<Rightarrow> Err (''parse public key: '' @ e)
         | Inr (RSA_key key) \<Rightarrow> Ok key
         | Inr Other_key \<Rightarrow> Err ''parse public key: not RSA''))"

subsection \<open>Tokens\<close>

record Claims =
  TenantID :: string
  Subject :: string
  IssuedAt :: int
  ExpiresAt :: int

definition zero_claims :: Claims where
  "zero_claims = \<lparr>TenantID = [], Subject = [], IssuedAt = 0, ExpiresAt = 0\<rparr>"

definition claims_json :: "Claims \<Rightarrow> json" where
  "claims_json c = JObj [(''tenant_id'', JStr (TenantID c)), (''sub'', JStr (Subject c)),
     (''iat'', JNum (itoa (IssuedAt c))), (''exp'', JNum (itoa (ExpiresAt c)))]"

definition claims_decoder :: "Claims decoder" where
  "claims_decoder = dec_struct
     [(''tenant_id'', field TenantID (\<lambda>x. TenantID_update (\<lambda>_. x)) dec_string),
      (''sub'', field Subject (\<lambda>x. Subject_update (\<lambda>_. x)) dec_string),
      (''iat'', field IssuedAt (\<lambda>x. IssuedAt_update (\<lambda>_. x)) dec_int),
      (''exp'', field ExpiresAt (\<lambda>x. ExpiresAt_update (\<lambda>_. x)) dec_int)]"

record TokenHeader =
  Alg :: string
  Typ :: string

definition header_json :: json where
  "header_json = JObj [(''alg'', JStr ''RS256''), (''typ'', JStr ''JWT'')]"

definition header_decoder :: "TokenHeader decoder" where
  "header_decoder = dec_struct
     [(''alg'', field Alg (\<lambda>x. Alg_update (\<lambda>_. x)) dec_string),
      (''typ'', field Typ (\<lambda>x. Typ_update (\<lambda>_. x)) dec_string)]"

definition unsigned_token :: "Claims \<Rightarrow> string" where
  "unsigned_token c =
     EncodeToString (render header_json) @ ''.'' @ EncodeToString (render (claims_json c))"

definition SignRS256 :: "crypto \<Rightarrow> rsa_key \<Rightarrow> Claims \<Rightarrow> string result" where
  "SignRS256 K privateKey c =
     rbind (rsa_sign K privateKey (sha256_sum K (unsigned_token c))) (\<lambda>sig.
       Ok (unsigned_token c @ ''.'' @ EncodeToString sig))"

definition ErrInvalidToken :: string where "ErrInvalidToken = ''invalid jwt''"
definition ErrExpiredToken :: string where "ErrExpiredToken = ''jwt expired''"

text \<open>\<open>Verifier\<close>: the public key, if one is configured, and the clock in Unix seconds.\<close>

record Verifier =
  PublicKey :: "rsa_key option"
  Now :: int

definition Verify :: "crypto \<Rightarrow> Verifier \<Rightarrow> string \<Rightarrow> Claims result" where
  "Verify K v token =
     (case (split_on CHR ''.'' token, PublicKey v) of
        ([p0, p1, p2], Some pub) \<Rightarrow>
          (case map_option (unmarshal_into \<lparr>Alg = [], Typ = []\<rparr> header_decoder) (DecodeString p0) of
             Some (Some header) \<Rightarrow>
               if Alg header \<noteq> ''RS256'' then Err ErrInvalidToken
               else (case DecodeString p2 of
                  None \<Rightarrow> Err ErrInvalidToken
                | Some sig \<Rightarrow>
                  if \<not> rsa_verify K pub (sha256_sum K (p0 @ ''.'' @ p1)) sig then Err ErrInvalidToken
                  else (case map_option (unmarshal_into zero_claims claims_decoder) (DecodeString p1) of
                     Some (Some claims) \<Rightarrow>
                       if TenantID claims = [] \<or> Subject claims = [] then Err ErrInvalidToken
                       else if ExpiresAt claims \<le> 0 \<or> ExpiresAt claims \<le> Now v then Err ErrExpiredToken
                       else Ok claims
                   | _ \<Rightarrow> Err ErrInvalidToken))
           | _ \<Rightarrow> Err ErrInvalidToken)
      | _ \<Rightarrow> Err ErrInvalidToken)"

definition BearerToken :: "string \<Rightarrow> string option" where
  "BearerToken header =
     (if \<not> has_prefix ''Bearer '' header then None
      else (let token = trim_space (trim_prefix ''Bearer '' header)
            in if token = [] then None else Some token))"

subsection \<open>Who is calling\<close>

text \<open>The HTTP middleware: the claims the handler sees, or the detail of the 401 answer.\<close>

definition jwtMiddleware :: "crypto \<Rightarrow> Verifier \<Rightarrow> string \<Rightarrow> Claims result" where
  "jwtMiddleware K v authorization =
     (case BearerToken authorization of
        None \<Rightarrow> Err ''missing bearer token''
      | Some token \<Rightarrow> Verify K v token)"

text \<open>The MCP server.\<close>

record mcp_server =
  mcp_Verifier :: Verifier
  DefaultToken :: string

definition tenantFromAuthorization :: "crypto \<Rightarrow> mcp_server \<Rightarrow> string \<Rightarrow> string result" where
  "tenantFromAuthorization K s authorization =
     (let trimmed = trim_space authorization
      in if trimmed = [] then Err ''missing authorization token''
         else (let token = (case BearerToken trimmed of Some bearer \<Rightarrow> bearer | None \<Rightarrow> trimmed)
               in case Verify K (mcp_Verifier s) token of
                    Inl e \<Rightarrow> Err (''invalid authorization token: '' @ e)
                  | Inr claims \<Rightarrow>
                    if TenantID claims = [] then Err ''invalid authorization token: missing tenant_id''
                    else Ok (TenantID claims)))"

subsection \<open>Tokens read back\<close>

lemma key_folds:
  "fold_name ''tenant_id'' = map fold_rune [116,101,110,97,110,116,95,105,100]"
  "fold_name ''sub'' = map fold_rune [115,117,98]" "fold_name ''iat'' = map fold_rune [105,97,116]"
  "fold_name ''exp'' = map fold_rune [101,120,112]" "fold_name ''alg'' = map fold_rune [97,108,103]"
  "fold_name ''typ'' = map fold_rune [116,121,112]"
  by (simp_all add: fold_name_eqs byte_def)

definition claims_ok :: "Claims \<Rightarrow> bool" where
  "claims_ok c \<longleftrightarrow> valid_utf8 (TenantID c) \<and> valid_utf8 (Subject c)
     \<and> min_int \<le> IssuedAt c \<and> IssuedAt c \<le> max_int \<and> min_int \<le> ExpiresAt c \<and> ExpiresAt c \<le> max_int"

lemma claims_roundtrip:
  assumes "claims_ok c"
  shows "unmarshal_into zero_claims claims_decoder (render (claims_json c)) = Some c"
proof -
  have "json_ok (claims_json c)" using assms
    by (auto simp: claims_json_def claims_ok_def intro!: ascii_valid_utf8) (simp_all add: byte_def)
  then have "Unmarshal (render (claims_json c)) = Some (claims_json c)"
    by (rule Unmarshal_render) (simp add: claims_json_def maxNestingDepth_def)
  then show ?thesis using assms
    by (simp add: unmarshal_into_def claims_decoder_def claims_json_def key_folds fold_rune_def field_def
        zero_claims_def claims_ok_def atoi_itoa)
qed

lemma header_roundtrip:
  "unmarshal_into z header_decoder (render header_json) = Some (z\<lparr>Alg := ''RS256'', Typ := ''JWT''\<rparr>)"
proof -
  have "json_ok header_json"
    by (auto simp: header_json_def intro!: ascii_valid_utf8) (simp_all add: byte_def)
  then have "Unmarshal (render header_json) = Some header_json"
    by (rule Unmarshal_render) (simp add: header_json_def maxNestingDepth_def)
  then show ?thesis
    by (simp add: unmarshal_into_def header_decoder_def header_json_def key_folds fold_rune_def field_def)
qed

lemma split_on_none: "d \<notin> set s \<Longrightarrow> split_on d s = [s]"
  by (induction s) auto

lemma split_on_part: "d \<notin> set s \<Longrightarrow> split_on d (s @ d # t) = s # split_on d t"
  by (induction s) auto

lemma split_token:
  "split_on CHR ''.'' (EncodeToString a @ ''.'' @ EncodeToString b @ ''.'' @ EncodeToString c)
     = [EncodeToString a, EncodeToString b, EncodeToString c]"
  by (simp add: split_on_part split_on_none EncodeToString_no_dot)


lemma verify_signed:
  assumes "claims_ok c" "TenantID c \<noteq> []" "Subject c \<noteq> []"
    and "rsa_verify K pk (sha256_sum K (unsigned_token c)) sig" "PublicKey v = Some pk"
  shows "Verify K v (unsigned_token c @ ''.'' @ EncodeToString sig)
     = (if 0 < ExpiresAt c \<and> Now v < ExpiresAt c then Inr c else Inl ErrExpiredToken)"
  using assms split_token [of "render header_json" "render (claims_json c)" sig]
  by (simp add: Verify_def unsigned_token_def DecodeString_EncodeToString header_roundtrip claims_roundtrip)

text \<open>What Go's \<open>crypto\<close> packages document: a PEM block and a key in each format read back, and a
  signature verifies under the public half of the key that made it.\<close>

definition keys_read_back :: "crypto \<Rightarrow> bool" where
  "keys_read_back K \<longleftrightarrow>
     (\<forall>ty b. pem_decode K (pem_encode K ty b) = Some b) \<and>
     (\<forall>k. parse_pkcs1 K (marshal_pkcs1 K k) = Inr k) \<and>
     (\<forall>k b. marshal_pkix K k = Inr b \<longrightarrow> parse_pkix K b = Inr (RSA_key k)) \<and>
     (\<forall>k d sig. rsa_sign K k d = Inr sig \<longrightarrow> rsa_verify K (public_of K k) d sig)"

text \<open>C26. A token signed with a generated private key is accepted under the generated public key until it
  expires, with exactly the claims that were signed, whatever bytes the tenant and subject are made of.\<close>

theorem token_roundtrip:
  assumes "keys_read_back K" "GenerateKeyPair K rnd = Inr (privatePEM, publicPEM)"
    and "rbind (ParsePrivateKeyPEM K privatePEM) (\<lambda>sk. SignRS256 K sk c) = Inr token"
    and "claims_ok c" "TenantID c \<noteq> []" "Subject c \<noteq> []" "0 < ExpiresAt c"
  shows "rbind (ParsePublicKeyPEM K publicPEM) (\<lambda>pk. Verify K \<lparr>PublicKey = Some pk, Now = t\<rparr> token)
     = (if t < ExpiresAt c then Inr c else Inl ErrExpiredToken)"
proof -
  from assms(2) obtain key pub where key: "marshal_pkix K (public_of K key) = Inr pub"
    "privatePEM = pem_encode K ''RSA PRIVATE KEY'' (marshal_pkcs1 K key)"
    "publicPEM = pem_encode K ''PUBLIC KEY'' pub"
    by (auto simp: GenerateKeyPair_def rbind_Inr_iff)
  with assms(1) have parse: "ParsePrivateKeyPEM K privatePEM = Inr key"
    "ParsePublicKeyPEM K publicPEM = Inr (public_of K key)"
    by (simp_all add: keys_read_back_def ParsePrivateKeyPEM_def ParsePublicKeyPEM_def)
  with assms(3) obtain sig where sig: "rsa_sign K key (sha256_sum K (unsigned_token c)) = Inr sig"
    "token = unsigned_token c @ ''.'' @ EncodeToString sig"
    by (auto simp: SignRS256_def rbind_Inr_iff)
  from sig(1) assms(1) have "rsa_verify K (public_of K key) (sha256_sum K (unsigned_token c)) sig"
    by (simp add: keys_read_back_def)
  with verify_signed [OF assms(4-6) this] parse sig(2) assms(7) show ?thesis by simp
qed

text \<open>A crypto record for examples: the signature is the digest itself, keys are numbers.\<close>

definition toy_crypto :: crypto where
  "toy_crypto = \<lparr>sha256_sum = (\<lambda>s. s), rsa_sign = (\<lambda>_ d. Inr d), rsa_verify = (\<lambda>_ d s. s = d),
     rsa_generate = (\<lambda>rnd. Inr (7 + length rnd)), public_of = (\<lambda>k. k), pem_encode = (\<lambda>_ b. b), pem_decode = Some,
     marshal_pkcs1 = nat_digits, marshal_pkix = (\<lambda>k. Inr (nat_digits k)),
     parse_pkcs1 = (\<lambda>b. Inr (nat (decimal 0 b))), parse_pkcs8 = (\<lambda>_. Inl ''unused''),
     parse_pkix = (\<lambda>b. Inr (RSA_key (nat (decimal 0 b))))\<rparr>"

definition dev_claims :: Claims where
  "dev_claims = \<lparr>TenantID = ''11111111-1111-1111-1111-111111111111'', Subject = ''dev'',
     IssuedAt = 1000, ExpiresAt = 87400\<rparr>"

lemma dev_claims_ok: "claims_ok dev_claims"
  by (auto simp: claims_ok_def dev_claims_def min_int_def max_int_def intro!: ascii_valid_utf8)
    (simp_all add: byte_def)

lemma toy_keys: "keys_read_back toy_crypto"
  by (simp add: keys_read_back_def toy_crypto_def decimal_nat_digits)

theorem token_roundtrip_witness:
  "rbind (ParsePublicKeyPEM toy_crypto (nat_digits 7))
      (\<lambda>pk. Verify toy_crypto \<lparr>PublicKey = Some pk, Now = 2000\<rparr>
        (unsigned_token dev_claims @ ''.'' @ EncodeToString (unsigned_token dev_claims))) = Inr dev_claims"
proof -
  have "GenerateKeyPair toy_crypto [] = Inr (nat_digits 7, nat_digits 7)"
    by (simp add: GenerateKeyPair_def toy_crypto_def)
  moreover have "rbind (ParsePrivateKeyPEM toy_crypto (nat_digits 7)) (\<lambda>sk. SignRS256 toy_crypto sk dev_claims)
      = Inr (unsigned_token dev_claims @ ''.'' @ EncodeToString (unsigned_token dev_claims))"
    by (simp add: ParsePrivateKeyPEM_def SignRS256_def toy_crypto_def)
  moreover have "TenantID dev_claims \<noteq> []" "Subject dev_claims \<noteq> []" "0 < ExpiresAt dev_claims"
    "2000 < ExpiresAt dev_claims" by (simp_all add: dev_claims_def)
  ultimately show ?thesis
    using token_roundtrip [OF toy_keys _ _ dev_claims_ok, of "[]" "nat_digits 7" "nat_digits 7"] by simp
qed

lemma split_on_parts_no: "p \<in> set (split_on d s) \<Longrightarrow> d \<notin> set p"
  by (induction s arbitrary: p) (auto split: if_splits list.splits)

lemma Verify_accepts:
  assumes "Verify K v token = Inr c"
  obtains p0 p1 p2 pk h sig where "token = p0 @ ''.'' @ p1 @ ''.'' @ p2" "CHR ''.'' \<notin> set p0"
    "PublicKey v = Some pk" "rsa_verify K pk (sha256_sum K (p0 @ ''.'' @ p1)) sig"
    "map_option (unmarshal_into \<lparr>Alg = [], Typ = []\<rparr> header_decoder) (DecodeString p0) = Some (Some h)"
    "Alg h = ''RS256''" "DecodeString p2 = Some sig"
    "map_option (unmarshal_into zero_claims claims_decoder) (DecodeString p1) = Some (Some c)"
    "TenantID c \<noteq> []" "Subject c \<noteq> []" "0 < ExpiresAt c" "Now v < ExpiresAt c"
proof -
  from assms obtain p0 p1 p2 pk where split: "split_on CHR ''.'' token = [p0, p1, p2]" "PublicKey v = Some pk"
    by (simp add: Verify_def split: prod.splits list.splits option.splits)
  from assms split obtain h sig where sig:
    "rsa_verify K pk (sha256_sum K (p0 @ ''.'' @ p1)) sig"
    "map_option (unmarshal_into \<lparr>Alg = [], Typ = []\<rparr> header_decoder) (DecodeString p0) = Some (Some h)"
    "Alg h = ''RS256''" "DecodeString p2 = Some sig"
    "map_option (unmarshal_into zero_claims claims_decoder) (DecodeString p1) = Some (Some c)"
    "TenantID c \<noteq> []" "Subject c \<noteq> []" "0 < ExpiresAt c" "Now v < ExpiresAt c"
    by (auto simp: Verify_def split: option.splits if_splits)
  have "token = p0 @ ''.'' @ p1 @ ''.'' @ p2"
    using join_split_on [of "CHR ''.''" token] split(1) by simp
  moreover have "CHR ''.'' \<notin> set p0"
    using split_on_parts_no [of _ "CHR ''.''" token] split(1) by auto
  ultimately show ?thesis using that split(2) sig by blast
qed

lemma Verify_names_tenant: "Verify K v token = Inr c \<Longrightarrow> TenantID c \<noteq> []"
  by (erule Verify_accepts)

lemma split_once:
  "a @ d # b = a' @ d # b' \<Longrightarrow> d \<notin> set a \<Longrightarrow> d \<notin> set a' \<Longrightarrow> a = a' \<and> b = b'"
  by (induction a arbitrary: a') (auto simp: Cons_eq_append_conv)

text \<open>Claims read from bytes that were signed for issued claims are those issued claims.\<close>

lemma decoded_claims_issued:
  assumes "p0 @ ''.'' @ p1 = unsigned_token c'" "CHR ''.'' \<notin> set p0" "claims_ok c'"
    and "map_option (unmarshal_into zero_claims claims_decoder) (DecodeString p1) = Some (Some c)"
  shows "c = c'"
proof -
  have "p1 = EncodeToString (render (claims_json c'))"
    using assms(1) split_once [of p0 "CHR ''.''" p1] assms(2) EncodeToString_no_dot
    by (simp add: unsigned_token_def)
  with assms(3,4) show ?thesis by (simp add: DecodeString_EncodeToString claims_roundtrip)
qed

text \<open>C27. What a token must carry to be accepted, whoever made it: three parts, a header that names \<open>RS256\<close>, and
  a signature that verifies under the configured public key over exactly its first two parts. The
  claims it is accepted with are unexpired, name a tenant and a subject, and are read from those signed
  bytes: for any set of claims that were issued, either they are among them, or the token itself holds
  a signature of a message that was not signed for any of them. No property of RSA is assumed: to get
  past \<open>Verify\<close> with claims of one's own one has to forge such a signature.\<close>

theorem acceptance_needs_signature:
  assumes "Verify K v token = Inr c" and "\<And>i. i \<in> issued \<Longrightarrow> claims_ok i"
  shows "\<exists>pk p0 p1 p2 h sig. PublicKey v = Some pk \<and> token = p0 @ ''.'' @ p1 @ ''.'' @ p2
     \<and> map_option (unmarshal_into \<lparr>Alg = [], Typ = []\<rparr> header_decoder) (DecodeString p0) = Some (Some h)
     \<and> Alg h = ''RS256'' \<and> DecodeString p2 = Some sig
     \<and> rsa_verify K pk (sha256_sum K (p0 @ ''.'' @ p1)) sig
     \<and> (c \<in> issued \<or> p0 @ ''.'' @ p1 \<notin> unsigned_token ` issued)
     \<and> TenantID c \<noteq> [] \<and> Subject c \<noteq> [] \<and> 0 < ExpiresAt c \<and> Now v < ExpiresAt c"
  using assms(1) decoded_claims_issued [OF _ _ assms(2)] by (elim Verify_accepts) blast

text \<open>\<open>toy_crypto\<close> accepts the digest as signature, which anybody can make: against it the token below is
  a forgery for everybody who issued nothing, and the theorem finds it.\<close>

theorem acceptance_needs_signature_witness:
  "let token = unsigned_token dev_claims @ ''.'' @ EncodeToString (unsigned_token dev_claims)
   in Verify toy_crypto \<lparr>PublicKey = Some 7, Now = 2000\<rparr> token = Inr dev_claims
     \<and> (\<exists>p0 p1 p2 sig. token = p0 @ ''.'' @ p1 @ ''.'' @ p2 \<and> DecodeString p2 = Some sig
          \<and> rsa_verify toy_crypto 7 (sha256_sum toy_crypto (p0 @ ''.'' @ p1)) sig)"
proof -
  have v: "Verify toy_crypto \<lparr>PublicKey = Some 7, Now = 2000\<rparr>
      (unsigned_token dev_claims @ ''.'' @ EncodeToString (unsigned_token dev_claims)) = Inr dev_claims"
    using verify_signed [OF dev_claims_ok, of toy_crypto 7 "unsigned_token dev_claims"
        "\<lparr>PublicKey = Some 7, Now = 2000\<rparr>"]
    by (simp add: toy_crypto_def) (simp add: dev_claims_def)
  with acceptance_needs_signature [OF v, of "{}"] show ?thesis by (auto simp: Let_def)
qed

subsection \<open>Two front doors, one rule\<close>

lemma chunks_ascii_append: "is_ascii s \<Longrightarrow> chunks (s @ t) = map (\<lambda>c. [c]) s @ chunks t"
  by (induction s) (simp_all add: chunks_ascii_Cons)

lemma dropWhile_nonempty_append:
  "dropWhile p xs \<noteq> [] \<Longrightarrow> dropWhile p (xs @ ys) = dropWhile p xs @ ys"
  by (induction xs) auto

lemma trim_ends_eq_Nil: "trim_ends p xs = [] \<longleftrightarrow> list_all p xs"
proof -
  have "trim_ends p xs = [] \<longleftrightarrow> list_all p (dropWhile p xs)"
    by (auto simp: trim_ends_def list_all_iff)
  also have "\<dots> \<longleftrightarrow> list_all p xs" by (induction xs) auto
  finally show ?thesis .
qed

lemma trim_ends_drop_trailing: "trim_ends p (rev (dropWhile p (rev xs))) = trim_ends p xs"
proof -
  have "xs = rev (dropWhile p (rev xs)) @ rev (takeWhile p (rev xs))"
    by (metis rev_append rev_rev_ident takeWhile_dropWhile_id)
  moreover define ys zs where "ys = rev (dropWhile p (rev xs))" and "zs = rev (takeWhile p (rev xs))"
  moreover have "list_all p zs" by (auto simp: zs_def list_all_iff dest: set_takeWhileD)
  ultimately have x: "xs = ys @ zs" "ys = rev (dropWhile p (rev xs))" "list_all p zs" by simp_all
  show ?thesis
  proof (cases "list_all p ys")
    case True
    with x show ?thesis by (metis list_all_append trim_ends_eq_Nil)
  next
    case False
    then have "dropWhile p ys \<noteq> []" by (simp add: list_all_iff)
    then have d: "dropWhile p xs = dropWhile p ys @ zs" using x(1) dropWhile_nonempty_append by metis
    have "dropWhile p (rev zs @ rev (dropWhile p ys)) = dropWhile p (rev (dropWhile p ys))"
      using x(3) by (intro dropWhile_append2) (auto simp: list_all_iff)
    with d x(2) show ?thesis by (simp add: trim_ends_def)
  qed
qed

text \<open>Trimming a header before its prefix is cut off changes nothing, unless nothing else is there.\<close>

lemma bearer_of_trimmed:
  assumes "BearerToken h = Some tok"
  shows "trim_space h \<noteq> [] \<and> BearerToken (trim_space h) = Some tok"
proof -
  let ?b = "map (\<lambda>c. [c]) ''Bearer ''"
  define r where "r = drop 7 h"
  from assms have pre: "has_prefix ''Bearer '' h"
    unfolding BearerToken_def by (simp split: if_splits)
  have seven: "length ''Bearer '' = 7" by simp
  have "take 7 h = ''Bearer ''" using pre unfolding has_prefix_def seven .
  then have h: "h = ''Bearer '' @ r" using append_take_drop_id [of 7 h] unfolding r_def by metis
  have "trim_prefix ''Bearer '' h = r" using pre unfolding trim_prefix_def r_def seven by simp
  with assms pre have tok: "tok = trim_space r" "tok \<noteq> []"
    unfolding BearerToken_def by (simp_all add: Let_def split: if_splits)
  have ascii: "is_ascii ''Bearer ''" by (simp add: byte_def)
  have ch: "chunks h = ?b @ chunks r" using chunks_ascii_append [OF ascii] h by simp
  have "\<not> space_chunk ''B''"
    by (simp add: space_chunk_def chunk_rune_ascii byte_def is_space_def)
  then have lead: "dropWhile space_chunk (chunks h) = chunks h" by (simp add: ch)
  define t where "t = rev (dropWhile space_chunk (rev (chunks r)))"
  have "\<not> list_all space_chunk (chunks r)"
    using tok trim_ends_eq_Nil [of space_chunk "chunks r"] by (auto simp: trim_space_def)
  then have ne: "dropWhile space_chunk (rev (chunks r)) \<noteq> []" by (auto simp: list_all_iff)
  have trim: "trim_ends space_chunk (chunks h) = ?b @ t"
    unfolding trim_ends_def lead unfolding ch t_def rev_append dropWhile_nonempty_append [OF ne]
    by (simp only: rev_append rev_rev_ident)
  have t_take: "t = take (length t) (chunks r)"
    by (metis append_eq_conv_conj rev_append rev_rev_ident t_def takeWhile_dropWhile_id)
  have "chunks (concat t) = t" using chunks_take_boundary [of "length t" r] t_take by metis
  then have "trim_space (concat t) = trim_space r"
    using trim_ends_drop_trailing [of space_chunk "chunks r"] by (simp add: trim_space_def t_def)
  moreover have "trim_space h = ''Bearer '' @ concat t" by (simp add: trim_space_def trim)
  moreover have "take (length u) (u @ v) = u" "drop (length u) (u @ v) = v" for u v :: string by simp_all
  ultimately show ?thesis using tok
    unfolding BearerToken_def has_prefix_def trim_prefix_def Let_def by (simp del: append_Cons)
qed

text \<open>The HTTP API and the MCP server admit the same bearer tokens, for the same tenant; but a call
  without authorization is refused by the MCP server whatever default token it was started with.\<close>

theorem front_doors_agree:
  "(case BearerToken h of
      Some _ \<Rightarrow> tenantFromAuthorization K s h =
        (case jwtMiddleware K (mcp_Verifier s) h of
           Inl e \<Rightarrow> Inl (''invalid authorization token: '' @ e) | Inr c \<Rightarrow> Inr (TenantID c))
    | None \<Rightarrow> jwtMiddleware K (mcp_Verifier s) h = Inl ''missing bearer token'')
   \<and> tenantFromAuthorization K (s\<lparr>DefaultToken := token\<rparr>) [] = Inl ''missing authorization token''"
proof -
  show ?thesis
    using bearer_of_trimmed Verify_names_tenant
    by (auto simp: tenantFromAuthorization_def jwtMiddleware_def Let_def split: sum.split option.split)
qed

end
