(* ===== verification/Llm.thy ===== *)
theory Llm
  imports WireLemmas FactPipeline Netx
begin

text \<open>
  The language-model client of \<open>internal/extractors/llm.go\<close> (its excerpt check is in \<open>Excerpt\<close>), the
  choice of a client in \<open>internal/workers/llm_config.go\<close> and the settings it is built from
  (\<open>resolveLLMRuntimeConfig\<close> in \<open>cmd/factvault/worker.go\<close>). The network is a function of the attempt
  and the request; what it answers is arbitrary. Delays between attempts take no part in the result.
\<close>

subsection \<open>Parsing proposals\<close>

definition zero_proposal :: StatementProposal where
  "zero_proposal = \<lparr>sp_SubjectText = [], sp_PropertySlug = [], sp_Value = [], sp_ValueType = [],
     sp_Excerpt = [], sp_ExcerptOffsetStart = 0, sp_ExcerptOffsetEnd = 0\<rparr>"

definition proposal_decoder :: "StatementProposal decoder" where
  "proposal_decoder = dec_struct
     [(''subject_text'', field sp_SubjectText (\<lambda>x. sp_SubjectText_update (\<lambda>_. x)) dec_string),
      (''property_slug'', field sp_PropertySlug (\<lambda>x. sp_PropertySlug_update (\<lambda>_. x)) dec_string),
      (''value'', field sp_Value (\<lambda>x. sp_Value_update (\<lambda>_. x)) dec_string),
      (''value_type'', field sp_ValueType (\<lambda>x. sp_ValueType_update (\<lambda>_. x)) dec_string),
      (''excerpt'', field sp_Excerpt (\<lambda>x. sp_Excerpt_update (\<lambda>_. x)) dec_string),
      (''excerpt_offset_start'', field sp_ExcerptOffsetStart (\<lambda>x. sp_ExcerptOffsetStart_update (\<lambda>_. x)) dec_int),
      (''excerpt_offset_end'', field sp_ExcerptOffsetEnd (\<lambda>x. sp_ExcerptOffsetEnd_update (\<lambda>_. x)) dec_int)]"

definition proposals_decoder :: "StatementProposal go_slice decoder" where
  "proposals_decoder = dec_slice zero_proposal proposal_decoder"

record proposals_wrapper =
  Proposals :: "StatementProposal go_slice"
  Statements :: "StatementProposal go_slice"

definition wrapper_decoder :: "proposals_wrapper decoder" where
  "wrapper_decoder = dec_struct
     [(''proposals'', field Proposals (\<lambda>x. Proposals_update (\<lambda>_. x)) proposals_decoder),
      (''statements'', field Statements (\<lambda>x. Statements_update (\<lambda>_. x)) proposals_decoder)]"

definition parseStatementProposals :: "string \<Rightarrow> StatementProposal list result" where
  "parseStatementProposals content =
     (case unmarshal_into ([], []) proposals_decoder content of
        Some direct \<Rightarrow> Ok (fst direct)
      | None \<Rightarrow>
        (case unmarshal_into \<lparr>Proposals = ([], []), Statements = ([], [])\<rparr> wrapper_decoder content of
           Some wrapper \<Rightarrow>
             if fst (Proposals wrapper) \<noteq> [] then Ok (fst (Proposals wrapper))
             else Ok (fst (Statements wrapper))
         | None \<Rightarrow> Err ''unable to parse statement proposals''))"

subsection \<open>The request\<close>

record LLMClient =
  BaseURL :: string
  APIKey :: string
  Model :: string

definition chat_payload :: "LLMClient \<Rightarrow> string \<Rightarrow> string" where
  "chat_payload c rawText = render (JObj
     [(''model'', JStr (Model c)),
      (''messages'', JArr
         [JObj [(''role'', JStr ''system''),
                (''content'', JStr ''Return only JSON with statement proposals for the supplied source text.'')],
          JObj [(''role'', JStr ''user''), (''content'', JStr rawText)]]),
      (''response_format'', JObj [(''type'', JStr ''json_object'')])])"

record chat_request =
  Endpoint :: string
  Headers :: "(string \<times> string) list"
  Payload :: string

definition chat_request :: "LLMClient \<Rightarrow> string \<Rightarrow> chat_request" where
  "chat_request c rawText =
     \<lparr>Endpoint = trim_right_char CHR ''/'' (BaseURL c) @ ''/chat/completions'',
      Headers = (''Content-Type'', ''application/json'')
        # (if APIKey c \<noteq> [] then [(''Authorization'', ''Bearer '' @ APIKey c)] else []),
      Payload = chat_payload c rawText\<rparr>"

text \<open>What surrounds the call: whether \<open>http.NewRequest\<close> takes the URL, whether the context is done
  before an attempt, and the answer to each attempt.\<close>

record llm_world =
  valid_request :: "string \<Rightarrow> unit result"
  ctx_done :: "nat \<Rightarrow> bool"
  answer :: "nat \<Rightarrow> chat_request \<Rightarrow> http_response result"

definition retryable :: "int \<Rightarrow> bool" where
  "retryable status \<longleftrightarrow> status = 429 \<or> 500 \<le> status"

text \<open>The loop over the three attempts: the status and body it ends with, and the attempts made.\<close>

fun attempt_loop ::
    "llm_world \<Rightarrow> int \<Rightarrow> chat_request \<Rightarrow> nat list \<Rightarrow> (int \<times> string) result \<times> nat list" where
  "attempt_loop E maxBodyBytes req [] = (Err ''no attempt'', [])"
| "attempt_loop E maxBodyBytes req (attempt # later) =
     (if attempt > 0 \<and> ctx_done E attempt then (Err ''context canceled'', [])
      else (case valid_request E (Endpoint req) of
         Inl e \<Rightarrow> (Err e, [])
       | Inr _ \<Rightarrow>
         (case answer E attempt req of
            Inl e \<Rightarrow> (Err e, [attempt])
          | Inr resp \<Rightarrow>
            (case read_limited (maxBodyBytes + 1) (Body resp) of
               Inl e \<Rightarrow> (Err e, [attempt])
             | Inr body \<Rightarrow>
               if retryable (StatusCode resp) \<and> later \<noteq> []
               then (let (r, made) = attempt_loop E maxBodyBytes req later in (r, attempt # made))
               else (Ok (StatusCode resp, body), [attempt])))))"

text \<open>\<open>chatCompletionResponse\<close>: of the reply only the contents of the choices are read.\<close>

definition completion_decoder :: "string go_slice decoder" where
  "completion_decoder = dec_struct
     [(''choices'', dec_slice [] (dec_struct [(''message'', dec_struct [(''content'', dec_string)])]))]"

definition read_completion :: "int \<Rightarrow> int \<times> string \<Rightarrow> StatementProposal list result" where
  "read_completion maxBodyBytes reply =
     (if int (length (snd reply)) > maxBodyBytes then Err ''llm response body exceeds limit''
      else if fst reply < 200 \<or> fst reply > 299
        then Err (''llm request failed: status '' @ itoa (fst reply) @ '': '' @ trim_space (snd reply))
      else (case unmarshal_into ([], []) completion_decoder (snd reply) of
         None \<Rightarrow> Err ''invalid llm response''
       | Some (choices, _) \<Rightarrow>
         (case choices of
            [] \<Rightarrow> Err ''llm response missing choices''
          | first # _ \<Rightarrow>
            (let content = trim_space first
             in if content = [] then Err ''llm response missing message content''
                else parseStatementProposals content))))"

definition Extract_llm :: "env \<Rightarrow> llm_world \<Rightarrow> LLMClient \<Rightarrow> string \<Rightarrow> StatementProposal list result \<times> nat list" where
  "Extract_llm env E c rawText =
     (let (reply, made) = attempt_loop E (maxLLMBodyBytes env) (chat_request c rawText) [0, 1, 2]
      in (rbind reply (read_completion (maxLLMBodyBytes env)), made))"

subsection \<open>Which client\<close>

record LLMRuntimeConfig =
  Provider :: string
  cfg_Model :: string
  cfg_BaseURL :: string
  cfg_APIKey :: string

definition BuildLLMExtractor ::
    "unicode_tables \<Rightarrow> LLMRuntimeConfig \<Rightarrow> (LLMClient option \<times> string) result" where
  "BuildLLMExtractor U cfg =
     (let provider0 = to_lower U (trim_space (Provider cfg));
          model = trim_space (cfg_Model cfg);
          baseURL = trim_space (cfg_BaseURL cfg);
          apiKey = trim_space (cfg_APIKey cfg);
          hasConfig = (provider0 \<noteq> [] \<or> model \<noteq> [] \<or> baseURL \<noteq> [] \<or> apiKey \<noteq> []);
          provider = (if provider0 = [] then ''local'' else provider0)
      in if \<not> hasConfig then Ok (None, ''local'')
         else if provider = ''local'' \<or> provider = ''ollama'' then
           (if model = [] then Err (''llm model required for provider '' @ quoted provider)
            else Ok (Some \<lparr>BaseURL = (if baseURL = [] then ''http://localhost:11434/v1'' else baseURL),
                       APIKey = apiKey, Model = model\<rparr>, provider))
         else if provider = ''openai'' then
           (if model = [] then Err (''llm model required for provider '' @ quoted provider)
            else if apiKey = [] then Err (''llm api key required for provider '' @ quoted provider)
            else Ok (Some \<lparr>BaseURL = (if baseURL = [] then ''https://api.openai.com/v1'' else baseURL),
                       APIKey = apiKey, Model = model\<rparr>, provider))
         else if provider = ''anthropic'' then
           Err (''llm provider '' @ quoted provider @ '' is not supported yet'')
         else Err (''unsupported llm provider '' @ quoted provider))"

definition resolveLLMRuntimeConfig ::
    "env \<Rightarrow> (string \<rightharpoonup> string) \<Rightarrow> string \<Rightarrow> string \<Rightarrow> string \<Rightarrow> LLMRuntimeConfig result" where
  "resolveLLMRuntimeConfig env files provider model0 baseURL0 =
     rbind (if model0 = []
            then map_sum id fst (ResolveStringWithAlias env None ''FACTVAULT_LLM_MODEL'' [] ''llama3.1:8b'' False)
            else Ok model0) (\<lambda>model.
     rbind (if baseURL0 = []
            then map_sum id fst (ResolveStringWithAlias env None ''FACTVAULT_LLM_BASE_URL'' ''FACTVAULT_LLM_URL''
                   ''http://localhost:11434/v1'' False)
            else Ok baseURL0) (\<lambda>baseURL.
     rbind (ResolveSecret env files None ''FACTVAULT_LLM_API_KEY'' [] False) (\<lambda>apiKey.
       Ok \<lparr>Provider = provider, cfg_Model = model, cfg_BaseURL = baseURL, cfg_APIKey = apiKey\<rparr>)))"


subsection \<open>What parsing gives back\<close>

definition proposal_json :: "StatementProposal \<Rightarrow> json" where
  "proposal_json p = JObj
     [(''subject_text'', JStr (sp_SubjectText p)), (''property_slug'', JStr (sp_PropertySlug p)),
      (''value'', JStr (sp_Value p)), (''value_type'', JStr (sp_ValueType p)),
      (''excerpt'', JStr (sp_Excerpt p)),
      (''excerpt_offset_start'', JNum (itoa (sp_ExcerptOffsetStart p))),
      (''excerpt_offset_end'', JNum (itoa (sp_ExcerptOffsetEnd p)))]"

definition proposal_ok :: "StatementProposal \<Rightarrow> bool" where
  "proposal_ok p \<longleftrightarrow> valid_utf8 (sp_SubjectText p) \<and> valid_utf8 (sp_PropertySlug p) \<and> valid_utf8 (sp_Value p)
     \<and> valid_utf8 (sp_ValueType p) \<and> valid_utf8 (sp_Excerpt p)
     \<and> min_int \<le> sp_ExcerptOffsetStart p \<and> sp_ExcerptOffsetStart p \<le> max_int
     \<and> min_int \<le> sp_ExcerptOffsetEnd p \<and> sp_ExcerptOffsetEnd p \<le> max_int"

lemma proposal_keys:
  "fold_name ''subject_text'' = [83,85,66,74,69,67,84,95,84,69,88,84]"
  "fold_name ''property_slug'' = [80,82,79,80,69,82,84,89,95,83,76,85,71]"
  "fold_name ''value'' = [86,65,76,85,69]" "fold_name ''value_type'' = [86,65,76,85,69,95,84,89,80,69]"
  "fold_name ''excerpt'' = [69,88,67,69,82,80,84]"
  "fold_name ''excerpt_offset_start'' = [69,88,67,69,82,80,84,95,79,70,70,83,69,84,95,83,84,65,82,84]"
  "fold_name ''excerpt_offset_end'' = [69,88,67,69,82,80,84,95,79,70,70,83,69,84,95,69,78,68]"
  "fold_name ''proposals'' = [80,82,79,80,79,83,65,76,83]"
  "fold_name ''statements'' = [83,84,65,84,69,77,69,78,84,83]"
  by (simp_all add: fold_name_eqs byte_def fold_rune_def)

lemma proposal_decoded:
  "proposal_ok p \<Longrightarrow> proposal_decoder zero_proposal (proposal_json p) = Some p"
  by (simp add: proposal_decoder_def proposal_json_def zero_proposal_def proposal_keys field_def
      proposal_ok_def atoi_itoa)

lemma proposal_json_ok: "proposal_ok p \<Longrightarrow> json_ok (proposal_json p)"
  by (auto simp: proposal_json_def proposal_ok_def intro!: ascii_valid_utf8) (simp_all add: byte_def)

lemma proposal_depth: "json_depth (proposal_json p) = 1"
  by (simp add: proposal_json_def)

lemma proposals_depth: "json_depth (JArr (map proposal_json ps)) \<le> 2"
  by (simp add: fold_max_le proposal_depth)

lemma proposals_decoded:
  "list_all proposal_ok ps \<Longrightarrow>
     proposals_decoder ([], []) (JArr (map proposal_json ps)) = Some (ps, [])"
  unfolding proposals_decoder_def
  by (rule dec_slice_fresh) (auto simp: list_all_iff proposal_decoded)

lemma proposals_unmarshal:
  assumes "list_all proposal_ok ps"
  shows "Unmarshal (render (JArr (map proposal_json ps))) = Some (JArr (map proposal_json ps))"
    and "is_ascii k \<Longrightarrow> Unmarshal (render (JObj [(k, JArr (map proposal_json ps))]))
           = Some (JObj [(k, JArr (map proposal_json ps))])"
proof -
  have ok: "json_ok (JArr (map proposal_json ps))"
    using assms by (auto simp: list_all_iff proposal_json_ok)
  from proposals_depth [of ps] show "Unmarshal (render (JArr (map proposal_json ps))) = Some (JArr (map proposal_json ps))"
    by (intro Unmarshal_render ok) (simp add: maxNestingDepth_def)
  show "Unmarshal (render (JObj [(k, JArr (map proposal_json ps))])) = Some (JObj [(k, JArr (map proposal_json ps))])"
    if "is_ascii k"
    using proposals_depth [of ps] ok ascii_valid_utf8 [OF that]
    by (intro Unmarshal_render) (simp_all add: maxNestingDepth_def)
qed

text \<open>However a model wraps its proposals, the client reads them all back: a bare array, an object with
  \<open>proposals\<close> or an object with \<open>statements\<close>, for any valid text and 64-bit offsets; and an empty list is
  an answer, not an error.\<close>

theorem proposals_roundtrip:
  assumes "list_all proposal_ok ps"
  shows "parseStatementProposals (render (JArr (map proposal_json ps))) = Inr ps
    \<and> parseStatementProposals (render (JObj [(''proposals'', JArr (map proposal_json ps))])) = Inr ps
    \<and> parseStatementProposals (render (JObj [(''statements'', JArr (map proposal_json ps))])) = Inr ps"
proof -
  have ascii: "is_ascii ''proposals''" "is_ascii ''statements''" by (simp_all add: byte_def)
  note U = proposals_unmarshal(1) [OF assms] proposals_unmarshal(2) [OF assms ascii(1)]
    proposals_unmarshal(2) [OF assms ascii(2)]
  have obj: "proposals_decoder old (JObj kvs) = None" for old kvs by (simp add: proposals_decoder_def)
  show ?thesis
    using proposals_decoded [OF assms]
    by (simp add: parseStatementProposals_def unmarshal_into_def U obj wrapper_decoder_def proposal_keys
        field_def del: render.simps)
qed

theorem proposals_roundtrip_witness:
  "parseStatementProposals (render (JArr [proposal_json (zero_proposal\<lparr>sp_Excerpt := ''a\<newline>b'', sp_ExcerptOffsetEnd := 3\<rparr>)]))
     = Inr [zero_proposal\<lparr>sp_Excerpt := ''a\<newline>b'', sp_ExcerptOffsetEnd := 3\<rparr>]"
proof -
  have "list_all proposal_ok [zero_proposal\<lparr>sp_Excerpt := ''a\<newline>b'', sp_ExcerptOffsetEnd := 3\<rparr>]"
    by (simp add: proposal_ok_def zero_proposal_def ascii_valid_utf8 byte_def min_int_def max_int_def)
  from proposals_roundtrip [OF this] show ?thesis by simp
qed

subsection \<open>Retries\<close>

text \<open>An attempt that lets the loop go on: an answer that could be read, with status 429 or 5xx.\<close>

definition transient :: "llm_world \<Rightarrow> int \<Rightarrow> chat_request \<Rightarrow> nat \<Rightarrow> bool" where
  "transient E m req j \<longleftrightarrow> (case answer E j req of
     Inl _ \<Rightarrow> False
   | Inr resp \<Rightarrow> retryable (StatusCode resp) \<and> is_ok (read_limited (m + 1) (Body resp)))"

lemma attempt_loop_transient:
  assumes "transient E m req j" "later \<noteq> []" "valid_request E (Endpoint req) = Inr ()"
    and "j > 0 \<longrightarrow> \<not> ctx_done E j"
  shows "attempt_loop E m req (j # later)
    = (fst (attempt_loop E m req later), j # snd (attempt_loop E m req later))"
  using assms
  by (auto simp: transient_def is_ok_def Let_def split_beta split: sum.splits)

lemma attempt_loop_end:
  assumes "answer E j req = Inr resp" "read_limited (m + 1) (Body resp) = Inr body"
    and "\<not> retryable (StatusCode resp) \<or> later = []" "valid_request E (Endpoint req) = Inr ()"
    and "j > 0 \<longrightarrow> \<not> ctx_done E j"
  shows "attempt_loop E m req (j # later) = (Inr (StatusCode resp, body), [j])"
  using assms by auto

lemma attempts_exact:
  assumes "valid_request E (Endpoint req) = Inr ()" "\<forall>j \<le> n + k. j > 0 \<longrightarrow> \<not> ctx_done E j"
    and "\<forall>j. n \<le> j \<and> j < n + k \<longrightarrow> transient E m req j"
    and "answer E (n + k) req = Inr resp" "read_limited (m + 1) (Body resp) = Inr body"
    and "k \<le> i" "\<not> retryable (StatusCode resp) \<or> k = i"
  shows "attempt_loop E m req [n..<Suc (n + i)] = (Inr (StatusCode resp, body), [n..<Suc (n + k)])"
  using assms
proof (induction k arbitrary: n i)
  case 0
  then show ?case
    by (subst upt_conv_Cons, simp, subst attempt_loop_end) (auto simp del: attempt_loop.simps)
next
  case (Suc k)
  then obtain i' where i: "i = Suc i'" by (cases i) auto
  have "attempt_loop E m req [Suc n..<Suc (Suc n + i')] = (Inr (StatusCode resp, body), [Suc n..<Suc (Suc n + k)])"
    by (rule Suc.IH) (use Suc.prems i in auto)
  moreover have "attempt_loop E m req (n # [Suc n..<Suc (Suc n + i')])
      = (fst (attempt_loop E m req [Suc n..<Suc (Suc n + i')]), n # snd (attempt_loop E m req [Suc n..<Suc (Suc n + i')]))"
    by (rule attempt_loop_transient) (use Suc.prems in auto)
  moreover have "[n..<Suc (n + i)] = n # [Suc n..<Suc (Suc n + i')]" "[n..<Suc (n + Suc k)] = n # [Suc n..<Suc (Suc n + k)]"
    using i by (simp_all add: upt_conv_Cons)
  ultimately show ?case by (simp only: fst_conv snd_conv)
qed


definition flaky_world :: llm_world where
  "flaky_world = \<lparr>valid_request = (\<lambda>_. Inr ()), ctx_done = (\<lambda>_. False),
     answer = (\<lambda>k _. Inr \<lparr>StatusCode = (if k = 0 then 429 else 200), Header = (\<lambda>_. []),
       Body = (''{}'', None)\<rparr>)\<rparr>"


subsection \<open>Which endpoint, under which guard\<close>

lemma local_lower: "to_lower U (trim_space ''local'') = ''local''"
proof -
  have "trim_space ''local'' = ''local''" by code_simp
  then show ?thesis by (simp add: to_lower_def map_runes_ascii_Cons byte_def rune_lower_def encode_rune_def)
      (simp add: char_of_def)
qed

text \<open>What the settings of \<open>worker extract\<close> lead to. A client for \<open>openai\<close> always has a key. Without
  \<open>--llm-provider\<close> the client counts as local, so the cost guardrail passes every batch, whatever hosted
  endpoint the base URL names; and with no base URL given it is the local default, also for \<open>openai\<close>.\<close>

theorem llm_settings_meaning:
  assumes "resolveLLMRuntimeConfig env files provider model baseURL = Inr cfg"
    and "BuildLLMExtractor U cfg = Inr (Some c, p)"
  shows "(p = ''openai'' \<longrightarrow> APIKey c \<noteq> [])
    \<and> p \<in> {''local'', ''ollama'', ''openai''} \<and> Model c \<noteq> []
    \<and> (provider = [] \<longrightarrow> p = ''local'' \<and> (\<forall>fp batch confirm. fp_LLMProvider fp = p \<longrightarrow>
         costGuardrail U confirm fp batch = Inr ()))
    \<and> (baseURL = [] \<and> env ''FACTVAULT_LLM_BASE_URL'' = None \<and> env ''FACTVAULT_LLM_URL'' = None \<longrightarrow>
         BaseURL c = ''http://localhost:11434/v1'')"
proof -
  have url: "trim_space ''http://localhost:11434/v1'' = ''http://localhost:11434/v1''" by code_simp
  have lower: "to_lower U [] = []" by (simp add: to_lower_def)
  from assms(1) have cfg: "Provider cfg = provider"
    "baseURL = [] \<and> env ''FACTVAULT_LLM_BASE_URL'' = None \<and> env ''FACTVAULT_LLM_URL'' = None \<longrightarrow>
       cfg_BaseURL cfg = ''http://localhost:11434/v1''"
    by (auto simp: resolveLLMRuntimeConfig_def rbind_Inr_iff ResolveStringWithAlias_def)
  have "p \<in> {''local'', ''ollama'', ''openai''} \<and> Model c \<noteq> [] \<and> (p = ''openai'' \<longrightarrow> APIKey c \<noteq> [])
      \<and> (trim_space (cfg_BaseURL cfg) \<noteq> [] \<longrightarrow> BaseURL c = trim_space (cfg_BaseURL cfg))
      \<and> (Provider cfg = [] \<longrightarrow> p = ''local'')"
    using assms(2) by (auto simp: BuildLLMExtractor_def Let_def lower split: if_splits)
  moreover have "costGuardrail U confirm fp batch = Inr ()" if "fp_LLMProvider fp = ''local''" for fp batch confirm
    using that by (simp add: costGuardrail_def local_lower split: option.split)
  ultimately show ?thesis using cfg url by auto
qed

definition hosted_env :: env where
  "hosted_env = [''FACTVAULT_LLM_BASE_URL'' \<mapsto> ''https://api.openai.com/v1'',
     ''FACTVAULT_LLM_MODEL'' \<mapsto> ''gpt-4o-mini'', ''FACTVAULT_LLM_API_KEY'' \<mapsto> ''k'']"

definition hosted_pipeline :: FactPipeline where
  "hosted_pipeline = \<lparr>fp_Deterministic = None, fp_LLM = Some (\<lambda>_ _. Inr []), fp_LLMProvider = ''local'',
     CostGuardrailThreshold = 1000, ConfirmCost = False, VocabularyMode = ''strict''\<rparr>"

theorem llm_settings_meaning_witness:
  "rbind (resolveLLMRuntimeConfig hosted_env Map.empty [] [] []) (BuildLLMExtractor ascii_tables)
     = Inr (Some \<lparr>BaseURL = ''https://api.openai.com/v1'', APIKey = ''k'', Model = ''gpt-4o-mini''\<rparr>, ''local'')
   \<and> costGuardrail ascii_tables False hosted_pipeline 1000000 = Inr ()"
proof -
  let ?cfg = "\<lparr>Provider = [], cfg_Model = ''gpt-4o-mini'', cfg_BaseURL = ''https://api.openai.com/v1'', cfg_APIKey = ''k''\<rparr>"
  have r: "resolveLLMRuntimeConfig hosted_env Map.empty [] [] [] = Inr ?cfg"
    by (simp add: resolveLLMRuntimeConfig_def ResolveStringWithAlias_def ResolveSecret_def hosted_env_def)
  have b: "BuildLLMExtractor ascii_tables ?cfg
      = Inr (Some \<lparr>BaseURL = ''https://api.openai.com/v1'', APIKey = ''k'', Model = ''gpt-4o-mini''\<rparr>, ''local'')"
    by code_simp
  from llm_settings_meaning [OF r b]
  have "costGuardrail ascii_tables False hosted_pipeline 1000000 = Inr ()"
    by (simp add: hosted_pipeline_def)
  with r b show ?thesis by simp
qed

end
