(* ===== verification/Research.thy ===== *)
theory Research
  imports WireLemmas Collectors
begin

text \<open>
  \<open>internal/research/research.go\<close>: search queries for an entity from two calls of a language model, and
  the collector that searches the web with them and fetches the pages found. The two services and the
  web are functions of the request; \<open>%q\<close> is the argument \<open>Q\<close>. A Go panic (a slice out of range) ends
  the program, so it ends the computation here too, as an error whose text says so.
\<close>

subsection \<open>Asking the model\<close>

record Entity =
  Label :: string
  EntityType :: string

record ResearchConfig =
  Perspectives :: int
  QuestionsPerPerspective :: int
  cfg_ResultsPerQuery :: int
  cfg_MaxTotalFetches :: int

record LLMConfig =
  llm_BaseURL :: string
  llm_APIKey :: string
  llm_Model :: string

record web_request =
  Method :: string
  URL :: string
  ReqHeaders :: "(string \<times> string) list"
  ReqBody :: string

type_synonym web = "web_request \<Rightarrow> http_response result"

text \<open>\<open>io.ReadAll\<close>.\<close>

definition read_all :: "string \<times> string option \<Rightarrow> string result" where
  "read_all b = (case snd b of None \<Rightarrow> Ok (fst b) | Some e \<Rightarrow> Err e)"

definition chat_decoder :: "string go_slice decoder" where
  "chat_decoder = dec_struct
     [(''choices'', dec_slice [] (dec_struct [(''message'', dec_struct [(''content'', dec_string)])]))]"

definition chat_body :: "LLMConfig \<Rightarrow> string \<Rightarrow> string \<Rightarrow> string" where
  "chat_body llm systemPrompt userPrompt = render (JObj
     [(''model'', JStr (llm_Model llm)),
      (''messages'', JArr
         [JObj [(''role'', JStr ''system''), (''content'', JStr systemPrompt)],
          JObj [(''role'', JStr ''user''), (''content'', JStr userPrompt)]]),
      (''response_format'', JObj [(''type'', JStr ''json_object'')])])"

definition chatComplete :: "web \<Rightarrow> LLMConfig \<Rightarrow> string \<Rightarrow> string \<Rightarrow> string result" where
  "chatComplete W llm systemPrompt userPrompt =
     rbind (map_sum (\<lambda>e. ''llm request: '' @ e) id
              (W \<lparr>Method = ''POST'', URL = trim_right_char CHR ''/'' (llm_BaseURL llm) @ ''/chat/completions'',
                 ReqHeaders = (''Content-Type'', ''application/json'')
                   # (if llm_APIKey llm \<noteq> [] then [(''Authorization'', ''Bearer '' @ llm_APIKey llm)] else []),
                 ReqBody = chat_body llm systemPrompt userPrompt\<rparr>)) (\<lambda>resp.
     rbind (read_all (Body resp)) (\<lambda>body.
       if StatusCode resp < 200 \<or> StatusCode resp > 299
       then Err (''llm returned status '' @ itoa (StatusCode resp) @ '': '' @ trim_space body)
       else (case unmarshal_into ([], []) chat_decoder body of
               None \<Rightarrow> Err ''parse llm response''
             | Some (choices, _) \<Rightarrow>
               (case choices of [] \<Rightarrow> Err ''llm returned empty choices'' | first # _ \<Rightarrow> Ok first))))"

text \<open>\<open>xs[:n]\<close> when there are more than \<open>n\<close> elements.\<close>

definition cap :: "int \<Rightarrow> 'a list \<Rightarrow> 'a list result" where
  "cap n xs = (if int (length xs) > n
     then (if n < 0 then Err ''panic: slice bounds out of range'' else Ok (take (nat n) xs)) else Ok xs)"

definition perspectives_prompt :: string where
  \<open>perspectives_prompt = ''You are a research strategist. Given a seed entity, return a JSON object with a "perspectives" array of distinct research angles. Each perspective is a short phrase (5-10 words). Return ONLY valid JSON.''\<close>

definition queries_prompt :: string where
  \<open>queries_prompt = ''You are a research strategist. Given an entity and research perspectives, return a JSON object with an "items" array. Each element has "perspective" (string) and "queries" (array of web search query strings). Return ONLY valid JSON.''\<close>

definition newline :: string where
  "newline = [CHR 0x0A]"

definition generatePerspectives ::
    "(string \<Rightarrow> string) \<Rightarrow> web \<Rightarrow> LLMConfig \<Rightarrow> Entity \<Rightarrow> int \<Rightarrow> string list \<Rightarrow> string list result" where
  "generatePerspectives Q W llm entity maxCount hints =
     rbind (chatComplete W llm perspectives_prompt
              (''Entity: '' @ Q (Label entity) @ '' (type: '' @ EntityType entity @ '')'' @ newline
               @ ''Generate up to '' @ itoa maxCount @ '' distinct research perspectives.'' @ newline
               @ (if hints \<noteq> [] then ''Already-covered facets (steer AWAY from these): '' @ join '', '' hints @ newline
                  else []))) (\<lambda>content.
       (case unmarshal_into ([], []) (dec_struct [(''perspectives'', dec_slice [] dec_string)]) content of
          None \<Rightarrow> Err ''parse perspectives json''
        | Some (perspectives, _) \<Rightarrow> cap maxCount perspectives))"

record perspectiveItem =
  Perspective :: string
  Queries :: "string go_slice"

definition items_decoder :: "perspectiveItem go_slice decoder" where
  "items_decoder = dec_struct
     [(''items'', dec_slice \<lparr>Perspective = [], Queries = ([], [])\<rparr>
        (dec_struct [(''perspective'', field Perspective (\<lambda>x. Perspective_update (\<lambda>_. x)) dec_string),
                     (''queries'', field Queries (\<lambda>x. Queries_update (\<lambda>_. x)) (dec_slice [] dec_string))]))]"

fun numbered :: "int \<Rightarrow> string list \<Rightarrow> string" where
  "numbered i [] = []"
| "numbered i (p # ps) = ''  '' @ itoa i @ ''. '' @ p @ newline @ numbered (i + 1) ps"

fun capped_queries :: "int \<Rightarrow> perspectiveItem list \<Rightarrow> string list result" where
  "capped_queries maxPer [] = Ok []"
| "capped_queries maxPer (item # its) =
     rbind (cap maxPer (fst (Queries item))) (\<lambda>qs. rbind (capped_queries maxPer its) (\<lambda>rest. Ok (qs @ rest)))"

definition generateQueriesForPerspectives ::
    "(string \<Rightarrow> string) \<Rightarrow> web \<Rightarrow> LLMConfig \<Rightarrow> Entity \<Rightarrow> string list \<Rightarrow> int \<Rightarrow> string list result" where
  "generateQueriesForPerspectives Q W llm entity perspectives maxPerPerspective =
     (if perspectives = [] then Ok []
      else rbind (chatComplete W llm queries_prompt
              (''Entity: '' @ Q (Label entity) @ newline
               @ ''For each perspective below, generate up to '' @ itoa maxPerPerspective @ '' web search queries.'' @ newline
               @ ''Perspectives:'' @ newline @ numbered 1 perspectives)) (\<lambda>content.
        (case unmarshal_into ([], []) items_decoder content of
           None \<Rightarrow> Err ''parse queries json''
         | Some (its, _) \<Rightarrow> capped_queries maxPerPerspective its)))"

subsection \<open>Normalisation\<close>

definition stopwords :: "string list" where
  "stopwords =
     [''a'', ''an'', ''the'', ''of'', ''in'', ''on'', ''at'', ''to'', ''for'', ''and'', ''or'', ''but'', ''is'', ''are'',
      ''was'', ''were'', ''be'', ''been'', ''by'', ''with'', ''from'', ''as'', ''into'', ''that'', ''this'', ''it'',
      ''its'', ''not'', ''do'', ''does'', ''did'', ''has'', ''have'', ''had'', ''will'', ''would'', ''can'', ''could'']"

definition normalizeQuery :: "unicode_tables \<Rightarrow> string \<Rightarrow> string" where
  "normalizeQuery U q = join '' '' (filter (\<lambda>p. p \<notin> set stopwords) (str_fields (to_lower U q)))"

definition dedup :: "unicode_tables \<Rightarrow> string list \<Rightarrow> string list" where
  "dedup U raw = dedup_by (normalizeQuery U) [] raw"

definition GenerateQueries ::
    "unicode_tables \<Rightarrow> (string \<Rightarrow> string) \<Rightarrow> web \<Rightarrow> Entity \<Rightarrow> ResearchConfig \<Rightarrow> string list \<Rightarrow> LLMConfig
       \<Rightarrow> string list result" where
  "GenerateQueries U Q W entity cfg hints llm =
     (case generatePerspectives Q W llm entity (Perspectives cfg) hints of
        Inl e \<Rightarrow> Err (''generate perspectives: '' @ e)
      | Inr perspectives \<Rightarrow>
        (case generateQueriesForPerspectives Q W llm entity perspectives (QuestionsPerPerspective cfg) of
           Inl e \<Rightarrow> Err (''generate queries: '' @ e)
         | Inr raw \<Rightarrow> Ok (dedup U raw)))"

subsection \<open>The search collector\<close>

record SearchCollector =
  sc_Queries :: "string list"
  ResultsPerQuery :: int
  MaxTotalFetches :: int
  SearchURL :: string

text \<open>\<open>url.QueryEscape\<close>.\<close>

definition hex_upper :: "int \<Rightarrow> char" where
  "hex_upper d = char_of (if d < 10 then 48 + d else 55 + d)"

definition escape_byte :: "char \<Rightarrow> string" where
  "escape_byte c =
     (let n = byte c
      in if (48 \<le> n \<and> n \<le> 57) \<or> (65 \<le> n \<and> n \<le> 90) \<or> (97 \<le> n \<and> n \<le> 122)
            \<or> c \<in> {CHR ''-'', CHR ''_'', CHR ''.'', CHR ''~''} then [c]
         else if n = 32 then ''+''
         else [CHR ''%'', hex_upper (n div 16), hex_upper (n mod 16)])"

definition QueryEscape :: "string \<Rightarrow> string" where
  "QueryEscape s = concat (map escape_byte s)"

definition searchBase :: "SearchCollector \<Rightarrow> string" where
  "searchBase s = (if SearchURL s \<noteq> [] then trim_right_char CHR ''/'' (SearchURL s)
     else ''https://searxng.petersimmons.com'')"

record searxResult =
  sr_URL :: string
  sr_Title :: string

definition searx_decoder :: "searxResult go_slice decoder" where
  "searx_decoder = dec_struct
     [(''results'', dec_slice \<lparr>sr_URL = [], sr_Title = []\<rparr>
        (dec_struct [(''url'', field sr_URL (\<lambda>x. sr_URL_update (\<lambda>_. x)) dec_string),
                     (''title'', field sr_Title (\<lambda>x. sr_Title_update (\<lambda>_. x)) dec_string)]))]"

definition search :: "web \<Rightarrow> SearchCollector \<Rightarrow> string \<Rightarrow> string list result" where
  "search W s query =
     (let n = (if ResultsPerQuery s \<le> 0 then 5 else ResultsPerQuery s)
      in rbind (W \<lparr>Method = ''GET'', URL = searchBase s @ ''/search?q='' @ QueryEscape query @ ''&format=json'',
                  ReqHeaders = [], ReqBody = []\<rparr>) (\<lambda>resp.
         rbind (read_all (Body resp)) (\<lambda>body.
           (case unmarshal_into ([], []) searx_decoder body of
              None \<Rightarrow> Err ''parse search response''
            | Some (results, _) \<Rightarrow> Ok (filter (\<lambda>u. u \<noteq> []) (map sr_URL (take (nat n) results)))))))"

definition maxFetchBodyBytes :: int where
  "maxFetchBodyBytes = 5 * 1024 * 1024"

text \<open>\<open>extractTitle\<close>: offsets found in the lower-cased page cut the page itself.\<close>

definition extractTitle :: "unicode_tables \<Rightarrow> string \<Rightarrow> string result" where
  "extractTitle U html =
     (let lower = to_lower U html
      in case str_index ''<title>'' lower of
           None \<Rightarrow> Ok []
         | Some i \<Rightarrow>
           (let start = i + 7
            in case str_index ''</title>'' (drop start lower) of
                 None \<Rightarrow> Ok []
               | Some n \<Rightarrow>
                 if start + n \<le> length html then Ok (trim_space (slice start (start + n) html))
                 else Err ''panic: slice bounds out of range''))"

text \<open>\<open>Inl\<close> is a panic, \<open>None\<close> an error.\<close>

definition fetchPage :: "unicode_tables \<Rightarrow> web \<Rightarrow> string \<Rightarrow> (string \<times> string) option result" where
  "fetchPage U W rawURL =
     (case W \<lparr>Method = ''GET'', URL = rawURL,
            ReqHeaders = [(''User-Agent'', ''factvault-research/1 (+https://github.com/petersimmons1972/factvault)'')],
            ReqBody = []\<rparr> of
        Inl _ \<Rightarrow> Ok None
      | Inr resp \<Rightarrow>
        if StatusCode resp < 200 \<or> StatusCode resp > 299 then Ok None
        else (case read_limited (maxFetchBodyBytes + 1) (Body resp) of
                Inl _ \<Rightarrow> Ok None
              | Inr body \<Rightarrow>
                if int (length body) > maxFetchBodyBytes then Ok None
                else rbind (extractTitle U body) (\<lambda>title. Ok (Some (body, title)))))"

definition web_item :: "string \<Rightarrow> string \<times> string \<Rightarrow> Item" where
  "web_item u page = \<lparr>it_URL = u, it_HTML = fst page, it_Title = snd page, it_Publisher = [],
     it_PublishedAt = None, it_Topic = [], it_Tags = [], it_Meta = [(''trust_tier'', ''web'')]\<rparr>"

text \<open>The state of \<open>Collect\<close>: the counter, the items, and every page that was requested.\<close>

record fetch_state =
  fetched :: int
  found :: "Item list"
  requested :: "string list"

fun fetch_urls ::
    "unicode_tables \<Rightarrow> web \<Rightarrow> int \<Rightarrow> string list \<Rightarrow> fetch_state \<Rightarrow> fetch_state result" where
  "fetch_urls U W maxTotal [] st = Ok st"
| "fetch_urls U W maxTotal (u # us) st =
     (if fetched st \<ge> maxTotal then Ok st
      else rbind (fetchPage U W u) (\<lambda>page.
        (case page of
           None \<Rightarrow> fetch_urls U W maxTotal us (st\<lparr>requested := requested st @ [u]\<rparr>)
         | Some p \<Rightarrow> fetch_urls U W maxTotal us
             \<lparr>fetched = fetched st + 1, found = found st @ [web_item u p], requested = requested st @ [u]\<rparr>)))"

fun run_queries ::
    "unicode_tables \<Rightarrow> web \<Rightarrow> SearchCollector \<Rightarrow> string list \<Rightarrow> fetch_state \<Rightarrow> fetch_state result" where
  "run_queries U W s [] st = Ok st"
| "run_queries U W s (q # qs) st =
     (if fetched st \<ge> MaxTotalFetches s then Ok st
      else (case search W s q of
              Inl _ \<Rightarrow> run_queries U W s qs st
            | Inr urls \<Rightarrow> rbind (fetch_urls U W (MaxTotalFetches s) urls st) (run_queries U W s qs)))"

definition Collect_search :: "unicode_tables \<Rightarrow> web \<Rightarrow> SearchCollector \<Rightarrow> fetch_state result" where
  "Collect_search U W s = run_queries U W s (sc_Queries s) \<lparr>fetched = 0, found = [], requested = []\<rparr>"


subsection \<open>What the collector fetches\<close>

text \<open>The pages a run would fetch without a limit, and the URLs it asks for until \<open>k\<close> pages are there.\<close>

definition page_item :: "unicode_tables \<Rightarrow> web \<Rightarrow> string \<Rightarrow> Item option" where
  "page_item U W u = (case fetchPage U W u of Inr (Some p) \<Rightarrow> Some (web_item u p) | _ \<Rightarrow> None)"

definition result_urls :: "web \<Rightarrow> SearchCollector \<Rightarrow> string \<Rightarrow> string list" where
  "result_urls W s q = (case search W s q of Inl _ \<Rightarrow> [] | Inr urls \<Rightarrow> urls)"

fun asked_until :: "(string \<Rightarrow> Item option) \<Rightarrow> nat \<Rightarrow> string list \<Rightarrow> string list" where
  "asked_until page k [] = []"
| "asked_until page k (u # us) =
     (if k = 0 then [] else u # asked_until page (if page u = None then k else k - 1) us)"

lemma asked_until_0 [simp]: "asked_until page 0 us = []"
  by (cases us) simp_all

lemma asked_until_append:
  "asked_until page k (us @ vs)
     = asked_until page k us @ asked_until page (k - length (List.map_filter page us)) vs"
  by (induction page k us rule: asked_until.induct) (auto simp: List.map_filter_simps split: option.split)

lemma asked_until_all:
  "0 < k \<Longrightarrow> \<forall>u \<in> set us. page u = None \<Longrightarrow> asked_until page k us = us"
  by (induction us) auto

lemma map_filter_append: "List.map_filter f (xs @ ys) = List.map_filter f xs @ List.map_filter f ys"
  by (simp add: List.map_filter_def)

text \<open>The state that holds what is left of the budget after the pages of \<open>us\<close>.\<close>

definition after :: "unicode_tables \<Rightarrow> web \<Rightarrow> int \<Rightarrow> string list \<Rightarrow> fetch_state \<Rightarrow> fetch_state" where
  "after U W m us st =
     (let k = nat (m - fetched st); got = take k (List.map_filter (page_item U W) us)
      in \<lparr>fetched = fetched st + int (length got), found = found st @ got,
          requested = requested st @ asked_until (page_item U W) k us\<rparr>)"

lemma after_Nil: "after U W m [] st = st"
  by (simp add: after_def List.map_filter_simps)

lemma after_done: "m \<le> fetched st \<Longrightarrow> after U W m us st = st"
  by (simp add: after_def)

lemma after_append: "after U W m (us @ vs) st = after U W m vs (after U W m us st)"
proof -
  let ?p = "page_item U W" and ?k = "nat (m - fetched st)"
  let ?n = "length (List.map_filter ?p us)"
  have k: "nat (m - (fetched st + int (min ?k ?n))) = ?k - ?n"
    by (cases "?n \<le> ?k") auto
  show ?thesis
    by (simp add: after_def Let_def map_filter_append asked_until_append k min.commute)
qed

lemma fetch_urls_after:
  "\<forall>u \<in> set us. is_ok (fetchPage U W u) \<Longrightarrow> fetch_urls U W m us st = Inr (after U W m us st)"
proof (induction us arbitrary: st)
  case Nil
  then show ?case by (simp add: after_Nil)
next
  case (Cons u us)
  show ?case
  proof (cases "fetched st \<ge> m")
    case True
    then show ?thesis by (simp add: after_done)
  next
    case False
    from Cons.prems obtain r where r: "fetchPage U W u = Inr r"
      by (auto simp: is_ok_def split: sum.splits)
    have one: "fetch_urls U W m (u # us) st = fetch_urls U W m us (after U W m [u] st)"
    proof (cases r)
      case None
      with False r show ?thesis by (cases st) (simp add: after_def List.map_filter_simps page_item_def)
    next
      case (Some p)
      moreover from False obtain j where "nat (m - fetched st) = Suc j"
        by (metis Suc_pred' not_le zero_less_nat_eq diff_gt_0_iff_gt)
      ultimately show ?thesis using False r by (simp add: after_def List.map_filter_simps page_item_def)
    qed
    with Cons after_append [of U W m "[u]" us st] show ?thesis by simp
  qed
qed

lemma run_queries_after:
  "\<forall>q \<in> set qs. \<forall>u \<in> set (result_urls W s q). is_ok (fetchPage U W u) \<Longrightarrow>
   run_queries U W s qs st = Inr (after U W (MaxTotalFetches s) (concat (map (result_urls W s) qs)) st)"
proof (induction qs arbitrary: st)
  case Nil
  then show ?case by (simp add: after_Nil)
next
  case (Cons q qs)
  show ?case
  proof (cases "fetched st \<ge> MaxTotalFetches s")
    case True
    then show ?thesis by (simp add: after_done)
  next
    case False
    show ?thesis
    proof (cases "search W s q")
      case (Inl e)
      with Cons False show ?thesis by (simp add: result_urls_def)
    next
      case (Inr urls)
      with Cons.prems have "fetch_urls U W (MaxTotalFetches s) urls st
          = Inr (after U W (MaxTotalFetches s) urls st)"
        by (intro fetch_urls_after) (simp add: result_urls_def)
      with Inr Cons False show ?thesis by (simp add: result_urls_def after_append)
    qed
  qed
qed

text \<open>C32. The collector returns the first \<open>MaxTotalFetches\<close> pages that could be fetched, in the order of the
  queries and their results, and never more. The limit counts pages that arrived: pages that fail are
  asked for without end, all of them if none arrives.\<close>

theorem search_collect_exact:
  assumes "\<forall>q \<in> set (sc_Queries s). \<forall>u \<in> set (result_urls W s q). is_ok (fetchPage U W u)"
    and "urls = concat (map (result_urls W s) (sc_Queries s))"
  shows "case Collect_search U W s of
      Inl _ \<Rightarrow> False
    | Inr st \<Rightarrow> found st = take (nat (MaxTotalFetches s)) (List.map_filter (page_item U W) urls)
        \<and> length (found st) \<le> nat (MaxTotalFetches s)
        \<and> requested st = asked_until (page_item U W) (nat (MaxTotalFetches s)) urls
        \<and> (0 < MaxTotalFetches s \<and> (\<forall>u \<in> set urls. page_item U W u = None) \<longrightarrow> requested st = urls)"
  using run_queries_after [OF assms(1), of "\<lparr>fetched = 0, found = [], requested = []\<rparr>"]
  by (simp add: Collect_search_def after_def Let_def assms(2) asked_until_all)

text \<open>A search service with three results, a web where only the second page exists.\<close>

definition three_results :: json where
  "three_results = JObj [(''results'', JArr (map (\<lambda>u. JObj [(''url'', JStr u)]) [''a'', ''b'', ''c'']))]"

definition small_web :: web where
  "small_web req =
     (if URL req = ''a'' \<or> URL req = ''c'' then Inl ''no route''
      else Inr \<lparr>StatusCode = 200, Header = (\<lambda>_. []),
             Body = (if URL req = ''b'' then ''page'' else render three_results, None)\<rparr>)"

definition one_query :: SearchCollector where
  "one_query = \<lparr>sc_Queries = [''rome''], ResultsPerQuery = 5, MaxTotalFetches = 2, SearchURL = ''s''\<rparr>"

lemma three_results_read: "Unmarshal (render three_results) = Some three_results"
  by (rule Unmarshal_render)
    (auto simp: three_results_def maxNestingDepth_def byte_def intro!: ascii_valid_utf8)

lemma small_search: "search small_web one_query ''rome'' = Inr [''a'', ''b'', ''c'']"
proof -
  have k: "fold_name ''results'' = [82,69,83,85,76,84,83]" "fold_name ''url'' = [85,82,76]"
    "fold_name ''title'' = [84,73,84,76,69]"
    by (simp_all add: fold_name_eqs byte_def fold_rune_def)
  have u: "URL req \<noteq> ''a'' \<and> URL req \<noteq> ''b'' \<and> URL req \<noteq> ''c''"
    if "req = \<lparr>Method = ''GET'', URL = searchBase one_query @ ''/search?q='' @ QueryEscape ''rome'' @ ''&format=json'',
           ReqHeaders = [], ReqBody = []\<rparr>" for req
    using that by (simp add: searchBase_def one_query_def trim_right_char_def)
  show ?thesis
    using u by (simp add: search_def small_web_def read_all_def unmarshal_into_def three_results_read)
      (simp add: three_results_def searx_decoder_def field_def k one_query_def)
qed

lemma small_pages:
  "fetchPage ascii_tables small_web ''a'' = Inr None" "fetchPage ascii_tables small_web ''c'' = Inr None"
  "fetchPage ascii_tables small_web ''b'' = Inr (Some (''page'', []))"
proof -
  have "extractTitle ascii_tables ''page'' = Inr []" by code_simp
  then show "fetchPage ascii_tables small_web ''b'' = Inr (Some (''page'', []))"
    by (simp add: fetchPage_def small_web_def read_limited_def maxFetchBodyBytes_def)
qed (simp_all add: fetchPage_def small_web_def)

theorem search_collect_exact_witness:
  "Collect_search ascii_tables small_web one_query
     = Inr \<lparr>fetched = 1, found = [web_item ''b'' (''page'', [])], requested = [''a'', ''b'', ''c'']\<rparr>"
proof -
  have urls: "result_urls small_web one_query ''rome'' = [''a'', ''b'', ''c'']"
    by (simp add: result_urls_def small_search)
  then have all: "concat (map (result_urls small_web one_query) (sc_Queries one_query)) = [''a'', ''b'', ''c'']"
    by (simp add: one_query_def)
  have ok: "\<forall>q \<in> set (sc_Queries one_query). \<forall>u \<in> set (result_urls small_web one_query q).
      is_ok (fetchPage ascii_tables small_web u)"
    using urls small_pages by (simp add: one_query_def)
  have "fetched st = int (length (found st))" if "Collect_search ascii_tables small_web one_query = Inr st" for st
    using that run_queries_after [OF ok, of "\<lparr>fetched = 0, found = [], requested = []\<rparr>"]
    by (auto simp: Collect_search_def after_def Let_def)
  moreover have "MaxTotalFetches one_query = 2" by (simp add: one_query_def)
  ultimately show ?thesis
    using search_collect_exact [OF ok refl] all
    by (cases "Collect_search ascii_tables small_web one_query")
      (auto simp: List.map_filter_simps page_item_def small_pages)
qed


subsection \<open>What the query generator keeps\<close>

lemma capped_queries_bound:
  "capped_queries n its = Inr qs \<Longrightarrow> int (length qs) \<le> max n 0 * int (length its)"
proof (induction its arbitrary: qs)
  case (Cons it its)
  then obtain a b where ab: "cap n (fst (Queries it)) = Inr a" "capped_queries n its = Inr b" "qs = a @ b"
    by (auto simp: rbind_Inr_iff)
  have "int (length a) \<le> max n 0" using ab(1) by (auto simp: cap_def split: if_splits)
  with Cons.IH [OF ab(2)] ab(3) show ?case by (simp add: algebra_simps)
qed simp

text \<open>A model that answers both calls with one perspective and three items of one query each.\<close>

definition talkative_content :: json where
  "talkative_content = JObj
     [(''perspectives'', JArr [JStr ''history'']),
      (''items'', JArr (map (\<lambda>q. JObj [(''queries'', JArr [JStr q])]) [''x'', ''y'', ''z'']))]"

definition talkative_reply :: json where
  "talkative_reply = JObj
     [(''choices'', JArr [JObj [(''message'', JObj [(''content'', JStr (render talkative_content))])]])]"

definition talkative :: web where
  "talkative req = Inr \<lparr>StatusCode = 200, Header = (\<lambda>_. []), Body = (render talkative_reply, None)\<rparr>"

lemma research_keys:
  "fold_name ''perspectives'' = [80,69,82,83,80,69,67,84,73,86,69,83]" "fold_name ''items'' = [73,84,69,77,83]"
  "fold_name ''perspective'' = [80,69,82,83,80,69,67,84,73,86,69]" "fold_name ''queries'' = [81,85,69,82,73,69,83]"
  "fold_name ''choices'' = [67,72,79,73,67,69,83]" "fold_name ''message'' = [77,69,83,83,65,71,69]"
  "fold_name ''content'' = [67,79,78,84,69,78,84]"
  by (simp_all add: fold_name_eqs byte_def fold_rune_def)

lemma talkative_content_read:
  "Unmarshal (render talkative_content) = Some talkative_content" "is_ascii (render talkative_content)"
proof -
  show "Unmarshal (render talkative_content) = Some talkative_content"
    by (rule Unmarshal_render)
      (auto simp: talkative_content_def maxNestingDepth_def byte_def intro!: ascii_valid_utf8)
  show "is_ascii (render talkative_content)" unfolding is_ascii_def by code_simp
qed

lemma talkative_chat: "chatComplete talkative llm sys user = Inr (render talkative_content)"
proof -
  have "Unmarshal (render talkative_reply) = Some talkative_reply"
    using ascii_valid_utf8 [OF talkative_content_read(2)]
    by (intro Unmarshal_render)
      (auto simp: talkative_reply_def maxNestingDepth_def byte_def intro!: ascii_valid_utf8 simp del: render.simps)
  then show ?thesis
    by (simp add: chatComplete_def talkative_def read_all_def unmarshal_into_def del: render.simps)
      (simp add: talkative_reply_def chat_decoder_def research_keys del: render.simps)
qed

definition cautious :: ResearchConfig where
  "cautious = \<lparr>Perspectives = 1, QuestionsPerPerspective = 1, cfg_ResultsPerQuery = 5, cfg_MaxTotalFetches = 40\<rparr>"

text \<open>Generated queries differ pairwise after normalisation. Their number is not bounded by the settings:
  a reply may hold more items than there are perspectives, and each adds its share of queries; with one
  perspective and one question per perspective three queries come back.\<close>

theorem generated_queries_caps:
  "(case GenerateQueries U Q W entity cfg hints llm of
      Inl _ \<Rightarrow> True | Inr qs \<Rightarrow> distinct (map (normalizeQuery U) qs))
   \<and> GenerateQueries ascii_tables Q talkative entity cautious hints llm = Inr [''x'', ''y'', ''z'']"
proof
  show "case GenerateQueries U Q W entity cfg hints llm of
      Inl _ \<Rightarrow> True | Inr qs \<Rightarrow> distinct (map (normalizeQuery U) qs)"
    by (simp add: GenerateQueries_def dedup_def distinct_dedup_by split: sum.split)
  have p: "generatePerspectives Q talkative llm entity 1 hints = Inr [''history'']"
    by (simp add: generatePerspectives_def talkative_chat unmarshal_into_def talkative_content_read(1)
        del: render.simps) (simp add: talkative_content_def research_keys cap_def)
  have q: "generateQueriesForPerspectives Q talkative llm entity [''history''] 1 = Inr [''x'', ''y'', ''z'']"
    by (simp add: generateQueriesForPerspectives_def talkative_chat unmarshal_into_def talkative_content_read(1)
        del: render.simps)
      (simp add: talkative_content_def items_decoder_def field_def research_keys cap_def)
  have "dedup ascii_tables [''x'', ''y'', ''z''] = [''x'', ''y'', ''z'']" by code_simp
  with p q show "GenerateQueries ascii_tables Q talkative entity cautious hints llm = Inr [''x'', ''y'', ''z'']"
    by (simp add: GenerateQueries_def cautious_def)
qed

subsection \<open>Titles\<close>

lemma map_runes_length_ascii:
  "is_ascii s \<Longrightarrow> (\<forall>r. 0 \<le> r \<and> r < 128 \<longrightarrow> 0 \<le> f r \<and> f r < 128) \<Longrightarrow> length (map_runes f s) = length s"
proof (induction s)
  case (Cons c s)
  then have "0 \<le> f (byte c) \<and> f (byte c) < 128" using byte_bounds [of c] by simp
  with Cons show ?case by (simp add: map_runes_ascii_Cons encode_rune_def)
qed simp

text \<open>On ASCII pages the offsets fit and the title is cut without a panic. Bytes that are not UTF-8 grow
  when the page is lower-cased, so a short Latin-1 page is enough to end the program.\<close>

lemma title_of_ascii_page: "is_ascii html \<Longrightarrow> is_ok (extractTitle U html)"
proof -
  assume a: "is_ascii html"
  have len: "length (to_lower U html) = length html"
    unfolding to_lower_def using a by (rule map_runes_length_ascii) (auto simp: rune_lower_def)
  have "i + 7 + n \<le> length html"
    if "str_index ''<title>'' (to_lower U html) = Some i"
      "str_index ''</title>'' (drop (i + 7) (to_lower U html)) = Some n" for i n
    using str_index_Some [OF that(1)] str_index_Some [OF that(2)] len by simp linarith
  then show ?thesis by (auto simp: extractTitle_def Let_def split: option.split)
qed

lemma latin1_page_panics:
  "extractTitle ascii_tables (replicate 20 (CHR 0xE9) @ ''<title></title>'') = Inl ''panic: slice bounds out of range''"
  by code_simp

end
