(* ===== verification/Ledger.thy ===== *)
theory Ledger
  imports Pipeline Embedding Dossiers
begin

text \<open>
  What the whole program promises its reader, as a machine of its own: a ledger of documents and of
  quotations from them. A document enters without text, is given its text once, and may be quoted from
  then on; nothing is ever changed or taken out. Every run of a worker, read through the projection
  \<open>ledger_of\<close>, is a sequence of these three actions, so what holds of every ledger holds of the store.
\<close>

subsection \<open>The abstract machine\<close>

record document =
  doc_id :: uuid
  doc_tenant :: uuid
  doc_url :: string
  doc_hash :: string
  doc_text :: "string option"

record ledger =
  documents :: "document list"
  quotes :: "statement_source_row list"

definition quotable :: "document \<Rightarrow> statement_source_row \<Rightarrow> bool" where
  "quotable x r \<longleftrightarrow> doc_id x = ss_source r \<and> doc_tenant x = ss_tenant r \<and> ss_excerpt r \<noteq> []
     \<and> (case doc_text x of None \<Rightarrow> False | Some t \<Rightarrow> sublist (ss_excerpt r) t)"

inductive ledger_step :: "ledger \<Rightarrow> ledger \<Rightarrow> bool" where
  add_document: "doc_text x = None \<Longrightarrow> doc_id x \<notin> doc_id ` set (documents l)
    \<Longrightarrow> ledger_step l (l\<lparr>documents := documents l @ [x]\<rparr>)"
| archive_document: "documents l = xs @ x # ys \<Longrightarrow> doc_text x = None
    \<Longrightarrow> ledger_step l (l\<lparr>documents := xs @ x\<lparr>doc_text := Some t\<rparr> # ys\<rparr>)"
| quote_document: "x \<in> set (documents l) \<Longrightarrow> quotable x r
    \<Longrightarrow> ledger_step l (l\<lparr>quotes := quotes l @ [r]\<rparr>)"

inductive ledger_steps :: "ledger \<Rightarrow> ledger \<Rightarrow> bool" for l where
  none: "ledger_steps l l"
| more: "ledger_steps l l' \<Longrightarrow> ledger_step l' l'' \<Longrightarrow> ledger_steps l l''"

inductive_cases ledger_stepE: "ledger_step l l'"

lemma ledger_steps_append: "ledger_steps l' l'' \<Longrightarrow> ledger_steps l l' \<Longrightarrow> ledger_steps l l''"
  by (induction rule: ledger_steps.induct) (blast intro: ledger_steps.intros)+

lemma ledger_steps_trans [trans]: "ledger_steps l l' \<Longrightarrow> ledger_steps l' l'' \<Longrightarrow> ledger_steps l l''"
  by (rule ledger_steps_append)

lemma ledger_step_steps [trans]: "ledger_step l l' \<Longrightarrow> ledger_steps l' l'' \<Longrightarrow> ledger_steps l l''"
  by (blast intro: ledger_steps.intros ledger_steps_append)

lemma ledger_steps_one: "ledger_step l l' \<Longrightarrow> ledger_steps l l'"
  by (rule ledger_steps.more [OF ledger_steps.none])

text \<open>What every ledger satisfies, and what of it is permanent.\<close>

definition ledger_wf :: "ledger \<Rightarrow> bool" where
  "ledger_wf l \<longleftrightarrow> distinct (map doc_id (documents l))
     \<and> list_all (\<lambda>r. list_ex (\<lambda>x. quotable x r) (documents l)) (quotes l)"

lemma quotable_text: "quotable x r \<Longrightarrow> doc_text x = None \<Longrightarrow> False"
  by (simp add: quotable_def)

lemma ledger_step_wf: "ledger_step l l' \<Longrightarrow> ledger_wf l \<Longrightarrow> ledger_wf l'"
proof (induction rule: ledger_step.induct)
  case (archive_document l xs x ys t)
  moreover have "list_ex (\<lambda>y. quotable y r) (xs @ x\<lparr>doc_text := Some t\<rparr> # ys)"
    if "list_ex (\<lambda>y. quotable y r) (xs @ x # ys)" for r
    using that archive_document(2) quotable_text by (auto simp: list_ex_iff)
  ultimately show ?case by (auto simp: ledger_wf_def list_all_iff)
qed (auto simp: ledger_wf_def list_all_iff list_ex_iff)

lemma ledger_steps_wf: "ledger_steps l l' \<Longrightarrow> ledger_wf l \<Longrightarrow> ledger_wf l'"
  by (induction rule: ledger_steps.induct) (blast intro: ledger_step_wf)+

text \<open>A quotation, once made, and the text of a document, once set, stay.\<close>

lemma ledger_step_permanent:
  "ledger_step l l' \<Longrightarrow> prefix (quotes l) (quotes l')
     \<and> (\<forall>x \<in> set (documents l). doc_text x \<noteq> None \<longrightarrow> x \<in> set (documents l'))"
  by (induction rule: ledger_step.induct) auto

lemma ledger_steps_permanent:
  "ledger_steps l l' \<Longrightarrow> prefix (quotes l) (quotes l')
     \<and> (\<forall>x \<in> set (documents l). doc_text x \<noteq> None \<longrightarrow> x \<in> set (documents l'))"
proof (induction rule: ledger_steps.induct)
  case (more l' l'')
  then show ?case using ledger_step_permanent [of l' l''] prefix_order.trans by blast
qed simp

subsection \<open>The projection\<close>

definition document_of :: "source_row \<Rightarrow> document" where
  "document_of s = \<lparr>doc_id = so_id s, doc_tenant = so_tenant s, doc_url = so_url s,
     doc_hash = so_content_hash s, doc_text = so_raw_text s\<rparr>"

definition ledger_of :: "db \<Rightarrow> ledger" where
  "ledger_of d = \<lparr>documents = map document_of (sources d), quotes = statement_sources d\<rparr>"

lemma document_of_simps [simp]:
  "doc_id (document_of s) = so_id s" "doc_tenant (document_of s) = so_tenant s"
  "doc_url (document_of s) = so_url s" "doc_hash (document_of s) = so_content_hash s"
  "doc_text (document_of s) = so_raw_text s"
  by (simp_all add: document_of_def)

lemma lifecycle_document:
  assumes "lifecycle s s'"
  shows "document_of s' = document_of s
     \<or> (so_raw_text s = None \<and> (\<exists>t. document_of s' = (document_of s)\<lparr>doc_text := Some t\<rparr>))"
  using lifecycle_keys [OF assms] by (cases "so_raw_text s'"; cases "so_raw_text s") (auto simp: document_of_def)

lemma backs_quotable: "backs s r \<Longrightarrow> quotable (document_of s) r"
  by (auto simp: backs_def quotable_def sublist_def split: option.splits dest!: VerifyExcerptOffset_split)

subsection \<open>Growing a ledger\<close>

lemma advance_documents:
  assumes "list_all2 lifecycle rows old"
  shows "ledger_steps \<lparr>documents = pre @ map document_of rows @ post, quotes = q\<rparr>
                      \<lparr>documents = pre @ map document_of old @ post, quotes = q\<rparr>"
  using assms
proof (induction arbitrary: pre rule: list_all2_induct)
  case (Cons s rows s' old)
  let ?l = "\<lambda>x xs. \<lparr>documents = pre @ x # xs @ post, quotes = q\<rparr>"
  have "ledger_steps (?l (document_of s) (map document_of rows)) (?l (document_of s') (map document_of rows))"
    using lifecycle_document [OF Cons.hyps(1)]
  proof (elim disjE conjE exE)
    fix t assume "so_raw_text s = None" "document_of s' = (document_of s)\<lparr>doc_text := Some t\<rparr>"
    then show ?thesis
      using ledger_step.archive_document [of "?l (document_of s) (map document_of rows)" pre "document_of s" _ t]
      by (auto intro: ledger_steps_one)
  qed (simp add: ledger_steps.none)
  also have "ledger_steps \<dots> (?l (document_of s') (map document_of old))"
    using Cons.IH [of "pre @ [document_of s']"] by simp
  finally show ?case by simp
qed (simp add: ledger_steps.none)

lemma add_documents:
  assumes "distinct (map doc_id docs @ map so_id new)"
  shows "ledger_steps \<lparr>documents = docs, quotes = q\<rparr> \<lparr>documents = docs @ map document_of new, quotes = q\<rparr>"
  using assms
proof (induction new arbitrary: docs)
  case (Cons s new)
  let ?bare = "(document_of s)\<lparr>doc_text := None\<rparr>"
  let ?l = "\<lambda>xs. \<lparr>documents = docs @ xs, quotes = q\<rparr>"
  have "ledger_step (?l []) (?l [?bare])"
    using ledger_step.add_document [of ?bare "?l []"] Cons.prems by auto
  moreover have "ledger_steps (?l [?bare]) (?l [document_of s])"
  proof (cases "so_raw_text s")
    case None
    then have "?bare = document_of s" by (simp add: document_of_def)
    then show ?thesis by (simp add: ledger_steps.none)
  next
    case (Some t)
    then have "?bare\<lparr>doc_text := Some t\<rparr> = document_of s" by (simp add: document_of_def)
    with ledger_step.archive_document [of "?l [?bare]" docs ?bare "[]" t] show ?thesis
      by (simp add: ledger_steps_one)
  qed
  moreover have "ledger_steps (?l [document_of s]) (?l (document_of s # map document_of new))"
    using Cons.IH [of "docs @ [document_of s]"] Cons.prems by simp
  ultimately show ?case
    using ledger_steps_one [of "?l []" "?l [?bare]"] ledger_steps_trans by auto
qed (simp add: ledger_steps.none)

lemma add_quotes:
  assumes "list_all (\<lambda>r. list_ex (\<lambda>x. quotable x r) docs) new"
  shows "ledger_steps \<lparr>documents = docs, quotes = q\<rparr> \<lparr>documents = docs, quotes = q @ new\<rparr>"
  using assms
proof (induction new arbitrary: q)
  case (Cons r new)
  then obtain x where "x \<in> set docs" "quotable x r" by (auto simp: list_ex_iff)
  then have "ledger_step \<lparr>documents = docs, quotes = q\<rparr> \<lparr>documents = docs, quotes = q @ [r]\<rparr>"
    using ledger_step.quote_document [of x "\<lparr>documents = docs, quotes = q\<rparr>" r] by simp
  also have "ledger_steps \<dots> \<lparr>documents = docs, quotes = (q @ [r]) @ new\<rparr>"
    using Cons.IH [of "q @ [r]"] Cons.prems by simp
  finally show ?case by simp
qed (simp add: ledger_steps.none)

text \<open>A change of the store that keeps the pipeline's invariant and its history is a sequence of ledger
  actions: the documents on file advance, the new ones are added, then the new quotations are made.\<close>

lemma history_ledger:
  assumes inv: "pipeline_inv d'" and h: "history d d'"
  shows "ledger_steps (ledger_of d) (ledger_of d')"
proof -
  obtain old new where src: "sources d' = old @ new" "list_all2 lifecycle (sources d) old"
    using h by (auto simp: history_def grows_def)
  obtain ev where ev: "statement_sources d' = statement_sources d @ ev"
    using h by (auto simp: history_def prefix_def)
  let ?q = "statement_sources d"
  have "ledger_steps (ledger_of d) \<lparr>documents = map document_of old, quotes = ?q\<rparr>"
    using advance_documents [OF src(2), of "[]" "[]" ?q] by (simp add: ledger_of_def)
  also have "ledger_steps \<dots> \<lparr>documents = map document_of (sources d'), quotes = ?q\<rparr>"
    using add_documents [of "map document_of old" new ?q] inv by (simp add: src(1) inv_defs o_def)
  also have "ledger_steps \<dots> \<lparr>documents = map document_of (sources d'), quotes = ?q @ ev\<rparr>"
  proof (rule add_quotes)
    have "list_all (\<lambda>r. list_ex (\<lambda>s. backs s r) (sources d')) ev"
      using inv ev by (auto simp: inv_defs list_all_iff)
    then show "list_all (\<lambda>r. list_ex (\<lambda>x. quotable x r) (map document_of (sources d'))) ev"
      using backs_quotable by (fastforce simp: list_all_iff list_ex_iff)
  qed
  finally show ?thesis by (simp add: ledger_of_def ev)
qed

lemma pipeline_inv_wf: "pipeline_inv d \<Longrightarrow> ledger_wf (ledger_of d)"
  using backs_quotable by (fastforce simp: inv_defs ledger_wf_def ledger_of_def o_def list_all_iff list_ex_iff)

lemma reach_ledger:
  assumes "reach U H pg d d'" and "pipeline_inv d"
  shows "pipeline_inv d' \<and> ledger_steps (ledger_of d) (ledger_of d')"
  using reach_facts [OF assms] history_ledger by blast

subsection \<open>Workers that leave the ledger alone\<close>

text \<open>An embedding run and a dossier run also keep the history.\<close>

lemma filled_grows:
  assumes "filled tenant_of emb set_emb t rows rows'" and "\<And>r. R r r"
    and "\<And>r v. emb r = None \<Longrightarrow> R r (set_emb v r)"
  shows "grows R rows rows'"
proof -
  have "list_all2 R rows rows'"
    using assms(1) unfolding filled_def by (rule list_all2_mono) (use assms(2,3) in auto)
  then show ?thesis unfolding grows_def by (intro exI [of _ rows'] exI [of _ "[]"]) simp
qed

lemma embeddings_history: "embeddings_filled t d d' \<Longrightarrow> history d d'"
  by (auto simp: embeddings_filled_def history_def lifecycle_def entity_kept_def statement_kept_def
      elim!: filled_grows)

lemma dossiers_history: "only_dossiers d d' \<Longrightarrow> history d d'"
  by (auto simp: only_dossiers_def history_def)

definition same_ledger :: "db \<Rightarrow> db \<Rightarrow> bool" where
  "same_ledger d d' \<longleftrightarrow> (pipeline_inv d \<longrightarrow> pipeline_inv d') \<and> ledger_of d' = ledger_of d"

lemma same_ledger_refl [simp]: "same_ledger d d"
  by (simp add: same_ledger_def)

lemma same_ledger_trans: "same_ledger d d' \<Longrightarrow> same_ledger d' d'' \<Longrightarrow> same_ledger d d''"
  by (simp add: same_ledger_def)

lemma filled_map:
  fixes k :: "'r \<Rightarrow> 'k"
  assumes "filled tenant_of emb set_emb t rows rows'" and "\<And>v r. k (set_emb v r) = k r"
  shows "map k rows' = map k rows"
  using assms(1) unfolding filled_def
  by (induction rule: list_all2_induct) (auto simp: assms(2))

lemma list_all_via:
  assumes "map g xs = map g ys" and "\<And>s. P s = Q (g s)"
  shows "list_all P xs = list_all P ys"
proof -
  have "list_all P zs = list_all Q (map g zs)" for zs by (induction zs) (simp_all add: assms(2))
  then show ?thesis by (simp add: assms(1))
qed

lemma embeddings_same_ledger:
  assumes "embeddings_filled t d d'"
  shows "same_ledger d d'"
proof -
  obtain es ss sts where d': "d' = d\<lparr>entities := es, statements := sts, sources := ss\<rparr>"
    and ss: "filled so_tenant so_embedding (\<lambda>v s. s\<lparr>so_embedding := Some v\<rparr>) t (sources d) ss"
    and sts: "filled st_tenant st_embedding (\<lambda>v s. s\<lparr>st_embedding := Some v\<rparr>) t (statements d) sts"
    using assms by (auto simp: embeddings_filled_def)
  have k: "map k ss = map k (sources d)" if "\<And>v s. k (s\<lparr>so_embedding := Some v\<rparr>) = k s" for k
    using filled_map [OF ss, of k] that by blast
  have docs: "map document_of ss = map document_of (sources d)"
    by (rule k) (simp add: document_of_def)
  have stat: "map (\<lambda>s. (so_id s, so_status s, so_raw_text s)) ss
      = map (\<lambda>s. (so_id s, so_status s, so_raw_text s)) (sources d)"
    by (rule k) simp
  have evid: "map (\<lambda>s r. backs s r) ss = map (\<lambda>s r. backs s r) (sources d)"
    by (rule k) (simp add: backs_def)
  have core: "map (\<lambda>s. (st_id s, st_tenant s)) sts = map (\<lambda>s. (st_id s, st_tenant s)) (statements d)"
    using filled_map [OF sts, of "\<lambda>s. (st_id s, st_tenant s)"] by simp
  have ids: "map so_id ss = map so_id (sources d)" by (rule k) simp
  have "list_all (\<lambda>s. so_id s < next_id d \<and> (so_raw_text s = None \<longleftrightarrow> so_status s = ''collected'')) ss
      = list_all (\<lambda>s. so_id s < next_id d \<and> (so_raw_text s = None \<longleftrightarrow> so_status s = ''collected'')) (sources d)"
    by (rule list_all_via [OF stat, of _ "\<lambda>(i, st, x). i < next_id d \<and> (x = None \<longleftrightarrow> st = ''collected'')"]) simp
  then have "sources_ok d \<Longrightarrow> sources_ok d'"
    unfolding sources_ok_def by (simp add: d' ids)
  moreover have "evidence_ok d \<Longrightarrow> evidence_ok d'"
  proof -
    assume ok: "evidence_ok d"
    have "list_ex (\<lambda>s. backs s r) ss \<longleftrightarrow> list_ex (\<lambda>s. backs s r) (sources d)" for r
      using arg_cong [OF evid, of "list_ex (\<lambda>b. b r)"] by (auto simp: list_ex_iff)
    with ok show ?thesis by (simp add: evidence_ok_def d')
  qed
  moreover have "single_evidence d \<Longrightarrow> single_evidence d'"
    by (rule single_evidence_cong [of d]) (simp_all add: d' core)
  ultimately show ?thesis using docs by (auto simp: same_ledger_def pipeline_inv_def ledger_of_def d')
qed

lemma only_dossiers_same_ledger:
  assumes "only_dossiers d d'" and n: "next_id d \<le> next_id d'"
  shows "same_ledger d d'"
proof -
  obtain ds where d': "d' = d\<lparr>next_id := next_id d', dossiers := ds\<rparr>"
    using assms(1) by (fastforce simp: only_dossiers_def)
  have eqs: "sources d' = sources d" "statements d' = statements d" "statement_sources d' = statement_sources d"
    by (subst d', simp)+
  have "i < next_id d'" if "i < next_id d" for i using that n by simp
  then show ?thesis by (auto simp: same_ledger_def ledger_of_def inv_defs list_all_iff eqs)
qed

definition side_work :: "db \<Rightarrow> db \<Rightarrow> bool" where
  "side_work d d' \<longleftrightarrow> same_ledger d d' \<and> history d d'"

lemma side_work_refl [simp]: "side_work d d"
  by (simp add: side_work_def)

lemma side_work_trans: "side_work d d' \<Longrightarrow> side_work d' d'' \<Longrightarrow> side_work d d''"
  unfolding side_work_def using same_ledger_trans history_trans by blast

lemma embeddings_side_work: "embeddings_filled t d d' \<Longrightarrow> side_work d d'"
  by (simp add: side_work_def embeddings_same_ledger embeddings_history)

lemma dossier_item_side_work:
  assumes "dossier_item M pg t tid eid d = Inr d'"
  shows "side_work d d'"
proof -
  have "only_dossiers d d'" "next_id d \<le> next_id d'"
    using assms by (auto simp: dossier_item_def upsert_dossier_def rbind_Inr_iff only_dossiers_def split: if_splits)
  then show ?thesis by (simp add: side_work_def only_dossiers_same_ledger dossiers_history)
qed

lemma dossier_side_work:
  assumes "Dossier_RunOnce M pg opts d = Inr (n, d')"
  shows "side_work d d'"
proof -
  from assms obtain t ids where "fold_res (dossier_item M pg t (dw_TenantID opts)) ids d = Inr d'"
    by (auto simp: Dossier_RunOnce_def dossier_tx_def rbind_Inr_iff split: if_splits option.splits)
  then show ?thesis
    using fold_res_inv [of ids "side_work d" "dossier_item M pg t (dw_TenantID opts)" d d']
      dossier_item_side_work side_work_trans side_work_refl by blast
qed

end
