(* ===== verification/Worker.thy ===== *)
theory Worker
  imports Ledger Llm Research
begin

text \<open>
  \<open>cmd/factvault/worker.go\<close>: the nine subcommands of \<open>factvault worker\<close>. Each resolves its settings,
  opens a pool, and makes one run of a worker; \<open>rss\<close> runs a collection per feed that is due, again and
  again. The process around a command (environment, files, the services it can reach) is the record
  \<open>machine\<close>; the command line is \<open>worker_flags\<close>. A command gives the database it leaves behind and its
  error, if any.
\<close>

subsection \<open>The machine and the command line\<close>

record machine =
  m_env :: env
  m_files :: "string \<rightharpoonup> string"
  m_parse_url :: "string \<Rightarrow> Config.url result"
  m_new_pool :: "string \<Rightarrow> unit result"
  m_parse_duration :: "string \<Rightarrow> int result"
  m_parse_feeds :: "string \<Rightarrow> FeedSpec list result"
  m_feed_http :: "string \<Rightarrow> http_response result"
  m_parse_feed :: "string \<Rightarrow> feed result"
  m_outside :: outside
  m_tables :: unicode_tables
  m_pg :: pg_env
  m_sha256 :: "string \<Rightarrow> string"
  m_hostname :: "string \<Rightarrow> string option"
  m_runner :: "source_row \<Rightarrow> string \<Rightarrow> ExtractedFact list result"
  m_llm :: llm_world
  m_web :: web
  m_quote :: "string \<Rightarrow> string"
  m_embedder :: Client
  m_marshal :: "Bundle \<Rightarrow> string result"

record worker_flags =
  w_dsn :: flag
  w_tenant :: flag
  w_limit :: flag
  w_age_days :: flag
  w_vocabulary_mode :: string
  w_llm_provider :: string
  w_llm_model :: string
  w_llm_base_url :: string
  w_confirm_cost :: bool
  w_cost_threshold :: int
  w_feeds :: flag
  w_interval :: int
  w_searxng_url :: flag
  w_embedder_url :: flag
  w_entity_type :: string
  w_research :: ResearchConfig

type_synonym outcome = "db \<times> string option"

definition run_result :: "db \<Rightarrow> db result \<Rightarrow> outcome" where
  "run_result d r = (case r of Inl e \<Rightarrow> (d, Some e) | Inr d' \<Rightarrow> (d', None))"

subsection \<open>Settings the commands share\<close>

definition resolve_dsn :: "machine \<Rightarrow> worker_flags \<Rightarrow> string result" where
  "resolve_dsn M f = ResolveSecret (m_env M) (m_files M) (Some (w_dsn f)) ''FACTVAULT_DATABASE_URL'' [] True"

definition check_dsn :: "machine \<Rightarrow> worker_flags \<Rightarrow> string \<Rightarrow> unit result" where
  "check_dsn M f dsn = (if flag_Changed (w_dsn f) then ValidateDSNNoPassword (m_parse_url M) dsn else Ok ())"

definition resolve_tenant :: "machine \<Rightarrow> worker_flags \<Rightarrow> string result" where
  "resolve_tenant M f = ResolveString (m_env M) (Some (w_tenant f)) ''FACTVAULT_DEV_TENANT_ID'' [] True"

definition resolve_limit :: "machine \<Rightarrow> worker_flags \<Rightarrow> int result" where
  "resolve_limit M f = ResolveInt (m_env M) (Some (w_limit f)) ''FACTVAULT_WORKER_LIMIT'' 100 False"

definition resolve_age_days :: "machine \<Rightarrow> worker_flags \<Rightarrow> int result" where
  "resolve_age_days M f = ResolveInt (m_env M) (Some (w_age_days f)) ''FACTVAULT_VERIFY_AGE_DAYS'' 7 False"

text \<open>\<open>addRun\<close>: what \<open>collect\<close>, \<open>archive\<close>, \<open>extract\<close> and \<open>verify\<close> do before their work; \<open>fn\<close> gets the
  tenant, the limit and the age.\<close>

definition addRun ::
    "machine \<Rightarrow> worker_flags \<Rightarrow> (string \<Rightarrow> int \<Rightarrow> int \<Rightarrow> db \<Rightarrow> outcome) \<Rightarrow> db \<Rightarrow> outcome" where
  "addRun M f fn d =
     (case rbind (resolve_dsn M f) (\<lambda>dsn. rbind (check_dsn M f dsn) (\<lambda>_.
           rbind (resolve_tenant M f) (\<lambda>tenant. rbind (resolve_limit M f) (\<lambda>lmt.
           rbind (resolve_age_days M f) (\<lambda>age. rbind (m_new_pool M dsn) (\<lambda>_. Ok (tenant, lmt, age))))))) of
        Inl e \<Rightarrow> (d, Some e)
      | Inr (tenant, lmt, age) \<Rightarrow> fn tenant lmt age d)"

subsection \<open>The source and fact pipelines\<close>

definition seed_items :: "Item list" where
  "seed_items = [\<lparr>it_URL = ''https://example.com/factvault-seed'', it_HTML = ''<html><body>seed</body></html>'',
     it_Title = [], it_Publisher = [], it_PublishedAt = None, it_Topic = [], it_Tags = [], it_Meta = []\<rparr>]"

definition worker_collect :: "machine \<Rightarrow> worker_flags \<Rightarrow> db \<Rightarrow> outcome" where
  "worker_collect M f = addRun M f (\<lambda>tenant lmt age d.
     run_result d (CollectOnce (m_outside M) (m_pg M) tenant (Collect_static seed_items) d))"

definition worker_archive :: "machine \<Rightarrow> worker_flags \<Rightarrow> db \<Rightarrow> outcome" where
  "worker_archive M f = addRun M f (\<lambda>tenant lmt age d.
     run_result d (ArchiveOnce (m_outside M) (m_pg M) tenant lmt d))"

definition confirm_env :: "machine \<Rightarrow> bool" where
  "confirm_env M \<longleftrightarrow> m_env M ''FACTVAULT_CONFIRM_COST'' = Some ''1''"

definition fact_pipeline :: "machine \<Rightarrow> worker_flags \<Rightarrow> LLMClient option \<Rightarrow> string \<Rightarrow> FactPipeline" where
  "fact_pipeline M f extractor provider =
     \<lparr>fp_Deterministic = None,
      fp_LLM = map_option (\<lambda>c source rawText. fst (Extract_llm (m_env M) (m_llm M) c rawText)) extractor,
      fp_LLMProvider = provider, CostGuardrailThreshold = w_cost_threshold f,
      ConfirmCost = w_confirm_cost f, VocabularyMode = w_vocabulary_mode f\<rparr>"

definition worker_extract :: "machine \<Rightarrow> worker_flags \<Rightarrow> db \<Rightarrow> outcome" where
  "worker_extract M f = addRun M f (\<lambda>tenant lmt age d.
     (case rbind (resolveLLMRuntimeConfig (m_env M) (m_files M) (w_llm_provider f) (w_llm_model f) (w_llm_base_url f))
             (BuildLLMExtractor (m_tables M)) of
        Inl e \<Rightarrow> (d, Some e)
      | Inr (extractor, provider) \<Rightarrow>
          ExtractOnce (m_tables M) (m_sha256 M) (m_pg M) (m_runner M) (confirm_env M)
            (fact_pipeline M f extractor provider) tenant lmt d))"

definition worker_verify :: "machine \<Rightarrow> worker_flags \<Rightarrow> db \<Rightarrow> outcome" where
  "worker_verify M f = addRun M f (\<lambda>tenant lmt age d.
     run_result d (VerifyOnce (m_outside M) (m_pg M) tenant age lmt d))"

definition worker_corroborate :: "machine \<Rightarrow> worker_flags \<Rightarrow> db \<Rightarrow> outcome" where
  "worker_corroborate M f d =
     (case rbind (resolve_dsn M f) (\<lambda>dsn. rbind (check_dsn M f dsn) (\<lambda>_.
           rbind (resolve_tenant M f) (\<lambda>tenant. rbind (m_new_pool M dsn) (\<lambda>_. Ok tenant)))) of
        Inl e \<Rightarrow> (d, Some e)
      | Inr tenant \<Rightarrow> run_result d (CorroborateOnce (m_tables M) (m_hostname M) (m_pg M) tenant d))"

subsection \<open>Feeds\<close>

definition LoadFeedConfig :: "machine \<Rightarrow> string \<Rightarrow> FeedSpec list result" where
  "LoadFeedConfig M path =
     (case m_files M path of
        None \<Rightarrow> Err (''open '' @ path)
      | Some data \<Rightarrow> map_sum (\<lambda>e. ''parse feeds config: '' @ e) id (m_parse_feeds M data))"

text \<open>\<open>runForFeeds\<close>: one collection per feed, stopping at the first error.\<close>

definition collect_feed :: "machine \<Rightarrow> worker_flags \<Rightarrow> FeedSpec list \<Rightarrow> nat \<Rightarrow> db \<Rightarrow> db result" where
  "collect_feed M f feeds i d =
     (let spec = feeds ! i;
          tenant = fst (effectiveRSSTenant (flag_Changed (w_tenant f))
            (if flag_Changed (w_tenant f) then flag_String (w_tenant f) else []) (fs_TenantID spec)
            (case m_env M ''FACTVAULT_DEV_TENANT_ID'' of None \<Rightarrow> [] | Some v \<Rightarrow> v))
      in if tenant = [] then Err (''feed '' @ m_quote M (fs_Name spec) @ '': no tenant configured; pass --tenant or set FACTVAULT_DEV_TENANT_ID'')
         else CollectOnce (m_outside M) (m_pg M) tenant
                (Collect_rss (m_env M) (m_feed_http M) (m_parse_feed M) spec) d)"

definition runForFeeds :: "machine \<Rightarrow> worker_flags \<Rightarrow> FeedSpec list \<Rightarrow> nat list \<Rightarrow> db \<Rightarrow> outcome" where
  "runForFeeds M f feeds idx d = commit_each (collect_feed M f feeds) idx d"

definition rss_setup :: "machine \<Rightarrow> worker_flags \<Rightarrow> FeedSpec list result" where
  "rss_setup M f =
     rbind (resolve_dsn M f) (\<lambda>dsn.
     rbind (ResolveString (m_env M) (Some (w_feeds f)) ''FACTVAULT_FEEDS_PATH'' ''config/feeds.yaml'' False) (\<lambda>path.
     rbind (m_new_pool M dsn) (\<lambda>_.
     rbind (LoadFeedConfig M path) (\<lambda>feeds.
       if feeds = [] then Err ''feeds config has no feeds'' else Ok feeds))))"

definition worker_rss_once :: "machine \<Rightarrow> worker_flags \<Rightarrow> db \<Rightarrow> outcome" where
  "worker_rss_once M f d =
     (case rss_setup M f of
        Inl e \<Rightarrow> (d, Some e)
      | Inr feeds \<Rightarrow>
          runForFeeds M f feeds
            (allScheduleIndexes (buildRSSSchedules (m_parse_duration M) feeds (w_interval f))) d)"

text \<open>One round of the polling loop at time \<open>t\<close>: the database, when each feed was polled last, and how long
  to wait; an error ends the loop.\<close>

definition rss_round ::
    "machine \<Rightarrow> worker_flags \<Rightarrow> FeedSpec list \<Rightarrow> (nat \<rightharpoonup> int) \<Rightarrow> int \<Rightarrow> db
       \<Rightarrow> db \<times> ((nat \<rightharpoonup> int) \<times> int) result" where
  "rss_round M f feeds lastPolled t d =
     (let schedules = buildRSSSchedules (m_parse_duration M) feeds (w_interval f);
          todo = dueRSSFeedIndexes schedules lastPolled t
      in case runForFeeds M f feeds todo d of
           (d', Some e) \<Rightarrow> (d', Err e)
         | (d', None) \<Rightarrow>
           (let polled = foldl (\<lambda>m i. m(i \<mapsto> t)) lastPolled todo;
                wait = nextRSSPollWait schedules polled t
            in (d', Ok (polled, if wait \<le> 0 then 1000000000 else wait))))"

subsection \<open>Dossiers, research, embeddings\<close>

definition worker_dossier :: "machine \<Rightarrow> worker_flags \<Rightarrow> db \<Rightarrow> outcome" where
  "worker_dossier M f d =
     (case rbind (resolve_dsn M f) (\<lambda>dsn. rbind (resolve_tenant M f) (\<lambda>tenant.
           rbind (resolve_limit M f) (\<lambda>lmt. rbind (m_new_pool M dsn) (\<lambda>_. Ok (tenant, lmt))))) of
        Inl e \<Rightarrow> (d, Some e)
      | Inr (tenant, lmt) \<Rightarrow>
          run_result d (map_sum id snd (Dossier_RunOnce (m_marshal M) (m_pg M)
            \<lparr>dw_TenantID = tenant, dw_EntityID = [], dw_All = False, dw_Limit = lmt\<rparr> d)))"

text \<open>The figures the command prints before it starts; products of \<open>int\<close>s wrap.\<close>

definition wrap64 :: "int \<Rightarrow> int" where
  "wrap64 n = (n + 9223372036854775808) mod 18446744073709551616 - 9223372036854775808"

definition research_ceilings :: "ResearchConfig \<Rightarrow> int \<times> int" where
  "research_ceilings cfg =
     (let searches = wrap64 (Perspectives cfg * QuestionsPerPerspective cfg)
      in (searches, min (wrap64 (searches * cfg_ResultsPerQuery cfg)) (cfg_MaxTotalFetches cfg)))"

definition worker_research :: "machine \<Rightarrow> worker_flags \<Rightarrow> string \<Rightarrow> db \<Rightarrow> outcome" where
  "worker_research M f label d =
     (case rbind (resolve_dsn M f) (\<lambda>dsn. rbind (resolve_tenant M f) (\<lambda>tenant.
           rbind (ResolveString (m_env M) (Some (w_searxng_url f)) ''FACTVAULT_SEARXNG_URL''
                    ''https://searxng.example.com'' False) (\<lambda>searxng.
           rbind (resolveLLMRuntimeConfig (m_env M) (m_files M) [] (w_llm_model f) (w_llm_base_url f)) (\<lambda>rt.
           rbind (m_new_pool M dsn) (\<lambda>_.
           rbind (map_sum (\<lambda>e. ''generate queries: '' @ e) id
             (GenerateQueries (m_tables M) (m_quote M) (m_web M) \<lparr>Label = label, EntityType = w_entity_type f\<rparr>
                (w_research f) []
                \<lparr>llm_BaseURL = cfg_BaseURL rt, llm_APIKey = cfg_APIKey rt, llm_Model = cfg_Model rt\<rparr>)) (\<lambda>queries.
             Ok (tenant, \<lparr>sc_Queries = queries, ResultsPerQuery = cfg_ResultsPerQuery (w_research f),
                          MaxTotalFetches = cfg_MaxTotalFetches (w_research f), SearchURL = searxng\<rparr>))))))) of
        Inl e \<Rightarrow> (d, Some e)
      | Inr (tenant, collector) \<Rightarrow>
          run_result d (map_sum (\<lambda>e. ''collect: '' @ e) id
            (CollectOnce (m_outside M) (m_pg M) tenant
               (map_sum id found (Collect_search (m_tables M) (m_web M) collector)) d)))"

definition worker_embed :: "machine \<Rightarrow> worker_flags \<Rightarrow> db \<Rightarrow> outcome" where
  "worker_embed M f d =
     (case rbind (resolve_dsn M f) (\<lambda>dsn. rbind (resolve_tenant M f) (\<lambda>tenant.
           rbind (resolve_limit M f) (\<lambda>lmt.
           rbind (ResolveString (m_env M) (Some (w_embedder_url f)) ''FACTVAULT_EMBEDDER_URL''
                    ''http://localhost:8081'' False) (\<lambda>url.
           rbind (m_new_pool M dsn) (\<lambda>_. Ok (tenant, lmt, url)))))) of
        Inl e \<Rightarrow> (d, Some e)
      | Inr (tenant, lmt, url) \<Rightarrow>
          (case Embed_RunOnce (NewClient (m_embedder M) url) (m_pg M) tenant lmt d of
             (d', _, err) \<Rightarrow> (d', err)))"

text \<open>\<open>newWorkerCmd\<close>: the subcommands. \<open>ts\<close> are the times at which the polling loop of \<open>rss\<close> woke up
  before it was interrupted; with \<open>--once\<close> there is one cycle over every scheduled feed.\<close>

primrec rss_polls ::
    "machine \<Rightarrow> worker_flags \<Rightarrow> FeedSpec list \<Rightarrow> (nat \<rightharpoonup> int) \<Rightarrow> int list \<Rightarrow> db \<Rightarrow> outcome" where
  "rss_polls M f feeds lastPolled [] d = (d, Some ''context canceled'')"
| "rss_polls M f feeds lastPolled (t # ts) d =
     (case rss_round M f feeds lastPolled t d of
        (d', Inl e) \<Rightarrow> (d', Some e)
      | (d', Inr (polled, wait)) \<Rightarrow> rss_polls M f feeds polled ts d')"

definition worker_rss :: "machine \<Rightarrow> worker_flags \<Rightarrow> int list \<Rightarrow> db \<Rightarrow> outcome" where
  "worker_rss M f ts d =
     (case rss_setup M f of
        Inl e \<Rightarrow> (d, Some e)
      | Inr feeds \<Rightarrow> rss_polls M f feeds (\<lambda>_. None) ts d)"

datatype worker_command =
    Collect_cmd | Archive_cmd | Extract_cmd | Verify_cmd | Corroborate_cmd
  | Rss_once_cmd | Rss_cmd "int list" | Dossier_cmd | Research_cmd string | Embed_cmd

fun newWorkerCmd :: "machine \<Rightarrow> worker_flags \<Rightarrow> worker_command \<Rightarrow> db \<Rightarrow> outcome" where
  "newWorkerCmd M f Collect_cmd d = worker_collect M f d"
| "newWorkerCmd M f Archive_cmd d = worker_archive M f d"
| "newWorkerCmd M f Extract_cmd d = worker_extract M f d"
| "newWorkerCmd M f Verify_cmd d = worker_verify M f d"
| "newWorkerCmd M f Corroborate_cmd d = worker_corroborate M f d"
| "newWorkerCmd M f Rss_once_cmd d = worker_rss_once M f d"
| "newWorkerCmd M f (Rss_cmd ts) d = worker_rss M f ts d"
| "newWorkerCmd M f Dossier_cmd d = worker_dossier M f d"
| "newWorkerCmd M f (Research_cmd label) d = worker_research M f label d"
| "newWorkerCmd M f Embed_cmd d = worker_embed M f d"

subsection \<open>Every command acts on the ledger\<close>

text \<open>\<open>goes M d d'\<close>: the machine's workers took the database from one to the other.\<close>

definition goes :: "machine \<Rightarrow> db \<Rightarrow> db \<Rightarrow> bool" where
  "goes M d d' \<longleftrightarrow> reach (m_tables M) (m_sha256 M) (m_pg M) d d' \<or> side_work d d'"

lemma goes_refl [simp]: "goes M d d"
  by (simp add: goes_def)

lemma goes_side: "side_work d d' \<Longrightarrow> goes M d d'"
  by (simp add: goes_def)

lemma goes_step: "step (m_tables M) (m_sha256 M) (m_pg M) l d d' \<Longrightarrow> goes M d d'"
  unfolding goes_def by (blast intro: reach.intros)

lemma goes_result: "(\<And>d'. r = Inr d' \<Longrightarrow> goes M d d') \<Longrightarrow> goes M d (fst (run_result d r))"
  by (cases r) (simp_all add: run_result_def)

lemma collect_goes:
  assumes run: "CollectOnce W (m_pg M) tid items d = Inr d'"
  shows "goes M d d'"
proof -
  from run obtain t where "scan_uuid (m_pg M) tid = Some t"
    by (auto simp: CollectOnce_def split: if_splits option.splits)
  from goes_step [OF step.run_collect [OF this run]] show ?thesis .
qed

lemma map_sum_Inr_iff: "map_sum f g r = Inr y \<longleftrightarrow> (\<exists>x. r = Inr x \<and> y = g x)"
  by (cases r) auto

lemma addRun_goes:
  assumes "\<And>tenant lmt age. goes M d (fst (fn tenant lmt age d))"
  shows "goes M d (fst (addRun M f fn d))"
  using assms by (auto simp: addRun_def split: sum.split)

lemma archive_goes:
  assumes run: "ArchiveOnce W (m_pg M) tid n d = Inr d'"
  shows "goes M d d'"
proof -
  from run obtain t where "scan_uuid (m_pg M) tid = Some t"
    by (auto simp: ArchiveOnce_def Let_def split: if_splits option.splits)
  from goes_step [OF step.run_archive [OF this run]] show ?thesis .
qed

lemma verify_goes:
  assumes run: "VerifyOnce W (m_pg M) tid a n d = Inr d'"
  shows "goes M d d'"
proof -
  from run obtain t where "scan_uuid (m_pg M) tid = Some t"
    by (auto simp: VerifyOnce_def Let_def split: if_splits option.splits)
  from goes_step [OF step.run_verify [OF this run]] show ?thesis .
qed

lemma corroborate_goes:
  assumes run: "CorroborateOnce (m_tables M) h (m_pg M) tid d = Inr d'"
  shows "goes M d d'"
proof -
  from run obtain t where "scan_uuid (m_pg M) tid = Some t"
    by (auto simp: CorroborateOnce_def split: if_splits option.splits)
  from goes_step [OF step.run_corroborate [OF this run]] show ?thesis .
qed

lemma extract_goes: "goes M d (fst (ExtractOnce (m_tables M) (m_sha256 M) (m_pg M) NR c p tid n d))"
proof (cases "scan_uuid (m_pg M) tid")
  case None
  then have "fst (ExtractOnce (m_tables M) (m_sha256 M) (m_pg M) NR c p tid n d) = d"
    by (simp add: ExtractOnce_def Let_def split: sum.split)
  then show ?thesis by simp
next
  case (Some t)
  then show ?thesis by (blast intro: goes_step step.run_extract surjective_pairing)
qed

lemma runForFeeds_reach:
  "reach (m_tables M) (m_sha256 M) (m_pg M) d0 d
     \<Longrightarrow> reach (m_tables M) (m_sha256 M) (m_pg M) d0 (fst (runForFeeds M f feeds idx d))"
  unfolding runForFeeds_def
proof (rule commit_each_inv)
  fix i s s' assume s: "reach (m_tables M) (m_sha256 M) (m_pg M) d0 s" and "collect_feed M f feeds i s = Inr s'"
  then obtain tid items where c: "CollectOnce (m_outside M) (m_pg M) tid items s = Inr s'"
    by (auto simp: collect_feed_def Let_def split: if_splits)
  then obtain t where "scan_uuid (m_pg M) tid = Some t" by (auto simp: CollectOnce_def split: option.splits)
  from reach.step [OF s step.run_collect [OF this c]] show "reach (m_tables M) (m_sha256 M) (m_pg M) d0 s'" .
qed

lemma rss_round_reach:
  "reach (m_tables M) (m_sha256 M) (m_pg M) d0 d
     \<Longrightarrow> reach (m_tables M) (m_sha256 M) (m_pg M) d0 (fst (rss_round M f feeds polled t d))"
  using runForFeeds_reach [of M d0 d f feeds]
  by (auto simp: rss_round_def Let_def split: prod.split option.split) (metis fst_conv)+

lemma rss_polls_reach:
  "reach (m_tables M) (m_sha256 M) (m_pg M) d0 d
     \<Longrightarrow> reach (m_tables M) (m_sha256 M) (m_pg M) d0 (fst (rss_polls M f feeds polled ts d))"
proof (induction ts arbitrary: d polled)
  case (Cons t ts)
  then show ?case using rss_round_reach [OF Cons.prems, of f feeds polled t]
    by (auto split: prod.split sum.split)
qed simp

lemma embed_goes: "goes M d (fst (Embed_RunOnce c (m_pg M) tid n d))"
proof -
  obtain d' res err where run: "Embed_RunOnce c (m_pg M) tid n d = (d', res, err)" by (metis prod_cases3)
  show ?thesis
  proof (cases "tid = [] \<or> scan_uuid (m_pg M) tid = None")
    case True
    then have "fst (Embed_RunOnce c (m_pg M) tid n d) = d" by (auto simp: Embed_RunOnce_def)
    then show ?thesis by simp
  next
    case False
    then obtain t where "scan_uuid (m_pg M) tid = Some t" "tid \<noteq> []" by auto
    from embeddings_side_work [OF embed_fills [OF run this]] run show ?thesis by (simp add: goes_side)
  qed
qed

lemma command_goes: "goes M d (fst (newWorkerCmd M f c d))"
proof (cases c)
  case Collect_cmd
  then show ?thesis
    by (auto simp: worker_collect_def intro!: addRun_goes goes_result intro: collect_goes)
next
  case Archive_cmd
  then show ?thesis
    by (auto simp: worker_archive_def intro!: addRun_goes goes_result intro: archive_goes)
next
  case Extract_cmd
  then show ?thesis
    by (auto simp: worker_extract_def extract_goes split: sum.split intro!: addRun_goes)
next
  case Verify_cmd
  then show ?thesis
    by (auto simp: worker_verify_def intro!: addRun_goes goes_result intro: verify_goes)
next
  case Corroborate_cmd
  then show ?thesis
    by (auto simp: worker_corroborate_def split: sum.split intro!: goes_result intro: corroborate_goes)
next
  case Rss_once_cmd
  then show ?thesis using runForFeeds_reach [of M d d]
    by (auto simp: worker_rss_once_def goes_def split: sum.split)
next
  case (Rss_cmd ts)
  then show ?thesis using rss_polls_reach [of M d d]
    by (auto simp: worker_rss_def goes_def split: sum.split)
next
  case Dossier_cmd
  have "goes M d (fst (run_result d (map_sum id snd (Dossier_RunOnce mj (m_pg M) opts d))))" for mj opts
    by (rule goes_result) (auto simp: map_sum_Inr_iff intro: goes_side dossier_side_work)
  with Dossier_cmd show ?thesis by (auto simp: worker_dossier_def split: sum.split)
next
  case (Research_cmd label)
  have "goes M d (fst (run_result d (map_sum g id (CollectOnce W (m_pg M) tid items d))))" for g W tid items
    by (rule goes_result) (auto intro: collect_goes simp: map_sum_Inr_iff)
  with Research_cmd show ?thesis by (auto simp: worker_research_def split: sum.split)
next
  case Embed_cmd
  then show ?thesis using embed_goes [of M d]
    by (auto simp: worker_embed_def split: sum.split prod.split) (metis fst_conv)
qed

subsection \<open>Properties\<close>

lemma goes_ledger:
  assumes "goes M d d'" and "pipeline_inv d"
  shows "pipeline_inv d' \<and> ledger_steps (ledger_of d) (ledger_of d') \<and> history d d'"
  using assms reach_ledger reach_facts by (auto simp: goes_def side_work_def same_ledger_def ledger_steps.none)

definition sample_machine :: machine where
  "sample_machine =
     \<lparr>m_env = [''FACTVAULT_DATABASE_URL'' \<mapsto> ''postgres://db'', ''FACTVAULT_DEV_TENANT_ID'' \<mapsto> ''t'',
        ''FACTVAULT_LLM_MODEL'' \<mapsto> [], ''FACTVAULT_LLM_BASE_URL'' \<mapsto> []],
      m_files = Map.empty, m_parse_url = (\<lambda>s. Err ''no url''), m_new_pool = (\<lambda>_. Ok ()),
      m_parse_duration = (\<lambda>_. Err ''no duration''), m_parse_feeds = (\<lambda>_. Ok []),
      m_feed_http = (\<lambda>_. Err ''offline''), m_parse_feed = (\<lambda>_. Err ''no feed''),
      m_outside = sample_outside, m_tables = ascii_tables, m_pg = sample_pg, m_sha256 = id,
      m_hostname = (\<lambda>_. None), m_runner = (\<lambda>_ _. Ok [doi_fact 4 6, doi_fact 0 2]),
      m_llm = flaky_world, m_web = (\<lambda>_. Err ''offline''), m_quote = quoted,
      m_embedder = sample_client, m_marshal = (\<lambda>_. Ok ''{}'')\<rparr>"

definition sample_flags :: worker_flags where
  "sample_flags = (let unset = (\<lambda>n. \<lparr>flag_Name = n, flag_Changed = False, flag_String = []\<rparr>) in
     \<lparr>w_dsn = unset ''dsn'', w_tenant = unset ''tenant'', w_limit = unset ''limit'',
      w_age_days = unset ''age-days'', w_vocabulary_mode = ''strict'', w_llm_provider = [], w_llm_model = [],
      w_llm_base_url = [], w_confirm_cost = False, w_cost_threshold = 1000, w_feeds = unset ''feeds'',
      w_interval = 900000000000, w_searxng_url = unset ''searxng-url'', w_embedder_url = unset ''embedder-url'',
      w_entity_type = [], w_research = \<lparr>Perspectives = 5, QuestionsPerPerspective = 4,
        cfg_ResultsPerQuery = 5, cfg_MaxTotalFetches = 40\<rparr>\<rparr>)"

text \<open>C28. Every subcommand of \<open>factvault worker\<close>, with any flags, environment, services and language
  model, refines the ledger: what it does to the stored sources and evidence is a sequence of
  \<open>add a document without text\<close>, \<open>give a document its text\<close> and \<open>quote a document of the same tenant
  word for word\<close>; and it keeps the invariant of the pipeline. That holds whether the command succeeds or
  stops at an error half way through.\<close>

theorem commands_refine_ledger:
  assumes "pipeline_inv d"
  shows "ledger_steps (ledger_of d) (ledger_of (fst (newWorkerCmd M f c d)))
    \<and> pipeline_inv (fst (newWorkerCmd M f c d))"
  using goes_ledger [OF command_goes assms] by blast

definition sample_extract :: outcome where
  "sample_extract = newWorkerCmd sample_machine sample_flags Extract_cmd run2"

lemma sample_extract_eq: "sample_extract = (run3, None)"
  unfolding sample_extract_def run2_def run1_def run0_def by code_simp

lemma run2_inv: "pipeline_inv run2"
  using reach_facts [OF run_reach(2) fresh_inv [OF run0_fresh]] ..

theorem commands_refine_ledger_witness:
  "snd (newWorkerCmd sample_machine sample_flags Extract_cmd run2) = None
   \<and> ledger_steps (ledger_of run2) (ledger_of (fst (newWorkerCmd sample_machine sample_flags Extract_cmd run2)))
   \<and> quotes (ledger_of run2) = []
   \<and> map ss_excerpt (quotes (ledger_of (fst (newWorkerCmd sample_machine sample_flags Extract_cmd run2)))) = [''10'']"
proof -
  have "quotes (ledger_of run2) = []" "map ss_excerpt (quotes (ledger_of run3)) = [''10'']"
    by (simp_all add: ledger_of_def run2_def run1_def run0_def empty_db_def run3_evidence)
  with commands_refine_ledger [OF run2_inv, of sample_machine sample_flags Extract_cmd] show ?thesis
    using sample_extract_eq by (simp add: sample_extract_def)
qed

text \<open>A session: commands one after the other, each on its own machine and at its own time.\<close>

definition run_session :: "(int \<times> machine \<times> worker_flags \<times> worker_command) list \<Rightarrow> db \<Rightarrow> db" where
  "run_session cs = fold (\<lambda>(n, M, f, c) d. fst (newWorkerCmd M f c (d\<lparr>now := max (now d) n\<rparr>))) cs"

lemma session_ledger:
  "pipeline_inv d \<Longrightarrow> pipeline_inv (run_session cs d) \<and> ledger_steps (ledger_of d) (ledger_of (run_session cs d))
     \<and> history d (run_session cs d)"
proof (induction cs arbitrary: d)
  case (Cons a cs)
  obtain n M f c where a: "a = (n, M, f, c)" by (cases a)
  let ?d = "d\<lparr>now := max (now d) n\<rparr>" and ?d' = "fst (newWorkerCmd M f c (d\<lparr>now := max (now d) n\<rparr>))"
  have "pipeline_inv ?d" using Cons.prems by (simp add: inv_defs)
  moreover have "history d ?d" by (simp add: history_def)
  ultimately have d': "pipeline_inv ?d'" "ledger_steps (ledger_of d) (ledger_of ?d')" "history d ?d'"
    using goes_ledger [OF command_goes, of ?d M f c] history_trans [of d ?d] by (simp_all add: ledger_of_def)
  from Cons.IH [OF d'(1)] d'(2,3) show ?case
    using ledger_steps_trans history_trans by (auto simp: run_session_def a)
qed (simp add: run_session_def ledger_steps.none)

text \<open>C29. Over any session of worker commands from a fresh database - whatever the machines answer, and
  with the embedding, dossier and research commands among them - every evidence row quotes, word for
  word, a stored source of its own tenant; and neither the row nor that source's text is ever changed
  or removed by any later session.\<close>

theorem sessions_keep_evidence:
  assumes "fresh_db d0" and "r \<in> set (statement_sources (run_session cs d0))"
  shows "\<exists>x t. x \<in> set (documents (ledger_of (run_session cs d0))) \<and> doc_id x = ss_source r
     \<and> doc_tenant x = ss_tenant r \<and> doc_text x = Some t \<and> sublist (ss_excerpt r) t \<and> ss_excerpt r \<noteq> []
     \<and> x \<in> set (documents (ledger_of (run_session cs' (run_session cs d0))))
     \<and> r \<in> set (statement_sources (run_session cs' (run_session cs d0)))"
proof -
  let ?d = "run_session cs d0" and ?d' = "run_session cs' (run_session cs d0)"
  have inv: "pipeline_inv ?d" using session_ledger [OF fresh_inv [OF assms(1)]] by blast
  have "r \<in> set (quotes (ledger_of ?d))" using assms(2) by (simp add: ledger_of_def)
  with pipeline_inv_wf [OF inv] obtain x where x: "x \<in> set (documents (ledger_of ?d))" "quotable x r"
    unfolding ledger_wf_def list_all_iff list_ex_iff by blast
  from x(2) obtain t where t: "doc_text x = Some t" "sublist (ss_excerpt r) t" "ss_excerpt r \<noteq> []"
    "doc_id x = ss_source r" "doc_tenant x = ss_tenant r"
    by (auto simp: quotable_def split: option.splits)
  from session_ledger [OF inv, of cs'] have "ledger_steps (ledger_of ?d) (ledger_of ?d')" by blast
  from ledger_steps_permanent [OF this] x(1) t(1) assms(2)
  have "x \<in> set (documents (ledger_of ?d'))" "r \<in> set (statement_sources ?d')"
    by (auto simp: ledger_of_def dest: set_mono_prefix)
  with x(1) t show ?thesis by blast
qed

definition seed_machine :: machine where
  "seed_machine = sample_machine\<lparr>m_runner := (\<lambda>_ _. Ok [(doi_fact 0 4)\<lparr>Excerpt := ''seed''\<rparr>])\<rparr>"

definition seed_session :: "(int \<times> machine \<times> worker_flags \<times> worker_command) list" where
  "seed_session = [(5, seed_machine, sample_flags, Collect_cmd), (6, seed_machine, sample_flags, Archive_cmd),
     (7, seed_machine, sample_flags, Extract_cmd)]"

definition seed1 :: db where
  "seed1 = run0\<lparr>next_id := 2, sources := [source_of_item sample_outside 1 (hd seed_items) 1 1000000]\<rparr>"

definition seed2 :: db where
  "seed2 = seed1\<lparr>sources := map (\<lambda>s. s\<lparr>so_raw_text := Some ''seed'', so_archive_url := Some [],
     so_status := ''archived''\<rparr>) (sources seed1)\<rparr>"

lemma seed1_eq: "newWorkerCmd seed_machine sample_flags Collect_cmd run0 = (seed1, None)"
  unfolding seed1_def run0_def by code_simp

lemma seed_settings: "addRun seed_machine sample_flags fn d = fn ''t'' 100 7 d"
proof -
  have "resolve_dsn seed_machine sample_flags = Inr ''postgres://db''" "resolve_tenant seed_machine sample_flags = Inr ''t''"
    "resolve_limit seed_machine sample_flags = Inr 100" "resolve_age_days seed_machine sample_flags = Inr 7"
    "check_dsn seed_machine sample_flags ''postgres://db'' = Inr ()" "m_new_pool seed_machine ''postgres://db'' = Inr ()"
    by code_simp+
  then show ?thesis by (simp add: addRun_def)
qed

lemma seed2_eq: "newWorkerCmd seed_machine sample_flags Archive_cmd seed1 = (seed2, None)"
proof -
  have "stripHTML ''<html><body>seed</body></html>'' = ''seed''" "pg_text_ok ''seed''" "pg_text_ok []"
    "decompress sample_outside ''z<html><body>seed</body></html>'' = Inr ''<html><body>seed</body></html>''" by code_simp+
  moreover have "submitWayback sample_outside u = []" for u by (simp add: submitWayback_def sample_outside_def)
  moreover have "m_outside seed_machine = sample_outside" "m_pg seed_machine = sample_pg"
    by (simp_all add: seed_machine_def sample_machine_def)
  ultimately show ?thesis
    by (simp add: worker_archive_def seed_settings run_result_def ArchiveOnce_def Let_def sample_pg_def archive_tx_def
        pending_archive_def seed1_def seed2_def
        source_of_item_def order_by_def limit_rows_def archive_item_def update_rows_def seed_items_def run0_def empty_db_def
        sample_zlib)
qed
definition seed3 :: outcome where
  "seed3 = newWorkerCmd seed_machine sample_flags Extract_cmd seed2"

lemma seed3_evidence: "map ss_excerpt (statement_sources (fst seed3)) = [''seed'']"
  unfolding seed3_def seed2_def seed1_def run0_def by code_simp

lemma seed_session_run: "map ss_excerpt (statement_sources (run_session seed_session run0)) = [''seed'']"
proof -
  have now: "run0\<lparr>now := 1000000\<rparr> = run0" "seed1\<lparr>now := 1000000\<rparr> = seed1" "seed2\<lparr>now := 1000000\<rparr> = seed2"
    by (simp_all add: run0_def seed1_def seed2_def)
  have at: "now run0 = 1000000" "now seed1 = 1000000" "now seed2 = 1000000"
    by (simp_all add: run0_def seed1_def seed2_def)
  show ?thesis
    using seed3_evidence by (simp add: run_session_def seed_session_def now at seed1_eq seed2_eq seed3_def
        del: newWorkerCmd.simps)
qed

theorem sessions_keep_evidence_witness:
  "\<exists>r x t. r \<in> set (statement_sources (run_session seed_session run0)) \<and> ss_excerpt r = ''seed''
     \<and> x \<in> set (documents (ledger_of (run_session seed_session (run_session seed_session run0))))
     \<and> doc_text x = Some t \<and> sublist ''seed'' t"
proof -
  from seed_session_run obtain r where "statement_sources (run_session seed_session run0) = [r]" "ss_excerpt r = ''seed''"
    by (auto simp: map_eq_Cons_conv)
  with sessions_keep_evidence [OF run0_fresh, of r seed_session seed_session] show ?thesis by fastforce
qed

text \<open>C3. Nothing is lost, and what may be rewritten is exactly this. Between any two moments of a session
  of worker commands, embedding, dossier and research commands among them, every row of the tables
  of sources, entities, statements, properties, proposals, evidence and verifications stays where it
  is and new rows come after it. Evidence, verification, property and proposal rows are not touched
  at all; an entity changes only by gaining an embedding it did not have; a statement only by that
  and in its confidence, which corroboration recomputes; a source only in its text and archive URL,
  which are set together and once, its embedding, set once, the time of its last check, and its status,
  which only moves up: \<open>link-rot\<close> is final and no source returns to the queue of the extractor.
  Qualifiers, relations and briefs are as before. (Dossiers are replaced by newer ones.)\<close>

theorem sessions_append_only:
  assumes "fresh_db d0"
  shows "history (run_session cs d0) (run_session cs' (run_session cs d0))"
  using session_ledger [of "run_session cs d0" cs'] session_ledger [OF fresh_inv [OF assms], of cs] by blast

theorem sessions_append_only_witness:
  "history (run_session seed_session run0)
     (run_session [(8, seed_machine, sample_flags, Embed_cmd)] (run_session seed_session run0))
   \<and> map ss_excerpt (statement_sources (run_session seed_session run0)) = [''seed'']"
  using sessions_append_only [OF run0_fresh] seed_session_run by blast

text \<open>C30. A password on the command line is refused, and nothing is touched, by \<open>collect\<close>, \<open>archive\<close>,
  \<open>extract\<close>, \<open>verify\<close> and \<open>corroborate\<close>; \<open>rss\<close>, \<open>dossier\<close>, \<open>research\<close> and \<open>embed\<close> never look at
  the URL: they do the same whatever it parses to.\<close>

theorem dsn_password_refused_by_five:
  assumes "flag_Changed (w_dsn f)" and "flag_String (w_dsn f) \<noteq> []"
    and "m_parse_url M (flag_String (w_dsn f)) = Inr u" and "UserPassword u = Some (Some p)" and "p \<noteq> []"
  shows "if c \<in> {Collect_cmd, Archive_cmd, Extract_cmd, Verify_cmd, Corroborate_cmd}
    then newWorkerCmd M f c d = (d, Some ''--dsn must not contain a password in the URL'')
    else newWorkerCmd M f c d = newWorkerCmd (M\<lparr>m_parse_url := g\<rparr>) f c d"
proof -
  have dsn: "resolve_dsn M f = Ok (flag_String (w_dsn f))"
    using assms(1) by (simp add: resolve_dsn_def ResolveSecret_def)
  have chk: "check_dsn M f (flag_String (w_dsn f)) = Err ''--dsn must not contain a password in the URL''"
    using assms by (simp add: check_dsn_def ValidateDSNNoPassword_def)
  have same: "resolve_dsn (M\<lparr>m_parse_url := g\<rparr>) f = resolve_dsn M f"
    "resolve_tenant (M\<lparr>m_parse_url := g\<rparr>) f = resolve_tenant M f"
    "resolve_limit (M\<lparr>m_parse_url := g\<rparr>) f = resolve_limit M f"
    by (simp_all add: resolve_dsn_def resolve_tenant_def resolve_limit_def)
  have "LoadFeedConfig (M\<lparr>m_parse_url := g\<rparr>) = LoadFeedConfig M"
    by (intro ext) (simp add: LoadFeedConfig_def cong: option.case_cong)
  with same have conf: "rss_setup (M\<lparr>m_parse_url := g\<rparr>) f = rss_setup M f"
    by (simp add: rss_setup_def)
  have "collect_feed (M\<lparr>m_parse_url := g\<rparr>) f = collect_feed M f"
    by (intro ext) (simp add: collect_feed_def Let_def)
  then have feeds: "runForFeeds (M\<lparr>m_parse_url := g\<rparr>) f = runForFeeds M f"
    by (intro ext) (simp add: runForFeeds_def)
  then have "rss_round (M\<lparr>m_parse_url := g\<rparr>) f = rss_round M f"
    by (simp add: rss_round_def fun_eq_iff)
  then have "rss_polls (M\<lparr>m_parse_url := g\<rparr>) f feeds polled ts e = rss_polls M f feeds polled ts e" for feeds polled ts e
    by (induction ts arbitrary: polled e) (simp_all split: prod.split sum.split)
  note same = same conf feeds this
  show ?thesis
    by (cases c)
      (simp_all add: worker_collect_def worker_archive_def worker_extract_def worker_verify_def addRun_def
        worker_corroborate_def dsn chk worker_rss_once_def worker_rss_def worker_dossier_def worker_research_def
        worker_embed_def same cong: sum.case_cong)
qed

text \<open>The \<open>parse_url\<close> of the witness finds the user \<open>u\<close> with the password \<open>p\<close>.\<close>

definition password_machine :: machine where
  "password_machine = sample_machine\<lparr>m_parse_url := (\<lambda>_. Ok
     \<lparr>Scheme = [], Hostname = [], UserPassword = Some (Some ''p'')\<rparr>)\<rparr>"

definition password_flags :: worker_flags where
  "password_flags = sample_flags\<lparr>w_dsn := \<lparr>flag_Name = ''dsn'', flag_Changed = True,
     flag_String = ''postgres://u:p@db''\<rparr>\<rparr>"

theorem dsn_password_refused_by_five_witness:
  "newWorkerCmd password_machine password_flags Collect_cmd run0
     = (run0, Some ''--dsn must not contain a password in the URL'')
   \<and> newWorkerCmd password_machine password_flags Dossier_cmd run0
     = newWorkerCmd (password_machine\<lparr>m_parse_url := m_parse_url sample_machine\<rparr>) password_flags Dossier_cmd run0"
proof -
  have "flag_Changed (w_dsn password_flags)" "flag_String (w_dsn password_flags) \<noteq> []"
    "m_parse_url password_machine (flag_String (w_dsn password_flags))
       = Inr \<lparr>Scheme = [], Hostname = [], UserPassword = Some (Some ''p'')\<rparr>"
    by (simp_all add: password_flags_def password_machine_def)
  note refused = dsn_password_refused_by_five [OF this, of "''p''"]
  from refused [of Collect_cmd run0] refused [of Dossier_cmd run0 "m_parse_url sample_machine"]
  show ?thesis by simp
qed

end
