(* ===== verification/Float64.thy ===== *)
theory Float64
  imports Wire "HOL-Library.Log_Nat"
begin

text \<open>
  \<open>float64\<close> values as the rationals they are: rounding to the nearest double with ties to even (with
  subnormals below the smallest exponent and no value beyond the largest double), and
  \<open>strconv.FormatFloat(x, 'f', -1, 64)\<close>, the shortest decimal that rounds back to the double.
\<close>

subsection \<open>Rounding\<close>

definition pow_int :: "rat \<Rightarrow> int \<Rightarrow> rat" where
  "pow_int b e = (if 0 \<le> e then b ^ nat e else inverse (b ^ nat (- e)))"

definition round_half_even :: "rat \<Rightarrow> int" where
  "round_half_even x = (let f = \<lfloor>x\<rfloor>; r = x - of_int f in if r < 1 / 2 \<or> (r = 1 / 2 \<and> even f) then f else f + 1)"

definition float64 :: "rat \<Rightarrow> rat option" where
  "float64 q =
     (if q = 0 then Some 0
      else
        (let (n, m) = quotient_of \<bar>q\<bar>;
             e0 = bitlen n - bitlen m;
             e = (if pow_int 2 e0 \<le> \<bar>q\<bar> then e0 else e0 - 1);
             ulp = pow_int 2 (max e (- 1022) - 52);
             x = of_int (round_half_even (\<bar>q\<bar> / ulp)) * ulp
         in if of_int (2 ^ 1024) \<le> x then None else Some (if q < 0 then - x else x)))"

lemma round_half_even_int [simp]: "round_half_even (of_int k) = k"
  by (simp add: round_half_even_def)

lemma round_half_even_near: "\<bar>of_int (round_half_even x) - x\<bar> \<le> 1 / 2"
proof -
  have "of_int \<lfloor>x\<rfloor> \<le> x" "x < of_int \<lfloor>x\<rfloor> + 1" by linarith+
  then show ?thesis by (auto simp: round_half_even_def Let_def abs_le_iff)
qed

text \<open>Integers of at most 53 bits are doubles.\<close>

lemma float64_of_int:
  assumes "\<bar>n\<bar> < 2 ^ 53"
  shows "float64 (of_int n) = Some (of_int n)"
proof (cases "n = 0")
  case True
  then show ?thesis by (simp add: float64_def)
next
  case False
  define a where "a = nat \<bar>n\<bar>"
  have a: "0 < a" "a < 2 ^ 53" "\<bar>n\<bar> = int a" using False assms by (auto simp: a_def nat_less_iff)
  define L where "L = floorlog 2 a"
  have L: "0 < L" "2 ^ (L - 1) \<le> a" "a < 2 ^ L"
    using a(1) floorlog_bounds [of a 2] floorlog_eq_zero_iff [of 2 a] by (auto simp: L_def)
  have "(2::nat) ^ (L - 1) < 2 ^ 53" using L(2) a(2) by (rule order.strict_trans1)
  then have "L - 1 < 53" by (rule power_less_imp_less_exp [rotated]) simp
  then have L53: "L \<le> 53" by simp
  have q: "\<bar>of_int n\<bar> = (of_nat a :: rat)" using a(3) by (metis of_int_abs of_int_of_nat_eq)
  have qo: "quotient_of \<bar>of_int n :: rat\<bar> = (int a, 1)"
    using quotient_of_int [of "int a"] q by simp
  have l1: "floorlog 2 (Suc 0) = Suc 0" by (simp add: compute_floorlog)
  have e: "pow_int 2 (int L - 1) \<le> \<bar>of_int n\<bar>"
  proof -
    have "(of_nat (2 ^ (L - 1)) :: rat) \<le> of_nat a" using L(2) by (simp only: of_nat_le_iff)
    moreover have "nat (int L - 1) = L - 1" by simp
    ultimately show ?thesis using L(1) q by (simp add: pow_int_def)
  qed
  let ?k = "53 - L"
  have ulp: "pow_int 2 (int L - 1 - 52) = inverse (2 ^ ?k)"
  proof (cases "L = 53")
    case False
    then have "nat (- (int L - 1 - 52)) = ?k" using L53 by simp
    then show ?thesis using False L53 by (simp add: pow_int_def)
  qed (simp add: pow_int_def)
  have scaled: "\<bar>of_int n\<bar> / inverse (2 ^ ?k) = (of_int (int a * 2 ^ ?k) :: rat)"
    using q by (simp add: divide_inverse)
  have r: "round_half_even (\<bar>of_int n\<bar> / inverse (2 ^ ?k)) = int a * 2 ^ ?k"
    unfolding scaled by (rule round_half_even_int)
  have x: "of_int (int a * 2 ^ ?k) * inverse (2 ^ ?k) = (of_nat a :: rat)" by simp
  have "(of_nat a :: rat) < 2 ^ 53" using a(2) by (metis of_nat_less_iff of_nat_numeral of_nat_power)
  moreover have "(2::rat) ^ 53 \<le> 2 ^ 1024" by (rule power_increasing) simp_all
  ultimately have small: "\<not> of_int (2 ^ 1024) \<le> (of_nat a :: rat)" by simp
  have mx: "max (int L - 1) (- 1022) - 52 = int L - 1 - 52" using L(1) by simp
  have fl: "bitlen (int a) - bitlen 1 = int L - 1" by (simp add: L_def bitlen_def l1)
  have "float64 (of_int n) = Some (if (of_int n :: rat) < 0 then - of_nat a else of_nat a)"
    unfolding float64_def using False
    by (simp only: qo of_int_eq_0_iff if_False Let_def prod.case fl e if_True mx ulp r x small)
  moreover have "(of_int n :: rat) = (if (of_int n :: rat) < 0 then - of_nat a else of_nat a)" using q by auto
  ultimately show ?thesis by simp
qed

subsection \<open>Printing\<close>

text \<open>\<open>n / 10 ^ k\<close> with \<open>k\<close> decimals.\<close>

definition format_decimals :: "nat \<Rightarrow> int \<Rightarrow> string" where
  "format_decimals k n =
     (let ds = nat_digits (nat (n mod 10 ^ k))
      in itoa (n div 10 ^ k) @ (if k = 0 then [] else ''.'' @ replicate (k - length ds) (CHR ''0'') @ ds))"

text \<open>The fewest decimals with which a decimal next to the (non-negative) double rounds back to it, and
  the nearer one of the two if both do. A double has at most 1074 decimals, so the search ends.\<close>

primrec shortest_from :: "nat \<Rightarrow> nat \<Rightarrow> rat \<Rightarrow> nat \<times> int" where
  "shortest_from 0 k v = (k, \<lfloor>v * 10 ^ k\<rfloor>)"
| "shortest_from (Suc n) k v =
     (let lo = \<lfloor>v * 10 ^ k\<rfloor>; hi = lo + 1;
          back_lo = (float64 (of_int lo / 10 ^ k) = Some v); back_hi = (float64 (of_int hi / 10 ^ k) = Some v)
      in if back_lo \<and> (\<not> back_hi \<or> v - of_int lo / 10 ^ k \<le> of_int hi / 10 ^ k - v) then (k, lo)
         else if back_hi then (k, hi)
         else shortest_from n (Suc k) v)"

definition FormatFloat :: "rat \<Rightarrow> string" where
  "FormatFloat v = (case shortest_from 1074 0 \<bar>v\<bar> of (k, n) \<Rightarrow>
     (if v < 0 then ''-'' else []) @ format_decimals k n)"

text \<open>The decimal that is printed denotes a number that rounds to the double.\<close>

lemma float64_scale:
  assumes "float64 q = Some v" and N: "1074 \<le> N"
  shows "\<exists>k::int. v * 2 ^ N = of_int k"
proof (cases "q = 0")
  case True
  then show ?thesis using assms by (intro exI [of _ 0]) (simp add: float64_def)
next
  case False
  obtain n m where nm: "quotient_of \<bar>q\<bar> = (n, m)" by (cases "quotient_of \<bar>q\<bar>") auto
  define e0 where "e0 = bitlen n - bitlen m"
  define e where "e = (if pow_int 2 e0 \<le> \<bar>q\<bar> then e0 else e0 - 1)"
  define ulp where "ulp = pow_int 2 (max e (- 1022) - 52)"
  define x where "x = of_int (round_half_even (\<bar>q\<bar> / ulp)) * ulp"
  have "float64 q = (if of_int (2 ^ 1024) \<le> x then None else Some (if q < 0 then - x else x))"
    using False nm by (simp only: float64_def if_False prod.case Let_def e0_def e_def ulp_def x_def)
  then have "v = (if q < 0 then - x else x)" using assms by (simp only: split: if_splits) simp_all
  then have "v = of_int (if q < 0 then - round_half_even (\<bar>q\<bar> / ulp) else round_half_even (\<bar>q\<bar> / ulp)) * ulp"
    by (simp add: x_def)
  then obtain i :: int where "v = of_int i * pow_int 2 (max e (- 1022) - 52)" unfolding ulp_def by blast
  moreover have "\<exists>j::int. pow_int 2 (max e (- 1022) - 52) * 2 ^ N = of_int j"
  proof (cases "0 \<le> max e (- 1022) - 52")
    case True
    then show ?thesis by (intro exI [of _ "2 ^ nat (max e (- 1022) - 52) * 2 ^ N"]) (simp add: pow_int_def)
  next
    case False
    let ?d = "nat (- (max e (- 1022) - 52))"
    have "?d + (N - ?d) = N" using False N by simp
    then have "(2::rat) ^ N = 2 ^ ?d * 2 ^ (N - ?d)" by (metis power_add)
    then have "inverse (2 ^ ?d) * (2::rat) ^ N = of_int (2 ^ (N - ?d))" by (simp only: mult.assoc [symmetric]) simp
    then show ?thesis using False unfolding pow_int_def by (intro exI [of _ "2 ^ (N - ?d)"]) simp
  qed
  ultimately show ?thesis by (metis mult.assoc of_int_mult)
qed

lemma shortest_from_back:
  assumes v: "float64 v = Some v" and N: "1074 \<le> N"
  shows "n + k = N \<Longrightarrow> shortest_from n k v = (m, i) \<Longrightarrow> float64 (of_int i / 10 ^ m) = Some v"
proof (induction n arbitrary: k)
  case 0
  obtain j :: int where "v * 2 ^ N = of_int j" using float64_scale [OF v N] by blast
  then have "v * (2 * 5) ^ N = of_int (j * 5 ^ N)" by (simp only: power_mult_distrib mult.assoc [symmetric]) simp
  then have j: "v * 10 ^ N = of_int (j * 5 ^ N)" by simp
  have "k = N" "m = k" "i = \<lfloor>v * 10 ^ k\<rfloor>" using 0 by auto
  then have "m = N" "i = \<lfloor>v * 10 ^ N\<rfloor>" by blast+
  then have "of_int i / 10 ^ m = v * 10 ^ N / 10 ^ N" unfolding j by (simp only: floor_of_int)
  also have "\<dots> = v" by simp
  finally show ?case using v by simp
next
  case (Suc n)
  then show ?case by (auto simp: Let_def split: if_splits)
qed

end
