(* ===== verification/Api.thy ===== *)
theory Api
  imports Auth Briefs Retrieval Embedding Float64
begin

text \<open>
  \<open>internal/api/api.go\<close>: the HTTP API. A request is what the handlers read of an \<open>http.Request\<close> after
  chi has matched its route; a response is its status and the value that is encoded as JSON. Handlers
  read the database; generating a brief writes to it. What the handlers use of the outside (keys,
  clock, Postgres's casts, uuid and time parsers, the embedding service) is the record \<open>api_env\<close>.
\<close>

subsection \<open>Requests as JSON\<close>

definition maxRequestBodyBytes :: nat where
  "maxRequestBodyBytes = 1048576"

text \<open>\<open>http.MaxBytesReader\<close> and \<open>json.NewDecoder(r.Body).Decode\<close>: the first value of the body. An object or
  array ends with its bracket; anything else needs a space after it or the end of the body, which a
  longer body does not show.\<close>

definition decode_first :: "string \<Rightarrow> json option" where
  "decode_first body =
     (case parse_json ([], E_Value) (take maxRequestBodyBytes body) of
        None \<Rightarrow> None
      | Some (v, r) \<Rightarrow>
          (case v of
             JObj _ \<Rightarrow> Some v
           | JArr _ \<Rightarrow> Some v
           | _ \<Rightarrow> if (if r = [] then length body \<le> maxRequestBodyBytes else json_space (hd r)) then Some v else None))"

definition decode_body :: "'a \<Rightarrow> 'a decoder \<Rightarrow> string \<Rightarrow> 'a option" where
  "decode_body zero dec body = (case decode_first body of None \<Rightarrow> None | Some j \<Rightarrow> dec zero j)"

text \<open>A JSON number as \<open>float64\<close> (theory \<open>Float64\<close>): the nearest double, and an error beyond the largest.\<close>

definition digits_value :: "string \<Rightarrow> int" where
  "digits_value = foldl (\<lambda>a c. 10 * a + (byte c - 48)) 0"

definition signed_value :: "string \<Rightarrow> int" where
  "signed_value s = (case s of [] \<Rightarrow> 0 | c # r \<Rightarrow>
     if c = CHR ''-'' then - digits_value r else if c = CHR ''+'' then digits_value r else digits_value s)"

definition number_value :: "string \<Rightarrow> rat" where
  "number_value n =
     (let (sign, r) = scan_sign n;
          whole = takeWhile is_digit_char r; r1 = dropWhile is_digit_char r;
          frac = (case r1 of [] \<Rightarrow> [] | c # q \<Rightarrow> if c = CHR ''.'' then takeWhile is_digit_char q else []);
          r2 = (case r1 of [] \<Rightarrow> [] | c # q \<Rightarrow> if c = CHR ''.'' then dropWhile is_digit_char q else r1);
          e = signed_value (drop 1 r2)
      in (if sign = [] then 1 else - 1) * of_int (digits_value (whole @ frac)) * pow_int 10 (e - int (length frac)))"

fun dec_float :: "rat decoder" where
  "dec_float old JNull = Some old"
| "dec_float old (JNum n) = float64 (number_value n)"
| "dec_float old _ = None"

definition story_decoder :: "StoryRequest decoder" where
  "story_decoder = dec_struct
     [(''query'', field sr_Query (\<lambda>x. sr_Query_update (\<lambda>_. x)) dec_string),
      (''depth'', field sr_Depth (\<lambda>x. sr_Depth_update (\<lambda>_. x)) dec_int),
      (''max_facts'', field sr_MaxFacts (\<lambda>x. sr_MaxFacts_update (\<lambda>_. x)) (dec_pointer 0 dec_int)),
      (''min_confidence'', field sr_MinConfidence (\<lambda>x. sr_MinConfidence_update (\<lambda>_. x)) dec_float)]"

definition facts_decoder :: "FactsQueryRequest decoder" where
  "facts_decoder = dec_struct
     [(''query'', field fq_Query (\<lambda>x. fq_Query_update (\<lambda>_. x)) dec_string),
      (''max_facts'', field fq_MaxFacts (\<lambda>x. fq_MaxFacts_update (\<lambda>_. x)) (dec_pointer 0 dec_int)),
      (''min_confidence'', field fq_MinConfidence (\<lambda>x. fq_MinConfidence_update (\<lambda>_. x)) dec_float)]"

definition generate_fields :: "(string \<times> GenerateRequest decoder) list" where
  "generate_fields =
     [(''source_kind'', field gr_SourceKind (\<lambda>x. gr_SourceKind_update (\<lambda>_. x)) dec_string),
      (''entity_id'', field gr_EntityID (\<lambda>x. gr_EntityID_update (\<lambda>_. x)) (dec_pointer [] dec_string)),
      (''query'', field gr_Query (\<lambda>x. gr_Query_update (\<lambda>_. x)) (dec_pointer [] dec_string))]"

text \<open>\<open>DisallowUnknownFields\<close>.\<close>

definition known_fields :: "(string \<times> 'a) list \<Rightarrow> json \<Rightarrow> bool" where
  "known_fields fs j = (case j of
     JObj kvs \<Rightarrow> list_all (\<lambda>(k, v). list_ex (\<lambda>(name, d). fold_name name = fold_name k) fs) kvs | _ \<Rightarrow> True)"

definition generate_decoder :: "GenerateRequest decoder" where
  "generate_decoder old j = (if known_fields generate_fields j then dec_struct generate_fields old j else None)"

definition zero_story :: StoryRequest where
  "zero_story = \<lparr>sr_Query = [], sr_Depth = 0, sr_MaxFacts = None, sr_MinConfidence = 0\<rparr>"

definition zero_facts :: FactsQueryRequest where
  "zero_facts = \<lparr>fq_Query = [], fq_MaxFacts = None, fq_MinConfidence = 0\<rparr>"

definition zero_generate :: GenerateRequest where
  "zero_generate = \<lparr>gr_SourceKind = [], gr_EntityID = None, gr_Query = None\<rparr>"

subsection \<open>Requests, responses and the server\<close>

record request =
  rq_Authorization :: string
  rq_Query :: "string \<Rightarrow> string"   \<comment> \<open>\<open>r.URL.Query().Get\<close>\<close>
  rq_Body :: string

datatype route =
    Healthz | Readyz | Get_dossier string | Post_brief_generate | Get_briefs | Get_brief_route string
  | Post_story | Post_facts_query

record Problem =
  pr_Type :: string
  pr_Title :: string
  pr_Status :: int
  pr_Detail :: string

datatype payload =
    HealthResponse string
  | ReadyResponse bool "string list"
  | Problem_payload Problem
  | Dossier_payload DossierResponse
  | Bundle_payload Bundle
  | Brief_payload Brief
  | Briefs_payload "Brief list"

record response =
  rs_Status :: int
  rs_Payload :: payload

record api_env =
  ae_crypto :: crypto
  ae_tables :: unicode_tables
  ae_pg :: pg_env
  ae_brief :: brief_env
  ae_distance :: distance
  ae_role_reads :: "entity_row \<Rightarrow> bool"   \<comment> \<open>what row security lets the pool's own role read\<close>
  ae_env :: env
  ae_uuid_parse :: "string \<Rightarrow> bool"
  ae_time_parse :: "string \<Rightarrow> int option"
  ae_client :: Client
  ae_correlation :: string                 \<comment> \<open>\<open>uuid.NewString()\<close>\<close>
  ae_decode_error :: "string \<Rightarrow> string"    \<comment> \<open>the text of a decoding error\<close>

record Server =
  srv_Pool :: bool
  srv_Embedder :: "(string list \<Rightarrow> rat list list result) option"
  srv_Verifier :: Verifier

text \<open>\<open>New\<close>: without an embedder URL the vector search is disabled; without a pool there is no store to
  search. \<open>retrieval.NewService\<close> gets both.\<close>

definition New :: "api_env \<Rightarrow> bool \<Rightarrow> Verifier \<Rightarrow> string \<Rightarrow> Server" where
  "New A pool verifier embedderURL =
     \<lparr>srv_Pool = pool,
      srv_Embedder = (if embedderURL \<noteq> [] then Some (Embed (NewClient (ae_client A) embedderURL)) else None),
      srv_Verifier = verifier\<rparr>"

definition service_at :: "api_env \<Rightarrow> Server \<Rightarrow> db \<Rightarrow> Service" where
  "service_at A s d =
     \<lparr>embedder = srv_Embedder s,
      vectorStore = (if srv_Pool s
        then Some (SearchNearest (ae_distance A) (filter (ae_role_reads A) (entities d))) else None)\<rparr>"

subsection \<open>Errors\<close>

definition writeProblem :: "int \<Rightarrow> string \<Rightarrow> string \<Rightarrow> response" where
  "writeProblem status title detail = \<lparr>rs_Status = status, rs_Payload = Problem_payload
     \<lparr>pr_Type = ''about:blank'', pr_Title = title, pr_Status = status, pr_Detail = detail\<rparr>\<rparr>"

text \<open>\<open>errors.Is\<close> looks for a sentinel along the chain of wrapped errors. Here an error is its text: a
  chain that ends in the sentinel is its text behind the prefixes that the wrappers on the way put in
  front of it, and, where it was made with \<open>"%w: ..."\<close>, with the detail behind. The wrappers that a sentinel
  passes on its way to \<open>writeError\<close> are these two, both of \<open>briefs.go\<close>.\<close>

definition wrap_prefixes :: "string list" where
  "wrap_prefixes = [[], ''briefs: load bundle: '', ''briefs: get: '']"

definition errors_Is :: "string \<Rightarrow> string \<Rightarrow> bool" where
  "errors_Is e sentinel \<longleftrightarrow> list_ex (\<lambda>p. e = p @ sentinel \<or> has_prefix (p @ sentinel @ '': '') e) wrap_prefixes"

definition writeError :: "api_env \<Rightarrow> string \<Rightarrow> response" where
  "writeError A e =
     (if errors_Is e ErrEntityNotFound \<or> errors_Is e ErrNoRows then writeProblem 404 ''not found'' []
      else if errors_Is e ErrInvalidGenerateRequest then writeProblem 400 ''bad request'' e
      else if errors_Is e ErrInvalidDepth \<or> errors_Is e ErrInvalidEntityCount then writeProblem 400 ''bad request'' e
      else writeProblem 500 ''internal server error'' (''ref: '' @ ae_correlation A))"

definition writeJSON :: "payload \<Rightarrow> response" where
  "writeJSON p = \<lparr>rs_Status = 200, rs_Payload = p\<rparr>"

definition answer_with :: "api_env \<Rightarrow> ('a \<Rightarrow> payload) \<Rightarrow> 'a result \<Rightarrow> response" where
  "answer_with A f r = (case r of Inl e \<Rightarrow> writeError A e | Inr x \<Rightarrow> writeJSON (f x))"

subsection \<open>Handlers\<close>

definition getDossier :: "api_env \<Rightarrow> string \<Rightarrow> string \<Rightarrow> db \<Rightarrow> response" where
  "getDossier A tenantID i d = answer_with A Dossier_payload (Dossier (ae_pg A) d tenantID i)"

definition bad_body :: "api_env \<Rightarrow> request \<Rightarrow> response" where
  "bad_body A r = writeProblem 400 ''invalid request body'' (ae_decode_error A (rq_Body r))"

definition postStory :: "api_env \<Rightarrow> Server \<Rightarrow> string \<Rightarrow> request \<Rightarrow> db \<Rightarrow> response" where
  "postStory A s tenantID r d =
     (case decode_body zero_story story_decoder (rq_Body r) of
        None \<Rightarrow> bad_body A r
      | Some req \<Rightarrow> answer_with A Bundle_payload (Story (ae_tables A) (ae_pg A) (service_at A s d) d tenantID req))"

definition postFactsQuery :: "api_env \<Rightarrow> Server \<Rightarrow> string \<Rightarrow> request \<Rightarrow> db \<Rightarrow> response" where
  "postFactsQuery A s tenantID r d =
     (case decode_body zero_facts facts_decoder (rq_Body r) of
        None \<Rightarrow> bad_body A r
      | Some req \<Rightarrow> answer_with A Bundle_payload (FactsQuery (ae_tables A) (ae_pg A) (service_at A s d) d tenantID req))"

definition entityBelongsToTenant :: "pg_env \<Rightarrow> string \<Rightarrow> string \<Rightarrow> db \<Rightarrow> bool result" where
  "entityBelongsToTenant pg tenantID entityID d =
     (case scan_uuid pg tenantID of
        None \<Rightarrow> Err ''briefs/generate entity ownership: invalid tenant id''
      | Some t \<Rightarrow>
          (case cast_uuid pg entityID of
             Inl e \<Rightarrow> Err (''briefs/generate entity ownership query: '' @ e)
           | Inr u \<Rightarrow> Ok (list_ex (\<lambda>e. en_id e = u) (rls en_tenant t (entities d)))))"

definition assembleBriefBundle ::
    "api_env \<Rightarrow> Server \<Rightarrow> string \<Rightarrow> GenerateRequest \<Rightarrow> db \<Rightarrow> Bundle option result" where
  "assembleBriefBundle A s tenantID req d =
     (if gr_SourceKind req = SourceKindDossier then
        (if blank (gr_EntityID req) then Err (ErrInvalidGenerateRequest @ '': dossier briefs require entity_id'')
         else rbind (Dossier (ae_pg A) d tenantID (the (gr_EntityID req))) (\<lambda>resp. Ok (Some (dr_Bundle resp))))
      else if gr_SourceKind req = SourceKindStory then
        (if blank (gr_Query req) then Err (ErrInvalidGenerateRequest @ '': story briefs require query'')
         else rbind (Story (ae_tables A) (ae_pg A) (service_at A s d) d tenantID
                (zero_story\<lparr>sr_Query := the (gr_Query req)\<rparr>)) (\<lambda>b. Ok (Some b)))
      else Err (ErrInvalidGenerateRequest @ '': unsupported source_kind '' @ quote_string (ae_brief A) (gr_SourceKind req)))"

definition postBriefGenerate :: "api_env \<Rightarrow> Server \<Rightarrow> string \<Rightarrow> request \<Rightarrow> db \<Rightarrow> response \<times> db" where
  "postBriefGenerate A s tenantID r d =
     (case decode_body zero_generate generate_decoder (rq_Body r) of
        None \<Rightarrow> (bad_body A r, d)
      | Some req \<Rightarrow>
          (let generate = (case GenerateAndStore (ae_brief A) (ae_pg A) (Some (assembleBriefBundle A s)) tenantID req d of
                 Inl e \<Rightarrow> (writeError A e, d)
               | Inr (b, d') \<Rightarrow> (writeJSON (Brief_payload b), d'))
           in case gr_EntityID req of
                None \<Rightarrow> generate
              | Some i \<Rightarrow>
                  if \<not> ae_uuid_parse A i then (writeProblem 400 ''bad request'' ''entity_id must be a valid UUID'', d)
                  else (case entityBelongsToTenant (ae_pg A) tenantID i d of
                          Inl e \<Rightarrow> (writeError A e, d)
                        | Inr owned \<Rightarrow>
                            if \<not> owned then (writeProblem 403 ''entity_id does not belong to tenant'' [], d)
                            else generate)))"

definition defaultMaxBriefLimit :: int where
  "defaultMaxBriefLimit = 1000"

definition maxBriefLimit :: "env \<Rightarrow> int" where
  "maxBriefLimit env =
     (case ResolveInt env None ''FACTVAULT_MAX_BRIEFS_LIMIT'' defaultMaxBriefLimit False of
        Inl _ \<Rightarrow> defaultMaxBriefLimit
      | Inr lmt \<Rightarrow> if lmt \<le> 0 then defaultMaxBriefLimit else lmt)"

definition list_options :: "api_env \<Rightarrow> request \<Rightarrow> ListOptions" where
  "list_options A r =
     (let q = rq_Query r
      in \<lparr>lo_Limit = (if q ''limit'' = [] then 100
             else (case atoi (q ''limit'') of Inl _ \<Rightarrow> 100 | Inr n \<Rightarrow> min n (maxBriefLimit (ae_env A)))),
          lo_SourceKind = (if q ''source_kind'' = [] then None else Some (q ''source_kind'')),
          lo_EntityID = (if q ''entity_id'' = [] then None else Some (q ''entity_id'')),
          lo_CreatedAfter = (if q ''created_after'' = [] then None else ae_time_parse A (q ''created_after'')),
          lo_CreatedBefore = (if q ''created_before'' = [] then None else ae_time_parse A (q ''created_before''))\<rparr>)"

definition getBriefs :: "api_env \<Rightarrow> string \<Rightarrow> request \<Rightarrow> db \<Rightarrow> response" where
  "getBriefs A tenantID r d = answer_with A Briefs_payload (List_briefs (ae_pg A) tenantID (list_options A r) d)"

definition getBrief :: "api_env \<Rightarrow> string \<Rightarrow> string \<Rightarrow> db \<Rightarrow> response" where
  "getBrief A tenantID i d = answer_with A Brief_payload (Get_brief (ae_pg A) tenantID i d)"

subsection \<open>The router\<close>

definition ready :: "Server \<Rightarrow> response" where
  "ready s = (if srv_Pool s then \<lparr>rs_Status = 200, rs_Payload = ReadyResponse True []\<rparr>
     else \<lparr>rs_Status = 503, rs_Payload = ReadyResponse False [''database pool is not configured'']\<rparr>)"

text \<open>The routes of the group behind the middleware.\<close>

fun guarded_route :: "api_env \<Rightarrow> Server \<Rightarrow> string \<Rightarrow> route \<Rightarrow> request \<Rightarrow> db \<Rightarrow> response \<times> db" where
  "guarded_route A s tenantID (Get_dossier i) r d = (getDossier A tenantID i d, d)"
| "guarded_route A s tenantID Post_brief_generate r d = postBriefGenerate A s tenantID r d"
| "guarded_route A s tenantID Get_briefs r d = (getBriefs A tenantID r d, d)"
| "guarded_route A s tenantID (Get_brief_route i) r d = (getBrief A tenantID i d, d)"
| "guarded_route A s tenantID Post_story r d = (postStory A s tenantID r d, d)"
| "guarded_route A s tenantID Post_facts_query r d = (postFactsQuery A s tenantID r d, d)"
| "guarded_route A s tenantID _ r d = (ready s, d)"

definition Router :: "api_env \<Rightarrow> Server \<Rightarrow> route \<Rightarrow> request \<Rightarrow> db \<Rightarrow> response \<times> db" where
  "Router A s rt r d =
     (if rt = Healthz then (writeJSON (HealthResponse ''ok''), d)
      else if rt = Readyz then (ready s, d)
      else
        (case jwtMiddleware (ae_crypto A) (srv_Verifier s) (rq_Authorization r) of
           Inl e \<Rightarrow> (writeProblem 401 ''unauthorized'' e, d)
         | Inr claims \<Rightarrow> guarded_route A s (TenantID claims) rt r d))"

subsection \<open>Statuses and what an error tells\<close>

lemma sentinels [simp]: "errors_Is ErrEntityNotFound ErrEntityNotFound"
  "errors_Is (''briefs: get: '' @ ErrNoRows) ErrNoRows"
  by (simp_all add: errors_Is_def wrap_prefixes_def)

definition problem :: "response \<Rightarrow> Problem option" where
  "problem x = (case rs_Payload x of Problem_payload p \<Rightarrow> Some p | _ \<Rightarrow> None)"

text \<open>The texts a client may read in a 400: the decoder's error, that the identifier is no UUID, or the whole
  text, wrappers included, of an error that is one of the three sentinels for requests.\<close>

definition request_error :: "api_env \<Rightarrow> request \<Rightarrow> string \<Rightarrow> bool" where
  "request_error A r e \<longleftrightarrow> e = ae_decode_error A (rq_Body r) \<or> e = ''entity_id must be a valid UUID''
     \<or> errors_Is e ErrInvalidGenerateRequest \<or> errors_Is e ErrInvalidDepth \<or> errors_Is e ErrInvalidEntityCount"

definition well_answered :: "api_env \<Rightarrow> request \<Rightarrow> response \<Rightarrow> bool" where
  "well_answered A r x \<longleftrightarrow>
     (case problem x of None \<Rightarrow> rs_Status x = 200
      | Some p \<Rightarrow> pr_Status p = rs_Status x \<and> pr_Status p \<in> {400, 403, 404, 500}
          \<and> (pr_Status p = 500 \<longrightarrow> pr_Detail p = ''ref: '' @ ae_correlation A)
          \<and> (pr_Status p \<in> {403, 404} \<longrightarrow> pr_Detail p = [])
          \<and> (pr_Status p = 400 \<longrightarrow> request_error A r (pr_Detail p)))"

lemma problem_simps [simp]:
  "problem (writeProblem st ti de) = Some \<lparr>pr_Type = ''about:blank'', pr_Title = ti, pr_Status = st, pr_Detail = de\<rparr>"
  "rs_Status (writeProblem st ti de) = st" "rs_Status (writeJSON p) = 200"
  "rs_Payload (writeJSON p) = p"
  by (simp_all add: problem_def writeProblem_def writeJSON_def)

lemma well_answered_error: "well_answered A r (writeError A e)"
  by (simp add: well_answered_def writeError_def request_error_def)

lemma well_answered_json:
  "well_answered A r (writeJSON (Dossier_payload x))" "well_answered A r (writeJSON (Bundle_payload b))"
  "well_answered A r (writeJSON (Brief_payload y))" "well_answered A r (writeJSON (Briefs_payload z))"
  by (simp_all add: well_answered_def problem_def)

lemma well_answered_body: "well_answered A r (bad_body A r)"
  by (simp add: well_answered_def bad_body_def request_error_def)

lemmas well_answered_intros = well_answered_error well_answered_json well_answered_body

lemma guarded_well_answered:
  assumes "rt \<notin> {Healthz, Readyz}"
  shows "well_answered A r (fst (guarded_route A s tenantID rt r d))"
proof (cases rt)
  case Post_brief_generate
  then show ?thesis
    by (auto simp: postBriefGenerate_def Let_def well_answered_intros split: option.split sum.split)
      (auto simp: well_answered_def request_error_def)
qed (use assms in \<open>auto simp: getDossier_def getBriefs_def getBrief_def postStory_def postFactsQuery_def answer_with_def
      well_answered_intros split: option.split sum.split\<close>)

subsection \<open>Reading only one's own tenant\<close>

lemma own_rows:
  assumes "view t d1 = view t d2"
  shows "rls en_tenant t (entities d1) = rls en_tenant t (entities d2)"
    and "rls br_tenant t (briefs d1) = rls br_tenant t (briefs d2)"
  using assms by (simp_all add: view_def)

lemma search_own_tenant:
  assumes "rls en_tenant t (entities d1) = rls en_tenant t (entities d2)"
  shows "SearchNearest D (filter P (entities d1)) t v k = SearchNearest D (filter P (entities d2)) t v k"
proof -
  have "filter (\<lambda>e. en_tenant e = t \<and> en_embedding e \<noteq> None) (filter P es)
      = filter (\<lambda>e. P e \<and> en_embedding e \<noteq> None) (rls en_tenant t es)" for es
    by (simp add: rls_def conj_commute conj_left_commute)
  then show ?thesis using assms by (simp add: SearchNearest_def)
qed

lemma seeded_own_tenant:
  assumes "scan_uuid (ae_pg A) tenantID = Some t" and "view t d1 = view t d2" and "now d1 = now d2"
  shows "seeded_bundle U (ae_pg A) (service_at A s d1) d1 tenantID q depth
       = seeded_bundle U (ae_pg A) (service_at A s d2) d2 tenantID q depth"
proof -
  have t: "ilikeSeed U (ae_pg A) t d1 tenantID = ilikeSeed U (ae_pg A) t d2 tenantID"
    by (intro ext) (simp only: ilikeSeed_def own_rows(1) [OF assms(2)])
  have e: "embedder (service_at A s d1) = embedder (service_at A s d2)"
    "(vectorStore (service_at A s d1) \<noteq> None) = (vectorStore (service_at A s d2) \<noteq> None)"
    by (simp_all add: service_at_def)
  have v: "the (vectorStore (service_at A s d1)) t = the (vectorStore (service_at A s d2)) t"
    using search_own_tenant [OF own_rows(1) [OF assms(2)]] by (simp add: service_at_def fun_eq_iff)
  have c: "cosineSeed (ae_pg A) (service_at A s d1) tenantID = cosineSeed (ae_pg A) (service_at A s d2) tenantID"
    by (intro ext) (simp only: cosineSeed_def assms(1) option.case e(1) v)
  have sd: "seedEntities U (ae_pg A) (service_at A s d1) t d1 tenantID = seedEntities U (ae_pg A) (service_at A s d2) t d2 tenantID"
    by (intro ext) (simp only: seedEntities_def t c e)
  have as: "Assemble (ae_pg A) t d1 = Assemble (ae_pg A) t d2"
    by (intro ext) (rule assemble_reads_own_tenant [OF assms(2,3)])
  show ?thesis unfolding seeded_bundle_def withTenantTx_def assms(1) option.case sd as ..
qed

lemma guarded_own_tenant:
  assumes "scan_uuid (ae_pg A) tenantID = Some t" and "view t d1 = view t d2" and "now d1 = now d2"
    and "rt \<noteq> Post_brief_generate"
  shows "fst (guarded_route A s tenantID rt r d1) = fst (guarded_route A s tenantID rt r d2)"
proof -
  have "Assemble (ae_pg A) t d1 = Assemble (ae_pg A) t d2"
    by (intro ext) (rule assemble_reads_own_tenant [OF assms(2,3)])
  then have "Dossier (ae_pg A) d1 tenantID i = Dossier (ae_pg A) d2 tenantID i" for i
    by (simp add: Dossier_def withTenantTx_def assms(1))
  moreover have "Story U (ae_pg A) (service_at A s d1) d1 tenantID q = Story U (ae_pg A) (service_at A s d2) d2 tenantID q"
    "FactsQuery U (ae_pg A) (service_at A s d1) d1 tenantID f = FactsQuery U (ae_pg A) (service_at A s d2) d2 tenantID f" for U q f
    using seeded_own_tenant [OF assms(1-3)] by (simp_all add: Story_def FactsQuery_def Let_def)
  moreover have "List_briefs (ae_pg A) tenantID opts d1 = List_briefs (ae_pg A) tenantID opts d2"
    "Get_brief (ae_pg A) tenantID i d1 = Get_brief (ae_pg A) tenantID i d2" for opts i
    by (simp_all only: List_briefs_def Get_brief_def tenantTx_def cast_uuid_def assms(1) option.case rbind_simps wrapped_simps
        own_rows(2) [OF assms(2)])
  ultimately show ?thesis using assms(4)
    by (cases rt) (auto simp: getDossier_def postStory_def postFactsQuery_def getBriefs_def getBrief_def split: option.split)
qed

subsection \<open>What generating a brief writes\<close>

lemma generate_writes:
  assumes "GenerateAndStore E pg loader tenantID req d = Inr (b, d')"
  shows "\<exists>t row. scan_uuid pg tenantID = Some t \<and> d' = d\<lparr>next_id := Suc (next_id d), briefs := briefs d @ [row]\<rparr>
    \<and> br_tenant row = t \<and> cast_optional pg (gr_EntityID req) = Inr (br_entity row)"
proof -
  from assms obtain bnd where "generateAndStoreBundle E pg tenantID req bnd d = Inr (b, d')"
    by (auto simp: GenerateAndStore_def rbind_Inr_iff split: option.splits)
  then obtain payload t i where "insert_brief E pg t tenantID req payload d = Inr (i, d')"
    by (auto simp: generateAndStoreBundle_def tenantTx_def rbind_Inr_iff)
  from insert_brief_ok [OF this] show ?thesis by fastforce
qed

lemma brief_generate_outcome:
  assumes "postBriefGenerate A s tenantID r d = (x, d')"
  shows "(rs_Status x \<noteq> 200 \<longrightarrow> d' = d)
    \<and> (rs_Status x = 200 \<longrightarrow> (\<exists>t row. scan_uuid (ae_pg A) tenantID = Some t
         \<and> d' = d\<lparr>next_id := Suc (next_id d), briefs := briefs d @ [row]\<rparr> \<and> br_tenant row = t
         \<and> (\<forall>u. br_entity row = Some u \<longrightarrow> (\<exists>e \<in> set (entities d). en_tenant e = t \<and> en_id e = u))))"
proof -
  have err: "rs_Status (writeError A e) \<noteq> 200" for e by (simp add: writeError_def)
  have bad: "rs_Status (bad_body A r) \<noteq> 200" by (simp add: bad_body_def)
  show ?thesis
  proof (cases "rs_Status x = 200")
    case False
    with assms show ?thesis
      by (auto simp: postBriefGenerate_def Let_def split: option.splits if_splits sum.splits prod.splits)
  next
    case True
    with assms err bad obtain req b where req: "decode_body zero_generate generate_decoder (rq_Body r) = Some req"
      and gen: "GenerateAndStore (ae_brief A) (ae_pg A) (Some (assembleBriefBundle A s)) tenantID req d = Inr (b, d')"
      and own: "gr_EntityID req = None \<or> (\<exists>i. gr_EntityID req = Some i \<and> entityBelongsToTenant (ae_pg A) tenantID i d = Inr True)"
      by (auto simp: postBriefGenerate_def Let_def split: option.splits if_splits sum.splits prod.splits)
    from generate_writes [OF gen] obtain t row where w: "scan_uuid (ae_pg A) tenantID = Some t"
      "d' = d\<lparr>next_id := Suc (next_id d), briefs := briefs d @ [row]\<rparr>" "br_tenant row = t"
      "cast_optional (ae_pg A) (gr_EntityID req) = Inr (br_entity row)" by blast
    have "\<exists>e \<in> set (entities d). en_tenant e = t \<and> en_id e = u" if u: "br_entity row = Some u" for u
    proof -
      from w(4) u obtain i where i: "gr_EntityID req = Some i" "cast_uuid (ae_pg A) i = Inr u"
        by (auto simp: cast_optional_def rbind_Inr_iff split: option.splits)
      from own i(1) show ?thesis
        by (auto simp: entityBelongsToTenant_def w(1) i(2) list_ex_iff rls_def)
    qed
    with w True show ?thesis by auto
  qed
qed

subsection \<open>An example server\<close>

lemma trim_printable:
  assumes "\<forall>c \<in> set s. 33 \<le> byte c \<and> byte c < 127"
  shows "trim_space s = s"
proof -
  have "is_ascii s" using assms by (auto simp: is_ascii_def)
  then have ch: "chunks s = map (\<lambda>c. [c]) s" using chunks_ascii_append [of s "[]"] by simp
  have "\<not> space_chunk [c]" if "c \<in> set s" for c
    using assms that by (auto simp: space_chunk_def chunk_rune_ascii is_space_def)
  then have "dropWhile space_chunk (map (\<lambda>c. [c]) s) = map (\<lambda>c. [c]) s"
    "dropWhile space_chunk (rev (map (\<lambda>c. [c]) s)) = rev (map (\<lambda>c. [c]) s)"
    by (auto simp: dropWhile_eq_self_iff hd_map hd_rev last_map)
  then show ?thesis by (simp add: trim_space_def trim_ends_def ch)
qed

lemma b64_printable: "c \<in> set (EncodeToString s) \<Longrightarrow> 45 \<le> byte c \<and> byte c \<le> 122"
proof -
  assume "c \<in> set (EncodeToString s)"
  then obtain d where "b64_value c = Some d"
    using b64_digits_range b64_char_value by (fastforce simp: EncodeToString_def)
  then show ?thesis by (auto simp: b64_value_def Let_def split: if_splits)
qed

definition dev_token :: string where
  "dev_token = unsigned_token dev_claims @ ''.'' @ EncodeToString (unsigned_token dev_claims)"

lemma dev_bearer: "BearerToken (''Bearer '' @ dev_token) = Some dev_token"
proof -
  have "\<forall>c \<in> set dev_token. 33 \<le> byte c \<and> byte c < 127"
    using b64_printable by (fastforce simp: dev_token_def unsigned_token_def byte_def)
  then have "trim_space dev_token = dev_token" by (rule trim_printable)
  moreover have "trim_prefix ''Bearer '' (''Bearer '' @ dev_token) = dev_token" "has_prefix ''Bearer '' (''Bearer '' @ dev_token)"
    by (simp_all add: trim_prefix_def has_prefix_def)
  moreover have "dev_token \<noteq> []" by (simp add: dev_token_def)
  ultimately show ?thesis unfolding BearerToken_def by (simp del: append_Cons)
qed

lemma dev_admitted: "jwtMiddleware toy_crypto \<lparr>PublicKey = Some 7, Now = 2000\<rparr> (''Bearer '' @ dev_token) = Inr dev_claims"
proof -
  have "Verify toy_crypto \<lparr>PublicKey = Some 7, Now = 2000\<rparr> dev_token = Inr dev_claims"
    using verify_signed [OF dev_claims_ok, of toy_crypto 7 "unsigned_token dev_claims" "\<lparr>PublicKey = Some 7, Now = 2000\<rparr>"]
    by (simp add: dev_token_def toy_crypto_def) (simp add: dev_claims_def)
  then show ?thesis unfolding jwtMiddleware_def dev_bearer by simp
qed

definition sample_api :: api_env where
  "sample_api = \<lparr>ae_crypto = toy_crypto, ae_tables = ascii_tables, ae_pg = sample_pg, ae_brief = sample_brief_env,
     ae_distance = (\<lambda>_ _. Inr None), ae_role_reads = (\<lambda>_. False), ae_env = Map.empty,
     ae_uuid_parse = (\<lambda>s. s \<noteq> []), ae_time_parse = (\<lambda>_. None), ae_client = sample_client,
     ae_correlation = ''c'', ae_decode_error = (\<lambda>_. ''json'')\<rparr>"

definition sample_server :: Server where
  "sample_server = New sample_api True \<lparr>PublicKey = Some 7, Now = 2000\<rparr> []"

definition dev_request :: "string \<Rightarrow> request" where
  "dev_request body = \<lparr>rq_Authorization = ''Bearer '' @ dev_token, rq_Query = (\<lambda>_. []), rq_Body = body\<rparr>"

text \<open>The example database: tenant 36, the length of the text of the example's tenant, has entity 2; tenant 1
  has entity 3.\<close>

definition api_db :: db where
  "api_db = empty_db\<lparr>next_id := 10, entities := [(labelled_entity 2 ''Acme'')\<lparr>en_tenant := 36\<rparr>, labelled_entity 3 ''Beta'']\<rparr>"

lemma dev_route:
  "rt \<notin> {Healthz, Readyz} \<Longrightarrow> Router sample_api sample_server rt (dev_request body) d
     = guarded_route sample_api sample_server ''11111111-1111-1111-1111-111111111111'' rt (dev_request body) d"
  unfolding Router_def dev_request_def sample_server_def New_def
  by (simp add: sample_api_def dev_admitted del: append_Cons) (simp add: dev_claims_def)

subsection \<open>Properties\<close>

text \<open>C34. What leaves the server when something fails: every problem carries the status of its response; a
  500 tells nothing but a reference number, a 403 and a 404 have no detail. A 401 carries why the token was
  refused, and a 400 does carry the text of an error - of the decoder, or of one that wraps a sentinel
  for bad requests - and no other. And only a 200 may have changed the database.\<close>

theorem api_errors_stay_inside:
  "(case problem (fst (Router A s rt r d)) of
      None \<Rightarrow> rs_Status (fst (Router A s rt r d)) \<in> {200, 503}
    | Some p \<Rightarrow> pr_Status p = rs_Status (fst (Router A s rt r d)) \<and> pr_Status p \<in> {400, 401, 403, 404, 500}
        \<and> (pr_Status p = 500 \<longrightarrow> pr_Detail p = ''ref: '' @ ae_correlation A)
        \<and> (pr_Status p \<in> {403, 404} \<longrightarrow> pr_Detail p = [])
        \<and> (pr_Status p = 400 \<longrightarrow> request_error A r (pr_Detail p))
        \<and> (pr_Status p = 401 \<longrightarrow> jwtMiddleware (ae_crypto A) (srv_Verifier s) (rq_Authorization r) = Inl (pr_Detail p)))
   \<and> (rs_Status (fst (Router A s rt r d)) \<noteq> 200 \<longrightarrow> snd (Router A s rt r d) = d)"
proof -
  let ?j = "jwtMiddleware (ae_crypto A) (srv_Verifier s) (rq_Authorization r)"
  consider "rt \<in> {Healthz, Readyz}" | e where "rt \<notin> {Healthz, Readyz}" "?j = Inl e"
    | c where "rt \<notin> {Healthz, Readyz}" "?j = Inr c" by (cases ?j) blast+
  then show ?thesis
  proof cases
    case (3 c)
    obtain x d' where run: "postBriefGenerate A s (TenantID c) r d = (x, d')" by fastforce
    have "rs_Status (fst (guarded_route A s (TenantID c) rt r d)) \<noteq> 200 \<longrightarrow> snd (guarded_route A s (TenantID c) rt r d) = d"
      using brief_generate_outcome [OF run] run by (cases rt) simp_all
    moreover have "Router A s rt r d = guarded_route A s (TenantID c) rt r d" using 3 by (auto simp: Router_def)
    ultimately show ?thesis using guarded_well_answered [OF 3(1), of A r s "TenantID c" d]
      by (cases "problem (fst (Router A s rt r d))") (auto simp: well_answered_def)
  qed (auto simp: Router_def ready_def problem_def writeProblem_def writeJSON_def)
qed

lemma other_tenants_entity:
  "fst (guarded_route sample_api sample_server ''11111111-1111-1111-1111-111111111111'' (Get_dossier ''uuu'') r api_db)
     = writeProblem 404 ''not found'' []"
  unfolding guarded_route.simps fst_conv by code_simp

theorem api_errors_stay_inside_witness:
  "fst (Router sample_api sample_server (Get_dossier ''uuu'') (dev_request []) api_db) = writeProblem 404 ''not found'' []
   \<and> snd (Router sample_api sample_server (Get_dossier ''uuu'') (dev_request []) api_db) = api_db"
  using api_errors_stay_inside [of sample_api sample_server "Get_dossier ''uuu''" "dev_request []" api_db]
    other_tenants_entity dev_route [of "Get_dossier ''uuu''" "[]" api_db] by simp

text \<open>C33. Tenant isolation at the front door. A caller whose token names tenant \<open>t\<close> gets, on every reading
  route, an answer that depends on nothing but the rows \<open>t\<close> can see; and whatever the route, what other
  tenants see stays as it was.\<close>

theorem api_isolates_tenants:
  assumes "jwtMiddleware (ae_crypto A) (srv_Verifier s) (rq_Authorization r) = Inr c"
    and "scan_uuid (ae_pg A) (TenantID c) = Some t"
  shows "(view t d1 = view t d2 \<and> now d1 = now d2 \<and> rt \<noteq> Post_brief_generate \<longrightarrow>
        fst (Router A s rt r d1) = fst (Router A s rt r d2))
    \<and> (t' \<noteq> t \<longrightarrow> view t' (snd (Router A s rt r d)) = view t' d)"
proof -
  have "view t' (snd (guarded_route A s (TenantID c) rt r d)) = view t' d" if "t' \<noteq> t"
  proof (cases "rt = Post_brief_generate")
    case True
    obtain x d' where run: "postBriefGenerate A s (TenantID c) r d = (x, d')" by fastforce
    from brief_generate_outcome [OF run] have "view t' d' = view t' d"
      using that assms(2) by (cases "rs_Status x = 200") (auto simp: view_def rls_def)
    with True run show ?thesis by simp
  next
    case False
    then show ?thesis by (cases rt) simp_all
  qed
  then show ?thesis
    using guarded_own_tenant [OF assms(2), of d1 d2 rt s r] assms(1) by (simp add: Router_def)
qed

theorem api_isolates_tenants_witness:
  "fst (Router sample_api sample_server (Get_dossier ''uuu'') (dev_request []) api_db)
     = fst (Router sample_api sample_server (Get_dossier ''uuu'') (dev_request []) (api_db\<lparr>entities := take 1 (entities api_db)\<rparr>))"
proof -
  have "view 36 api_db = view 36 (api_db\<lparr>entities := take 1 (entities api_db)\<rparr>)"
    by (simp add: view_def api_db_def empty_db_def labelled_entity_def)
  moreover have "scan_uuid sample_pg (TenantID dev_claims) = Some 36" by (simp add: sample_pg_def dev_claims_def)
  moreover have "jwtMiddleware (ae_crypto sample_api) (srv_Verifier sample_server) (rq_Authorization (dev_request [])) = Inr dev_claims"
    by (simp add: sample_api_def sample_server_def New_def dev_request_def dev_admitted del: append_Cons)
  moreover have "ae_pg sample_api = sample_pg" by (simp add: sample_api_def)
  ultimately show ?thesis using api_isolates_tenants [of sample_api sample_server "dev_request []" dev_claims 36] by simp
qed

text \<open>Briefs over HTTP. An answer 200 to \<open>POST /briefs/generate\<close> means exactly one new brief, of the
  caller's tenant and about an entity of that tenant if about one at all; any other answer means no change;
  and a body with any member beside the three documented ones - a ready-made bundle, for instance - is
  refused.\<close>

theorem http_briefs_are_owned:
  assumes "jwtMiddleware (ae_crypto A) (srv_Verifier s) (rq_Authorization r) = Inr c"
    and "Router A s Post_brief_generate r d = (x, d')"
  shows "(if rs_Status x = 200
       then \<exists>t row. scan_uuid (ae_pg A) (TenantID c) = Some t
         \<and> d' = d\<lparr>next_id := Suc (next_id d), briefs := briefs d @ [row]\<rparr> \<and> br_tenant row = t
         \<and> (\<forall>u. br_entity row = Some u \<longrightarrow> (\<exists>e \<in> set (entities d). en_tenant e = t \<and> en_id e = u))
       else d' = d)
    \<and> (\<forall>kvs k v. decode_first (rq_Body r) = Some (JObj kvs) \<and> (k, v) \<in> set kvs
         \<and> fold_name k \<notin> {fold_name ''source_kind'', fold_name ''entity_id'', fold_name ''query''} \<longrightarrow>
         x = bad_body A r \<and> rs_Status x = 400)"
proof -
  from assms have run: "postBriefGenerate A s (TenantID c) r d = (x, d')" by (simp add: Router_def)
  have "x = bad_body A r \<and> rs_Status x = 400"
    if "decode_first (rq_Body r) = Some (JObj kvs)" "(k, v) \<in> set kvs"
      "fold_name k \<notin> {fold_name ''source_kind'', fold_name ''entity_id'', fold_name ''query''}" for kvs k v
  proof -
    have "\<not> known_fields generate_fields (JObj kvs)"
      using that(2,3) by (fastforce simp: known_fields_def generate_fields_def list_all_iff)
    with that(1) have "decode_body zero_generate generate_decoder (rq_Body r) = None"
      by (simp add: decode_body_def generate_decoder_def)
    with run show ?thesis by (auto simp: postBriefGenerate_def bad_body_def)
  qed
  then have "\<forall>kvs k v. decode_first (rq_Body r) = Some (JObj kvs) \<and> (k, v) \<in> set kvs
         \<and> fold_name k \<notin> {fold_name ''source_kind'', fold_name ''entity_id'', fold_name ''query''} \<longrightarrow>
         x = bad_body A r \<and> rs_Status x = 400" by blast
  moreover have "if rs_Status x = 200
       then \<exists>t row. scan_uuid (ae_pg A) (TenantID c) = Some t
         \<and> d' = d\<lparr>next_id := Suc (next_id d), briefs := briefs d @ [row]\<rparr> \<and> br_tenant row = t
         \<and> (\<forall>u. br_entity row = Some u \<longrightarrow> (\<exists>e \<in> set (entities d). en_tenant e = t \<and> en_id e = u))
       else d' = d"
    using brief_generate_outcome [OF run] by simp
  ultimately show ?thesis by blast
qed

definition brief_body :: string where
  "brief_body = ''{'' @ [CHR 0x22] @ ''source_kind'' @ [CHR 0x22] @ '':'' @ [CHR 0x22] @ ''dossier'' @ [CHR 0x22]
     @ '','' @ [CHR 0x22] @ ''entity_id'' @ [CHR 0x22] @ '':'' @ [CHR 0x22] @ ''uu'' @ [CHR 0x22] @ ''}''"

lemma brief_body_decoded:
  "decode_body zero_generate generate_decoder brief_body
     = Some \<lparr>gr_SourceKind = ''dossier'', gr_EntityID = Some ''uu'', gr_Query = None\<rparr>"
proof -
  have "take maxRequestBodyBytes brief_body = brief_body" by (simp add: maxRequestBodyBytes_def brief_body_def)
  moreover have "parse_json ([], E_Value) brief_body
      = Some (JObj [(''source_kind'', JStr ''dossier''), (''entity_id'', JStr ''uu'')], [])" by code_simp
  ultimately have "decode_first brief_body = Some (JObj [(''source_kind'', JStr ''dossier''), (''entity_id'', JStr ''uu'')])"
    by (simp add: decode_first_def)
  moreover have "generate_decoder zero_generate (JObj [(''source_kind'', JStr ''dossier''), (''entity_id'', JStr ''uu'')])
      = Some \<lparr>gr_SourceKind = ''dossier'', gr_EntityID = Some ''uu'', gr_Query = None\<rparr>" by code_simp
  ultimately show ?thesis by (simp add: decode_body_def)
qed

lemma brief_generated:
  "rs_Status (fst (postBriefGenerate sample_api sample_server ''11111111-1111-1111-1111-111111111111''
     (dev_request brief_body) api_db)) = 200"
proof -
  have "(let generate = (case GenerateAndStore (ae_brief sample_api) (ae_pg sample_api) (Some (assembleBriefBundle sample_api sample_server))
             ''11111111-1111-1111-1111-111111111111'' \<lparr>gr_SourceKind = ''dossier'', gr_EntityID = Some ''uu'', gr_Query = None\<rparr> api_db of
                 Inl e \<Rightarrow> (writeError sample_api e, api_db)
               | Inr (b, d') \<Rightarrow> (writeJSON (Brief_payload b), d'))
        in rs_Status (fst generate) = 200)
    \<and> ae_uuid_parse sample_api ''uu'' \<and> entityBelongsToTenant (ae_pg sample_api) ''11111111-1111-1111-1111-111111111111'' ''uu'' api_db = Inr True"
    by code_simp
  then show ?thesis
    unfolding postBriefGenerate_def dev_request_def request.select_convs brief_body_decoded by (simp add: Let_def)
qed

theorem http_briefs_are_owned_witness:
  "\<exists>row d'. snd (Router sample_api sample_server Post_brief_generate (dev_request brief_body) api_db) = d'
     \<and> d' = api_db\<lparr>next_id := 11, briefs := [row]\<rparr> \<and> br_tenant row = 36"
proof -
  let ?o = "Router sample_api sample_server Post_brief_generate (dev_request brief_body) api_db"
  have j: "jwtMiddleware (ae_crypto sample_api) (srv_Verifier sample_server) (rq_Authorization (dev_request brief_body)) = Inr dev_claims"
    by (simp add: sample_api_def sample_server_def New_def dev_request_def dev_admitted del: append_Cons)
  have "rs_Status (fst ?o) = 200" using brief_generated dev_route [of Post_brief_generate] by simp
  moreover have "scan_uuid (ae_pg sample_api) (TenantID dev_claims) = Some 36"
    by (simp add: sample_api_def sample_pg_def dev_claims_def)
  moreover have "next_id api_db = 10" "briefs api_db = []" by (simp_all add: api_db_def empty_db_def)
  ultimately show ?thesis
    using http_briefs_are_owned [OF j, of api_db "fst ?o" "snd ?o"] by auto
qed

text \<open>\<open>GET /briefs\<close> returns at most as many briefs as asked for and never more than the configured
  maximum - if a limit is given. Without one it returns up to 100, also when the maximum is lower.\<close>

theorem brief_list_bounded:
  assumes "rs_Payload (getBriefs A tenantID r d) = Briefs_payload bs"
  shows "int (length bs) \<le>
    (if rq_Query r ''limit'' = [] \<or> \<not> is_ok (atoi (rq_Query r ''limit'')) then 100
     else min (projr (atoi (rq_Query r ''limit''))) (maxBriefLimit (ae_env A)))"
proof -
  let ?l = "lo_Limit (list_options A r)"
  from assms have "\<exists>t. List_briefs (ae_pg A) tenantID (list_options A r) d = Inr bs"
    by (auto simp: getBriefs_def answer_with_def writeError_def writeProblem_def split: sum.splits if_splits)
  then have "0 \<le> ?l \<and> length bs \<le> nat ?l"
    by (auto simp: List_briefs_def rbind_Inr_iff limit_rows_def split: if_splits)
  then have "int (length bs) \<le> ?l" by linarith
  also have "?l = (if rq_Query r ''limit'' = [] \<or> \<not> is_ok (atoi (rq_Query r ''limit'')) then 100
     else min (projr (atoi (rq_Query r ''limit''))) (maxBriefLimit (ae_env A)))"
    by (simp add: list_options_def Let_def split: sum.split)
  finally show ?thesis .
qed

theorem brief_list_bounded_witness:
  "\<exists>bs. rs_Payload (getBriefs sample_api ''t'' (dev_request []) api_db) = Briefs_payload bs \<and> int (length bs) \<le> 100"
proof -
  have "list_options sample_api (dev_request []) = \<lparr>lo_Limit = 100, lo_SourceKind = None, lo_EntityID = None,
      lo_CreatedAfter = None, lo_CreatedBefore = None\<rparr>"
    by (simp add: list_options_def dev_request_def)
  moreover have "List_briefs (ae_pg sample_api) ''t'' \<lparr>lo_Limit = 100, lo_SourceKind = None, lo_EntityID = None,
      lo_CreatedAfter = None, lo_CreatedBefore = None\<rparr> api_db = Inr []" by code_simp
  ultimately have p: "rs_Payload (getBriefs sample_api ''t'' (dev_request []) api_db) = Briefs_payload []"
    by (simp add: getBriefs_def answer_with_def)
  from brief_list_bounded [OF p] p show ?thesis by (simp add: dev_request_def)
qed

text \<open>The three answers of \<open>GET /entities/{id}/dossier\<close> to an admitted caller: the bundle exactly for an
  entity of the caller's tenant, 404 for every other identifier, whether the entity belongs to someone
  else or does not exist, and 500 - not a 4xx - for a text that is no UUID.\<close>

theorem dossier_answers:
  assumes "uuid_roundtrip pg" and "distinct (map en_id (entities d))" and "scan_uuid pg tenantID = Some t" and "i \<noteq> []"
    and "pg = ae_pg A"
  shows "rs_Status (getDossier A tenantID i d) =
    (case scan_uuid pg i of None \<Rightarrow> 500 | Some u \<Rightarrow> if u \<in> tenant_entities t t d then 200 else 404)"
proof -
  have u1: "uniqueStrings [i] = [i]" using assms(4) by (simp add: uniqueStrings_def)
  have ok: "is_ok (Assemble pg t d [i] 0 tenantID) \<longleftrightarrow> (\<exists>u. scan_uuid pg i = Some u \<and> u \<in> tenant_entities t t d)"
    unfolding Assemble_is_ok_iff [OF assms(1,2)]
    by (auto simp: seed_ids_def u1 assms(3) cast_uuid_def rbind_Inr_iff split: option.splits)
  have dos: "Dossier pg d tenantID i = rbind (Assemble pg t d [i] 0 tenantID) (\<lambda>b. Inr \<lparr>dr_Bundle = b, dr_CachedAt = None\<rparr>)"
    by (simp add: Dossier_def withTenantTx_def assms(3))
  show ?thesis
  proof (cases "Assemble pg t d [i] 0 tenantID")
    case (Inr b)
    with ok obtain u where "scan_uuid pg i = Some u" "u \<in> tenant_entities t t d" by auto
    with Inr show ?thesis by (simp add: getDossier_def answer_with_def dos flip: assms(5))
  next
    case (Inl e)
    show ?thesis
    proof (cases "scan_uuid pg i")
      case None
      then have "e = ''invalid input syntax for type uuid''"
        using Inl by (simp add: Assemble_def loadBundleEntities_def u1 cast_uuid_def assms(3))
      then have "rs_Status (writeError A e) = 500"
        by (simp add: writeError_def errors_Is_def wrap_prefixes_def has_prefix_def ErrEntityNotFound_def ErrNoRows_def ErrInvalidGenerateRequest_def
            ErrInvalidDepth_def ErrInvalidEntityCount_def)
      with None Inl show ?thesis by (simp add: getDossier_def answer_with_def dos flip: assms(5))
    next
      case (Some u)
      with ok Inl have no: "u \<notin> tenant_entities t t d" by auto
      then have "filter (\<lambda>e. en_tenant e = t \<and> en_id e \<in> {u}) (rls en_tenant t (entities d)) = []"
        by (auto simp: tenant_entities_def filter_empty_conv rls_def)
      with Inl Some have "e = ErrEntityNotFound"
        by (simp add: Assemble_def loadBundleEntities_def u1 cast_uuid_def assms(3) order_by_def)
      with no Some Inl show ?thesis by (simp add: getDossier_def answer_with_def dos writeError_def flip: assms(5))
    qed
  qed
qed

lemma tenant_entities_rows: "tenant_entities t t d = en_id ` set (rls en_tenant t (entities d))"
  by (auto simp: tenant_entities_def rls_def)

theorem dossier_answers_witness:
  "rs_Status (getDossier sample_api ''11111111-1111-1111-1111-111111111111'' ''uu'' api_db) = 200
   \<and> rs_Status (getDossier sample_api ''11111111-1111-1111-1111-111111111111'' ''uuu'' api_db) = 404"
proof -
  have pk: "distinct (map en_id (entities api_db))" by (simp add: api_db_def labelled_entity_def)
  have t: "scan_uuid sample_pg ''11111111-1111-1111-1111-111111111111'' = Some 36" by (simp add: sample_pg_def)
  have A: "sample_pg = ae_pg sample_api" by (simp add: sample_api_def)
  have "scan_uuid sample_pg ''uu'' = Some 2" "scan_uuid sample_pg ''uuu'' = Some 3" by (simp_all add: sample_pg_def)
  moreover have "2 \<in> tenant_entities 36 36 api_db" "3 \<notin> tenant_entities 36 36 api_db"
    by (simp_all add: tenant_entities_rows api_db_def labelled_entity_def rls_def)
  ultimately show ?thesis
    using dossier_answers [OF sample_pg_roundtrip pk t _ A, of "''uu''"]
      dossier_answers [OF sample_pg_roundtrip pk t _ A, of "''uuu''"] by simp
qed

end
