(* ===== verification/Serve.thy ===== *)
theory Serve
  imports Api
begin

text \<open>
  The programs that serve: \<open>internal/mcp/server.go\<close> with its three tools, and the commands \<open>factvault api\<close>,
  \<open>mcp\<close>, \<open>auth\<close> and \<open>brief\<close> (\<open>cmd/factvault\<close>) from their settings to the server they start or the text they
  print. Serving itself (sockets, shutdown, the MCP transport) is not modelled.
\<close>

subsection \<open>The tools of the MCP server\<close>

record MCPServer =
  ms_Service :: Server
  ms_Auth :: mcp_server

definition New_mcp :: "api_env \<Rightarrow> bool \<Rightarrow> Verifier \<Rightarrow> string \<Rightarrow> string \<Rightarrow> MCPServer" where
  "New_mcp A pool verifier defaultToken embedderURL =
     \<lparr>ms_Service = New A pool verifier embedderURL,
      ms_Auth = \<lparr>mcp_Verifier = verifier, DefaultToken = defaultToken\<rparr>\<rparr>"

record EntityLookupArgs =
  el_Authorization :: string
  el_EntityID :: string
  el_Depth :: int

record StoryQueryArgs =
  sq_Authorization :: string
  sq_Query :: string
  sq_Depth :: int

record FactQueryArgs =
  fa_Authorization :: string
  fa_Query :: string

definition entityLookup :: "api_env \<Rightarrow> MCPServer \<Rightarrow> EntityLookupArgs \<Rightarrow> db \<Rightarrow> DossierResponse result" where
  "entityLookup A s args d =
     rbind (tenantFromAuthorization (ae_crypto A) (ms_Auth s) (el_Authorization args)) (\<lambda>tenantID.
       Dossier (ae_pg A) d tenantID (el_EntityID args))"

definition storyQuery :: "api_env \<Rightarrow> MCPServer \<Rightarrow> StoryQueryArgs \<Rightarrow> db \<Rightarrow> Bundle result" where
  "storyQuery A s args d =
     rbind (tenantFromAuthorization (ae_crypto A) (ms_Auth s) (sq_Authorization args)) (\<lambda>tenantID.
       Story (ae_tables A) (ae_pg A) (service_at A (ms_Service s) d) d tenantID
         (zero_story\<lparr>sr_Query := sq_Query args, sr_Depth := sq_Depth args\<rparr>))"

definition factQuery :: "api_env \<Rightarrow> MCPServer \<Rightarrow> FactQueryArgs \<Rightarrow> db \<Rightarrow> Bundle result" where
  "factQuery A s args d =
     rbind (tenantFromAuthorization (ae_crypto A) (ms_Auth s) (fa_Authorization args)) (\<lambda>tenantID.
       FactsQuery (ae_tables A) (ae_pg A) (service_at A (ms_Service s) d) d tenantID
         (zero_facts\<lparr>fq_Query := fa_Query args\<rparr>))"

subsection \<open>Where a command runs\<close>

record host =
  h_env :: env
  h_files :: "string \<rightharpoonup> string"
  h_parse_url :: "string \<Rightarrow> Config.url result"
  h_new_pool :: "string \<Rightarrow> unit result"
  h_stdin :: "string result"
  h_clock :: int                \<comment> \<open>nanoseconds\<close>

text \<open>\<open>filepath.Clean\<close> on a Unix system: the path without empty and \<open>.\<close> elements, \<open>..\<close> resolved as far as
  it can be.\<close>

fun clean_steps :: "bool \<Rightarrow> string list \<Rightarrow> string list \<Rightarrow> string list" where
  "clean_steps rooted done [] = rev done"
| "clean_steps rooted done (x # xs) =
     (if x = [] \<or> x = ''.'' then clean_steps rooted done xs
      else if x = ''..'' then
        (case done of
           y # ys \<Rightarrow> if y \<noteq> ''..'' then clean_steps rooted ys xs else clean_steps rooted (x # done) xs
         | [] \<Rightarrow> if rooted then clean_steps rooted [] xs else clean_steps rooted [x] xs)
      else clean_steps rooted (x # done) xs)"

definition Clean :: "string \<Rightarrow> string" where
  "Clean path =
     (if path = [] then ''.''
      else (let rooted = (hd path = CHR ''/'');
                out = (if rooted then ''/'' else []) @ join ''/'' (clean_steps rooted [] (split_on CHR ''/'' path))
            in if out = [] then ''.'' else out))"

definition ReadFile :: "host \<Rightarrow> string \<Rightarrow> string result" where
  "ReadFile H path = (case h_files H path of None \<Rightarrow> Err (''open '' @ path) | Some data \<Rightarrow> Ok data)"

definition checked_dsn :: "host \<Rightarrow> flag \<Rightarrow> string result" where
  "checked_dsn H dsn =
     rbind (ResolveSecret (h_env H) (h_files H) (Some dsn) ''FACTVAULT_DATABASE_URL'' [] True) (\<lambda>v.
       if flag_Changed dsn then rbind (ValidateDSNNoPassword (h_parse_url H) v) (\<lambda>_. Ok v) else Ok v)"

definition unix_time :: "int \<Rightarrow> int" where
  "unix_time ns = ns div 1000000000"

definition verifier_at :: "host \<Rightarrow> nat \<Rightarrow> Verifier" where
  "verifier_at H key = \<lparr>PublicKey = Some key, Now = unix_time (h_clock H)\<rparr>"

subsection \<open>\<open>factvault api\<close> and \<open>factvault mcp\<close>\<close>

definition newAPICmd :: "host \<Rightarrow> api_env \<Rightarrow> flag \<Rightarrow> flag \<Rightarrow> flag \<Rightarrow> (string \<times> Server) result" where
  "newAPICmd H A dsn addr public_key =
     rbind (checked_dsn H dsn) (\<lambda>dsn.
     rbind (ResolveString (h_env H) (Some addr) ''FACTVAULT_API_ADDR'' '':8080'' False) (\<lambda>addr.
     rbind (ResolveSecret (h_env H) (h_files H) (Some public_key) ''FACTVAULT_JWT_PUBLIC_KEY'' [] True) (\<lambda>path.
     rbind (ResolveString (h_env H) None ''FACTVAULT_EMBEDDER_URL'' ''http://localhost:8081'' False) (\<lambda>embedderURL.
     rbind (ReadFile H (Clean path)) (\<lambda>data.
     rbind (ParsePublicKeyPEM (ae_crypto A) data) (\<lambda>pub.
     rbind (h_new_pool H dsn) (\<lambda>_.
       Ok (addr, New A True (verifier_at H pub) embedderURL))))))))"

definition newMCPCmd :: "host \<Rightarrow> api_env \<Rightarrow> flag \<Rightarrow> flag \<Rightarrow> flag \<Rightarrow> MCPServer result" where
  "newMCPCmd H A dsn public_key auth_token =
     rbind (checked_dsn H dsn) (\<lambda>dsn.
     rbind (ResolveSecret (h_env H) (h_files H) (Some public_key) ''FACTVAULT_JWT_PUBLIC_KEY'' [] True) (\<lambda>path.
     rbind (if flag_Changed auth_token then Ok (flag_String auth_token)
            else ResolveSecret (h_env H) (h_files H) None ''FACTVAULT_MCP_AUTH_TOKEN'' [] False) (\<lambda>authToken.
       if authToken = [] then Err ''MCP auth token required: set FACTVAULT_MCP_AUTH_TOKEN env (preferred) or --auth-token flag''
       else
         rbind (ReadFile H (Clean path)) (\<lambda>keyData.
         rbind (ParsePublicKeyPEM (ae_crypto A) keyData) (\<lambda>publicKey.
         rbind (h_new_pool H dsn) (\<lambda>_.
           Ok (New_mcp A True (verifier_at H publicKey) authToken
                 (case h_env H ''FACTVAULT_EMBEDDER_URL'' of None \<Rightarrow> [] | Some v \<Rightarrow> v))))))))"

subsection \<open>\<open>factvault auth\<close>\<close>

definition newAuthKeysCmd :: "crypto \<Rightarrow> string \<Rightarrow> string result" where
  "newAuthKeysCmd K rnd = rbind (GenerateKeyPair K rnd) (\<lambda>(priv, pub). Ok (priv @ [CHR 0x0A] @ pub))"

text \<open>The path of a key: the flag, the deprecated flag, or the environment.\<close>

definition key_path :: "host \<Rightarrow> flag \<Rightarrow> flag \<Rightarrow> string \<Rightarrow> string result" where
  "key_path H key legacy envVar =
     (let path = (if flag_Changed legacy \<and> flag_String key = [] then flag_String legacy else flag_String key)
      in if path = [] then ResolveSecret (h_env H) (h_files H) None envVar [] True else Ok path)"

definition newAuthTokenCmd ::
    "host \<Rightarrow> crypto \<Rightarrow> flag \<Rightarrow> flag \<Rightarrow> flag \<Rightarrow> string \<Rightarrow> int \<Rightarrow> string result" where
  "newAuthTokenCmd H K private_key legacy tenant subject ttl =
     rbind (key_path H private_key legacy ''FACTVAULT_JWT_PRIVATE_KEY'') (\<lambda>path.
     rbind (ResolveString (h_env H) (Some tenant) ''FACTVAULT_DEV_TENANT_ID'' [] True) (\<lambda>tenantID.
       if subject = [] then Err ''--sub is required''
       else
         rbind (ReadFile H (Clean path)) (\<lambda>data.
         rbind (ParsePrivateKeyPEM K data) (\<lambda>key.
         rbind (SignRS256 K key \<lparr>TenantID = tenantID, Subject = subject, IssuedAt = unix_time (h_clock H),
                  ExpiresAt = unix_time (h_clock H + ttl)\<rparr>) (\<lambda>token.
           Ok (token @ [CHR 0x0A]))))))"

definition newAuthVerifyCmd :: "host \<Rightarrow> crypto \<Rightarrow> flag \<Rightarrow> flag \<Rightarrow> flag \<Rightarrow> string result" where
  "newAuthVerifyCmd H K public_key legacy token_flag =
     rbind (key_path H public_key legacy ''FACTVAULT_JWT_PUBLIC_KEY'') (\<lambda>path.
     rbind (if flag_Changed token_flag then Ok (flag_String token_flag)
            else (case h_env H ''FACTVAULT_VERIFY_TOKEN'' of
                    Some (c # cs) \<Rightarrow> Ok (c # cs)
                  | _ \<Rightarrow> (case h_stdin H of
                            Inl e \<Rightarrow> Err (''reading token from stdin: '' @ e)
                          | Inr data \<Rightarrow> Ok (trim_space data)))) (\<lambda>token.
       if token = [] then Err ''token required: set --token, FACTVAULT_VERIFY_TOKEN env, or pipe via stdin''
       else
         rbind (ReadFile H (Clean path)) (\<lambda>data.
         rbind (ParsePublicKeyPEM K data) (\<lambda>key.
         rbind (Verify K (verifier_at H key) token) (\<lambda>claims.
           Ok (''tenant_id='' @ TenantID claims @ '' sub='' @ Subject claims @ '' exp='' @ itoa (ExpiresAt claims) @ [CHR 0x0A]))))))"

subsection \<open>\<open>factvault brief\<close>\<close>

definition cli_service :: Service where
  "cli_service = \<lparr>embedder = None, vectorStore = None\<rparr>"

definition loadBriefBundleForCLI :: "api_env \<Rightarrow> string \<Rightarrow> GenerateRequest \<Rightarrow> db \<Rightarrow> Bundle option result" where
  "loadBriefBundleForCLI A tenantID req d =
     (if gr_SourceKind req = SourceKindDossier then
        (case gr_EntityID req of
           None \<Rightarrow> Err (ErrInvalidGenerateRequest @ '': dossier briefs require entity_id'')
         | Some i \<Rightarrow> rbind (Dossier (ae_pg A) d tenantID i) (\<lambda>resp. Ok (Some (dr_Bundle resp))))
      else if gr_SourceKind req = SourceKindStory then
        (case gr_Query req of
           None \<Rightarrow> Err (ErrInvalidGenerateRequest @ '': story briefs require query'')
         | Some q \<Rightarrow> rbind (Story (ae_tables A) (ae_pg A) cli_service d tenantID (zero_story\<lparr>sr_Query := q\<rparr>))
             (\<lambda>b. Ok (Some b)))
      else Err (ErrInvalidGenerateRequest @ '': unsupported source_kind '' @ quote_string (ae_brief A) (gr_SourceKind req)))"

definition openBriefPool :: "host \<Rightarrow> flag \<Rightarrow> flag \<Rightarrow> string result" where
  "openBriefPool H dsn tenant =
     rbind (checked_dsn H dsn) (\<lambda>dsn.
     rbind (ResolveString (h_env H) (Some tenant) ''FACTVAULT_DEV_TENANT_ID'' [] True) (\<lambda>tenantID.
     rbind (h_new_pool H dsn) (\<lambda>_. Ok tenantID)))"

definition newBriefGenerateCmd ::
    "host \<Rightarrow> api_env \<Rightarrow> flag \<Rightarrow> flag \<Rightarrow> string \<Rightarrow> string \<Rightarrow> string \<Rightarrow> string \<Rightarrow> db \<Rightarrow> (Brief \<times> db) result" where
  "newBriefGenerateCmd H A dsn tenant inputPath sourceKind entityID query d =
     rbind (openBriefPool H dsn tenant) (\<lambda>tenantID.
       if inputPath \<noteq> [] then Err ''--input is no longer supported; brief bundles are assembled server-side''
       else GenerateAndStore (ae_brief A) (ae_pg A) (Some (loadBriefBundleForCLI A)) tenantID
              \<lparr>gr_SourceKind = sourceKind, gr_EntityID = (if entityID \<noteq> [] then Some entityID else None),
               gr_Query = (if query \<noteq> [] then Some query else None)\<rparr> d)"

definition newBriefListCmd :: "host \<Rightarrow> api_env \<Rightarrow> flag \<Rightarrow> flag \<Rightarrow> int \<Rightarrow> db \<Rightarrow> Brief list result" where
  "newBriefListCmd H A dsn tenant lmt d =
     rbind (openBriefPool H dsn tenant) (\<lambda>tenantID.
       List_briefs (ae_pg A) tenantID \<lparr>lo_Limit = lmt, lo_SourceKind = None, lo_EntityID = None,
         lo_CreatedAfter = None, lo_CreatedBefore = None\<rparr> d)"

definition newBriefGetCmd :: "host \<Rightarrow> api_env \<Rightarrow> flag \<Rightarrow> flag \<Rightarrow> string \<Rightarrow> db \<Rightarrow> Brief result" where
  "newBriefGetCmd H A dsn tenant i d =
     rbind (openBriefPool H dsn tenant) (\<lambda>tenantID. Get_brief (ae_pg A) tenantID i d)"

subsection \<open>Properties\<close>

lemma token_tenant:
  assumes "BearerToken h = Some tok"
  shows "tenantFromAuthorization K s h =
    (case jwtMiddleware K (mcp_Verifier s) h of
       Inl e \<Rightarrow> Inl (''invalid authorization token: '' @ e) | Inr c \<Rightarrow> Inr (TenantID c))"
proof -
  from bearer_of_trimmed [OF assms] assms Verify_names_tenant show ?thesis
    by (auto simp: tenantFromAuthorization_def jwtMiddleware_def Let_def split: sum.split)
qed

definition same_answer :: "('a \<Rightarrow> payload) \<Rightarrow> 'a result \<Rightarrow> response \<Rightarrow> bool" where
  "same_answer f r x \<longleftrightarrow> (case r of Inl _ \<Rightarrow> rs_Status x \<noteq> 200 | Inr v \<Rightarrow> x = writeJSON (f v))"

text \<open>C35. One service behind two doors. With the same key, embedder and bearer token, an MCP tool returns a
  result exactly when the corresponding HTTP route answers 200, and it is the value the route encodes;
  the depth argument of the entity tool plays no part.\<close>

theorem mcp_tools_agree_with_http:
  assumes "BearerToken h = Some tok" and "rq_Authorization r = h"
    and "s = New A True v url" and "m = New_mcp A True v dt url"
    and "decode_body zero_story story_decoder (rq_Body r) = Some \<lparr>sr_Query = q, sr_Depth = depth, sr_MaxFacts = mf, sr_MinConfidence = mc\<rparr>"
    and "decode_body zero_facts facts_decoder (rq_Body r) = Some \<lparr>fq_Query = q, fq_MaxFacts = mf, fq_MinConfidence = mc\<rparr>"
  shows "same_answer Dossier_payload (entityLookup A m \<lparr>el_Authorization = h, el_EntityID = i, el_Depth = depth\<rparr> d)
      (fst (Router A s (Get_dossier i) r d))
    \<and> same_answer Bundle_payload (storyQuery A m \<lparr>sq_Authorization = h, sq_Query = q, sq_Depth = depth\<rparr> d)
      (fst (Router A s Post_story r d))
    \<and> same_answer Bundle_payload (factQuery A m \<lparr>fa_Authorization = h, fa_Query = q\<rparr> d)
      (fst (Router A s Post_facts_query r d))"
proof -
  have err: "rs_Status (writeError A e) \<noteq> 200" for e by (simp add: writeError_def)
  have ans: "same_answer f x (answer_with A f x)" for f :: "'z \<Rightarrow> payload" and x
    by (simp add: same_answer_def answer_with_def err split: sum.split)
  note t = token_tenant [OF assms(1), of "ae_crypto A" "ms_Auth m"]
  have v: "mcp_Verifier (ms_Auth m) = v" "srv_Verifier s = v" "ms_Service m = s"
    by (simp_all add: assms(3,4) New_mcp_def New_def)
  have st: "Story U pg S d x \<lparr>sr_Query = q, sr_Depth = depth, sr_MaxFacts = mf, sr_MinConfidence = mc\<rparr>
      = Story U pg S d x (zero_story\<lparr>sr_Query := q, sr_Depth := depth\<rparr>)" for U pg S x
    by (simp add: Story_def zero_story_def)
  have fa: "FactsQuery U pg S d x \<lparr>fq_Query = q, fq_MaxFacts = mf, fq_MinConfidence = mc\<rparr>
      = FactsQuery U pg S d x (zero_facts\<lparr>fq_Query := q\<rparr>)" for U pg S x
    by (simp add: FactsQuery_def zero_facts_def)
  show ?thesis
  proof (cases "jwtMiddleware (ae_crypto A) v h")
    case (Inl e)
    then show ?thesis
      by (simp add: entityLookup_def storyQuery_def factQuery_def t v assms(2) Router_def same_answer_def)
  next
    case (Inr c)
    then show ?thesis
      by (simp add: entityLookup_def storyQuery_def factQuery_def t v assms(2) Router_def
          getDossier_def postStory_def postFactsQuery_def assms(5,6) st fa ans)
  qed
qed

lemma empty_object_decoded: "decode_first ''{}'' = Some (JObj [])"
proof -
  have "take maxRequestBodyBytes ''{}'' = ''{}''" by (simp add: maxRequestBodyBytes_def)
  moreover have "parse_json ([], E_Value) ''{}'' = Some (JObj [], [])" by code_simp
  ultimately show ?thesis by (simp add: decode_first_def)
qed

theorem mcp_tools_agree_with_http_witness:
  "same_answer Dossier_payload (entityLookup sample_api
      (New_mcp sample_api True \<lparr>PublicKey = Some 7, Now = 2000\<rparr> ''t'' [])
      \<lparr>el_Authorization = ''Bearer '' @ dev_token, el_EntityID = ''uu'', el_Depth = 0\<rparr> api_db)
    (fst (Router sample_api sample_server (Get_dossier ''uu'') (dev_request ''{}'') api_db))"
proof -
  have "decode_body zero_story story_decoder ''{}'' = Some \<lparr>sr_Query = [], sr_Depth = 0, sr_MaxFacts = None, sr_MinConfidence = 0\<rparr>"
    "decode_body zero_facts facts_decoder ''{}'' = Some \<lparr>fq_Query = [], fq_MaxFacts = None, fq_MinConfidence = 0\<rparr>"
    by (simp_all add: decode_body_def empty_object_decoded story_decoder_def facts_decoder_def zero_story_def zero_facts_def)
  then show ?thesis
    using mcp_tools_agree_with_http [OF dev_bearer _ sample_server_def refl, of "dev_request ''{}''" "[]" 0 None 0 "''t''" "''uu''" api_db]
    by (simp add: dev_request_def del: append_Cons)
qed

text \<open>C36. The key files of the environment. A path in \<open>FACTVAULT_JWT_PUBLIC_KEY_FILE\<close> (and
  \<open>..._PRIVATE_KEY_FILE\<close>) is not the path of the key: the commands read the file it names and take the
  content as the path. With the PEM text in that file, and no file named like it, \<open>api\<close>, \<open>mcp\<close>,
  \<open>auth token\<close> and \<open>auth verify\<close> all fail.\<close>

theorem key_files_name_paths:
  assumes "h_env H ''FACTVAULT_JWT_PUBLIC_KEY_FILE'' = Some (c # p)" and "h_env H ''FACTVAULT_JWT_PRIVATE_KEY_FILE'' = Some (c # p)"
    and "h_files H (trim_space (c # p)) = Some pem" and "h_files H (Clean (trim_space pem)) = None"
    and "\<not> flag_Changed key" "flag_String key = []" "\<not> flag_Changed legacy"
  shows "\<not> is_ok (newAPICmd H A dsn addr key) \<and> \<not> is_ok (newMCPCmd H A dsn key auth_token)
    \<and> \<not> is_ok (newAuthTokenCmd H K key legacy tenant subject ttl) \<and> \<not> is_ok (newAuthVerifyCmd H K key legacy token)"
proof -
  have names: "''FACTVAULT_JWT_PUBLIC_KEY'' @ ''_FILE'' = ''FACTVAULT_JWT_PUBLIC_KEY_FILE''"
    "''FACTVAULT_JWT_PRIVATE_KEY'' @ ''_FILE'' = ''FACTVAULT_JWT_PRIVATE_KEY_FILE''" by simp_all
  have sec: "ResolveSecret (h_env H) (h_files H) (Some key) ''FACTVAULT_JWT_PUBLIC_KEY'' [] True = Inr (trim_space pem)"
    "ResolveSecret (h_env H) (h_files H) None ''FACTVAULT_JWT_PUBLIC_KEY'' [] True = Inr (trim_space pem)"
    "ResolveSecret (h_env H) (h_files H) None ''FACTVAULT_JWT_PRIVATE_KEY'' [] True = Inr (trim_space pem)"
    unfolding ResolveSecret_def Let_def names using assms by simp_all
  have path: "key_path H key legacy ''FACTVAULT_JWT_PUBLIC_KEY'' = Inr (trim_space pem)"
    "key_path H key legacy ''FACTVAULT_JWT_PRIVATE_KEY'' = Inr (trim_space pem)"
    unfolding key_path_def using assms(6,7) by (simp_all add: sec)
  have read: "\<not> is_ok (ReadFile H (Clean (trim_space pem)))" by (simp add: ReadFile_def assms(4))
  have stop: "\<not> is_ok (rbind (ReadFile H (Clean (trim_space pem))) f)" for f :: "string \<Rightarrow> 'x result"
    using read by (cases "ReadFile H (Clean (trim_space pem))") auto
  have any: "(\<And>x. \<not> is_ok (f x)) \<Longrightarrow> \<not> is_ok (rbind r f)" for r :: "'x result" and f :: "'x \<Rightarrow> 'y result"
    by (cases r) auto
  show ?thesis
    unfolding newAPICmd_def newMCPCmd_def newAuthTokenCmd_def newAuthVerifyCmd_def sec path rbind_simps
    by (rule stop | rule any | rule conjI | rule impI | split if_split | simp)+
qed

definition key_host :: host where
  "key_host = \<lparr>h_env = [''FACTVAULT_JWT_PUBLIC_KEY_FILE'' \<mapsto> ''k'', ''FACTVAULT_JWT_PRIVATE_KEY_FILE'' \<mapsto> ''k''],
     h_files = [''k'' \<mapsto> ''PEM''], h_parse_url = (\<lambda>_. Err ''no url''), h_new_pool = (\<lambda>_. Ok ()),
     h_stdin = Ok ''token'', h_clock = 0\<rparr>"

definition unset_flag :: "string \<Rightarrow> flag" where
  "unset_flag n = \<lparr>flag_Name = n, flag_Changed = False, flag_String = []\<rparr>"

theorem key_files_name_paths_witness:
  "\<not> is_ok (newAPICmd key_host sample_api (unset_flag ''dsn'') (unset_flag ''addr'') (unset_flag ''jwt-public-key''))
   \<and> ReadFile key_host (Clean ''k'') = Ok ''PEM''"
proof -
  have t: "trim_space ''k'' = ''k''" "trim_space ''PEM'' = ''PEM''" "Clean ''PEM'' = ''PEM''" "Clean ''k'' = ''k''" by code_simp+
  have "h_env key_host ''FACTVAULT_JWT_PUBLIC_KEY_FILE'' = Some ''k''" "h_env key_host ''FACTVAULT_JWT_PRIVATE_KEY_FILE'' = Some ''k''"
    "h_files key_host (trim_space ''k'') = Some ''PEM''" "h_files key_host (Clean (trim_space ''PEM'')) = None"
    by (simp_all add: key_host_def t)
  note f = key_files_name_paths [OF this, of "unset_flag ''jwt-public-key''" "unset_flag ''public-key''" sample_api
    "unset_flag ''dsn''" "unset_flag ''addr''"]
  have "\<not> is_ok (newAPICmd key_host sample_api (unset_flag ''dsn'') (unset_flag ''addr'') (unset_flag ''jwt-public-key''))"
    using f by (simp add: unset_flag_def)
  moreover have "ReadFile key_host (Clean ''k'') = Ok ''PEM''" by (simp add: ReadFile_def key_host_def t)
  ultimately show ?thesis ..
qed

text \<open>Briefs made on the command line. \<open>factvault brief generate\<close> makes no ownership check of its own, and
  the foreign key to \<open>entities\<close> is checked across tenants; yet a brief it stores belongs to the tenant it
  ran for and names no entity but one of that tenant.\<close>

theorem cli_briefs_are_owned:
  assumes rt: "uuid_roundtrip (ae_pg A)" and pk: "distinct (map en_id (entities d))"
    and run: "newBriefGenerateCmd H A dsn tenant input kind entity q d = Inr (b, d')"
  shows "\<exists>tenantID t row. openBriefPool H dsn tenant = Inr tenantID \<and> scan_uuid (ae_pg A) tenantID = Some t
    \<and> d' = d\<lparr>next_id := Suc (next_id d), briefs := briefs d @ [row]\<rparr> \<and> br_tenant row = t
    \<and> (\<forall>u. br_entity row = Some u \<longrightarrow> u \<in> tenant_entities t t d)"
proof -
  define req where "req = \<lparr>gr_SourceKind = kind, gr_EntityID = (if entity \<noteq> [] then Some entity else None),
     gr_Query = (if q \<noteq> [] then Some q else None)\<rparr>"
  from run obtain tenantID where tenantID: "openBriefPool H dsn tenant = Inr tenantID"
    and gen: "GenerateAndStore (ae_brief A) (ae_pg A) (Some (loadBriefBundleForCLI A)) tenantID req d = Inr (b, d')"
    by (auto simp: newBriefGenerateCmd_def rbind_Inr_iff req_def split: if_splits)
  from generate_writes [OF gen] obtain t row where w: "scan_uuid (ae_pg A) tenantID = Some t"
      "d' = d\<lparr>next_id := Suc (next_id d), briefs := briefs d @ [row]\<rparr>" "br_tenant row = t"
      "cast_optional (ae_pg A) (gr_EntityID req) = Inr (br_entity row)" by blast
  from gen obtain bnd where load: "loadBriefBundleForCLI A tenantID req d = Inr bnd"
    and gb: "validateBundle (ae_brief A) tenantID req bnd = Inr ()"
    by (auto simp: GenerateAndStore_def generateAndStoreBundle_def rbind_Inr_iff)
  have "u \<in> tenant_entities t t d" if u: "br_entity row = Some u" for u
  proof -
    from w(4) u have i: "gr_EntityID req = Some entity" "entity \<noteq> []" "cast_uuid (ae_pg A) entity = Inr u"
      by (auto simp: cast_optional_def req_def rbind_Inr_iff split: option.splits if_splits)
    from gb i(1) obtain bu where bu: "bnd = Some bu" "bu_EntityID bu = entity"
      by (auto simp: validateBundle_def split: option.splits if_splits)
    show ?thesis
    proof (cases "gr_SourceKind req = SourceKindDossier")
      case True
      with load i bu(1) have "Assemble (ae_pg A) t d [entity] 0 tenantID = Inr bu"
        by (auto simp: loadBriefBundleForCLI_def Dossier_def withTenantTx_def w(1) rbind_Inr_iff)
      then have "is_ok (Assemble (ae_pg A) t d [entity] 0 tenantID)" by simp
      then show ?thesis unfolding Assemble_is_ok_iff [OF rt pk]
        using i(2,3) by (auto simp: seed_ids_def uniqueStrings_def w(1) cast_uuid_def rbind_Inr_iff split: option.splits)
    next
      case False
      with load bu(1) obtain seeds where seeds: "seedEntities (ae_tables A) (ae_pg A) cli_service t d tenantID (the (gr_Query req)) 10 = Inr seeds"
        "seeds \<noteq> []" "Assemble (ae_pg A) t d seeds 2 tenantID = Inr bu"
        by (auto simp: loadBriefBundleForCLI_def Story_def seeded_bundle_def withTenantTx_def w(1) rbind_Inr_iff zero_story_def
            split: if_splits option.splits)
      from seeds(3) have "hd seeds = entity" using bu(2) by (auto simp: Assemble_def rbind_Inr_iff split: if_splits)
      with seeds(1,2) obtain e where "e \<in> set (rls en_tenant t (entities d))" "entity = uuid_text (ae_pg A) (en_id e)"
        by (auto simp: seedEntities_def cli_service_def ilikeSeed_def limit_rows_def order_by_def rbind_Inr_iff hd_map
            dest!: hd_in_set in_set_takeD split: if_splits)
      with i(3) rt show ?thesis by (auto simp: tenant_entities_rows cast_uuid_def uuid_roundtrip_def)
    qed
  qed
  with tenantID w show ?thesis by blast
qed

definition cli_host :: host where
  "cli_host = key_host\<lparr>h_env := [''FACTVAULT_DATABASE_URL'' \<mapsto> ''db'', ''FACTVAULT_DEV_TENANT_ID'' \<mapsto> ''t'']\<rparr>"

theorem cli_briefs_are_owned_witness:
  "\<exists>row b d'. newBriefGenerateCmd cli_host sample_api (unset_flag ''dsn'') (unset_flag ''tenant'') [] ''dossier'' ''uu'' [] two_entities = Inr (b, d')
     \<and> d' = two_entities\<lparr>next_id := 2, briefs := [row]\<rparr> \<and> br_tenant row = 1"
proof -
  let ?r = "newBriefGenerateCmd cli_host sample_api (unset_flag ''dsn'') (unset_flag ''tenant'') [] ''dossier'' ''uu'' [] two_entities"
  have "is_ok ?r" by code_simp
  then obtain b d' where r: "?r = Inr (b, d')" by (cases ?r) auto
  have rt: "uuid_roundtrip (ae_pg sample_api)" by (simp add: sample_api_def sample_pg_roundtrip)
  have pk: "distinct (map en_id (entities two_entities))" by (simp add: two_entities_def labelled_entity_def)
  have o: "openBriefPool cli_host (unset_flag ''dsn'') (unset_flag ''tenant'') = Inr ''t''" by code_simp
  have "scan_uuid (ae_pg sample_api) ''t'' = Some 1" by (simp add: sample_api_def sample_pg_def)
  moreover have "next_id two_entities = 1" "briefs two_entities = []" by (simp_all add: two_entities_def empty_db_def)
  ultimately show ?thesis using cli_briefs_are_owned [OF rt pk r] r o by (auto simp: numeral_2_eq_2)
qed

end
