(* ===== verification/Regexp.thy ===== *)
theory Regexp
  imports Excerpt
begin

text \<open>
  Package \<open>regexp\<close>, as far as the extractors use it: the syntax tree of a pattern, the matches of a
  pattern at a position in the order in which Go (like Perl) prefers them, the leftmost match, and the
  loop of \<open>FindAllStringSubmatchIndex\<close>. A text is its list of runes and a position counts runes;
  byte offsets are read off at the end. \<open>derives\<close> says what it is for a stretch of the text to match,
  with no order and no search, and the lemmas show that the search finds just those stretches.
\<close>

subsection \<open>Patterns\<close>

datatype regexp =
    Eps
  | Rune "rune \<Rightarrow> bool"
  | WordB
  | Cat regexp regexp
  | Alt regexp regexp
  | Star regexp
  | Group nat regexp

definition Opt :: "regexp \<Rightarrow> regexp" where
  "Opt r = Alt r Eps"

definition Plus :: "regexp \<Rightarrow> regexp" where
  "Plus r = Cat r (Star r)"

primrec Times :: "nat \<Rightarrow> regexp \<Rightarrow> regexp" where
  "Times 0 r = Eps"
| "Times (Suc n) r = Cat r (Times n r)"

text \<open>\<open>r{m,m+k}\<close>, which the package turns into \<open>m\<close> copies and \<open>k\<close> nested options.\<close>

primrec UpTo :: "nat \<Rightarrow> regexp \<Rightarrow> regexp" where
  "UpTo 0 r = Eps"
| "UpTo (Suc n) r = Opt (Cat r (UpTo n r))"

definition Between :: "nat \<Rightarrow> nat \<Rightarrow> regexp \<Rightarrow> regexp" where
  "Between m n r = Cat (Times m r) (UpTo (n - m) r)"

fun Seq :: "regexp list \<Rightarrow> regexp" where
  "Seq [] = Eps"
| "Seq [r] = r"
| "Seq (r # rs) = Cat r (Seq rs)"

fun Choice :: "regexp list \<Rightarrow> regexp" where
  "Choice [] = Rune (\<lambda>_. False)"
| "Choice [r] = r"
| "Choice (r # rs) = Alt r (Choice rs)"

definition in_range :: "rune \<Rightarrow> rune \<Rightarrow> rune \<Rightarrow> bool" where
  "in_range a b r \<longleftrightarrow> a \<le> r \<and> r \<le> b"

definition word_rune :: "rune \<Rightarrow> bool" where
  "word_rune r \<longleftrightarrow> in_range 48 57 r \<or> in_range 65 90 r \<or> r = 95 \<or> in_range 97 122 r"

definition Digit :: regexp where
  "Digit = Rune (in_range 48 57)"

text \<open>\<open>\s\<close>: tab, newline, form feed, carriage return and space.\<close>

definition perl_space :: "rune \<Rightarrow> bool" where
  "perl_space r \<longleftrightarrow> r \<in> {9, 10, 12, 13, 32}"

definition Space :: regexp where
  "Space = Rune perl_space"

definition one_of :: "string \<Rightarrow> rune \<Rightarrow> bool" where
  "one_of cs r \<longleftrightarrow> list_ex (\<lambda>c. byte c = r) cs"

text \<open>Under \<open>(?i)\<close> a rune stands for its orbit of simple case folding: beside the two cases of a
  letter, \<open>k\<close> has the Kelvin sign (8490) and \<open>s\<close> the long s (383).\<close>

definition fold_class :: "rune \<Rightarrow> rune" where
  "fold_class r = (if in_range 65 90 r then r + 32 else if r = 8490 then 107 else if r = 383 then 115 else r)"

definition Lit :: "string \<Rightarrow> regexp" where
  "Lit s = Seq (map (\<lambda>c. Rune (\<lambda>r. r = byte c)) s)"

definition LitI :: "string \<Rightarrow> regexp" where
  "LitI s = Seq (map (\<lambda>c. Rune (\<lambda>r. fold_class r = fold_class (byte c))) s)"

definition letter_i :: "rune \<Rightarrow> bool" where
  "letter_i r \<longleftrightarrow> in_range 97 122 (fold_class r)"

definition alnum_i :: "rune \<Rightarrow> bool" where
  "alnum_i r \<longleftrightarrow> letter_i r \<or> in_range 48 57 r"

subsection \<open>The matches at a position, the preferred one first\<close>

text \<open>A match in progress: the position reached, and the groups closed so far, the latest first.\<close>

type_synonym groups = "(nat \<times> nat \<times> nat) list"
type_synonym mstate = "nat \<times> groups"

definition boundary_at :: "rune list \<Rightarrow> nat \<Rightarrow> bool" where
  "boundary_at ts i \<longleftrightarrow> (0 < i \<and> i \<le> length ts \<and> word_rune (ts ! (i - 1))) \<noteq> (i < length ts \<and> word_rune (ts ! i))"

text \<open>A greedy star: another copy first, as long as it consumes something; the number bounds how many
  more can, since each takes at least one rune.\<close>

primrec star_from :: "(mstate \<Rightarrow> mstate list) \<Rightarrow> nat \<Rightarrow> mstate \<Rightarrow> mstate list" where
  "star_from f 0 st = [st]"
| "star_from f (Suc n) st =
     concat (map (\<lambda>st'. if fst st < fst st' then star_from f n st' else []) (f st)) @ [st]"

primrec outcomes :: "rune list \<Rightarrow> regexp \<Rightarrow> mstate \<Rightarrow> mstate list" where
  "outcomes ts Eps st = [st]"
| "outcomes ts (Rune p) st =
     (if fst st < length ts \<and> p (ts ! fst st) then [(Suc (fst st), snd st)] else [])"
| "outcomes ts WordB st = (if boundary_at ts (fst st) then [st] else [])"
| "outcomes ts (Cat r s) st = concat (map (outcomes ts s) (outcomes ts r st))"
| "outcomes ts (Alt r s) st = outcomes ts r st @ outcomes ts s st"
| "outcomes ts (Star r) st = star_from (outcomes ts r) (length ts - fst st) st"
| "outcomes ts (Group k r) st =
     map (\<lambda>st'. (fst st', (k, fst st, fst st') # snd st')) (outcomes ts r st)"

subsection \<open>What it is to match\<close>

inductive derives :: "rune list \<Rightarrow> regexp \<Rightarrow> nat \<Rightarrow> nat \<Rightarrow> bool" for ts where
  d_eps: "derives ts Eps i i"
| d_rune: "i < length ts \<Longrightarrow> p (ts ! i) \<Longrightarrow> derives ts (Rune p) i (Suc i)"
| d_wordb: "boundary_at ts i \<Longrightarrow> derives ts WordB i i"
| d_cat: "derives ts r i j \<Longrightarrow> derives ts s j k \<Longrightarrow> derives ts (Cat r s) i k"
| d_alt1: "derives ts r i j \<Longrightarrow> derives ts (Alt r s) i j"
| d_alt2: "derives ts s i j \<Longrightarrow> derives ts (Alt r s) i j"
| d_star0: "derives ts (Star r) i i"
| d_star: "derives ts r i j \<Longrightarrow> derives ts (Star r) j k \<Longrightarrow> derives ts (Star r) i k"
| d_group: "derives ts r i j \<Longrightarrow> derives ts (Group n r) i j"

inductive_simps derives_simps [simp]:
  "derives ts Eps i j"
  "derives ts (Rune p) i j"
  "derives ts WordB i j"
  "derives ts (Cat r s) i j"
  "derives ts (Alt r s) i j"
  "derives ts (Group n r) i j"

lemma derives_le: "derives ts r i j \<Longrightarrow> i \<le> j"
  by (induction rule: derives.induct) auto

lemma derives_bound: "derives ts r i j \<Longrightarrow> i \<le> length ts \<Longrightarrow> j \<le> length ts"
  by (induction rule: derives.induct) auto

text \<open>A star may be unrolled without empty copies.\<close>

lemma star_progress:
  assumes "derives ts (Star r) i k"
  shows "i = k \<or> (\<exists>j. derives ts r i j \<and> i < j \<and> derives ts (Star r) j k)"
proof -
  have "derives ts r' i k \<Longrightarrow> r' = Star r \<Longrightarrow>
      i = k \<or> (\<exists>j. derives ts r i j \<and> i < j \<and> derives ts (Star r) j k)" for r'
  proof (induction rule: derives.induct)
    case (d_star r'' i j k)
    then show ?case using derives_le [of ts r i j] by (cases "i = j") auto
  qed auto
  then show ?thesis using assms by blast
qed

subsection \<open>The search is exact\<close>

text \<open>Every outcome is a match, and keeps the groups closed before it as the tail.\<close>

lemma star_from_sound:
  assumes f: "\<And>st st'. st' \<in> set (f st) \<Longrightarrow> derives ts r (fst st) (fst st')"
  shows "st' \<in> set (star_from f n st) \<Longrightarrow> derives ts (Star r) (fst st) (fst st')"
proof (induction n arbitrary: st)
  case 0
  then show ?case by (simp add: d_star0)
next
  case (Suc n)
  then consider "st' = st" | st1 where "st1 \<in> set (f st)" "st' \<in> set (star_from f n st1)"
    by (auto split: if_splits)
  then show ?case
  proof cases
    case 1
    then show ?thesis by (simp add: d_star0)
  next
    case 2
    then show ?thesis using f Suc.IH by (blast intro: d_star)
  qed
qed

lemma outcomes_sound: "st' \<in> set (outcomes ts r st) \<Longrightarrow> derives ts r (fst st) (fst st')"
proof (induction r arbitrary: st st')
  case (Star r)
  have "st' \<in> set (star_from (outcomes ts r) (length ts - fst st) st)" using Star.prems by simp
  then show ?case by (rule star_from_sound [rotated]) (rule Star.IH)
next
  case (Cat r s)
  then obtain st1 where "st1 \<in> set (outcomes ts r st)" "st' \<in> set (outcomes ts s st1)" by auto
  then have "derives ts r (fst st) (fst st1)" "derives ts s (fst st1) (fst st')"
    by (blast intro: Cat.IH)+
  then show ?case by (rule d_cat)
next
  case (Alt r s)
  then consider "st' \<in> set (outcomes ts r st)" | "st' \<in> set (outcomes ts s st)" by auto
  then show ?case
    by cases (blast intro: d_alt1 d_alt2 Alt.IH)+
next
  case (Group n r)
  then obtain st1 where "st1 \<in> set (outcomes ts r st)" "fst st' = fst st1" by auto
  then show ?case using Group.IH [of st1 st] by simp
qed (auto split: if_splits)

lemma star_from_complete:
  assumes f: "\<And>i j c. derives ts r i j \<Longrightarrow> i \<le> length ts \<Longrightarrow> \<exists>c'. (j, c') \<in> set (f (i, c))"
  shows "derives ts (Star r) i k \<Longrightarrow> i \<le> length ts \<Longrightarrow> length ts - i \<le> n \<Longrightarrow> \<exists>c'. (k, c') \<in> set (star_from f n (i, c))"
proof (induction n arbitrary: i c)
  case 0
  then have "i = k" using derives_le [OF 0(1)] derives_bound [OF 0(1)] by simp
  then show ?case by simp
next
  case (Suc n)
  from star_progress [OF Suc.prems(1)] show ?case
  proof
    assume "i = k"
    then show ?thesis by auto
  next
    assume "\<exists>j. derives ts r i j \<and> i < j \<and> derives ts (Star r) j k"
    then obtain j where j: "derives ts r i j" "i < j" "derives ts (Star r) j k" by blast
    obtain c1 where c1: "(j, c1) \<in> set (f (i, c))" using f [OF j(1) Suc.prems(2)] by blast
    have "j \<le> length ts" using derives_bound [OF j(1) Suc.prems(2)] .
    then obtain c2 where "(k, c2) \<in> set (star_from f n (j, c1))"
      using Suc.IH [OF j(3)] j(2) Suc.prems(3) by fastforce
    with c1 j(2) show ?thesis by (auto intro!: exI [of _ c2] bexI [of _ "(j, c1)"])
  qed
qed

lemma outcomes_complete:
  "derives ts r i j \<Longrightarrow> i \<le> length ts \<Longrightarrow> \<exists>c'. (j, c') \<in> set (outcomes ts r (i, c))"
proof (induction r arbitrary: i j c)
  case (Cat r s)
  then obtain m where m: "derives ts r i m" "derives ts s m j" by auto
  obtain c1 where c1: "(m, c1) \<in> set (outcomes ts r (i, c))" using Cat.IH(1) [OF m(1) Cat.prems(2)] by blast
  obtain c2 where "(j, c2) \<in> set (outcomes ts s (m, c1))"
    using Cat.IH(2) [OF m(2)] derives_bound [OF m(1) Cat.prems(2)] by blast
  with c1 show ?case by (auto intro!: exI [of _ c2] bexI [of _ "(m, c1)"])
next
  case (Alt r s)
  then show ?case by fastforce
next
  case (Star r)
  then show ?case using star_from_complete [of ts r "outcomes ts r"] by simp
next
  case (Group n r)
  have "derives ts r i j" using Group.prems(1) by simp
  then obtain c' where "(j, c') \<in> set (outcomes ts r (i, c))" using Group.IH Group.prems(2) by blast
  then show ?case by force
qed auto

text \<open>The groups of an outcome: the ones before it stay the tail, and a new one lies inside the match.\<close>

definition groups_within :: "nat \<Rightarrow> mstate \<Rightarrow> groups \<Rightarrow> bool" where
  "groups_within i st c \<longleftrightarrow> i \<le> fst st
     \<and> (\<exists>new. snd st = new @ c \<and> list_all (\<lambda>(_, a, b). i \<le> a \<and> a \<le> b \<and> b \<le> fst st) new)"

lemma groups_within_refl: "groups_within (fst st) st (snd st)"
  by (simp add: groups_within_def)

lemma groups_within_trans:
  assumes "groups_within i st1 c" and "groups_within (fst st1) st2 (snd st1)"
  shows "groups_within i st2 c"
proof -
  from assms obtain n1 n2 where
    n: "snd st1 = n1 @ c" "list_all (\<lambda>(_, a, b). i \<le> a \<and> a \<le> b \<and> b \<le> fst st1) n1"
      "snd st2 = n2 @ snd st1" "list_all (\<lambda>(_, a, b). fst st1 \<le> a \<and> a \<le> b \<and> b \<le> fst st2) n2"
      "i \<le> fst st1" "fst st1 \<le> fst st2"
    by (auto simp: groups_within_def)
  then have "list_all (\<lambda>(_, a, b). i \<le> a \<and> a \<le> b \<and> b \<le> fst st2) (n2 @ n1)"
    by (fastforce simp: list_all_iff)
  with n show ?thesis by (auto simp: groups_within_def)
qed

lemma star_from_groups:
  assumes f: "\<And>st st'. st' \<in> set (f st) \<Longrightarrow> groups_within (fst st) st' (snd st)"
  shows "st' \<in> set (star_from f n st) \<Longrightarrow> groups_within (fst st) st' (snd st)"
proof (induction n arbitrary: st)
  case 0
  then show ?case by (simp add: groups_within_refl)
next
  case (Suc n)
  then consider "st' = st" | st1 where "st1 \<in> set (f st)" "st' \<in> set (star_from f n st1)"
    by (auto split: if_splits)
  then show ?case
  proof cases
    case 1
    then show ?thesis by (simp add: groups_within_refl)
  next
    case 2
    then show ?thesis using groups_within_trans [OF f Suc.IH] by blast
  qed
qed

lemma outcomes_groups: "st' \<in> set (outcomes ts r st) \<Longrightarrow> groups_within (fst st) st' (snd st)"
proof (induction r arbitrary: st st')
  case (Cat r s)
  then obtain st1 where "st1 \<in> set (outcomes ts r st)" "st' \<in> set (outcomes ts s st1)" by auto
  then show ?case using groups_within_trans [OF Cat.IH(1) Cat.IH(2)] by blast
next
  case (Star r)
  have "st' \<in> set (star_from (outcomes ts r) (length ts - fst st) st)" using Star.prems by simp
  then show ?case by (rule star_from_groups [rotated]) (rule Star.IH)
next
  case (Group n r)
  then obtain st1 where st1: "st1 \<in> set (outcomes ts r st)" "st' = (fst st1, (n, fst st, fst st1) # snd st1)"
    by auto
  with Group.IH [OF st1(1)] show ?case by (auto simp: groups_within_def)
qed (auto simp: groups_within_def split: if_splits)

text \<open>A pattern that cannot be matched without closing group \<open>k\<close>.\<close>

primrec sets_group :: "nat \<Rightarrow> regexp \<Rightarrow> bool" where
  "sets_group k Eps = False"
| "sets_group k (Rune p) = False"
| "sets_group k WordB = False"
| "sets_group k (Cat r s) = (sets_group k r \<or> sets_group k s)"
| "sets_group k (Alt r s) = (sets_group k r \<and> sets_group k s)"
| "sets_group k (Star r) = False"
| "sets_group k (Group n r) = (n = k \<or> sets_group k r)"

lemma outcomes_keep_groups: "st' \<in> set (outcomes ts r st) \<Longrightarrow> set (snd st) \<subseteq> set (snd st')"
  by (drule outcomes_groups) (auto simp: groups_within_def)

lemma outcomes_set_group:
  "sets_group k r \<Longrightarrow> st' \<in> set (outcomes ts r st) \<Longrightarrow> k \<in> fst ` set (snd st')"
proof (induction r arbitrary: st st')
  case (Cat r s)
  then obtain st1 where st1: "st1 \<in> set (outcomes ts r st)" "st' \<in> set (outcomes ts s st1)" by auto
  show ?case
  proof (cases "sets_group k r")
    case True
    then show ?thesis using Cat.IH(1) [OF True st1(1)] outcomes_keep_groups [OF st1(2)] by blast
  next
    case False
    then show ?thesis using Cat.IH(2) Cat.prems(1) st1(2) by simp
  qed
next
  case (Alt r s)
  then consider "st' \<in> set (outcomes ts r st)" | "st' \<in> set (outcomes ts s st)" by auto
  then show ?case using Alt.IH Alt.prems(1) by cases simp_all
next
  case (Group n r)
  then obtain st1 where st1: "st1 \<in> set (outcomes ts r st)" "st' = (fst st1, (n, fst st, fst st1) # snd st1)"
    by auto
  then show ?case using Group.IH [OF _ st1(1)] Group.prems(1) by auto
qed simp_all

text \<open>What a pattern's match of group \<open>k\<close> must itself match: the groups of an outcome are matches of
  the sub-patterns they name.\<close>

primrec group_body :: "nat \<Rightarrow> regexp \<Rightarrow> regexp set" where
  "group_body k Eps = {}"
| "group_body k (Rune p) = {}"
| "group_body k WordB = {}"
| "group_body k (Cat r s) = group_body k r \<union> group_body k s"
| "group_body k (Alt r s) = group_body k r \<union> group_body k s"
| "group_body k (Star r) = group_body k r"
| "group_body k (Group n r) = (if n = k then {r} else {}) \<union> group_body k r"

definition groups_from :: "rune list \<Rightarrow> regexp \<Rightarrow> groups \<Rightarrow> groups \<Rightarrow> bool" where
  "groups_from ts r c c' \<longleftrightarrow>
     (\<forall>(k, a, b) \<in> set c'. (k, a, b) \<in> set c \<or> (\<exists>q \<in> group_body k r. derives ts q a b))"

lemma groups_from_refl: "groups_from ts r c c"
  by (auto simp: groups_from_def)

lemma groups_from_mono:
  assumes "groups_from ts r c c'" and "\<And>k. group_body k r \<subseteq> group_body k q"
  shows "groups_from ts q c c'"
  unfolding groups_from_def
proof (clarify, rename_tac k a b)
  fix k a b
  assume m: "(k, a, b) \<in> set c'" "\<not> (\<exists>q \<in> group_body k q. derives ts q a b)"
  have "(k, a, b) \<in> set c \<or> (\<exists>p \<in> group_body k r. derives ts p a b)"
    using assms(1) m(1) unfolding groups_from_def by fastforce
  then show "(k, a, b) \<in> set c" using m(2) assms(2) [of k] by blast
qed

lemma groups_from_trans:
  assumes "groups_from ts r c c1" and "groups_from ts r c1 c'"
  shows "groups_from ts r c c'"
  unfolding groups_from_def
proof (clarify, rename_tac k a b)
  fix k a b
  assume m: "(k, a, b) \<in> set c'" "\<not> (\<exists>q \<in> group_body k r. derives ts q a b)"
  then have "(k, a, b) \<in> set c1" using assms(2) by (auto simp: groups_from_def)
  with m(2) show "(k, a, b) \<in> set c" using assms(1) by (auto simp: groups_from_def)
qed

lemma star_from_bodies:
  assumes f: "\<And>st st'. st' \<in> set (f st) \<Longrightarrow> groups_from ts r (snd st) (snd st')"
  shows "st' \<in> set (star_from f n st) \<Longrightarrow> groups_from ts r (snd st) (snd st')"
proof (induction n arbitrary: st)
  case 0
  then show ?case by (auto simp: groups_from_def)
next
  case (Suc n)
  then consider "st' = st" | st1 where "st1 \<in> set (f st)" "st' \<in> set (star_from f n st1)"
    by (auto split: if_splits)
  then show ?case
  proof cases
    case 1
    then show ?thesis by (simp add: groups_from_refl)
  next
    case 2
    show ?thesis using f [OF 2(1)] Suc.IH [OF 2(2)] by (rule groups_from_trans)
  qed
qed

lemma outcomes_bodies: "st' \<in> set (outcomes ts r st) \<Longrightarrow> groups_from ts r (snd st) (snd st')"
proof (induction r arbitrary: st st')
  case (Cat r s)
  then obtain st1 where st1: "st1 \<in> set (outcomes ts r st)" "st' \<in> set (outcomes ts s st1)" by auto
  have "groups_from ts (Cat r s) (snd st) (snd st1)"
    by (rule groups_from_mono [OF Cat.IH(1) [OF st1(1)]]) simp
  moreover have "groups_from ts (Cat r s) (snd st1) (snd st')"
    by (rule groups_from_mono [OF Cat.IH(2) [OF st1(2)]]) simp
  ultimately show ?case by (rule groups_from_trans)
next
  case (Alt r s)
  then consider "st' \<in> set (outcomes ts r st)" | "st' \<in> set (outcomes ts s st)" by auto
  then show ?case
    by cases (auto intro: groups_from_mono [OF Alt.IH(1)] groups_from_mono [OF Alt.IH(2)])
next
  case (Star r)
  have "st' \<in> set (star_from (outcomes ts r) (length ts - fst st) st)" using Star.prems by simp
  then have "groups_from ts r (snd st) (snd st')" by (rule star_from_bodies [rotated]) (rule Star.IH)
  then show ?case by (rule groups_from_mono) simp
next
  case (Group n r)
  then obtain st1 where st1: "st1 \<in> set (outcomes ts r st)" "st' = (fst st1, (n, fst st, fst st1) # snd st1)"
    by auto
  have "groups_from ts (Group n r) (snd st) (snd st1)"
    by (rule groups_from_mono [OF Group.IH [OF st1(1)]]) simp
  with outcomes_sound [OF st1(1)] st1(2) show ?case by (simp add: groups_from_def)
qed (simp_all add: groups_from_refl split: if_splits)

subsection \<open>The leftmost match and the loop over all of them\<close>

text \<open>A match: where it starts, where it ends, its groups.\<close>

type_synonym match = "nat \<times> nat \<times> groups"

primrec find_from :: "rune list \<Rightarrow> regexp \<Rightarrow> nat \<Rightarrow> nat \<Rightarrow> match option" where
  "find_from ts r 0 i = None"
| "find_from ts r (Suc n) i =
     (case outcomes ts r (i, []) of
        [] \<Rightarrow> find_from ts r n (Suc i)
      | st # _ \<Rightarrow> Some (i, fst st, snd st))"

definition find_re :: "rune list \<Rightarrow> regexp \<Rightarrow> nat \<Rightarrow> match option" where
  "find_re ts r pos = find_from ts r (Suc (length ts) - pos) pos"

lemma outcomes_Nil_iff: "i \<le> length ts \<Longrightarrow> outcomes ts r (i, c) = [] \<longleftrightarrow> (\<nexists>j. derives ts r i j)"
  using outcomes_sound [of _ ts r "(i, c)"] outcomes_complete [of ts r i _ c]
  by (metis empty_iff fst_conv list.set(1) list.set_intros(1) neq_Nil_conv)

definition match_ok :: "rune list \<Rightarrow> regexp \<Rightarrow> match \<Rightarrow> bool" where
  "match_ok ts r m \<longleftrightarrow> (case m of (a, b, c) \<Rightarrow>
     b \<le> length ts \<and> derives ts r a b \<and> groups_within a (b, c) [] \<and> groups_from ts r [] c
     \<and> (\<forall>k. sets_group k r \<longrightarrow> k \<in> fst ` set c))"

lemma match_ok_le: "match_ok ts r (a, b, c) \<Longrightarrow> a \<le> b"
  using derives_le [of ts r a b] by (simp add: match_ok_def)

lemma find_from_Some:
  assumes "find_from ts r n i = Some (a, b, c)" and "i + n \<le> Suc (length ts)"
  shows "match_ok ts r (a, b, c) \<and> i \<le> a \<and> (\<forall>j e. i \<le> j \<and> j < a \<longrightarrow> \<not> derives ts r j e)"
  using assms
proof (induction n arbitrary: i)
  case 0
  then show ?case by simp
next
  case (Suc n)
  have i: "i \<le> length ts" using Suc.prems(2) by simp
  show ?case
  proof (cases "outcomes ts r (i, [])")
    case Nil
    then have "match_ok ts r (a, b, c) \<and> Suc i \<le> a \<and> (\<forall>j e. Suc i \<le> j \<and> j < a \<longrightarrow> \<not> derives ts r j e)"
      using Suc.IH [of "Suc i"] Suc.prems by simp
    moreover have "\<not> derives ts r i e" for e using Nil outcomes_Nil_iff [OF i] by blast
    ultimately show ?thesis by (metis Suc_leD le_antisym not_less_eq_eq)
  next
    case (Cons st sts)
    then have st: "st \<in> set (outcomes ts r (i, []))" and abc: "a = i" "b = fst st" "c = snd st"
      using Suc.prems(1) by auto
    have "derives ts r i b" using outcomes_sound [OF st] abc by simp
    moreover have "\<forall>k. sets_group k r \<longrightarrow> k \<in> fst ` set c" using outcomes_set_group [OF _ st] abc by simp
    ultimately show ?thesis
      using outcomes_groups [OF st] outcomes_bodies [OF st] abc derives_bound [of ts r i "fst st"] i
      by (auto simp: match_ok_def)
  qed
qed

lemma find_from_None: "find_from ts r n i = None \<Longrightarrow> i + n \<le> Suc (length ts) \<Longrightarrow> i \<le> j \<Longrightarrow> j < i + n \<Longrightarrow> \<not> derives ts r j e"
proof (induction n arbitrary: i)
  case (Suc n)
  then show ?case using outcomes_Nil_iff [of i ts r "[]"]
    by (cases "j = i") (auto split: list.splits)
qed simp

lemma find_re_Some:
  assumes "find_re ts r pos = Some (a, b, c)"
  shows "match_ok ts r (a, b, c)" "pos \<le> a" "a \<le> b" "b \<le> length ts"
    "\<And>j e. pos \<le> j \<Longrightarrow> j < a \<Longrightarrow> \<not> derives ts r j e"
proof -
  have "pos \<le> length ts"
    using assms by (cases "Suc (length ts) - pos") (simp_all add: find_re_def)
  then have "match_ok ts r (a, b, c) \<and> pos \<le> a \<and> (\<forall>j e. pos \<le> j \<and> j < a \<longrightarrow> \<not> derives ts r j e)"
    using find_from_Some [OF assms [unfolded find_re_def]] by simp
  then show "match_ok ts r (a, b, c)" "pos \<le> a" "a \<le> b" "b \<le> length ts"
    "\<And>j e. pos \<le> j \<Longrightarrow> j < a \<Longrightarrow> \<not> derives ts r j e"
    by (auto simp: match_ok_le) (simp add: match_ok_def)
qed

text \<open>The loop of \<open>allMatches\<close>: after a match the search goes on at its end; an empty match moves on by
  one rune, and counts only where the match before it did not end.\<close>

function all_matches :: "rune list \<Rightarrow> regexp \<Rightarrow> nat \<Rightarrow> nat option \<Rightarrow> match list" where
  "all_matches ts r pos prevMatchEnd =
     (if pos > length ts then []
      else (case find_re ts r pos of
          None \<Rightarrow> []
        | Some (a, b, c) \<Rightarrow>
          if b = pos
          then (if prevMatchEnd = Some a then [] else [(a, b, c)]) @ all_matches ts r (Suc pos) (Some b)
          else (a, b, c) # all_matches ts r b (Some b)))"
  by pat_completeness auto
termination
proof (relation "measure (\<lambda>(ts, r, pos, _). Suc (length ts) - pos)", goal_cases)
  case (3 ts r pos pe x y a b c)
  then have "find_re ts r pos = Some (y, b, c)" by simp
  from find_re_Some(2,3) [OF this] 3 show ?case by simp
qed auto

declare all_matches.simps [simp del]

lemma all_matches_ok:
  "m \<in> set (all_matches ts r pos pe) \<Longrightarrow> match_ok ts r m \<and> pos \<le> fst m"
proof (induction ts r pos pe arbitrary: m rule: all_matches.induct)
  case (1 ts r pos pe)
  have l: "\<not> length ts < pos" using 1(3) by (auto simp: all_matches.simps [of ts r pos])
  have "find_re ts r pos \<noteq> None"
    using 1(3) l by (cases "find_re ts r pos") (simp_all add: all_matches.simps [of ts r pos])
  then obtain a b c where f: "find_re ts r pos = Some (a, b, c)" by auto
  note s = find_re_Some [OF f]
  have "m = (a, b, c) \<or> m \<in> set (all_matches ts r (if b = pos then Suc pos else b) (Some b))"
    using 1(3) f l by (auto simp: all_matches.simps [of ts r pos] split: if_splits)
  then show ?case
  proof
    assume "m = (a, b, c)"
    then show ?thesis using s by simp
  next
    assume m: "m \<in> set (all_matches ts r (if b = pos then Suc pos else b) (Some b))"
    then have "match_ok ts r m \<and> (if b = pos then Suc pos else b) \<le> fst m"
      using 1(1) [OF l f refl refl] 1(2) [OF l f refl refl] by (cases "b = pos") simp_all
    then show ?thesis using s by (simp split: if_splits)
  qed
qed

text \<open>The matches come in order and do not overlap.\<close>

definition before :: "match \<Rightarrow> match \<Rightarrow> bool" where
  "before m m' \<longleftrightarrow> fst (snd m) \<le> fst m'"

lemma all_matches_sorted: "sorted_wrt before (all_matches ts r pos pe)"
proof (induction ts r pos pe rule: all_matches.induct)
  case (1 ts r pos pe)
  show ?case
  proof (cases "length ts < pos \<or> find_re ts r pos = None")
    case True
    then show ?thesis by (subst all_matches.simps) auto
  next
    case False
    then obtain a b c where f: "find_re ts r pos = Some (a, b, c)" and l: "\<not> length ts < pos" by auto
    let ?rest = "all_matches ts r (if b = pos then Suc pos else b) (Some b)"
    have rest: "sorted_wrt before ?rest"
      using 1(1) [OF l f refl refl] 1(2) [OF l f refl refl] by (cases "b = pos") simp_all
    have "b \<le> fst m" if "m \<in> set ?rest" for m
      using all_matches_ok [OF that] by (simp split: if_splits)
    then have "sorted_wrt before ((a, b, c) # ?rest)" using rest by (simp add: before_def)
    then show ?thesis using f l rest by (cases "b = pos") (simp_all add: all_matches.simps [of ts r pos])
  qed
qed

text \<open>Nothing is missed: a place where the pattern matches lies in a reported match.\<close>

lemma all_matches_complete:
  assumes "\<And>j. \<not> derives ts r j j"
  shows "derives ts r i e \<Longrightarrow> pos \<le> i \<Longrightarrow> i \<le> length ts
    \<Longrightarrow> \<exists>a b c. (a, b, c) \<in> set (all_matches ts r pos pe) \<and> a \<le> i \<and> i < b"
  using assms
proof (induction ts r pos pe rule: all_matches.induct)
  case (1 ts r pos pe)
  have l: "\<not> length ts < pos" using 1 by simp
  have "find_re ts r pos \<noteq> None"
    using find_from_None [of ts r "Suc (length ts) - pos" pos i e] 1(3-5)
    unfolding find_re_def by fastforce
  then obtain a b c where f: "find_re ts r pos = Some (a, b, c)" by auto
  note s = find_re_Some [OF f]
  have ab: "a < b" using s(1) s(3) 1(6) by (cases "a = b") (auto simp: match_ok_def)
  then have bp: "b \<noteq> pos" using s by simp
  have "a \<le> i" using s(5) 1(3,4) not_le by blast
  show ?case
  proof (cases "i < b")
    case True
    then show ?thesis using \<open>a \<le> i\<close> f l bp by (auto simp: all_matches.simps [of ts r pos])
  next
    case False
    then obtain a' b' c' where "(a', b', c') \<in> set (all_matches ts r b (Some b))" "a' \<le> i" "i < b'"
      using 1(2) [OF l f refl refl bp 1(3) _ 1(5,6)] by auto
    then show ?thesis using f l bp by (auto simp: all_matches.simps [of ts r pos])
  qed
qed

subsection \<open>On strings\<close>

text \<open>\<open>FindAllStringSubmatchIndex\<close>: a match by its byte offsets, a group that took no part being \<open>None\<close>.\<close>

record submatch =
  m_start :: nat
  m_end :: nat
  m_group :: "nat \<Rightarrow> (nat \<times> nat) option"

definition to_bytes :: "string \<Rightarrow> match \<Rightarrow> submatch" where
  "to_bytes s m = (case m of (a, b, c) \<Rightarrow>
     \<lparr>m_start = boundary s a, m_end = boundary s b,
      m_group = (\<lambda>k. map_option (\<lambda>(x, y). (boundary s x, boundary s y)) (map_of c k))\<rparr>)"

definition FindAllStringSubmatchIndex :: "regexp \<Rightarrow> string \<Rightarrow> submatch list" where
  "FindAllStringSubmatchIndex r s = map (to_bytes s) (all_matches (runes s) r 0 None)"

end
