(* ===== verification/GoTime.thy ===== *)
theory GoTime
  imports Wire
begin

text \<open>
  Package \<open>time\<close>, as far as the date extractor uses it: \<open>time.Parse\<close> over the elements of a layout
  (the two-digit and one-digit numbers, the month names in any case, blanks, the fraction of a second
  that follows the seconds without standing in the layout, the zone offsets up to 24 hours and 60
  minutes), the calendar, the change to UTC, and \<open>Format\<close> for the layouts in use. Years are the
  proleptic Gregorian ones, with a year 0 before year 1.
\<close>

subsection \<open>The calendar\<close>

definition isLeap :: "int \<Rightarrow> bool" where
  "isLeap y \<longleftrightarrow> y mod 4 = 0 \<and> (y mod 100 \<noteq> 0 \<or> y mod 400 = 0)"

definition daysIn :: "int \<Rightarrow> int \<Rightarrow> int" where
  "daysIn m y = (if m = 2 then (if isLeap y then 29 else 28) else 30 + (m + m div 8) mod 2)"

type_synonym date = "int \<times> int \<times> int"

definition valid_date :: "date \<Rightarrow> bool" where
  "valid_date x = (case x of (y, m, d) \<Rightarrow> 1 \<le> m \<and> m \<le> 12 \<and> 1 \<le> d \<and> d \<le> daysIn m y)"

fun next_day :: "date \<Rightarrow> date" where
  "next_day (y, m, d) =
     (if d < daysIn m y then (y, m, d + 1) else if m < 12 then (y, m + 1, 1) else (y + 1, 1, 1))"

fun prev_day :: "date \<Rightarrow> date" where
  "prev_day (y, m, d) =
     (if 1 < d then (y, m, d - 1) else if 1 < m then (y, m - 1, daysIn (m - 1) y) else (y - 1, 12, 31))"

definition shift_days :: "int \<Rightarrow> date \<Rightarrow> date" where
  "shift_days k x = (if 0 \<le> k then (next_day ^^ nat k) x else (prev_day ^^ nat (- k)) x)"

subsection \<open>Parsing\<close>

datatype std =
    Txt string
  | LongYear
  | ZeroMonth
  | LongMonth
  | StdDay
  | ZeroDay
  | StdHour
  | ZeroMinute
  | ZeroSecond
  | ColonTZ

record moment =
  t_year :: int
  t_month :: int
  t_day :: int
  t_hour :: int
  t_min :: int
  t_sec :: int
  t_offset :: int

definition dval :: "char \<Rightarrow> int" where
  "dval c = byte c - 48"

text \<open>\<open>getnum\<close>: one or two digits, exactly two when \<open>fixed\<close>.\<close>

fun getnum :: "bool \<Rightarrow> string \<Rightarrow> (int \<times> string) option" where
  "getnum fixed [] = None"
| "getnum fixed [c] = (if is_digit_char c \<and> \<not> fixed then Some (dval c, []) else None)"
| "getnum fixed (c # d # r) =
     (if \<not> is_digit_char c then None
      else if is_digit_char d then Some (10 * dval c + dval d, r)
      else if fixed then None else Some (dval c, d # r))"

definition cutspace :: "string \<Rightarrow> string" where
  "cutspace s = dropWhile (\<lambda>c. c = CHR '' '') s"

text \<open>\<open>skip\<close>: the literal text of a layout; a blank stands for any number of blanks, at least one
  unless the value is at its end.\<close>

function skip :: "string \<Rightarrow> string \<Rightarrow> string option" where
  "skip [] v = Some v"
| "skip (p # ps) v =
     (if p = CHR '' ''
      then (if v \<noteq> [] \<and> hd v \<noteq> CHR '' '' then None else skip (cutspace ps) (cutspace v))
      else (case v of [] \<Rightarrow> None | c # r \<Rightarrow> if c = p then skip ps r else None))"
  by pat_completeness auto
termination
  by (relation "measure (length \<circ> fst)") (auto simp: cutspace_def intro: le_imp_less_Suc length_dropWhile_le)

definition longMonthNames :: "string list" where
  "longMonthNames = [''January'', ''February'', ''March'', ''April'', ''May'', ''June'', ''July'',
     ''August'', ''September'', ''October'', ''November'', ''December'']"

definition ascii_lower :: "char \<Rightarrow> int" where
  "ascii_lower c = (if 65 \<le> byte c \<and> byte c \<le> 90 then byte c + 32 else byte c)"

text \<open>\<open>match\<close>: equal bytes, or the two cases of one letter.\<close>

definition match_name :: "string \<Rightarrow> string \<Rightarrow> bool" where
  "match_name a b \<longleftrightarrow> list_all2 (\<lambda>c1 c2. c1 = c2
     \<or> (ascii_lower c1 = ascii_lower c2 \<and> 97 \<le> ascii_lower c1 \<and> ascii_lower c1 \<le> 122)) a b"

fun lookup_name :: "int \<Rightarrow> string list \<Rightarrow> string \<Rightarrow> (int \<times> string) option" where
  "lookup_name i [] v = None"
| "lookup_name i (n # ns) v =
     (if length n \<le> length v \<and> match_name (take (length n) v) n then Some (i, drop (length n) v)
      else lookup_name (i + 1) ns v)"

definition in_bounds :: "int \<Rightarrow> int \<Rightarrow> (int \<times> 'a) option \<Rightarrow> (int \<times> 'a) option" where
  "in_bounds lo hi r = (case r of None \<Rightarrow> None | Some (n, v) \<Rightarrow> if lo \<le> n \<and> n \<le> hi then Some (n, v) else None)"

definition get_year :: "string \<Rightarrow> (int \<times> string) option" where
  "get_year v = (if length v < 4 \<or> \<not> list_all is_digit_char (take 4 v) then None
     else Some (decimal 0 (take 4 v), drop 4 v))"

text \<open>The fraction of a second that may follow the seconds.\<close>

definition skip_fraction :: "string \<Rightarrow> string" where
  "skip_fraction v = (case v of
     c # d # r \<Rightarrow> if (c = CHR ''.'' \<or> c = CHR '','') \<and> is_digit_char d then dropWhile is_digit_char r else v
   | _ \<Rightarrow> v)"

definition get_zone :: "string \<Rightarrow> (int \<times> string) option" where
  "get_zone v =
     (case v of
        [] \<Rightarrow> None
      | c # r \<Rightarrow>
        if c = CHR ''Z'' then Some (0, r)
        else if length v < 6 \<or> v ! 3 \<noteq> CHR '':'' then None
        else (case (getnum True [v ! 1, v ! 2], getnum True [v ! 4, v ! 5]) of
            (Some (hr, _), Some (mm, _)) \<Rightarrow>
              if hr > 24 \<or> mm > 60 then None
              else if c = CHR ''+'' then Some ((hr * 60 + mm) * 60, drop 6 v)
              else if c = CHR ''-'' then Some (- ((hr * 60 + mm) * 60), drop 6 v)
              else None
          | _ \<Rightarrow> None))"

definition put :: "(int \<Rightarrow> moment) \<Rightarrow> (int \<times> string) option \<Rightarrow> (moment \<times> string) option" where
  "put f r = (case r of None \<Rightarrow> None | Some (n, v) \<Rightarrow> Some (f n, v))"

fun parse_std :: "std \<Rightarrow> moment \<times> string \<Rightarrow> (moment \<times> string) option" where
  "parse_std (Txt p) (m, v) = map_option (Pair m) (skip p v)"
| "parse_std LongYear (m, v) = put (\<lambda>n. m\<lparr>t_year := n\<rparr>) (get_year v)"
| "parse_std ZeroMonth (m, v) = put (\<lambda>n. m\<lparr>t_month := n\<rparr>) (in_bounds 1 12 (getnum True v))"
| "parse_std LongMonth (m, v) = put (\<lambda>n. m\<lparr>t_month := n\<rparr>) (lookup_name 1 longMonthNames v)"
| "parse_std StdDay (m, v) = put (\<lambda>n. m\<lparr>t_day := n\<rparr>) (getnum False v)"
| "parse_std ZeroDay (m, v) = put (\<lambda>n. m\<lparr>t_day := n\<rparr>) (getnum True v)"
| "parse_std StdHour (m, v) = put (\<lambda>n. m\<lparr>t_hour := n\<rparr>) (in_bounds 0 23 (getnum False v))"
| "parse_std ZeroMinute (m, v) = put (\<lambda>n. m\<lparr>t_min := n\<rparr>) (in_bounds 0 59 (getnum True v))"
| "parse_std ZeroSecond (m, v) =
     map_option (\<lambda>(m, v). (m, skip_fraction v)) (put (\<lambda>n. m\<lparr>t_sec := n\<rparr>) (in_bounds 0 59 (getnum True v)))"
| "parse_std ColonTZ (m, v) = put (\<lambda>n. m\<lparr>t_offset := n\<rparr>) (get_zone v)"

fun parse_layout :: "std list \<Rightarrow> moment \<times> string \<Rightarrow> moment option" where
  "parse_layout [] (m, v) = (if v = [] then Some m else None)"
| "parse_layout (l # ls) mv = (case parse_std l mv of None \<Rightarrow> None | Some mv' \<Rightarrow> parse_layout ls mv')"

definition no_moment :: moment where
  "no_moment = \<lparr>t_year = 0, t_month = 1, t_day = 1, t_hour = 0, t_min = 0, t_sec = 0, t_offset = 0\<rparr>"

definition date_of :: "moment \<Rightarrow> date" where
  "date_of m = (t_year m, t_month m, t_day m)"

text \<open>\<open>time.Parse\<close>: after the layout, the day must be one of its month.\<close>

definition parse_time :: "std list \<Rightarrow> string \<Rightarrow> moment option" where
  "parse_time layout v =
     (case parse_layout layout (no_moment, v) of
        None \<Rightarrow> None
      | Some m \<Rightarrow> if t_day m < 1 \<or> daysIn (t_month m) (t_year m) < t_day m then None else Some m)"

definition RFC3339 :: "std list" where
  "RFC3339 = [LongYear, Txt ''-'', ZeroMonth, Txt ''-'', ZeroDay, Txt ''T'', StdHour, Txt '':'', ZeroMinute,
     Txt '':'', ZeroSecond, ColonTZ]"

definition layout_iso :: "std list" where
  "layout_iso = [LongYear, Txt ''-'', ZeroMonth, Txt ''-'', ZeroDay]"

definition layout_mdy :: "std list" where
  "layout_mdy = [LongMonth, Txt '' '', StdDay, Txt '', '', LongYear]"

definition layout_dmy :: "std list" where
  "layout_dmy = [StdDay, Txt '' '', LongMonth, Txt '' '', LongYear]"

subsection \<open>UTC and formatting\<close>

text \<open>\<open>t.UTC()\<close>.\<close>

definition to_utc :: "moment \<Rightarrow> moment" where
  "to_utc m =
     (let secs = t_hour m * 3600 + t_min m * 60 + t_sec m - t_offset m;
          (y, mo, d) = shift_days (secs div 86400) (date_of m);
          s = secs mod 86400
      in \<lparr>t_year = y, t_month = mo, t_day = d, t_hour = s div 3600, t_min = s div 60 mod 60,
          t_sec = s mod 60, t_offset = 0\<rparr>)"

definition appendInt :: "nat \<Rightarrow> int \<Rightarrow> string" where
  "appendInt w x =
     (let ds = nat_digits (nat \<bar>x\<bar>)
      in (if x < 0 then ''-'' else []) @ replicate (w - length ds) (CHR ''0'') @ ds)"

definition format_iso :: "moment \<Rightarrow> string" where
  "format_iso m = appendInt 4 (t_year m) @ ''-'' @ appendInt 2 (t_month m) @ ''-'' @ appendInt 2 (t_day m)"

text \<open>\<open>Format(time.RFC3339)\<close> of a time in UTC.\<close>

definition format_rfc3339 :: "moment \<Rightarrow> string" where
  "format_rfc3339 m = format_iso m @ ''T'' @ appendInt 2 (t_hour m) @ '':'' @ appendInt 2 (t_min m) @ '':''
     @ appendInt 2 (t_sec m) @ ''Z''"

subsection \<open>Numbers of days\<close>

text \<open>The day of a date counted from the first day of year 1, which is what a date is about.\<close>

definition before_year :: "int \<Rightarrow> int" where
  "before_year y = 365 * (y - 1) + (y - 1) div 4 - (y - 1) div 100 + (y - 1) div 400"

definition before_month :: "int \<Rightarrow> int \<Rightarrow> int" where
  "before_month y m = sum_list (map (\<lambda>k. daysIn k y) [1..m - 1])"

definition day_number :: "date \<Rightarrow> int" where
  "day_number x = (case x of (y, m, d) \<Rightarrow> before_year y + before_month y m + d - 1)"

definition instant :: "moment \<Rightarrow> int" where
  "instant m = day_number (date_of m) * 86400 + t_hour m * 3600 + t_min m * 60 + t_sec m - t_offset m"

lemma isLeap_div:
  "y div 4 - y div 100 + y div 400 - ((y - 1) div 4 - (y - 1) div 100 + (y - 1) div 400) = (if isLeap y then 1 else 0)"
proof -
  have d: "y div k - (y - 1) div k = (if y mod k = 0 then 1 else 0)" if "0 < k" for k :: int
  proof (cases "y mod k = 0")
    case True
    then obtain q where q: "y = k * q" by (auto simp: mod_eq_0_iff_dvd)
    have "(k * q - 1) div k = q - 1"
      using that by (intro int_div_pos_eq [of _ _ _ "k - 1"]) (auto simp: algebra_simps)
    then show ?thesis using q that by simp
  next
    case False
    have m: "0 \<le> y mod k - 1" "y mod k - 1 < k" using False that pos_mod_sign [of k y] pos_mod_bound [of k y] by linarith+
    have "y - 1 = k * (y div k) + (y mod k - 1)" by simp
    then have "(y - 1) div k = y div k" using m by (rule int_div_pos_eq)
    then show ?thesis using False by simp
  qed
  have i4: "y mod 4 = 0" if "y mod 100 = 0" using that mod_mod_cancel [of 4 100 y] by simp
  have i100: "y mod 100 = 0" if "y mod 400 = 0" using that mod_mod_cancel [of 100 400 y] by simp
  have "(if A then 1 else 0) - (if B then 1 else 0) + (if C then 1 else 0)
      = (if A \<and> (\<not> B \<or> C) then 1 else (0::int))" if "B \<Longrightarrow> A" "C \<Longrightarrow> B" for A B C
    using that by (cases A; cases B; cases C) simp_all
  note this [of "y mod 100 = 0" "y mod 4 = 0" "y mod 400 = 0", OF i4 i100]
  moreover have "(a - b + c) - (a' - b' + c') = p - q + r" if "a - a' = p" "b - b' = q" "c - c' = r"
    for a b c a' b' c' p q r :: int using that by linarith
  note this [OF d [of 4] d [of 100] d [of 400]]
  ultimately show ?thesis by (simp only: isLeap_def)
qed

lemma before_year_Suc: "before_year (y + 1) = before_year y + (if isLeap y then 366 else 365)"
  using isLeap_div [of y] by (simp add: before_year_def split: if_splits)

lemma before_month_12: "before_month y 13 = (if isLeap y then 366 else 365)"
  by (simp add: before_month_def daysIn_def upto.simps)

lemma before_month_Suc: "1 \<le> m \<Longrightarrow> before_month y (m + 1) = before_month y m + daysIn m y"
  using upto_rec2 [of 1 m] by (simp add: before_month_def)

lemma daysIn_bounds: "28 \<le> daysIn m y" "daysIn m y \<le> 31"
proof -
  have "0 \<le> (m + m div 8) mod 2" "(m + m div 8) mod 2 \<le> 1" by simp_all
  then show "28 \<le> daysIn m y" "daysIn m y \<le> 31" by (simp_all add: daysIn_def)
qed

lemma day_number_next: "valid_date x \<Longrightarrow> valid_date (next_day x) \<and> day_number (next_day x) = day_number x + 1"
proof (cases x)
  case (fields y m d)
  assume v: "valid_date x"
  show ?thesis
  proof (cases "d < daysIn m y")
    case True
    then show ?thesis using v fields by (simp add: valid_date_def day_number_def)
  next
    case False
    then have d: "d = daysIn m y" and m: "1 \<le> m" "m \<le> 12" using v fields by (simp_all add: valid_date_def)
    show ?thesis
    proof (cases "m < 12")
      case True
      then show ?thesis using d m fields daysIn_bounds [of "m + 1" y]
        by (simp add: valid_date_def day_number_def before_month_Suc)
    next
      case False
      then have m12: "m = 12" using m by simp
      then have "before_month y 12 + daysIn 12 y = (if isLeap y then 366 else 365)"
        using before_month_Suc [of 12 y] before_month_12 [of y] by simp
      then show ?thesis using d m12 fields daysIn_bounds [of 1 "y + 1"]
        by (simp add: valid_date_def day_number_def before_year_Suc) (simp add: before_month_def)
    qed
  qed
qed

lemma next_prev_day: "valid_date x \<Longrightarrow> valid_date (prev_day x) \<and> next_day (prev_day x) = x"
proof (cases x)
  case (fields y m d)
  have "daysIn 12 k = 31" for k by (simp add: daysIn_def)
  then show "valid_date x \<Longrightarrow> valid_date (prev_day x) \<and> next_day (prev_day x) = x"
    using fields daysIn_bounds [of "m - 1" y] by (auto simp: valid_date_def)
qed

lemma day_number_prev: "valid_date x \<Longrightarrow> valid_date (prev_day x) \<and> day_number (prev_day x) = day_number x - 1"
  using next_prev_day [of x] day_number_next [of "prev_day x"] by simp

lemma shift_days_number: "valid_date x \<Longrightarrow> valid_date (shift_days k x) \<and> day_number (shift_days k x) = day_number x + k"
proof -
  assume v: "valid_date x"
  have "valid_date ((next_day ^^ n) x) \<and> day_number ((next_day ^^ n) x) = day_number x + int n" for n
    by (induction n) (use v day_number_next in auto)
  moreover have "valid_date ((prev_day ^^ n) x) \<and> day_number ((prev_day ^^ n) x) = day_number x - int n" for n
    by (induction n) (use v day_number_prev in auto)
  ultimately show ?thesis by (simp add: shift_days_def)
qed

definition clock_ok :: "moment \<Rightarrow> bool" where
  "clock_ok m \<longleftrightarrow> valid_date (date_of m) \<and> 0 \<le> t_hour m \<and> t_hour m < 24 \<and> 0 \<le> t_min m \<and> t_min m < 60
     \<and> 0 \<le> t_sec m \<and> t_sec m < 60"

lemma clock_split:
  fixes s :: int
  shows "s div 3600 * 3600 + s div 60 mod 60 * 60 + s mod 60 = s"
proof -
  have "s div 3600 = s div 60 div 60" using zdiv_zmult2_eq [of 60 s 60] by simp
  then show ?thesis using div_mult_mod_eq [of "s div 60" 60] div_mult_mod_eq [of s 60] by linarith
qed

lemma clock_join:
  fixes h m s :: int
  assumes "0 \<le> m" "m < 60" "0 \<le> s" "s < 60"
  shows "(h * 3600 + m * 60 + s) div 3600 = h" "(h * 3600 + m * 60 + s) div 60 mod 60 = m"
    "(h * 3600 + m * 60 + s) mod 60 = s"
proof -
  let ?t = "h * 3600 + m * 60 + s"
  have d: "?t div 60 = h * 60 + m" by (rule int_div_pos_eq [of _ _ _ s]) (use assms in auto)
  show "?t div 60 mod 60 = m" unfolding d using assms by simp
  show "?t mod 60 = s" by (rule int_mod_pos_eq [of _ _ "h * 60 + m"]) (use assms in auto)
  show "?t div 3600 = h" by (rule int_div_pos_eq [of _ _ _ "m * 60 + s"]) (use assms in auto)
qed

text \<open>The change to UTC keeps the instant.\<close>

lemma to_utc_instant:
  assumes "valid_date (date_of m)"
  shows "clock_ok (to_utc m) \<and> t_offset (to_utc m) = 0 \<and> instant (to_utc m) = instant m"
proof -
  define secs where "secs = t_hour m * 3600 + t_min m * 60 + t_sec m - t_offset m"
  define n r where "n = secs div 86400" and "r = secs mod 86400"
  have nr: "n * 86400 + r = secs" "0 \<le> r" "r < 86400" by (simp_all add: n_def r_def)
  obtain y mo d where s: "shift_days n (date_of m) = (y, mo, d)"
    by (cases "shift_days n (date_of m)") auto
  have v: "valid_date (y, mo, d)" "day_number (y, mo, d) = day_number (date_of m) + n"
    using shift_days_number [OF assms, of n] s by simp_all
  have u: "to_utc m = \<lparr>t_year = y, t_month = mo, t_day = d, t_hour = r div 3600, t_min = r div 60 mod 60,
      t_sec = r mod 60, t_offset = 0\<rparr>"
    using s by (simp add: to_utc_def Let_def secs_def n_def r_def)
  have "0 \<le> r div 3600" "r div 3600 < 24"
    using nr(2,3) zdiv_mono1 [of r 86399 3600] by (auto simp: pos_imp_zdiv_nonneg_iff)
  then have "clock_ok (to_utc m)" using v(1) by (simp add: u clock_ok_def date_of_def)
  moreover have "instant (to_utc m) = (day_number (date_of m) + n) * 86400 + r"
    using clock_split [of r] v(2) by (simp add: u instant_def date_of_def add.assoc)
  moreover have "instant m = day_number (date_of m) * 86400 + secs"
    by (simp add: instant_def secs_def)
  ultimately show ?thesis using nr(1) by (simp add: u distrib_right)
qed

lemma to_utc_fix: "clock_ok m \<Longrightarrow> t_offset m = 0 \<Longrightarrow> to_utc m = m"
proof -
  assume c: "clock_ok m" "t_offset m = 0"
  let ?s = "t_hour m * 3600 + t_min m * 60 + t_sec m"
  have b: "0 \<le> ?s" "?s < 86400" using c by (simp_all add: clock_ok_def)
  have h: "?s div 3600 = t_hour m" "?s div 60 mod 60 = t_min m" "?s mod 60 = t_sec m"
    by (rule clock_join; use c in \<open>simp add: clock_ok_def\<close>)+
  show ?thesis using c b h by (simp add: to_utc_def Let_def shift_days_def date_of_def)
qed

subsection \<open>What is printed reads back\<close>

lemma length_nat_digits: "n < 10 ^ k \<Longrightarrow> 0 < k \<Longrightarrow> length (nat_digits n) \<le> k"
proof (induction n arbitrary: k rule: nat_digits.induct)
  case (1 n)
  show ?case
  proof (cases "n < 10")
    case True
    then show ?thesis using "1.prems" by (subst nat_digits_rec) simp
  next
    case False
    then obtain j where j: "k = Suc j" "0 < j" using "1.prems" by (cases k; cases "k - 1") auto
    have "n div 10 < 10 ^ j" using "1.prems"(1) j(1) by (simp add: less_mult_imp_div_less mult.commute)
    then have "length (nat_digits (n div 10)) \<le> j" using "1.IH" False j(2) by blast
    then show ?thesis using False j by (subst nat_digits_rec) simp
  qed
qed

lemma decimal_zeros: "decimal 0 (replicate k (CHR ''0'') @ ds) = decimal 0 ds"
  by (induction k) (simp_all add: byte_def)

lemma appendInt_nonneg:
  assumes "0 \<le> n" and "n < 10 ^ w" and "0 < w"
  shows "length (appendInt w n) = w" "list_all is_digit_char (appendInt w n)" "decimal 0 (appendInt w n) = n"
proof -
  have l: "length (nat_digits (nat n)) \<le> w"
    using assms by (intro length_nat_digits) (simp_all add: nat_less_iff)
  show "length (appendInt w n) = w" using assms l by (simp add: appendInt_def Let_def)
  have "list_all is_digit_char (replicate k (CHR ''0''))" for k
    by (induction k) (simp_all add: is_digit_char_def byte_def)
  then show "list_all is_digit_char (appendInt w n)" using assms nat_digits_all
    by (simp add: appendInt_def Let_def list_all_append)
  show "decimal 0 (appendInt w n) = n" using assms
    by (simp add: appendInt_def Let_def decimal_zeros decimal_nat_digits)
qed

lemma getnum_two:
  assumes "0 \<le> n" and "n < 100"
  shows "getnum b (appendInt 2 n @ r) = Some (n, r)"
proof -
  note a = appendInt_nonneg [of n 2]
  obtain c d where cd: "appendInt 2 n = [c, d]"
    using a(1) assms by (auto simp: length_Suc_conv numeral_2_eq_2)
  then show ?thesis using a(2,3) assms by (simp add: dval_def)
qed

lemma getnum_one:
  assumes "0 \<le> n" and "n < 100" and "\<not> is_digit_char c"
  shows "getnum False (itoa n @ c # r) = Some (n, c # r)"
proof (cases "n < 10")
  case True
  then have "itoa n = [digit_char (nat n)]" using assms by (simp add: itoa_def nat_digits_rec [of "nat n"] nat_less_iff)
  then show ?thesis using True assms by (simp add: is_digit_char_digit dval_def byte_digit_char nat_less_iff)
next
  case False
  then have "\<not> nat n < 10" "nat n div 10 < 10" using assms by (auto simp: nat_less_iff)
  then have "itoa n = [digit_char (nat n div 10), digit_char (nat n mod 10)]"
    using assms by (simp add: itoa_def nat_digits_rec [of "nat n"] nat_digits_rec [of "nat n div 10"])
  then show ?thesis using assms False \<open>nat n div 10 < 10\<close>
    by (simp add: is_digit_char_digit dval_def byte_digit_char zdiv_int zmod_int)
qed

lemma get_year_four: "0 \<le> y \<Longrightarrow> y < 10000 \<Longrightarrow> get_year (appendInt 4 y @ r) = Some (y, r)"
  using appendInt_nonneg [of y 4] by (simp add: get_year_def)

lemma skip_char: "c \<noteq> CHR '' '' \<Longrightarrow> skip [c] (c # r) = Some r"
  by simp

lemma skip_blank: "r = [] \<or> hd r \<noteq> CHR '' '' \<Longrightarrow> skip '' '' (CHR '' '' # r) = Some r"
  by (cases r) (simp_all add: cutspace_def)

lemma clock_ok_month: "clock_ok m \<Longrightarrow> 1 \<le> t_month m \<and> t_month m \<le> 12 \<and> 1 \<le> t_day m \<and> t_day m \<le> daysIn (t_month m) (t_year m) \<and> t_day m < 32"
  using daysIn_bounds [of "t_month m" "t_year m"] by (simp add: clock_ok_def valid_date_def date_of_def)

lemmas parse_simps = put_def in_bounds_def get_year_four getnum_two

lemma parse_format_rfc3339:
  assumes "clock_ok m" and "t_offset m = 0" and "0 \<le> t_year m" and "t_year m < 10000"
  shows "parse_time RFC3339 (format_rfc3339 m) = Some m"
  using assms clock_ok_month [OF assms(1)]
  by (simp add: parse_time_def RFC3339_def format_rfc3339_def format_iso_def parse_simps no_moment_def
      skip_fraction_def get_zone_def clock_ok_def)

lemma parse_format_iso:
  assumes "valid_date (date_of m)" and "0 \<le> t_year m" and "t_year m < 10000"
  shows "parse_time layout_iso (format_iso m)
    = Some (no_moment\<lparr>t_year := t_year m, t_month := t_month m, t_day := t_day m\<rparr>)"
  using assms daysIn_bounds [of "t_month m" "t_year m"] getnum_two [of "t_day m" True "[]"] get_year_four
  by (simp add: parse_time_def layout_iso_def format_iso_def parse_simps valid_date_def date_of_def)

text \<open>The two layouts with the month spelled out.\<close>

definition month_name :: "int \<Rightarrow> string" where
  "month_name m = longMonthNames ! nat (m - 1)"

definition format_mdy :: "moment \<Rightarrow> string" where
  "format_mdy m = month_name (t_month m) @ '' '' @ itoa (t_day m) @ '', '' @ appendInt 4 (t_year m)"

definition format_dmy :: "moment \<Rightarrow> string" where
  "format_dmy m = itoa (t_day m) @ '' '' @ month_name (t_month m) @ '' '' @ appendInt 4 (t_year m)"

lemma month_cases: "1 \<le> m \<Longrightarrow> m \<le> 12 \<Longrightarrow> m \<in> {1, 2, 3, 4, 5, 6, 7, 8, 9, 10, 11, 12 :: int}"
  using set_upto [of 1 12] by (simp add: upto.simps atLeastAtMost_iff [symmetric])

lemma lookup_month:
  assumes "1 \<le> m" and "m \<le> 12"
  shows "lookup_name 1 longMonthNames (month_name m @ r) = Some (m, r)"
proof -
  from month_cases [OF assms] show ?thesis
    by (elim insertE emptyE) (simp_all add: month_name_def longMonthNames_def match_name_def ascii_lower_def byte_def)
qed

lemma month_name_head: "1 \<le> m \<Longrightarrow> m \<le> 12 \<Longrightarrow> hd (month_name m) \<noteq> CHR '' '' \<and> month_name m \<noteq> []"
proof -
  assume "1 \<le> m" "m \<le> 12"
  from month_cases [OF this] show ?thesis by (elim insertE emptyE) (simp_all add: month_name_def longMonthNames_def)
qed

lemma digits_head:
  assumes "list_all is_digit_char ds" and "ds \<noteq> []"
  shows "hd (ds @ r) \<noteq> CHR '' '' \<and> ds @ r \<noteq> []"
  using assms by (cases ds) (auto simp: is_digit_char_def byte_def)

lemma skip_blank_digits:
  assumes "list_all is_digit_char ds" and "ds \<noteq> []"
  shows "skip '' '' (CHR '' '' # ds @ r) = Some (ds @ r)" "skip '', '' (CHR '','' # CHR '' '' # ds @ r) = Some (ds @ r)"
proof -
  show b: "skip '' '' (CHR '' '' # ds @ r) = Some (ds @ r)"
    using digits_head [OF assms, of r] by (intro skip_blank) simp
  then show "skip '', '' (CHR '','' # CHR '' '' # ds @ r) = Some (ds @ r)"
    by (simp add: skip.simps(2) [of "CHR '',''"])
qed

lemma itoa_digits: "0 \<le> n \<Longrightarrow> list_all is_digit_char (itoa n) \<and> itoa n \<noteq> []"
  by (simp add: itoa_def nat_digits_all nat_digits_ne)

lemma appendInt_four: "0 \<le> y \<Longrightarrow> y < 10000 \<Longrightarrow> list_all is_digit_char (appendInt 4 y) \<and> appendInt 4 y \<noteq> []"
  using appendInt_nonneg [of y 4] by auto

lemma parse_format_mdy:
  assumes "valid_date (date_of m)" and "0 \<le> t_year m" and "t_year m < 10000"
  shows "parse_time layout_mdy (format_mdy m)
    = Some (no_moment\<lparr>t_year := t_year m, t_month := t_month m, t_day := t_day m\<rparr>)"
proof -
  have v: "1 \<le> t_month m" "t_month m \<le> 12" "1 \<le> t_day m" "t_day m \<le> daysIn (t_month m) (t_year m)" "t_day m < 100"
    using assms daysIn_bounds [of "t_month m" "t_year m"] by (auto simp: valid_date_def date_of_def)
  have comma: "\<not> is_digit_char (CHR '','')" by (simp add: is_digit_char_def byte_def)
  let ?y = "appendInt 4 (t_year m)" and ?d = "itoa (t_day m)"
  have d: "skip '' '' (CHR '' '' # ?d @ CHR '','' # CHR '' '' # ?y) = Some (?d @ CHR '','' # CHR '' '' # ?y)"
    using itoa_digits [of "t_day m"] v(3) by (intro skip_blank_digits) simp_all
  have c: "skip '', '' (CHR '','' # CHR '' '' # ?y) = Some ?y"
    using skip_blank_digits(2) [of ?y "[]"] appendInt_four assms by simp
  have n: "getnum False (?d @ CHR '','' # CHR '' '' # ?y) = Some (t_day m, CHR '','' # CHR '' '' # ?y)"
    using v comma by (intro getnum_one) simp_all
  show ?thesis
    using v lookup_month [OF v(1,2)] get_year_four [OF assms(2,3), of "[]"] d c n
    by (simp add: parse_time_def layout_mdy_def format_mdy_def put_def del: skip.simps)
qed

lemma parse_format_dmy:
  assumes "valid_date (date_of m)" and "0 \<le> t_year m" and "t_year m < 10000"
  shows "parse_time layout_dmy (format_dmy m)
    = Some (no_moment\<lparr>t_year := t_year m, t_month := t_month m, t_day := t_day m\<rparr>)"
proof -
  have v: "1 \<le> t_month m" "t_month m \<le> 12" "1 \<le> t_day m" "t_day m \<le> daysIn (t_month m) (t_year m)" "t_day m < 100"
    using assms daysIn_bounds [of "t_month m" "t_year m"] by (auto simp: valid_date_def date_of_def)
  have blank: "\<not> is_digit_char (CHR '' '')" by (simp add: is_digit_char_def byte_def)
  let ?y = "appendInt 4 (t_year m)" and ?n = "month_name (t_month m)"
  have d: "getnum False (itoa (t_day m) @ CHR '' '' # ?n @ CHR '' '' # ?y) = Some (t_day m, CHR '' '' # ?n @ CHR '' '' # ?y)"
    using v blank by (intro getnum_one) simp_all
  have n: "skip '' '' (CHR '' '' # ?n @ CHR '' '' # ?y) = Some (?n @ CHR '' '' # ?y)"
    using month_name_head [OF v(1,2)] by (intro skip_blank) simp
  have c: "skip '' '' (CHR '' '' # ?y) = Some ?y"
    using skip_blank_digits(1) [of ?y "[]"] appendInt_four assms by simp
  show ?thesis
    using v lookup_month [OF v(1,2)] get_year_four [OF assms(2,3), of "[]"] d c n
    by (simp add: parse_time_def layout_dmy_def format_dmy_def put_def del: skip.simps)
qed

subsection \<open>What is read is a time of day\<close>

lemma getnum_nonneg: "getnum b v = Some (n, r) \<Longrightarrow> 0 \<le> n"
  by (cases "(b, v)" rule: getnum.cases) (auto simp: is_digit_char_def dval_def split: if_splits)

lemma put_Some: "put f r = Some (m, v) \<longleftrightarrow> (\<exists>n. r = Some (n, v) \<and> m = f n)"
  by (auto simp: put_def split: option.splits)

lemma in_bounds_Some: "in_bounds a b r = Some (n, v) \<longleftrightarrow> r = Some (n, v) \<and> a \<le> n \<and> n \<le> b"
  by (auto simp: in_bounds_def split: option.splits)

lemma parse_layout_Cons_Some:
  "parse_layout (l # ls) mv = Some m \<longleftrightarrow> (\<exists>m1 v1. parse_std l mv = Some (m1, v1) \<and> parse_layout ls (m1, v1) = Some m)"
  by (auto split: option.splits)

lemma parse_layout_Nil_Some: "parse_layout [] mv = Some m \<longleftrightarrow> mv = (m, [])"
  by (cases mv) auto

lemmas parse_layout_elims = parse_layout_Cons_Some parse_layout_Nil_Some put_Some in_bounds_Some

lemma parse_rfc3339_ok:
  assumes "parse_time RFC3339 v = Some m"
  shows "clock_ok m"
proof -
  from assms have l: "parse_layout RFC3339 (no_moment, v) = Some m" and d: "1 \<le> t_day m" "t_day m \<le> daysIn (t_month m) (t_year m)"
    by (auto simp: parse_time_def split: option.splits if_splits)
  from l have "1 \<le> t_month m \<and> t_month m \<le> 12 \<and> 0 \<le> t_hour m \<and> t_hour m < 24
      \<and> 0 \<le> t_min m \<and> t_min m < 60 \<and> 0 \<le> t_sec m \<and> t_sec m < 60"
    unfolding RFC3339_def by (auto simp: parse_layout_elims simp del: skip.simps parse_layout.simps)
  with d show ?thesis by (simp add: clock_ok_def valid_date_def date_of_def)
qed

end
