(* ===== verification/Extractors.thy ===== *)
theory Extractors
  imports Regexp GoTime Float64 FactPipeline
begin

text \<open>
  \<open>internal/extractors/deterministic\<close>: the identifier, money and date extractors, which are regular
  expressions with a normalisation of what they match, the gazetteer, which looks up the names of
  companies and persons, and the runner that runs the four over a text and drops repeated facts. A slice
  of a string out of its bounds is Go's panic, an error value here. What Go leaves to the processor, the
  conversion to \<open>int64\<close> of a \<open>float64\<close> out of its range, is the argument \<open>conv\<close>.
\<close>

subsection \<open>Facts from byte ranges\<close>

text \<open>\<open>sourceLabel\<close>, with \<open>TextValue\<close>.\<close>

definition sourceLabel :: "source_row option \<Rightarrow> string" where
  "sourceLabel source =
     (case source of None \<Rightarrow> [] | Some s \<Rightarrow> (case so_title s of Some title \<Rightarrow> title | None \<Rightarrow> so_url s))"

definition mk_fact :: "string \<Rightarrow> string \<Rightarrow> string \<Rightarrow> string \<Rightarrow> string \<Rightarrow> string \<Rightarrow> nat \<Rightarrow> nat \<Rightarrow> ExtractedFact" where
  "mk_fact subject slug val valueType method rawText s e =
     \<lparr>SubjectText = subject, PropertySlug = slug, FactValue = val, ValueType = valueType,
      Excerpt = slice s e rawText, ExcerptOffsetStart = byteOffsetToCharOffset rawText (int s),
      ExcerptOffsetEnd = byteOffsetToCharOffset rawText (int e), ExtractionMethod = method,
      SourceConfidence = None\<rparr>"

definition panic_slice :: string where
  "panic_slice = ''panic: runtime error: slice bounds out of range''"

subsection \<open>Identifiers\<close>

definition colon_space :: "rune \<Rightarrow> bool" where
  "colon_space r \<longleftrightarrow> r = 58 \<or> perl_space r"

definition cikPattern :: regexp where
  "cikPattern = Seq [WordB, Opt (Cat (LitI ''CIK'') (Star Space)), Group 1 (Times 10 Digit), WordB]"

definition cusipPattern :: regexp where
  "cusipPattern = Seq [WordB, LitI ''CUSIP'', Star (Rune colon_space), Group 1 (Times 9 (Rune alnum_i)), WordB]"

definition isinPattern :: regexp where
  "isinPattern = Seq [WordB, LitI ''ISIN'', Star (Rune colon_space),
     Group 1 (Seq [Times 2 (Rune letter_i), Times 9 (Rune alnum_i), Digit]), WordB]"

definition doi_rune :: "rune \<Rightarrow> bool" where
  "doi_rune r \<longleftrightarrow> one_of ''-._;()/:'' r \<or> alnum_i r"

definition doiPattern :: regexp where
  "doiPattern = Seq [WordB, Opt (Cat (LitI ''DOI'') (Star (Rune colon_space))),
     Group 1 (Seq [Lit ''10.'', Between 4 9 Digit, Lit ''/'', Plus (Rune doi_rune)]), WordB]"

definition nctPattern :: regexp where
  "nctPattern = Seq [WordB, Group 1 (Seq [LitI ''NCT'', Times 8 Digit]), WordB]"

definition isbn13Pattern :: regexp where
  "isbn13Pattern = Seq [WordB, Opt (Seq [LitI ''ISBN'', Opt (Lit ''-13''), Star (Rune colon_space)]),
     Group 1 (Seq [Lit ''97'', Rune (one_of ''89''),
       Times 10 (Cat (Opt (Rune (\<lambda>r. r = 45 \<or> perl_space r))) Digit)]), WordB]"

definition normalizeDigits :: "unicode_tables \<Rightarrow> string \<Rightarrow> string" where
  "normalizeDigits U s = concat (map encode_rune (filter (is_digit U) (runes s)))"

definition normalizeUpper :: "unicode_tables \<Rightarrow> string \<Rightarrow> string" where
  "normalizeUpper U s = to_upper U (trim_space s)"

definition normalizeLower :: "unicode_tables \<Rightarrow> string \<Rightarrow> string" where
  "normalizeLower U s = to_lower U (trim_space s)"

definition normalizeISBN13 :: "unicode_tables \<Rightarrow> string \<Rightarrow> string" where
  "normalizeISBN13 U s = concat (map encode_rune (filter (is_digit U) (runes s)))"

definition identifier_fact :: "string \<Rightarrow> string \<Rightarrow> string \<Rightarrow> string \<Rightarrow> string \<Rightarrow> (string \<Rightarrow> string) option
    \<Rightarrow> submatch \<Rightarrow> ExtractedFact list \<Rightarrow> ExtractedFact list result" where
  "identifier_fact subject rawText slug valueType method normalizer m facts =
     (case m_group m 1 of
        None \<Rightarrow> Err panic_slice
      | Some (valueStart, valueEnd) \<Rightarrow>
        (let val = slice valueStart valueEnd rawText
         in Ok (facts @ [mk_fact subject slug (case normalizer of None \<Rightarrow> val | Some f \<Rightarrow> f val) valueType method
                          rawText (m_start m) (m_end m)])))"

definition collectIdentifierFacts :: "string \<Rightarrow> string \<Rightarrow> string \<Rightarrow> string \<Rightarrow> string \<Rightarrow> regexp
    \<Rightarrow> (string \<Rightarrow> string) option \<Rightarrow> ExtractedFact list result" where
  "collectIdentifierFacts subject rawText slug valueType method pattern normalizer =
     fold_res (identifier_fact subject rawText slug valueType method normalizer)
       (FindAllStringSubmatchIndex pattern rawText) []"

text \<open>The six calls of \<open>IdentifierExtractor.Extract\<close>, in their order.\<close>

definition identifier_calls :: "unicode_tables \<Rightarrow> (string \<times> regexp \<times> (string \<Rightarrow> string)) list" where
  "identifier_calls U =
     [(''sec_cik'', cikPattern, normalizeDigits U),
      (''sec_cusip'', cusipPattern, normalizeUpper U),
      (''sec_isin'', isinPattern, normalizeUpper U),
      (''doi'', doiPattern, normalizeLower U),
      (''clinicaltrials.gov_nct_id'', nctPattern, normalizeUpper U),
      (''isbn_13'', isbn13Pattern, normalizeISBN13 U)]"

type_synonym extractor = "source_row option \<Rightarrow> string \<Rightarrow> ExtractedFact list result"

definition IdentifierExtractor :: "unicode_tables \<Rightarrow> extractor" where
  "IdentifierExtractor U source rawText =
     (let subject = sourceLabel source
      in fold_res (\<lambda>(slug, pattern, normalizer) facts.
           rbind (collectIdentifierFacts subject rawText slug ''string'' ''regex:identifiers-v1'' pattern (Some normalizer))
             (\<lambda>more. Ok (facts @ more)))
         (identifier_calls U) [])"

subsection \<open>Money\<close>

definition moneyPattern :: regexp where
  "moneyPattern = Seq
     [Choice [LitI ''USD'', Cat (LitI ''US'') (Lit ''$''), Lit ''$''], Star Space,
      Group 1 (Alt
        (Seq [Between 1 3 Digit, Star (Cat (Lit '','') (Times 3 Digit)), Opt (Cat (Lit ''.'') (Plus Digit))])
        (Cat (Plus Digit) (Opt (Cat (Lit ''.'') (Plus Digit))))),
      Opt (Cat (Star Space) (Group 2
        (Choice (map LitI [''BILLION'', ''MILLION'', ''THOUSAND'', ''BN'', ''B'', ''M'', ''K''])))),
      WordB]"

text \<open>\<open>strconv.ParseFloat\<close> on digits with an optional fraction, all that the first group of the pattern
  can hold once its commas are gone; \<open>None\<close> is an error.\<close>

definition ParseFloat :: "string \<Rightarrow> rat option" where
  "ParseFloat s =
     (let w = takeWhile is_digit_char s; r = dropWhile is_digit_char s; f = tl r
      in if w = [] \<or> (r \<noteq> [] \<and> (hd r \<noteq> CHR ''.'' \<or> f = [] \<or> \<not> list_all is_digit_char f)) then None
         else float64 (of_int (decimal 0 (w @ f)) / 10 ^ length f))"

definition to_int64 :: "(rat \<Rightarrow> int) \<Rightarrow> rat \<Rightarrow> int" where
  "to_int64 conv x = (if \<bar>x\<bar> < 2 ^ 63 then \<lfloor>x\<rfloor> else conv x)"

definition suffix_multiplier :: "string \<Rightarrow> rat" where
  "suffix_multiplier s =
     (if s \<in> {''K'', ''THOUSAND''} then 1000
      else if s \<in> {''M'', ''MILLION''} then 1000000
      else if s \<in> {''B'', ''BN'', ''BILLION''} then 1000000000
      else 1)"

definition normalizeUSDAmount :: "unicode_tables \<Rightarrow> (rat \<Rightarrow> int) \<Rightarrow> string \<Rightarrow> string \<Rightarrow> string" where
  "normalizeUSDAmount U conv amount suffix =
     (let normalized = replace_all '','' [] (trim_space amount)
      in case ParseFloat normalized of
           None \<Rightarrow> normalized
         | Some x \<Rightarrow>
           (case float64 (x * suffix_multiplier (to_upper U (trim_space suffix))) of
              None \<Rightarrow> ''+Inf''
            | Some v \<Rightarrow> if v = of_int \<lfloor>v\<rfloor> then itoa (to_int64 conv v) else FormatFloat v))"

definition money_fact :: "unicode_tables \<Rightarrow> (rat \<Rightarrow> int) \<Rightarrow> string \<Rightarrow> string \<Rightarrow> submatch
    \<Rightarrow> ExtractedFact list \<Rightarrow> ExtractedFact list result" where
  "money_fact U conv subject rawText m facts =
     (case m_group m 1 of
        None \<Rightarrow> Err panic_slice
      | Some (amountStart, amountEnd) \<Rightarrow>
        (let amount = slice amountStart amountEnd rawText;
             suffix = (case m_group m 2 of None \<Rightarrow> [] | Some (s, e) \<Rightarrow> slice s e rawText)
         in Ok (facts @ [mk_fact subject ''usd_amount'' (normalizeUSDAmount U conv amount suffix) ''number''
                          ''regex:money-v1'' rawText (m_start m) (m_end m)])))"

definition MoneyExtractor :: "unicode_tables \<Rightarrow> (rat \<Rightarrow> int) \<Rightarrow> extractor" where
  "MoneyExtractor U conv source rawText =
     fold_res (money_fact U conv (sourceLabel source) rawText) (FindAllStringSubmatchIndex moneyPattern rawText) []"

subsection \<open>Dates\<close>

definition rfc3339DatePattern :: regexp where
  "rfc3339DatePattern = Seq [WordB, Times 4 Digit, Lit ''-'', Times 2 Digit, Lit ''-'', Times 2 Digit, Lit ''T'',
     Times 2 Digit, Lit '':'', Times 2 Digit, Lit '':'', Times 2 Digit,
     Alt (Lit ''Z'') (Seq [Rune (one_of ''+-''), Times 2 Digit, Lit '':'', Times 2 Digit]), WordB]"

definition isoDatePattern :: regexp where
  "isoDatePattern = Seq [WordB, Times 4 Digit, Lit ''-'', Times 2 Digit, Lit ''-'', Times 2 Digit, WordB]"

definition month_names :: regexp where
  "month_names = Choice (map Lit longMonthNames)"

definition monthDayYearPattern :: regexp where
  "monthDayYearPattern = Seq [WordB, month_names, Lit '' '', Between 1 2 Digit, Lit '', '', Times 4 Digit, WordB]"

definition dayMonthYearPattern :: regexp where
  "dayMonthYearPattern = Seq [WordB, Between 1 2 Digit, Lit '' '', month_names, Lit '' '', Times 4 Digit, WordB]"

definition normalizeRFC3339Date :: "string \<Rightarrow> string option" where
  "normalizeRFC3339Date s = map_option (format_rfc3339 \<circ> to_utc) (parse_time RFC3339 s)"

definition normalizeISODate :: "string \<Rightarrow> string option" where
  "normalizeISODate s = map_option format_iso (parse_time layout_iso s)"

definition normalizeMonthDayYearDate :: "string \<Rightarrow> string option" where
  "normalizeMonthDayYearDate s = map_option format_iso (parse_time layout_mdy s)"

definition normalizeDayMonthYearDate :: "string \<Rightarrow> string option" where
  "normalizeDayMonthYearDate s =
     (if CHR '','' \<in> set s then None else map_option format_iso (parse_time layout_dmy s))"

definition overlapsExistingDateFact :: "string \<Rightarrow> ExtractedFact list \<Rightarrow> nat \<Rightarrow> nat \<Rightarrow> bool" where
  "overlapsExistingDateFact rawText facts s e =
     (let runeStart = byteOffsetToCharOffset rawText (int s); runeEnd = byteOffsetToCharOffset rawText (int e)
      in list_ex (\<lambda>f. runeStart < ExcerptOffsetEnd f \<and> runeEnd > ExcerptOffsetStart f) facts)"

definition date_match :: "string \<Rightarrow> string \<Rightarrow> string \<Rightarrow> (string \<Rightarrow> string option) \<Rightarrow> submatch
    \<Rightarrow> ExtractedFact list \<Rightarrow> ExtractedFact list" where
  "date_match subject rawText method normalizer m facts =
     (let s = m_start m; e = m_end m
      in case normalizer (slice s e rawText) of
           None \<Rightarrow> facts
         | Some val \<Rightarrow>
           if overlapsExistingDateFact rawText facts s e then facts
           else facts @ [mk_fact subject ''date'' val ''date'' method rawText s e])"

definition appendDateFacts :: "ExtractedFact list \<Rightarrow> string \<Rightarrow> string \<Rightarrow> string \<Rightarrow> regexp
    \<Rightarrow> (string \<Rightarrow> string option) \<Rightarrow> ExtractedFact list" where
  "appendDateFacts facts subject rawText method pattern normalizer =
     fold (date_match subject rawText method normalizer) (FindAllStringSubmatchIndex pattern rawText) facts"

definition DateExtractor :: extractor where
  "DateExtractor source rawText =
     (let subject = sourceLabel source;
          facts1 = appendDateFacts [] subject rawText ''regex:dates-v1'' rfc3339DatePattern normalizeRFC3339Date;
          facts2 = appendDateFacts facts1 subject rawText ''regex:dates-v1'' monthDayYearPattern normalizeMonthDayYearDate;
          facts3 = appendDateFacts facts2 subject rawText ''regex:dates-v1'' dayMonthYearPattern normalizeDayMonthYearDate
      in Ok (appendDateFacts facts3 subject rawText ''regex:dates-v1'' isoDatePattern normalizeISODate))"

subsection \<open>The gazetteer\<close>

record gazetteerEntry =
  gz_Canonical :: string
  gz_Aliases :: "string list"
  gz_PropertySlug :: string
  gz_ValueType :: string

definition defaultGazetteerEntries :: "gazetteerEntry list" where
  "defaultGazetteerEntries =
     [\<lparr>gz_Canonical = ''Apple Inc.'', gz_Aliases = [''Apple''],
       gz_PropertySlug = ''org_name'', gz_ValueType = ''string''\<rparr>,
      \<lparr>gz_Canonical = ''Microsoft Corporation'', gz_Aliases = [''Microsoft'', ''MSFT''],
       gz_PropertySlug = ''org_name'', gz_ValueType = ''string''\<rparr>,
      \<lparr>gz_Canonical = ''Kamala Harris'', gz_Aliases = [''Sen. Harris'', ''Vice President Harris''],
       gz_PropertySlug = ''person_name'', gz_ValueType = ''string''\<rparr>,
      \<lparr>gz_Canonical = ''Joe Biden'', gz_Aliases = [''President Biden'', ''Biden''],
       gz_PropertySlug = ''person_name'', gz_ValueType = ''string''\<rparr>]"

text \<open>\<open>utf8.DecodeLastRuneInString\<close>: back over at most three continuation bytes, and forth again.\<close>

definition decode_last_rune :: "string \<Rightarrow> rune" where
  "decode_last_rune s =
     (let e = length s
      in if s = [] then rune_error
         else if byte (last s) < 128 then byte (last s)
         else (case filter (\<lambda>i. \<not> cont_byte (s ! i)) (filter (\<lambda>i. e \<le> i + 4) (rev [0..<e - 1])) of
             [] \<Rightarrow> rune_error
           | i # _ \<Rightarrow> if i + snd (decode_rune (drop i s)) = e then fst (decode_rune (drop i s)) else rune_error))"

definition hasWordBoundaries :: "unicode_tables \<Rightarrow> string \<Rightarrow> nat \<Rightarrow> nat \<Rightarrow> bool result" where
  "hasWordBoundaries U rawText s e =
     (if length rawText < s then Err panic_slice
      else
        (let prev = decode_last_rune (take s rawText); nxt = fst (decode_rune (drop e rawText))
         in Ok (\<not> (0 < s \<and> (is_letter U prev \<or> is_digit U prev))
                \<and> \<not> (e < length rawText \<and> (is_letter U nxt \<or> is_digit U nxt)))))"

definition gazetteerFactOverlaps :: "string \<Rightarrow> ExtractedFact list \<Rightarrow> nat \<Rightarrow> nat \<Rightarrow> bool" where
  "gazetteerFactOverlaps rawText facts s e =
     (let runeStart = byteOffsetToCharOffset rawText (int s); runeEnd = byteOffsetToCharOffset rawText (int e)
      in list_ex (\<lambda>f. runeStart < ExcerptOffsetEnd f \<and> runeEnd > ExcerptOffsetStart f) facts)"

text \<open>One found phrase, at \<open>[s, e)\<close> of the text.\<close>

definition gazetteer_hit :: "unicode_tables \<Rightarrow> string \<Rightarrow> string \<Rightarrow> gazetteerEntry \<Rightarrow> nat \<Rightarrow> nat
    \<Rightarrow> ExtractedFact list \<Rightarrow> ExtractedFact list result" where
  "gazetteer_hit U subject rawText entry s e facts =
     rbind (hasWordBoundaries U rawText s e) (\<lambda>bounded.
       if bounded \<and> \<not> gazetteerFactOverlaps rawText facts s e
       then (if length rawText < e then Err panic_slice
             else Ok (facts @ [mk_fact subject (gz_PropertySlug entry) (gz_Canonical entry) (gz_ValueType entry)
                                ''gazetteer:v1'' rawText s e]))
       else Ok facts)"

text \<open>The loop over the places of one phrase. The index found in the lower-cased rest of the text is used
  as an index into the text itself. (An empty phrase, which is in no entry, would loop for ever in Go.)\<close>

function phrase_loop :: "unicode_tables \<Rightarrow> string \<Rightarrow> string \<Rightarrow> gazetteerEntry \<Rightarrow> string \<Rightarrow> nat
    \<Rightarrow> ExtractedFact list \<Rightarrow> ExtractedFact list result" where
  "phrase_loop U subject rawText entry phrase searchFrom facts =
     (if length rawText < searchFrom then Err panic_slice
      else if phrase = [] then Ok facts
      else (case str_index (to_lower U phrase) (to_lower U (drop searchFrom rawText)) of
          None \<Rightarrow> Ok facts
        | Some idx \<Rightarrow>
          (case gazetteer_hit U subject rawText entry (searchFrom + idx) (searchFrom + idx + length phrase) facts of
             Inl err \<Rightarrow> Inl err
           | Inr facts' \<Rightarrow>
             phrase_loop U subject rawText entry phrase (searchFrom + idx + length phrase) facts')))"
  by pat_completeness auto
termination
  by (relation "measure (\<lambda>(U, subject, rawText, entry, phrase, searchFrom, facts). Suc (length rawText) - searchFrom)")
    (auto simp flip: length_greater_0_conv)

declare phrase_loop.simps [simp del]

definition appendGazetteerFacts :: "unicode_tables \<Rightarrow> string \<Rightarrow> string \<Rightarrow> gazetteerEntry
    \<Rightarrow> ExtractedFact list \<Rightarrow> ExtractedFact list result" where
  "appendGazetteerFacts U subject rawText entry facts =
     fold_res (\<lambda>phrase. phrase_loop U subject rawText entry phrase 0) (gz_Canonical entry # gz_Aliases entry) facts"

definition GazetteerExtractor :: "unicode_tables \<Rightarrow> extractor" where
  "GazetteerExtractor U source rawText =
     fold_res (appendGazetteerFacts U (sourceLabel source) rawText) defaultGazetteerEntries []"

subsection \<open>The runner\<close>

text \<open>An extractor with the name of its Go type, which error messages carry.\<close>

record Runner =
  r_IdentifierExtractor :: "(string \<times> extractor) option"
  r_MoneyExtractor :: "(string \<times> extractor) option"
  r_DateExtractor :: "(string \<times> extractor) option"
  r_GazetteerExtractor :: "(string \<times> extractor) option"

definition NewRunner :: "unicode_tables \<Rightarrow> (rat \<Rightarrow> int) \<Rightarrow> Runner" where
  "NewRunner U conv =
     \<lparr>r_IdentifierExtractor = Some (''deterministic.IdentifierExtractor'', IdentifierExtractor U),
      r_MoneyExtractor = Some (''deterministic.MoneyExtractor'', MoneyExtractor U conv),
      r_DateExtractor = Some (''deterministic.DateExtractor'', DateExtractor),
      r_GazetteerExtractor = Some (''deterministic.GazetteerExtractor'', GazetteerExtractor U)\<rparr>"

definition factKey :: "ExtractedFact \<Rightarrow> string" where
  "factKey f = join [char_of (31::int)]
     [SubjectText f, PropertySlug f, FactValue f, ValueType f, Excerpt f,
      itoa (ExcerptOffsetStart f), itoa (ExcerptOffsetEnd f), ExtractionMethod f]"

definition add_fact :: "ExtractedFact \<Rightarrow> string set \<times> ExtractedFact list \<Rightarrow> string set \<times> ExtractedFact list" where
  "add_fact fct = (\<lambda>(seen, out).
     let key = factKey fct in if key \<in> seen then (seen, out) else (insert key seen, out @ [fct]))"

text \<open>A panic is not an error that the loop could wrap.\<close>

definition wrap_error :: "string \<Rightarrow> string \<Rightarrow> string" where
  "wrap_error ty e = (if e = panic_slice then e else ty @ '': '' @ e)"

definition run_extractor :: "source_row option \<Rightarrow> string \<Rightarrow> string \<times> extractor
    \<Rightarrow> string set \<times> ExtractedFact list \<Rightarrow> (string set \<times> ExtractedFact list) result" where
  "run_extractor source rawText = (\<lambda>(ty, ex) st.
     case ex source rawText of
       Inl e \<Rightarrow> Err (wrap_error ty e)
     | Inr facts \<Rightarrow> Ok (fold add_fact facts st))"

definition or_default :: "'a option \<Rightarrow> 'a option \<Rightarrow> 'a" where
  "or_default x d = (case x of Some v \<Rightarrow> v | None \<Rightarrow> the d)"

definition runner_pipeline :: "unicode_tables \<Rightarrow> (rat \<Rightarrow> int) \<Rightarrow> Runner \<Rightarrow> (string \<times> extractor) list" where
  "runner_pipeline U conv r =
     (let defaultRunner = NewRunner U conv
      in [or_default (r_IdentifierExtractor r) (r_IdentifierExtractor defaultRunner),
          or_default (r_MoneyExtractor r) (r_MoneyExtractor defaultRunner),
          or_default (r_DateExtractor r) (r_DateExtractor defaultRunner),
          or_default (r_GazetteerExtractor r) (r_GazetteerExtractor defaultRunner)])"

definition Runner_Extract :: "unicode_tables \<Rightarrow> (rat \<Rightarrow> int) \<Rightarrow> Runner \<Rightarrow> extractor" where
  "Runner_Extract U conv r source rawText =
     map_sum id snd (fold_res (run_extractor source rawText) (runner_pipeline U conv r) ({}, []))"

text \<open>The extractor that the fact pipeline falls back on.\<close>

definition default_extractor :: "unicode_tables \<Rightarrow> (rat \<Rightarrow> int) \<Rightarrow> source_row \<Rightarrow> string \<Rightarrow> ExtractedFact list result" where
  "default_extractor U conv source rawText = Runner_Extract U conv (NewRunner U conv) (Some source) rawText"

end
