(* ===== verification/PatternLemmas.thy ===== *)
theory PatternLemmas
  imports Extractors
begin

text \<open>
  What the patterns of the extractors guarantee of their matches: none is empty, each identifier and each
  amount closes its group, the range of every match is a range of whole runes, and the fact made from it
  passes the excerpt check.
\<close>

subsection \<open>Matches are not empty\<close>

primrec min_len :: "regexp \<Rightarrow> nat" where
  "min_len Eps = 0"
| "min_len (Rune p) = 1"
| "min_len WordB = 0"
| "min_len (Cat r s) = min_len r + min_len s"
| "min_len (Alt r s) = min (min_len r) (min_len s)"
| "min_len (Star r) = 0"
| "min_len (Group k r) = min_len r"

lemma derives_min_len: "derives ts r i j \<Longrightarrow> i + min_len r \<le> j"
  by (induction rule: derives.induct) auto

lemma not_derives_empty: "0 < min_len r \<Longrightarrow> \<not> derives ts r j j"
  using derives_min_len [of ts r j j] by auto

lemmas pattern_defs = cikPattern_def cusipPattern_def isinPattern_def doiPattern_def nctPattern_def
  isbn13Pattern_def moneyPattern_def rfc3339DatePattern_def isoDatePattern_def monthDayYearPattern_def
  dayMonthYearPattern_def month_names_def longMonthNames_def Opt_def Plus_def Between_def Digit_def Space_def
  Lit_def LitI_def numeral_eq_Suc

lemma identifier_patterns:
  "(slug, r, f) \<in> set (identifier_calls U) \<Longrightarrow> 0 < min_len r \<and> sets_group 1 r"
  by (auto simp: identifier_calls_def pattern_defs)

lemma money_pattern: "0 < min_len moneyPattern" "sets_group 1 moneyPattern"
  by (simp_all add: pattern_defs)

lemma date_patterns:
  "0 < min_len rfc3339DatePattern" "0 < min_len isoDatePattern" "0 < min_len monthDayYearPattern"
  "0 < min_len dayMonthYearPattern"
  by (simp_all add: pattern_defs)

subsection \<open>Byte ranges of matches\<close>

lemma length_runes: "length (runes s) = rune_count s"
  by (simp add: runes_def rune_count_def)

lemma submatch_ok:
  assumes "m \<in> set (FindAllStringSubmatchIndex r s)"
  obtains a b c where "m = to_bytes s (a, b, c)" "match_ok (runes s) r (a, b, c)" "a \<le> b" "b \<le> rune_count s"
proof -
  from assms obtain a b c where m: "m = to_bytes s (a, b, c)" "(a, b, c) \<in> set (all_matches (runes s) r 0 None)"
    by (auto simp: FindAllStringSubmatchIndex_def)
  have "match_ok (runes s) r (a, b, c)" using all_matches_ok [OF m(2)] by simp
  then show ?thesis using that m(1) match_ok_le [of "runes s" r a b c] by (auto simp: match_ok_def length_runes)
qed

lemma submatch_group: "m \<in> set (FindAllStringSubmatchIndex r s) \<Longrightarrow> sets_group k r \<Longrightarrow> m_group m k \<noteq> None"
  by (erule submatch_ok) (auto simp: to_bytes_def match_ok_def map_of_eq_None_iff)

definition verified :: "string \<Rightarrow> ExtractedFact \<Rightarrow> bool" where
  "verified rawText f \<longleftrightarrow> VerifyExcerptOffset rawText (Excerpt f) (ExcerptOffsetStart f) (ExcerptOffsetEnd f)"

lemma mk_fact_offsets:
  "a \<le> rune_count s \<Longrightarrow> ExcerptOffsetStart (mk_fact su sl v vt me s (boundary s a) e) = int a"
  "b \<le> rune_count s \<Longrightarrow> ExcerptOffsetEnd (mk_fact su sl v vt me s e (boundary s b)) = int b"
  by (simp_all add: mk_fact_def byteOffsetToCharOffset_boundary)

lemma mk_fact_verified:
  "a < b \<Longrightarrow> b \<le> rune_count s \<Longrightarrow> verified s (mk_fact su sl v vt me s (boundary s a) (boundary s b))"
  using byte_range_fact_verifies [of a b s] by (simp add: verified_def mk_fact_def)

lemma submatch_verified:
  assumes "m \<in> set (FindAllStringSubmatchIndex r s)" and "0 < min_len r"
  shows "verified s (mk_fact su sl v vt me s (m_start m) (m_end m))"
  using assms(1)
proof (rule submatch_ok)
  fix a b c
  assume m: "m = to_bytes s (a, b, c)" "match_ok (runes s) r (a, b, c)" "b \<le> rune_count s"
  then have "a + min_len r \<le> b" using derives_min_len by (auto simp: match_ok_def)
  then show ?thesis using m assms(2) mk_fact_verified [of a b s] by (simp add: to_bytes_def)
qed

text \<open>A place where the pattern matches lies in the range of a reported match.\<close>

lemma submatch_complete:
  assumes "0 < min_len r" and "derives (runes s) r i e" and "i \<le> rune_count s"
  shows "\<exists>m \<in> set (FindAllStringSubmatchIndex r s). \<exists>a b.
    m_start m = boundary s a \<and> m_end m = boundary s b \<and> b \<le> rune_count s \<and> a \<le> i \<and> i < b"
proof -
  obtain a b c where m: "(a, b, c) \<in> set (all_matches (runes s) r 0 None)" "a \<le> i" "i < b"
    using all_matches_complete [of "runes s" r i e 0 None] not_derives_empty [OF assms(1)] assms(2,3)
    by (auto simp: length_runes)
  have "b \<le> rune_count s" using all_matches_ok [OF m(1)] by (simp add: match_ok_def length_runes)
  moreover have "to_bytes s (a, b, c) \<in> set (FindAllStringSubmatchIndex r s)"
    using m(1) by (simp add: FindAllStringSubmatchIndex_def)
  moreover have "m_start (to_bytes s (a, b, c)) = boundary s a" "m_end (to_bytes s (a, b, c)) = boundary s b"
    by (simp_all add: to_bytes_def)
  ultimately show ?thesis using m(2,3) by blast
qed

subsection \<open>Loops that append\<close>

lemma fold_res_append_map:
  assumes "\<And>x ys. x \<in> set xs \<Longrightarrow> f x ys = Inr (ys @ g x)"
  shows "fold_res f xs ys = Inr (ys @ concat (map g xs))"
  using assms by (induction xs arbitrary: ys) simp_all

definition identifier_facts :: "string \<Rightarrow> string \<Rightarrow> string \<times> regexp \<times> (string \<Rightarrow> string) \<Rightarrow> ExtractedFact list" where
  "identifier_facts subject rawText = (\<lambda>(slug, r, f).
     map (\<lambda>m. mk_fact subject slug (f (slice (fst (the (m_group m 1))) (snd (the (m_group m 1))) rawText)) ''string''
            ''regex:identifiers-v1'' rawText (m_start m) (m_end m))
       (FindAllStringSubmatchIndex r rawText))"

lemma collect_identifiers:
  assumes "sets_group 1 r"
  shows "collectIdentifierFacts subject rawText slug ''string'' ''regex:identifiers-v1'' r (Some f)
    = Inr (identifier_facts subject rawText (slug, r, f))"
proof -
  let ?g = "\<lambda>m. [mk_fact subject slug (f (slice (fst (the (m_group m 1))) (snd (the (m_group m 1))) rawText)) ''string''
            ''regex:identifiers-v1'' rawText (m_start m) (m_end m)]"
  have step: "identifier_fact subject rawText slug ''string'' ''regex:identifiers-v1'' (Some f) m ys = Inr (ys @ ?g m)"
    if "m \<in> set (FindAllStringSubmatchIndex r rawText)" for m ys
    using submatch_group [OF that assms] by (auto simp: identifier_fact_def)
  have "collectIdentifierFacts subject rawText slug ''string'' ''regex:identifiers-v1'' r (Some f)
      = Inr ([] @ concat (map ?g (FindAllStringSubmatchIndex r rawText)))"
    unfolding collectIdentifierFacts_def by (rule fold_res_append_map) (rule step)
  then show ?thesis by (simp add: identifier_facts_def)
qed

lemma IdentifierExtractor_eq:
  "IdentifierExtractor U source rawText
    = Inr (concat (map (identifier_facts (sourceLabel source) rawText) (identifier_calls U)))"
proof -
  let ?step = "\<lambda>(slug, r, f) facts. rbind (collectIdentifierFacts (sourceLabel source) rawText slug ''string''
            ''regex:identifiers-v1'' r (Some f)) (\<lambda>more. Ok (facts @ more))"
  have step: "?step x ys = Inr (ys @ identifier_facts (sourceLabel source) rawText x)"
    if "x \<in> set (identifier_calls U)" for x ys
    using identifier_patterns that by (cases x) (auto simp: collect_identifiers)
  have "fold_res ?step (identifier_calls U) []
      = Inr ([] @ concat (map (identifier_facts (sourceLabel source) rawText) (identifier_calls U)))"
    by (rule fold_res_append_map) (rule step)
  then show ?thesis by (simp add: IdentifierExtractor_def Let_def)
qed

definition money_facts :: "unicode_tables \<Rightarrow> (rat \<Rightarrow> int) \<Rightarrow> string \<Rightarrow> string \<Rightarrow> ExtractedFact list" where
  "money_facts U conv subject rawText = map (\<lambda>m. mk_fact subject ''usd_amount''
       (normalizeUSDAmount U conv (slice (fst (the (m_group m 1))) (snd (the (m_group m 1))) rawText)
          (case m_group m 2 of None \<Rightarrow> [] | Some (s, e) \<Rightarrow> slice s e rawText)) ''number''
       ''regex:money-v1'' rawText (m_start m) (m_end m))
     (FindAllStringSubmatchIndex moneyPattern rawText)"

lemma MoneyExtractor_eq: "MoneyExtractor U conv source rawText = Inr (money_facts U conv (sourceLabel source) rawText)"
proof -
  let ?g = "\<lambda>m. [mk_fact (sourceLabel source) ''usd_amount''
       (normalizeUSDAmount U conv (slice (fst (the (m_group m 1))) (snd (the (m_group m 1))) rawText)
          (case m_group m 2 of None \<Rightarrow> [] | Some (s, e) \<Rightarrow> slice s e rawText)) ''number''
       ''regex:money-v1'' rawText (m_start m) (m_end m)]"
  have step: "money_fact U conv (sourceLabel source) rawText m ys = Inr (ys @ ?g m)"
    if "m \<in> set (FindAllStringSubmatchIndex moneyPattern rawText)" for m ys
    using submatch_group [OF that money_pattern(2)] by (auto simp: money_fact_def)
  have "MoneyExtractor U conv source rawText
      = Inr ([] @ concat (map ?g (FindAllStringSubmatchIndex moneyPattern rawText)))"
    unfolding MoneyExtractor_def by (rule fold_res_append_map) (rule step)
  then show ?thesis by (simp add: money_facts_def)
qed

lemma identifier_facts_verified:
  "x \<in> set (identifier_calls U) \<Longrightarrow> list_all (verified rawText) (identifier_facts subject rawText x)"
  using identifier_patterns
  by (cases x) (auto simp: identifier_facts_def list_all_iff intro!: submatch_verified)

lemma money_facts_verified: "list_all (verified rawText) (money_facts U conv subject rawText)"
  using money_pattern by (auto simp: money_facts_def list_all_iff intro!: submatch_verified)

subsection \<open>Dates\<close>

definition disjoint_facts :: "ExtractedFact \<Rightarrow> ExtractedFact \<Rightarrow> bool" where
  "disjoint_facts f g \<longleftrightarrow> ExcerptOffsetEnd f \<le> ExcerptOffsetStart g \<or> ExcerptOffsetEnd g \<le> ExcerptOffsetStart f"

definition good_dates :: "string \<Rightarrow> ExtractedFact list \<Rightarrow> bool" where
  "good_dates rawText facts \<longleftrightarrow> list_all (verified rawText) facts \<and> sorted_wrt disjoint_facts facts"

lemma overlap_disjoint:
  "\<not> overlapsExistingDateFact rawText facts s e \<Longrightarrow> f \<in> set facts \<Longrightarrow> disjoint_facts f (mk_fact su sl v vt me rawText s e)"
  by (auto simp: overlapsExistingDateFact_def list_ex_iff disjoint_facts_def mk_fact_def Let_def not_less)

lemma date_match_good:
  assumes "good_dates rawText facts" and "m \<in> set (FindAllStringSubmatchIndex r rawText)" and "0 < min_len r"
  shows "good_dates rawText (date_match subject rawText method f m facts)"
  using assms submatch_verified [OF assms(2,3)] overlap_disjoint [of rawText facts]
  by (auto simp: date_match_def good_dates_def Let_def sorted_wrt_append split: option.splits)

lemma append_dates_good:
  assumes "good_dates rawText facts" and "0 < min_len r"
  shows "good_dates rawText (appendDateFacts facts subject rawText method r f)"
proof -
  have "good_dates rawText (fold (date_match subject rawText method f) ms facts)"
    if "set ms \<subseteq> set (FindAllStringSubmatchIndex r rawText)" for ms
    using that assms(1) by (induction ms arbitrary: facts) (simp_all add: date_match_good [where r = r] assms(2))
  then show ?thesis by (simp add: appendDateFacts_def)
qed

lemma DateExtractor_good: "\<exists>facts. DateExtractor source rawText = Inr facts \<and> good_dates rawText facts"
proof -
  have "good_dates rawText []" by (simp add: good_dates_def)
  then show ?thesis
    unfolding DateExtractor_def Let_def by (auto intro!: append_dates_good date_patterns)
qed

end
