(* ===== verification/ExtractorProps.thy ===== *)
theory ExtractorProps
  imports PatternLemmas
begin

text \<open>
  The extractors as a whole: where the gazetteer finds a name, what the runner returns, and the properties
  of the four extractors. \<open>keeps_width\<close> is the condition on a text under which an offset into its
  lower-cased form is an offset into the text itself, which the gazetteer takes for granted.
\<close>

subsection \<open>Offsets into the lower-cased text\<close>

definition keeps_width :: "unicode_tables \<Rightarrow> string \<Rightarrow> bool" where
  "keeps_width U s \<longleftrightarrow> (\<forall>c \<in> set (chunks s). length (encode_rune (rune_lower U (chunk_rune c))) = length c)"

definition ascii_blocks :: "string list \<Rightarrow> bool" where
  "ascii_blocks ds \<longleftrightarrow>
     (\<forall>d \<in> set ds. (\<exists>c. d = [c] \<and> byte c < 128) \<or> (d \<noteq> [] \<and> (\<forall>c \<in> set d. 128 \<le> byte c)))"

lemma encode_block: "ascii_blocks [encode_rune r]"
proof (cases "0 \<le> r \<and> r < 128")
  case True
  then show ?thesis by (simp add: ascii_blocks_def encode_rune_def byte_char_of)
next
  case False
  have "encode_rune r \<noteq> []" by (simp add: encode_rune_def)
  moreover have "128 \<le> byte c" if "c \<in> set (encode_rune r)" for c
    using encode_rune_ascii [OF that] byte_bounds [of c] False by auto
  ultimately show ?thesis by (simp add: ascii_blocks_def)
qed

text \<open>An ASCII byte in a list of blocks is a block.\<close>

lemma block_start:
  assumes "ascii_blocks ds" and "i < length (concat ds)" and "byte (concat ds ! i) < 128"
  shows "\<exists>j < length ds. length (concat (take j ds)) = i \<and> length (ds ! j) = 1"
  using assms
proof (induction ds arbitrary: i)
  case Nil
  then show ?case by simp
next
  case (Cons d ds)
  show ?case
  proof (cases "i < length d")
    case True
    then have "byte (d ! i) < 128" using Cons.prems(3) by (simp add: nth_append)
    moreover have "d ! i \<in> set d" using True by simp
    moreover have "(\<exists>c. d = [c]) \<or> (\<forall>c \<in> set d. 128 \<le> byte c)" using Cons.prems(1) by (auto simp: ascii_blocks_def)
    ultimately obtain c where "d = [c]" by (metis not_less)
    then show ?thesis using True by (intro exI [of _ 0]) simp
  next
    case False
    then have "i - length d < length (concat ds)" "byte (concat ds ! (i - length d)) < 128"
      using Cons.prems by (auto simp: nth_append)
    moreover have "ascii_blocks ds" using Cons.prems(1) by (simp add: ascii_blocks_def)
    ultimately obtain j where "j < length ds" "length (concat (take j ds)) = i - length d" "length (ds ! j) = 1"
      using Cons.IH by blast
    then show ?thesis using False by (intro exI [of _ "Suc j"]) simp
  qed
qed

definition lower_chunk :: "unicode_tables \<Rightarrow> string \<Rightarrow> string" where
  "lower_chunk U c = encode_rune (rune_lower U (chunk_rune c))"

lemma to_lower_blocks: "to_lower U s = concat (map (lower_chunk U) (chunks s))"
  by (simp add: to_lower_def map_runes_def runes_def lower_chunk_def [abs_def] comp_def)

lemma lower_blocks: "ascii_blocks (map (lower_chunk U) cs)"
  using encode_block by (auto simp: ascii_blocks_def lower_chunk_def)

lemma lower_ascii: "is_ascii p \<Longrightarrow> is_ascii (to_lower U p) \<and> length (to_lower U p) = length p"
proof (induction p)
  case Nil
  then show ?case by (simp add: to_lower_def)
next
  case (Cons c p)
  then have c: "0 \<le> byte c" "byte c < 128" using byte_bounds [of c] by auto
  then have "0 \<le> rune_lower U (byte c) \<and> rune_lower U (byte c) < 128" by (simp add: rune_lower_def)
  then have "length (encode_rune (rune_lower U (byte c))) = 1 \<and> is_ascii (encode_rune (rune_lower U (byte c)))"
    by (simp add: encode_rune_def byte_char_of)
  then show ?case using Cons c by (simp add: to_lower_def map_runes_ascii_Cons)
qed

lemma lower_widths:
  assumes "keeps_width U s"
  shows "length (concat (take j (map (lower_chunk U) (drop n (chunks s))))) = length (concat (take j (drop n (chunks s))))"
proof -
  have "length (concat (map (lower_chunk U) cs)) = length (concat cs)" if "set cs \<subseteq> set (chunks s)" for cs
    using that assms by (induction cs) (auto simp: keeps_width_def lower_chunk_def)
  moreover have "set (take j (drop n (chunks s))) \<subseteq> set (chunks s)"
    by (meson set_drop_subset set_take_subset subset_trans)
  ultimately show ?thesis by (simp add: take_map)
qed

lemma boundary_add: "boundary s (n + j) = boundary s n + length (concat (take j (drop n (chunks s))))"
  by (simp add: boundary_def take_add)

lemma boundary_drop: "chunks (drop (boundary s n) s) = drop n (chunks s)"
proof -
  have "drop (boundary s n) s = concat (drop n (chunks s))"
    using concat_take_drop [of "chunks s" n] unfolding boundary_def by (metis append_eq_conv_conj concat_chunks)
  then show ?thesis by (simp add: chunks_drop_boundary)
qed

text \<open>An ASCII phrase found in the lower-cased rest of the text stands at whole runes of the text.\<close>

lemma phrase_place:
  assumes w: "keeps_width U s" and n: "n \<le> rune_count s" and p: "is_ascii p" "p \<noteq> []"
    and idx: "str_index p (to_lower U (drop (boundary s n) s)) = Some idx"
  shows "\<exists>a b. n \<le> a \<and> a < b \<and> b \<le> rune_count s
    \<and> boundary s n + idx = boundary s a \<and> boundary s n + idx + length p = boundary s b"
proof -
  let ?cs = "drop n (chunks s)" and ?t = "to_lower U (drop (boundary s n) s)"
  let ?ds = "map (lower_chunk U) ?cs"
  have t: "?t = concat ?ds" by (simp add: to_lower_blocks boundary_drop)
  note f = str_index_Some [OF idx]
  have lp: "0 < length p" using p(2) by simp
  have ascii: "byte (?t ! (idx + k)) < 128" if "k < length p" for k
  proof -
    have "p ! k = ?t ! (idx + k)" using f that by (metis le_add1 nth_drop nth_take order_trans)
    moreover have "byte (p ! k) < 128" using p(1) that by (simp add: is_ascii_def)
    ultimately show ?thesis by simp
  qed
  have len: "length ?ds = rune_count s - n" by (simp add: rune_count_def)
  have "idx < length ?t" using f lp by linarith
  moreover have "byte (?t ! idx) < 128" using ascii [OF lp] by simp
  ultimately obtain j where j: "j < length ?ds" "length (concat (take j ?ds)) = idx"
    using block_start [OF lower_blocks, of idx U ?cs] unfolding t by blast
  have "idx + (length p - 1) < length ?t" using f lp by linarith
  moreover have "byte (?t ! (idx + (length p - 1))) < 128" by (rule ascii) (use lp in simp)
  ultimately obtain k where k: "k < length ?ds" "length (concat (take k ?ds)) = idx + (length p - 1)" "length (?ds ! k) = 1"
    using block_start [OF lower_blocks, of "idx + (length p - 1)" U ?cs] unfolding t by blast
  have k': "length (concat (take (Suc k) ?ds)) = idx + length p"
    using k lp by (simp add: take_Suc_conv_app_nth)
  have a: "boundary s (n + j) = boundary s n + idx" and b: "boundary s (n + Suc k) = boundary s n + idx + length p"
    using j(2) k' lower_widths [OF w] unfolding boundary_add by simp_all
  have "n + j < n + Suc k"
  proof (rule ccontr)
    assume "\<not> ?thesis"
    then have "boundary s (n + Suc k) \<le> boundary s (n + j)" by (intro boundary_mono) simp
    then show False using a b lp by simp
  qed
  moreover have "n + Suc k \<le> rune_count s" using k(1) len n by simp
  ultimately show ?thesis using a b by (intro exI [of _ "n + j"] exI [of _ "n + Suc k"]) simp
qed

subsection \<open>The gazetteer\<close>

lemma overlaps_same: "gazetteerFactOverlaps = overlapsExistingDateFact"
  by (simp add: fun_eq_iff gazetteerFactOverlaps_def overlapsExistingDateFact_def)

lemma gazetteer_hit_good:
  assumes "good_dates rawText facts" and "a < b" and "b \<le> rune_count rawText"
  shows "\<exists>facts'. gazetteer_hit U subject rawText entry (boundary rawText a) (boundary rawText b) facts = Inr facts'
    \<and> good_dates rawText facts'"
proof -
  let ?f = "mk_fact subject (gz_PropertySlug entry) (gz_Canonical entry) (gz_ValueType entry) ''gazetteer:v1'' rawText
    (boundary rawText a) (boundary rawText b)"
  have "good_dates rawText (facts @ [?f])"
    if "\<not> gazetteerFactOverlaps rawText facts (boundary rawText a) (boundary rawText b)"
    using that assms overlap_disjoint [of rawText facts] mk_fact_verified [OF assms(2,3)]
    by (auto simp: overlaps_same good_dates_def sorted_wrt_append)
  moreover obtain bounded where "hasWordBoundaries U rawText (boundary rawText a) (boundary rawText b) = Inr bounded"
    using boundary_le [of rawText a] by (simp add: hasWordBoundaries_def Let_def not_less)
  moreover have "\<not> length rawText < boundary rawText b" using boundary_le [of rawText b] by simp
  ultimately show ?thesis using assms(1)
    by (cases "bounded \<and> \<not> gazetteerFactOverlaps rawText facts (boundary rawText a) (boundary rawText b)")
      (auto simp: gazetteer_hit_def)
qed

lemma phrase_loop_good:
  assumes "keeps_width U rawText" and "is_ascii phrase"
  shows "good_dates rawText facts \<Longrightarrow> searchFrom = boundary rawText n \<Longrightarrow> n \<le> rune_count rawText
    \<Longrightarrow> \<exists>facts'. phrase_loop U subject rawText entry phrase searchFrom facts = Inr facts' \<and> good_dates rawText facts'"
  using assms
proof (induction U subject rawText entry phrase searchFrom facts arbitrary: n rule: phrase_loop.induct)
  case (1 U subject rawText entry phrase searchFrom facts)
  have l: "\<not> length rawText < searchFrom" using boundary_le 1(3) by (simp add: not_less)
  show ?case
  proof (cases "phrase = [] \<or> str_index (to_lower U phrase) (to_lower U (drop searchFrom rawText)) = None")
    case True
    then show ?thesis using l 1(2) by (subst phrase_loop.simps) auto
  next
    case False
    then obtain idx where ne: "phrase \<noteq> []" and
      idx: "str_index (to_lower U phrase) (to_lower U (drop searchFrom rawText)) = Some idx" by auto
    note low = lower_ascii [OF 1(6), of U]
    have low_ne: "to_lower U phrase \<noteq> []" using low ne by (metis length_0_conv)
    obtain a b where ab: "n \<le> a" "a < b" "b \<le> rune_count rawText" "searchFrom + idx = boundary rawText a"
        "searchFrom + idx + length phrase = boundary rawText b"
      using phrase_place [OF 1(5,4) conjunct1 [OF low] low_ne idx [unfolded 1(3)]] low 1(3) by auto
    obtain facts' where hit: "gazetteer_hit U subject rawText entry (searchFrom + idx) (searchFrom + idx + length phrase) facts
        = Inr facts'" "good_dates rawText facts'"
      using gazetteer_hit_good [OF 1(2) ab(2,3), of U subject entry] ab(4,5) by auto
    then show ?thesis
      using 1(1) [OF l ne idx hit(1) hit(2) ab(5,3) 1(5,6)] l ne idx by (subst phrase_loop.simps) simp
  qed
qed

lemma fold_res_keeps:
  assumes "\<And>x s. x \<in> set xs \<Longrightarrow> P s \<Longrightarrow> \<exists>s'. f x s = Inr s' \<and> P s'"
  shows "P s \<Longrightarrow> \<exists>s'. fold_res f xs s = Inr s' \<and> P s'"
  using assms
proof (induction xs arbitrary: s)
  case (Cons x xs)
  then obtain s1 where "f x s = Inr s1" "P s1" by (metis list.set_intros(1))
  then show ?case using Cons.IH [of s1] Cons.prems(2) by simp
qed simp

lemma gazetteer_phrases_ascii:
  "entry \<in> set defaultGazetteerEntries \<Longrightarrow> phrase \<in> set (gz_Canonical entry # gz_Aliases entry) \<Longrightarrow> is_ascii phrase"
  by (auto simp: defaultGazetteerEntries_def byte_def)

lemma GazetteerExtractor_good:
  assumes "keeps_width U rawText"
  shows "\<exists>facts. GazetteerExtractor U source rawText = Inr facts \<and> good_dates rawText facts"
  unfolding GazetteerExtractor_def
proof (rule fold_res_keeps)
  fix entry facts
  assume e: "entry \<in> set defaultGazetteerEntries" and g: "good_dates rawText facts"
  show "\<exists>s'. appendGazetteerFacts U (sourceLabel source) rawText entry facts = Inr s' \<and> good_dates rawText s'"
    unfolding appendGazetteerFacts_def
  proof (rule fold_res_keeps)
    fix phrase facts
    assume p: "phrase \<in> set (gz_Canonical entry # gz_Aliases entry)" and g: "good_dates rawText facts"
    show "\<exists>s'. phrase_loop U (sourceLabel source) rawText entry phrase 0 facts = Inr s' \<and> good_dates rawText s'"
      using phrase_loop_good [OF assms gazetteer_phrases_ascii [OF e p] g, of 0 0] by simp
  qed (rule g)
qed (simp add: good_dates_def)

subsection \<open>The runner\<close>

lemma fold_add_fact:
  "fold add_fact fs (set seen, out) = (set seen \<union> factKey ` set fs, out @ dedup_by factKey seen fs)"
proof (induction fs arbitrary: seen out)
  case Nil
  then show ?case by simp
next
  case (Cons f fs)
  show ?case
  proof (cases "factKey f \<in> set seen")
    case True
    then have "add_fact f (set seen, out) = (set seen, out)" by (simp add: add_fact_def Let_def)
    then show ?thesis using True Cons.IH by auto
  next
    case False
    then have "add_fact f (set seen, out) = (set (factKey f # seen), out @ [f])" by (simp add: add_fact_def Let_def)
    then show ?thesis using False Cons.IH [of "factKey f # seen" "out @ [f]"] by simp
  qed
qed

text \<open>What the runner is to compute: the ls of all its extractors, or the first error.\<close>

fun all_results :: "('e + 'a) list \<Rightarrow> 'e + 'a list" where
  "all_results [] = Inr []"
| "all_results (Inl e # rs) = Inl e"
| "all_results (Inr x # rs) = map_sum id (Cons x) (all_results rs)"

definition extractor_result :: "source_row option \<Rightarrow> string \<Rightarrow> string \<times> extractor \<Rightarrow> ExtractedFact list result" where
  "extractor_result source rawText = (\<lambda>(ty, ex). map_sum (wrap_error ty) id (ex source rawText))"

lemma run_extractors:
  "fold_res (run_extractor source rawText) exs st
    = (case all_results (map (extractor_result source rawText) exs) of
         Inl e \<Rightarrow> Inl e | Inr ls \<Rightarrow> Inr (fold add_fact (concat ls) st))"
proof (induction exs arbitrary: st)
  case (Cons x exs)
  obtain ty ex where x: "x = (ty, ex)" by (cases x)
  then show ?case using Cons.IH
    by (cases "ex source rawText"; cases "all_results (map (extractor_result source rawText) exs)")
      (simp_all add: run_extractor_def extractor_result_def)
qed simp

lemma runner_result:
  "Runner_Extract U conv r source rawText
    = map_sum id (\<lambda>ls. dedup_by factKey [] (concat ls))
        (all_results (map (extractor_result source rawText) (runner_pipeline U conv r)))"
  using fold_add_fact [of _ "[]" "[]"]
  by (cases "all_results (map (extractor_result source rawText) (runner_pipeline U conv r))")
    (simp_all add: Runner_Extract_def run_extractors)

lemma new_runner_pipeline:
  "runner_pipeline U conv (NewRunner U conv)
    = [(''deterministic.IdentifierExtractor'', IdentifierExtractor U),
       (''deterministic.MoneyExtractor'', MoneyExtractor U conv),
       (''deterministic.DateExtractor'', DateExtractor),
       (''deterministic.GazetteerExtractor'', GazetteerExtractor U)]"
  by (simp add: runner_pipeline_def NewRunner_def or_default_def)

lemma default_extractor_good:
  assumes "keeps_width U rawText"
  shows "\<exists>facts. default_extractor U conv source rawText = Inr facts \<and> list_all (verified rawText) facts"
proof -
  obtain dates where d: "DateExtractor (Some source) rawText = Inr dates" "list_all (verified rawText) dates"
    using DateExtractor_good by (auto simp: good_dates_def)
  obtain names where n: "GazetteerExtractor U (Some source) rawText = Inr names" "list_all (verified rawText) names"
    using GazetteerExtractor_good [OF assms] by (auto simp: good_dates_def)
  let ?ids = "concat (map (identifier_facts (sourceLabel (Some source)) rawText) (identifier_calls U))"
  let ?all = "?ids @ money_facts U conv (sourceLabel (Some source)) rawText @ dates @ names"
  have "default_extractor U conv source rawText = Inr (dedup_by factKey [] ?all)"
    by (simp add: default_extractor_def runner_result new_runner_pipeline extractor_result_def
        IdentifierExtractor_eq MoneyExtractor_eq d(1) n(1))
  moreover have "list_all (verified rawText) ?all"
    using identifier_facts_verified money_facts_verified d(2) n(2) by (fastforce simp: list_all_iff)
  ultimately show ?thesis using set_dedup_by_subset [of factKey "[]" ?all] by (auto simp: list_all_iff)
qed

subsection \<open>Properties\<close>

text \<open>C7. The deterministic extractors and the excerpt check. On a text whose runes keep their width when
  lower-cased, extraction does not fail, and every fact it returns passes the check of the fact pipeline:
  none of them is lost there.\<close>

theorem deterministic_facts_verify:
  assumes "keeps_width U rawText"
  shows "\<exists>facts. default_extractor U conv source rawText = Inr facts
    \<and> list_all (\<lambda>f. VerifyExcerptOffset rawText (Excerpt f) (ExcerptOffsetStart f) (ExcerptOffsetEnd f)) facts"
  using default_extractor_good [OF assms, of conv source] by (simp add: verified_def [abs_def])

definition sample_article :: source_row where
  "sample_article = \<lparr>so_id = 0, so_tenant = 0, so_url = ''u'', so_fetched_at = 0, so_content_hash = [],
     so_raw_html = None, so_raw_text = None, so_archive_url = None, so_publisher = None, so_title = None,
     so_published_at = None, so_embedding = None, so_last_verified_at = None, so_status = ''archived'',
     so_created = 0, so_meta = ''{}''\<rparr>"

theorem deterministic_facts_verify_witness:
  "\<exists>facts. default_extractor ascii_tables (\<lambda>_. 0) sample_article ''MSFT $5'' = Inr facts
    \<and> list_all (\<lambda>f. VerifyExcerptOffset ''MSFT $5'' (Excerpt f) (ExcerptOffsetStart f) (ExcerptOffsetEnd f)) facts"
proof -
  have "keeps_width ascii_tables ''MSFT $5''" unfolding keeps_width_def by code_simp
  then show ?thesis by (rule deterministic_facts_verify)
qed

text \<open>C8. The runner. It returns the facts of its extractors one after the other, each fact once (the first
  of those with equal keys), and the first error of an extractor, under its type's name, if there is one;
  an extractor that is not set is the built-in one.\<close>

theorem runner_is_dedup:
  "Runner_Extract U conv r source rawText
    = map_sum id (\<lambda>ls. dedup_by factKey [] (concat ls))
        (all_results (map (extractor_result source rawText)
          [or_default (r_IdentifierExtractor r) (r_IdentifierExtractor (NewRunner U conv)),
           or_default (r_MoneyExtractor r) (r_MoneyExtractor (NewRunner U conv)),
           or_default (r_DateExtractor r) (r_DateExtractor (NewRunner U conv)),
           or_default (r_GazetteerExtractor r) (r_GazetteerExtractor (NewRunner U conv))]))"
  unfolding runner_result runner_pipeline_def Let_def ..

text \<open>C9. No identifier is missed. The identifier extractor never fails, and wherever one of its patterns
  matches a stretch of the text, a fact of that property is returned whose excerpt covers the place.\<close>

theorem identifiers_complete:
  assumes "(slug, r, f) \<in> set (identifier_calls U)"
    and "derives (runes rawText) r i e" and "i \<le> rune_count rawText"
  shows "\<exists>facts. IdentifierExtractor U source rawText = Inr facts
    \<and> (\<exists>x \<in> set facts. PropertySlug x = slug \<and> ExcerptOffsetStart x \<le> int i \<and> int i < ExcerptOffsetEnd x)"
proof -
  have "0 < min_len r" using identifier_patterns [OF assms(1)] ..
  from submatch_complete [OF this assms(2,3)] obtain m a b where m: "m \<in> set (FindAllStringSubmatchIndex r rawText)"
    "m_start m = boundary rawText a" "m_end m = boundary rawText b" "b \<le> rune_count rawText" "a \<le> i" "i < b" by blast
  let ?x = "mk_fact (sourceLabel source) slug (f (slice (fst (the (m_group m 1))) (snd (the (m_group m 1))) rawText))
    ''string'' ''regex:identifiers-v1'' rawText (m_start m) (m_end m)"
  have "?x \<in> set (identifier_facts (sourceLabel source) rawText (slug, r, f))"
    using m(1) by (auto simp: identifier_facts_def)
  then have "?x \<in> set (concat (map (identifier_facts (sourceLabel source) rawText) (identifier_calls U)))"
    using assms(1) by fastforce
  moreover have "ExcerptOffsetStart ?x = int a" "ExcerptOffsetEnd ?x = int b" "PropertySlug ?x = slug"
    using m byteOffsetToCharOffset_boundary [of a rawText] byteOffsetToCharOffset_boundary [of b rawText]
    by (simp_all add: mk_fact_def)
  ultimately show ?thesis using m(5,6) by (auto simp: IdentifierExtractor_eq simp del: set_concat)
qed

theorem identifiers_complete_witness:
  "\<exists>facts. IdentifierExtractor ascii_tables None ''no 0000320193.'' = Inr facts
    \<and> (\<exists>x \<in> set facts. PropertySlug x = ''sec_cik'' \<and> ExcerptOffsetStart x \<le> int 3 \<and> int 3 < ExcerptOffsetEnd x)"
proof -
  have o: "map fst (outcomes (runes ''no 0000320193.'') cikPattern (3, [])) = [13]" by code_simp
  then have "13 \<in> fst ` set (outcomes (runes ''no 0000320193.'') cikPattern (3, []))"
    by (metis list.set_intros(1) list.set_map)
  then obtain st where "st \<in> set (outcomes (runes ''no 0000320193.'') cikPattern (3, []))" "fst st = 13" by auto
  from outcomes_sound [OF this(1)] this(2) have d: "derives (runes ''no 0000320193.'') cikPattern 3 13" by simp
  have c: "(''sec_cik'', cikPattern, normalizeDigits ascii_tables) \<in> set (identifier_calls ascii_tables)"
    by (simp add: identifier_calls_def)
  have "3 \<le> rune_count ''no 0000320193.''" by code_simp
  then show ?thesis by (rule identifiers_complete [OF c d])
qed

text \<open>C10. A place in the text is in at most one date. The date extractor never fails; its facts pass the
  excerpt check and their ranges are pairwise disjoint, so the day inside a timestamp is no second fact.\<close>

theorem dates_disjoint:
  "\<exists>facts. DateExtractor source rawText = Inr facts
    \<and> list_all (\<lambda>f. VerifyExcerptOffset rawText (Excerpt f) (ExcerptOffsetStart f) (ExcerptOffsetEnd f)) facts
    \<and> sorted_wrt disjoint_facts facts"
  using DateExtractor_good [of source rawText] by (auto simp: good_dates_def verified_def [abs_def])

text \<open>C11. Three ways to write a day. A day of the years 0 to 9999 has one normal form, which its ISO form is
  and to which the forms with the month's name are normalised, in either order.\<close>

theorem written_dates_agree:
  assumes "valid_date (date_of m)" and "0 \<le> t_year m" and "t_year m < 10000"
  shows "normalizeISODate (format_iso m) = Some (format_iso m)
    \<and> normalizeMonthDayYearDate (format_mdy m) = Some (format_iso m)
    \<and> normalizeDayMonthYearDate (format_dmy m) = Some (format_iso m)"
proof -
  have iso: "format_iso (no_moment\<lparr>t_year := t_year m, t_month := t_month m, t_day := t_day m\<rparr>) = format_iso m"
    by (simp add: format_iso_def)
  have "1 \<le> t_month m" "t_month m \<le> 12" "1 \<le> t_day m" using assms(1) by (simp_all add: valid_date_def date_of_def)
  then have "CHR '','' \<notin> set (format_dmy m)"
    using itoa_digits [of "t_day m"] appendInt_four [OF assms(2,3)] month_cases [of "t_month m"]
    by (auto simp: format_dmy_def list_all_iff is_digit_char_def byte_def month_name_def longMonthNames_def)
  then show ?thesis
    by (simp add: normalizeISODate_def normalizeMonthDayYearDate_def normalizeDayMonthYearDate_def
        parse_format_iso [OF assms] parse_format_mdy [OF assms] parse_format_dmy [OF assms] iso)
qed

theorem written_dates_agree_witness:
  "normalizeMonthDayYearDate ''February 29, 2024'' = Some ''2024-02-29''"
proof -
  let ?m = "no_moment\<lparr>t_year := 2024, t_month := 2, t_day := 29\<rparr>"
  have "valid_date (date_of ?m)" "0 \<le> t_year ?m" "t_year ?m < 10000"
    by (simp_all add: valid_date_def date_of_def daysIn_def isLeap_def no_moment_def)
  from written_dates_agree [OF this]
  have "normalizeMonthDayYearDate (format_mdy ?m) = Some (format_iso ?m)" by simp
  moreover have "format_mdy ?m = ''February 29, 2024''" "format_iso ?m = ''2024-02-29''" by code_simp+
  ultimately show ?thesis by simp
qed

text \<open>Timestamps. The normal form of an RFC 3339 timestamp denotes the same instant in UTC, as long as its
  year is one of four digits there, and is its own normal form.\<close>

theorem timestamps_keep_instant:
  assumes "parse_time RFC3339 s = Some m" and "0 \<le> t_year (to_utc m)" and "t_year (to_utc m) < 10000"
  shows "\<exists>v m'. normalizeRFC3339Date s = Some v \<and> parse_time RFC3339 v = Some m' \<and> t_offset m' = 0
    \<and> instant m' = instant m \<and> normalizeRFC3339Date v = Some v"
proof -
  have "valid_date (date_of m)" using parse_rfc3339_ok [OF assms(1)] by (simp add: clock_ok_def)
  note u = to_utc_instant [OF this]
  then have p: "parse_time RFC3339 (format_rfc3339 (to_utc m)) = Some (to_utc m)"
    using assms(2,3) by (intro parse_format_rfc3339) simp_all
  have "to_utc (to_utc m) = to_utc m" using u by (intro to_utc_fix) simp_all
  then show ?thesis using p u assms(1) by (simp add: normalizeRFC3339Date_def)
qed

theorem timestamps_keep_instant_witness:
  "\<exists>v m'. normalizeRFC3339Date ''2024-02-29T23:30:00-01:30'' = Some v \<and> parse_time RFC3339 v = Some m'
    \<and> t_offset m' = 0 \<and> instant m' = instant \<lparr>t_year = 2024, t_month = 2, t_day = 29, t_hour = 23, t_min = 30,
         t_sec = 0, t_offset = - 5400\<rparr>
    \<and> normalizeRFC3339Date v = Some v"
proof -
  let ?m = "\<lparr>t_year = 2024, t_month = 2, t_day = 29, t_hour = 23, t_min = 30, t_sec = 0, t_offset = - 5400\<rparr>"
  have "parse_time RFC3339 ''2024-02-29T23:30:00-01:30'' = Some ?m" by code_simp
  moreover have "0 \<le> t_year (to_utc ?m)" "t_year (to_utc ?m) < 10000" by code_simp+
  ultimately show ?thesis by (rule timestamps_keep_instant)
qed

lemma replace_commas: "replace_all '','' [] s = filter (\<lambda>c. c \<noteq> CHR '','') s"
  by (induction s) (simp_all add: replace_all.simps has_prefix_def)

lemma trim_digits:
  assumes "\<forall>c \<in> set s. is_digit_char c \<or> c = CHR '',''"
  shows "trim_space s = s"
proof -
  have a: "is_ascii s" using assms by (auto simp: is_ascii_def is_digit_char_def byte_def)
  have n: "\<not> space_chunk c" if "c \<in> set (chunks s)" for c
  proof -
    obtain b where "c = [b]" "b \<in> set s" using \<open>c \<in> set (chunks s)\<close> a by (auto simp: chunks_ascii)
    then show ?thesis using assms a
      by (auto simp: space_chunk_def chunk_rune_ascii is_ascii_def is_space_def is_digit_char_def byte_def)
  qed
  have "dropWhile space_chunk cs = cs" if "set cs \<subseteq> set (chunks s)" for cs
    using that n by (cases cs) auto
  then show ?thesis by (simp add: trim_space_def trim_ends_def)
qed

lemma decimal_nonneg: "0 \<le> n \<Longrightarrow> list_all is_digit_char ds \<Longrightarrow> 0 \<le> decimal n ds"
  by (induction ds arbitrary: n) (simp_all add: is_digit_char_def)

lemma ParseFloat_digits:
  assumes "list_all is_digit_char ds" and "ds \<noteq> []" and "decimal 0 ds < 2 ^ 53"
  shows "ParseFloat ds = Some (of_int (decimal 0 ds))"
proof -
  have w: "takeWhile is_digit_char ds = ds" "dropWhile is_digit_char ds = []"
    using assms(1) by (simp_all add: list_all_iff takeWhile_eq_all_conv dropWhile_eq_Nil_conv)
  have "\<bar>decimal 0 ds\<bar> < 2 ^ 53" using assms(3) decimal_nonneg [of 0 ds] assms(1) by simp
  from float64_of_int [OF this] show ?thesis unfolding ParseFloat_def Let_def w using assms(2) by simp
qed

text \<open>Whole dollars. An amount written in digits, with or without commas, is multiplied by what its
  suffix stands for exactly, as long as the product stays below \<open>2 ^ 53\<close>.\<close>

theorem money_whole_amounts:
  assumes "\<forall>c \<in> set amount. is_digit_char c \<or> c = CHR '',''" and "\<exists>c \<in> set amount. is_digit_char c"
    and "suffix_multiplier (to_upper U (trim_space suffix)) = of_int k"
    and "decimal 0 (filter (\<lambda>c. c \<noteq> CHR '','') amount) * k < 2 ^ 53"
  shows "normalizeUSDAmount U conv amount suffix = itoa (decimal 0 (filter (\<lambda>c. c \<noteq> CHR '','') amount) * k)"
proof -
  let ?ds = "filter (\<lambda>c. c \<noteq> CHR '','') amount"
  let ?n = "decimal 0 ?ds"
  have comma: "\<not> is_digit_char (CHR '','')" by (simp add: is_digit_char_def byte_def)
  have ds: "list_all is_digit_char ?ds" "?ds \<noteq> []"
  proof -
    have "is_digit_char c" if "c \<in> set amount" "c \<noteq> CHR '',''" for c using assms(1) that by blast
    then show "list_all is_digit_char ?ds" unfolding list_all_iff set_filter by blast
    obtain c where "c \<in> set amount" "is_digit_char c" using assms(2) by blast
    with comma have "c \<in> set ?ds" unfolding set_filter by blast
    then show "?ds \<noteq> []" by (metis empty_iff empty_set)
  qed
  have n0: "0 \<le> ?n" using ds(1) by (rule decimal_nonneg [OF order_refl])
  have "of_int k \<in> {1000, 1000000, 1000000000, 1 :: rat}"
    using assms(3) by (auto simp: suffix_multiplier_def split: if_splits)
  then have k: "1 \<le> k" by auto
  then have "?n \<le> ?n * k" using n0 by (simp add: mult_le_cancel_left1)
  then have p: "ParseFloat ?ds = Some (of_int ?n)" using ds assms(4) by (intro ParseFloat_digits) simp_all
  have nk: "\<bar>?n * k\<bar> < 2 ^ 53" using n0 k assms(4) by simp
  have "float64 (of_int ?n * of_int k) = Some (of_int (?n * k))" using float64_of_int [OF nk] by simp
  moreover have "to_int64 conv (of_int (?n * k)) = ?n * k"
  proof -
    have "\<bar>?n * k\<bar> < 2 ^ 63" using nk by simp
    then have "\<bar>of_int (?n * k)\<bar> < (2 ^ 63 :: rat)" by (metis of_int_abs of_int_less_numeral_power_cancel_iff)
    then show ?thesis unfolding to_int64_def by (simp only: if_True floor_of_int)
  qed
  ultimately show ?thesis
    by (simp only: normalizeUSDAmount_def Let_def trim_digits [OF assms(1)] replace_commas p option.case
        assms(3) floor_of_int if_True refl)
qed

theorem money_whole_amounts_witness: "normalizeUSDAmount ascii_tables conv ''1,250'' ''K'' = ''1250000''"
proof -
  have "\<forall>c \<in> set ''1,250''. is_digit_char c \<or> c = CHR '',''" "\<exists>c \<in> set ''1,250''. is_digit_char c" by code_simp+
  moreover have "suffix_multiplier (to_upper ascii_tables (trim_space ''K'')) = of_int 1000" by code_simp
  moreover have d: "decimal 0 (filter (\<lambda>c. c \<noteq> CHR '','') ''1,250'') = 1250" by code_simp
  ultimately have "normalizeUSDAmount ascii_tables conv ''1,250'' ''K''
      = itoa (decimal 0 (filter (\<lambda>c. c \<noteq> CHR '','') ''1,250'') * 1000)"
    by (intro money_whole_amounts) simp_all
  then show ?thesis
    by (simp only: d) (simp add: itoa_def nat_digits_rec digit_char_def char_of_def)
qed

subsection \<open>Where the code falls short\<close>

text \<open>A fraction is rounded twice: \<open>$1.005M\<close> is no whole number of dollars, and stored with a fraction
  (it is \<open>1004999.9999999999\<close>).\<close>

lemma money_fraction_rounded:
  "normalizeUSDAmount ascii_tables conv ''1.005'' ''M'' = FormatFloat (8632884264959999 / 8589934592)"
proof -
  have a: "replace_all '','' [] (trim_space ''1.005'') = ''1.005''" by code_simp
  have p: "ParseFloat ''1.005'' = Some (1131529406376837 / 1125899906842624)" by code_simp
  have m: "suffix_multiplier (to_upper ascii_tables (trim_space ''M'')) = 1000000" by code_simp
  have v: "float64 (1131529406376837 / 1125899906842624 * 1000000) = Some (8632884264959999 / 8589934592)" by code_simp
  have i: "(8632884264959999 / 8589934592 :: rat) \<noteq> of_int \<lfloor>8632884264959999 / 8589934592 :: rat\<rfloor>" by code_simp
  then show ?thesis unfolding normalizeUSDAmount_def a p m Let_def option.case v by (simp only: if_False)
qed

text \<open>A text in which the lower-case form of a letter before a name is longer than the letter: the place of
  the name is looked for behind the end of the text.\<close>

definition stroke_tables :: unicode_tables where
  "stroke_tables = ascii_tables\<lparr>tab_lower := (\<lambda>r. if r = 570 then 11365 else r)\<rparr>"

lemma gazetteer_panics: "GazetteerExtractor stroke_tables None (encode_rune 570 @ '' Apple'') = Inl panic_slice"
  by code_simp

text \<open>One in which it is shorter: the name is not found, although it stands alone.\<close>

definition dotted_tables :: unicode_tables where
  "dotted_tables = ascii_tables\<lparr>tab_lower := (\<lambda>r. if r = 304 then 105 else r)\<rparr>"

lemma gazetteer_misses: "GazetteerExtractor dotted_tables None (encode_rune 304 @ '' Apple ran'') = Inr []"
  by code_simp

end
