(* ===== verification/Examples.thy ===== *)
theory Examples
  imports Serve SourcePipeline
begin

text \<open>
  \<open>internal/examples/loader.go\<close> and \<open>cmd/factvault/example.go\<close>: example domains, directories of YAML files
  with the properties and the seed entities that \<open>factvault example load\<close> writes for a tenant. The file tree
  and the YAML decoder are the argument \<open>example_files\<close>.
\<close>

subsection \<open>Reading an example\<close>

record ExampleProperty =
  ep_Slug :: string
  ep_Label :: string
  ep_ValueType :: string
  ep_Description :: string

record Seed =
  sd_ExtID :: string
  sd_Label :: string
  sd_TypeURI :: string
  sd_Description :: string

record Example =
  ex_Name :: string
  ex_Path :: string
  ex_Properties :: "ExampleProperty list"
  ex_Seeds :: "Seed list"
  ex_Fixtures :: "string list"

record example_files =
  xf_ReadDir :: "string \<Rightarrow> (string \<times> bool) list result"   \<comment> \<open>names, and whether each is a directory\<close>
  xf_ReadFile :: "string \<Rightarrow> string result"
  xf_Glob :: "string \<Rightarrow> string list result"
  xf_IsDir :: "string \<Rightarrow> bool result"                       \<comment> \<open>os.Stat and IsDir\<close>
  xf_properties :: "string \<Rightarrow> ExampleProperty list result"         \<comment> \<open>yaml.Unmarshal\<close>
  xf_seeds :: "string \<Rightarrow> Seed list result"

text \<open>\<open>filepath.Join\<close>.\<close>

definition Join_path :: "string list \<Rightarrow> string" where
  "Join_path elems = (case dropWhile (\<lambda>e. e = []) elems of [] \<Rightarrow> [] | es \<Rightarrow> Clean (join ''/'' es))"

definition List_examples :: "example_files \<Rightarrow> string \<Rightarrow> string list result" where
  "List_examples F dir0 = rbind (xf_ReadDir F dir0) (\<lambda>entries. Ok (sort (map fst (filter snd entries))))"

definition readYAML :: "example_files \<Rightarrow> (string \<Rightarrow> 'a result) \<Rightarrow> string \<Rightarrow> 'a result" where
  "readYAML F decode path =
     rbind (xf_ReadFile F (Clean path)) (\<lambda>data.
       (case decode data of Inl e \<Rightarrow> Err (''parse '' @ path @ '': '' @ e) | Inr x \<Rightarrow> Ok x))"

definition add_fixture :: "example_files \<Rightarrow> string \<Rightarrow> string list \<Rightarrow> string list result" where
  "add_fixture F fixture acc =
     rbind (xf_IsDir F fixture) (\<lambda>is_dir. Ok (if is_dir then acc else acc @ [fixture]))"

definition Load :: "example_files \<Rightarrow> string \<Rightarrow> string \<Rightarrow> Example result" where
  "Load F dir0 nm =
     (let path = Join_path [dir0, nm]
      in rbind (readYAML F (xf_properties F) (Join_path [path, ''properties.yaml''])) (\<lambda>ps.
         rbind (readYAML F (xf_seeds F) (Join_path [path, ''seeds.yaml''])) (\<lambda>ss.
         rbind (xf_Glob F (Join_path [path, ''fixtures'', ''*''])) (\<lambda>found.
         rbind (fold_res (add_fixture F) found []) (\<lambda>files.
           Ok \<lparr>ex_Name = nm, ex_Path = path, ex_Properties = ps, ex_Seeds = ss, ex_Fixtures = sort files\<rparr>)))))"

subsection \<open>Storing it\<close>

text \<open>\<open>INSERT ... ON CONFLICT (key) DO UPDATE\<close> on one table: \<open>hit\<close> is equality with the new row's key.\<close>

definition upsert :: "('r \<Rightarrow> bool) \<Rightarrow> ('r \<Rightarrow> 'r) \<Rightarrow> 'r \<Rightarrow> 'r list \<Rightarrow> 'r list" where
  "upsert hit write new rows =
     (if list_ex hit rows then map (\<lambda>r. if hit r then write r else r) rows else rows @ [new])"

text \<open>\<open>NULLIF(x, '')\<close> is \<open>nullif_empty\<close>.\<close>

definition property_value_types :: "string list" where
  "property_value_types = [''entity_ref'', ''string'', ''number'', ''date'', ''url'']"

text \<open>The columns that \<open>DO UPDATE SET\<close> writes, and the row that is inserted otherwise.\<close>

definition write_property :: "ExampleProperty \<Rightarrow> property_row \<Rightarrow> property_row" where
  "write_property p r = r\<lparr>pp_label := ep_Label p, pp_value_type := ep_ValueType p,
     pp_description := nullif_empty (ep_Description p)\<rparr>"

definition fresh_property :: "uuid \<Rightarrow> nat \<Rightarrow> ExampleProperty \<Rightarrow> property_row" where
  "fresh_property t i p = \<lparr>pp_id = i, pp_tenant = Some t, pp_slug = ep_Slug p, pp_label = ep_Label p,
     pp_value_type = ep_ValueType p, pp_description = nullif_empty (ep_Description p)\<rparr>"

definition write_seed :: "Seed \<Rightarrow> entity_row \<Rightarrow> entity_row" where
  "write_seed s r = r\<lparr>en_label := sd_Label s, en_type_uri := nullif_empty (sd_TypeURI s),
     en_description := nullif_empty (sd_Description s)\<rparr>"

definition fresh_seed :: "uuid \<Rightarrow> int \<Rightarrow> nat \<Rightarrow> Seed \<Rightarrow> entity_row" where
  "fresh_seed t at_time i s = \<lparr>en_id = i, en_tenant = t, en_ext_id = nullif_empty (sd_ExtID s), en_label = sd_Label s,
     en_type_uri = nullif_empty (sd_TypeURI s), en_description = nullif_empty (sd_Description s),
     en_embedding = None, en_meta = ''{}'', en_created = at_time, en_updated = at_time\<rparr>"

text \<open>The unique keys. \<open>uq_properties_tenant_slug\<close> and \<open>uq_entities_tenant_ext_id\<close> are declared
  \<open>UNIQUE NULLS NOT DISTINCT\<close>: two entities of a tenant without an external identifier have the same key.\<close>

definition property_key :: "property_row \<Rightarrow> uuid option \<times> string" where
  "property_key r = (pp_tenant r, pp_slug r)"

definition entity_key :: "entity_row \<Rightarrow> uuid \<times> string option" where
  "entity_key r = (en_tenant r, en_ext_id r)"

definition upsert_property :: "pg_env \<Rightarrow> string \<Rightarrow> ExampleProperty \<Rightarrow> db \<Rightarrow> db result" where
  "upsert_property pg tenantID p d =
     (if \<not> list_all pg_text_ok [ep_Slug p, ep_Label p, ep_ValueType p, ep_Description p]
      then Err (''insert property '' @ ep_Slug p @ '': invalid byte sequence for encoding'')
      else
        (case cast_uuid pg tenantID of
           Inl e \<Rightarrow> Err (''insert property '' @ ep_Slug p @ '': '' @ e)
         | Inr t \<Rightarrow>
           if ep_ValueType p \<notin> set property_value_types
           then Err (''insert property '' @ ep_Slug p @ '': violates check constraint properties_value_type_check'')
           else Ok (d\<lparr>properties := upsert (\<lambda>r. property_key r = (Some t, ep_Slug p)) (write_property p)
                        (fresh_property t (next_id d) p) (properties d),
                      next_id := Suc (next_id d)\<rparr>)))"

definition upsert_seed :: "pg_env \<Rightarrow> string \<Rightarrow> Seed \<Rightarrow> db \<Rightarrow> db result" where
  "upsert_seed pg tenantID s d =
     (if \<not> list_all pg_text_ok [sd_ExtID s, sd_Label s, sd_TypeURI s, sd_Description s]
      then Err (''insert seed '' @ sd_Label s @ '': invalid byte sequence for encoding'')
      else
        (case cast_uuid pg tenantID of
           Inl e \<Rightarrow> Err (''insert seed '' @ sd_Label s @ '': '' @ e)
         | Inr t \<Rightarrow>
           Ok (d\<lparr>entities := upsert (\<lambda>r. entity_key r = (t, nullif_empty (sd_ExtID s))) (write_seed s)
                   (fresh_seed t (now d) (next_id d) s) (entities d),
                 next_id := Suc (next_id d)\<rparr>)))"

text \<open>\<open>Insert\<close>: one transaction, so an error leaves the database as it was.\<close>

definition Insert_example :: "pg_env \<Rightarrow> bool \<Rightarrow> Example \<Rightarrow> string \<Rightarrow> db \<Rightarrow> db result" where
  "Insert_example pg pool e tenantID d =
     (if \<not> pool then Err ''nil database pool''
      else rbind (fold_res (upsert_property pg tenantID) (ex_Properties e) d) (\<lambda>d1.
             fold_res (upsert_seed pg tenantID) (ex_Seeds e) d1))"

subsection \<open>\<open>factvault example\<close>\<close>

definition newExampleListCmd :: "example_files \<Rightarrow> string \<Rightarrow> string result" where
  "newExampleListCmd F dir0 =
     rbind (List_examples F dir0) (\<lambda>names. Ok (concat (map (\<lambda>n. n @ [CHR 0x0A]) names)))"

definition property_json :: "ExampleProperty \<Rightarrow> json" where
  "property_json p = JObj ([(''slug'', JStr (ep_Slug p)), (''label'', JStr (ep_Label p)), (''value_type'', JStr (ep_ValueType p))]
     @ (if ep_Description p = [] then [] else [(''description'', JStr (ep_Description p))]))"

definition seed_json :: "Seed \<Rightarrow> json" where
  "seed_json s = JObj ([(''ext_id'', JStr (sd_ExtID s)), (''label'', JStr (sd_Label s)), (''type_uri'', JStr (sd_TypeURI s))]
     @ (if sd_Description s = [] then [] else [(''description'', JStr (sd_Description s))]))"

text \<open>Whether an empty YAML list leaves a nil slice (\<open>null\<close>) or an empty one (\<open>[]\<close>) is the decoder's choice,
  \<open>nil\<close>; fixtures are appended to a nil slice.\<close>

definition slice_json :: "bool \<Rightarrow> json list \<Rightarrow> json" where
  "slice_json nil xs = (if xs = [] \<and> nil then JNull else JArr xs)"

definition newExampleInfoCmd :: "example_files \<Rightarrow> bool \<Rightarrow> bool \<Rightarrow> string \<Rightarrow> string \<Rightarrow> string result" where
  "newExampleInfoCmd F nil_properties nil_seeds dir0 nm =
     rbind (Load F dir0 nm) (\<lambda>ex.
       Ok (render (JObj [(''Name'', JStr (ex_Name ex)), (''Path'', JStr (ex_Path ex)),
             (''properties'', slice_json nil_properties (map property_json (ex_Properties ex))),
             (''seeds'', slice_json nil_seeds (map seed_json (ex_Seeds ex))),
             (''fixtures'', slice_json True (map JStr (ex_Fixtures ex)))]) @ [CHR 0x0A]))"

definition Getenv :: "env \<Rightarrow> string \<Rightarrow> string" where
  "Getenv E k = (case E k of None \<Rightarrow> [] | Some v \<Rightarrow> v)"

definition newExampleLoadCmd ::
    "host \<Rightarrow> example_files \<Rightarrow> pg_env \<Rightarrow> string \<Rightarrow> string \<Rightarrow> string \<Rightarrow> string \<Rightarrow> db \<Rightarrow> (string \<times> db) result" where
  "newExampleLoadCmd H F pg dir0 dsn0 tenant0 nm d =
     (let dsn = (if dsn0 = [] then Getenv (h_env H) ''FACTVAULT_DATABASE_URL'' else dsn0);
          tenantID = (if tenant0 = [] then Getenv (h_env H) ''FACTVAULT_DEV_TENANT_ID'' else tenant0)
      in if dsn = [] \<or> tenantID = [] then Err ''--dsn and --tenant are required''
         else rbind (Load F dir0 nm) (\<lambda>ex.
              rbind (h_new_pool H dsn) (\<lambda>_.
              rbind (Insert_example pg True ex tenantID d) (\<lambda>d'.
                Ok (''loaded '' @ ex_Name ex @ '': '' @ itoa (int (length (ex_Properties ex))) @ '' properties, ''
                      @ itoa (int (length (ex_Seeds ex))) @ '' seeds'' @ [CHR 0x0A], d')))))"

subsection \<open>Upserts by key\<close>

locale upsert_table =
  fixes rkey :: "'r \<Rightarrow> 'k" and ikey :: "'i \<Rightarrow> 'k" and wr :: "'i \<Rightarrow> 'r \<Rightarrow> 'r" and fresh :: "nat \<Rightarrow> 'i \<Rightarrow> 'r"
  assumes key_wr: "rkey (wr i r) = rkey r"
    and wr_wr: "wr i (wr j r) = wr i r"
    and key_fresh: "rkey (fresh n i) = ikey i"
    and wr_fresh: "wr i (fresh n i) = fresh n i"
begin

definition put_row :: "nat \<Rightarrow> 'i \<Rightarrow> 'r list \<Rightarrow> 'r list" where
  "put_row n i rows = upsert (\<lambda>r. rkey r = ikey i) (wr i) (fresh n i) rows"

fun put_all :: "nat \<Rightarrow> 'i list \<Rightarrow> 'r list \<Rightarrow> 'r list" where
  "put_all n [] rows = rows"
| "put_all n (i # js) rows = put_all (Suc n) js (put_row n i rows)"

definition touch :: "'i \<Rightarrow> 'r \<Rightarrow> 'r" where
  "touch i r = (if rkey r = ikey i then wr i r else r)"

definition settle :: "'i list \<Rightarrow> 'r \<Rightarrow> 'r" where
  "settle js r = fold touch js r"

lemma settle_simps: "settle [] r = r" "settle (i # js) r = settle js (touch i r)" "settle (js @ [i]) r = touch i (settle js r)"
  by (simp_all add: settle_def)

lemma key_touch: "rkey (touch i r) = rkey r"
  by (simp add: touch_def key_wr)

lemma key_settle: "rkey (settle js r) = rkey r"
  by (induction js arbitrary: r) (simp_all add: settle_simps key_touch)

lemma wr_settle: "wr i (settle js r) = wr i r"
proof (induction js arbitrary: r)
  case (Cons j js)
  then show ?case by (simp add: settle_simps touch_def wr_wr)
qed (simp add: settle_simps)

lemma put_all_snoc: "put_all n (js @ [i]) rows = put_row (n + length js) i (put_all n js rows)"
  by (induction js arbitrary: n rows) simp_all

lemma put_keys: "rkey ` set (put_row n i rows) = insert (ikey i) (rkey ` set rows)"
proof (cases "list_ex (\<lambda>r. rkey r = ikey i) rows")
  case True
  then have "ikey i \<in> rkey ` set rows" by (auto simp: list_ex_iff intro: rev_image_eqI)
  moreover have "rkey ` set (put_row n i rows) = rkey ` set rows"
    unfolding put_row_def upsert_def if_P [OF True] set_map image_image by (rule image_cong) (simp_all add: key_wr)
  ultimately show ?thesis by auto
qed (simp add: put_row_def upsert_def key_fresh)

lemma put_all_keys: "rkey ` set (put_all n js rows) = ikey ` set js \<union> rkey ` set rows"
  by (induction js arbitrary: n rows) (auto simp: put_keys)

text \<open>After an upsert of a list, every row carries the values of the last item with its key.\<close>

lemma put_all_settled: "r \<in> set (put_all n js rows) \<Longrightarrow> settle js r = r"
proof (induction js arbitrary: r rule: rev_induct)
  case (snoc i js)
  let ?R = "put_all n js rows"
  show ?case
  proof (cases "rkey r = ikey i")
    case True
    have "wr i r = r"
    proof (cases "list_ex (\<lambda>r. rkey r = ikey i) ?R")
      case hit: True
      then obtain r0 where "r0 \<in> set ?R" "r = (if rkey r0 = ikey i then wr i r0 else r0)"
        using snoc.prems by (auto simp: put_all_snoc put_row_def upsert_def)
      with True show ?thesis by (auto simp: wr_wr key_wr)
    next
      case False
      then have "r \<notin> set ?R" using True by (auto simp: list_ex_iff)
      with snoc.prems False show ?thesis by (auto simp: put_all_snoc put_row_def upsert_def wr_fresh)
    qed
    then show ?thesis using True by (simp add: settle_simps touch_def key_settle wr_settle)
  next
    case False
    then have "r \<in> set ?R"
      using snoc.prems by (auto simp: put_all_snoc put_row_def upsert_def key_wr key_fresh split: if_splits)
    with snoc.IH False show ?thesis by (simp add: settle_simps touch_def)
  qed
qed (simp add: settle_simps)

lemma put_present:
  "ikey i \<in> rkey ` set rows \<Longrightarrow> put_row n i rows = map (touch i) rows"
  by (auto simp: put_row_def upsert_def touch_def [abs_def] list_ex_iff)

lemma put_all_present:
  "ikey ` set js \<subseteq> rkey ` set rows \<Longrightarrow> put_all n js rows = map (settle js) rows"
proof (induction js arbitrary: n rows)
  case (Cons i js)
  have "rkey ` set (map (touch i) rows) = rkey ` set rows" by (simp add: image_image key_touch)
  with Cons show ?case by (simp add: put_present settle_simps)
qed (simp add: settle_simps map_idI)

lemma put_all_idem: "put_all m js (put_all n js rows) = put_all n js rows"
  by (simp add: put_all_present put_all_keys map_idI put_all_settled)

text \<open>Rows with a key outside the items are left alone, and a key gets at most one more row.\<close>

lemma put_all_others:
  "ikey ` set js \<inter> K = {} \<Longrightarrow> filter (\<lambda>r. rkey r \<in> K) (put_all n js rows) = filter (\<lambda>r. rkey r \<in> K) rows"
proof (induction js arbitrary: n rows)
  case (Cons i js)
  have "filter (\<lambda>r. rkey r \<in> K) (put_row n i rows) = filter (\<lambda>r. rkey r \<in> K) rows"
  proof (cases "list_ex (\<lambda>r. rkey r = ikey i) rows")
    case True
    have "filter (\<lambda>r. rkey r \<in> K) (map (\<lambda>r. if rkey r = ikey i then wr i r else r) rows) = filter (\<lambda>r. rkey r \<in> K) rows"
      using Cons.prems by (induction rows) (auto simp: key_wr)
    with True show ?thesis by (simp add: put_row_def upsert_def)
  next
    case False
    with Cons.prems show ?thesis by (auto simp: put_row_def upsert_def key_fresh)
  qed
  with Cons show ?case by simp
qed simp

lemma put_all_one_key:
  "ikey ` set js \<subseteq> {k} \<Longrightarrow> length (put_all n js rows) \<le> Suc (length rows)"
proof (induction js arbitrary: n rows)
  case (Cons i js)
  show ?case
  proof (cases "ikey i \<in> rkey ` set rows")
    case True
    then show ?thesis using Cons.IH [of "Suc n" "put_row n i rows"] Cons.prems by (simp add: put_present)
  next
    case False
    then have len: "length (put_row n i rows) = Suc (length rows)"
      by (auto simp: put_row_def upsert_def list_ex_iff image_iff)
    have "ikey ` set js \<subseteq> rkey ` set (put_row n i rows)"
      using Cons.prems by (auto simp: put_keys)
    then show ?thesis by (simp add: put_all_present len)
  qed
qed simp

end

interpretation property_upserts: upsert_table property_key "\<lambda>p. (Some t, ep_Slug p)" write_property "fresh_property t" for t
  by unfold_locales (simp_all add: property_key_def write_property_def fresh_property_def)

interpretation seed_upserts: upsert_table entity_key "\<lambda>s. (t, nullif_empty (sd_ExtID s))" write_seed "fresh_seed t at_time"
  for t at_time
  by unfold_locales (simp_all add: entity_key_def write_seed_def fresh_seed_def)

text \<open>When a row is accepted, and what its upsert then does.\<close>

definition property_ok :: "ExampleProperty \<Rightarrow> bool" where
  "property_ok p \<longleftrightarrow> list_all pg_text_ok [ep_Slug p, ep_Label p, ep_ValueType p, ep_Description p]
     \<and> ep_ValueType p \<in> set property_value_types"

definition seed_ok :: "Seed \<Rightarrow> bool" where
  "seed_ok s \<longleftrightarrow> list_all pg_text_ok [sd_ExtID s, sd_Label s, sd_TypeURI s, sd_Description s]"

lemma upsert_property_iff:
  "scan_uuid pg s = Some t \<Longrightarrow> upsert_property pg s p d = Inr d' \<longleftrightarrow> property_ok p
     \<and> d' = d\<lparr>properties := property_upserts.put_row t (next_id d) p (properties d), next_id := Suc (next_id d)\<rparr>"
  unfolding upsert_property_def property_ok_def property_upserts.put_row_def by auto

lemma upsert_seed_iff:
  "scan_uuid pg s = Some t \<Longrightarrow> upsert_seed pg s x d = Inr d' \<longleftrightarrow> seed_ok x
     \<and> d' = d\<lparr>entities := seed_upserts.put_row t (now d) (next_id d) x (entities d), next_id := Suc (next_id d)\<rparr>"
  unfolding upsert_seed_def seed_ok_def seed_upserts.put_row_def by auto

lemma fold_res_Cons_iff:
  "fold_res f (x # xs) s = Inr s' \<longleftrightarrow> (\<exists>u. f x s = Inr u \<and> fold_res f xs u = Inr s')"
  by (auto split: sum.split)

lemma properties_loop:
  assumes "scan_uuid pg s = Some t"
  shows "fold_res (upsert_property pg s) ps d = Inr d' \<longleftrightarrow> list_all property_ok ps
    \<and> d' = d\<lparr>properties := property_upserts.put_all t (next_id d) ps (properties d), next_id := next_id d + length ps\<rparr>"
proof (induction ps arbitrary: d)
  case (Cons p ps)
  show ?case
    unfolding fold_res_Cons_iff upsert_property_iff [OF assms] by (auto simp: Cons.IH simp del: fold_res.simps)
qed auto

lemma seeds_loop:
  assumes "scan_uuid pg s = Some t"
  shows "fold_res (upsert_seed pg s) xs d = Inr d' \<longleftrightarrow> list_all seed_ok xs
    \<and> d' = d\<lparr>entities := seed_upserts.put_all t (now d) (next_id d) xs (entities d), next_id := next_id d + length xs\<rparr>"
proof (induction xs arbitrary: d)
  case (Cons x xs)
  show ?case
    unfolding fold_res_Cons_iff upsert_seed_iff [OF assms] by (auto simp: Cons.IH simp del: fold_res.simps)
qed auto

text \<open>What a load stores: all of it or nothing.\<close>

definition load_rows :: "uuid \<Rightarrow> Example \<Rightarrow> db \<Rightarrow> db" where
  "load_rows t e d =
     (let n = next_id d + length (ex_Properties e)
      in d\<lparr>properties := property_upserts.put_all t (next_id d) (ex_Properties e) (properties d),
           entities := seed_upserts.put_all t (now d) n (ex_Seeds e) (entities d),
           next_id := n + length (ex_Seeds e)\<rparr>)"

lemma Insert_example_iff:
  assumes "scan_uuid pg s = Some t"
  shows "Insert_example pg True e s d = Inr d' \<longleftrightarrow>
    list_all property_ok (ex_Properties e) \<and> list_all seed_ok (ex_Seeds e) \<and> d' = load_rows t e d"
  by (auto simp: Insert_example_def rbind_Inr_iff properties_loop [OF assms] seeds_loop [OF assms] load_rows_def Let_def)

lemma Insert_example_no_tenant:
  assumes "scan_uuid pg s = None" and "Insert_example pg True e s d = Inr d'"
  shows "ex_Properties e = [] \<and> ex_Seeds e = [] \<and> d' = d"
  using assms by (cases "ex_Properties e"; cases "ex_Seeds e")
    (auto simp: Insert_example_def upsert_property_def upsert_seed_def cast_uuid_def rbind_Inr_iff split: if_splits)

subsection \<open>Properties\<close>

text \<open>Loading an example twice is loading it once. Whatever rows the tenant has, and even when the example
  lists a slug or an external identifier more than once, a second load of an example that was loaded
  succeeds and changes no row; only identifiers are drawn from the supply.\<close>

lemma example_load_idempotent:
  assumes "Insert_example pg True e s d = Inr d1"
  shows "Insert_example pg True e s d1
    = Inr (d1\<lparr>next_id := next_id d1 + (length (ex_Properties e) + length (ex_Seeds e))\<rparr>)"
proof (cases "scan_uuid pg s")
  case None
  with Insert_example_no_tenant [OF None assms] show ?thesis by (simp add: Insert_example_def)
next
  case (Some t)
  note iff = Insert_example_iff [OF Some]
  from assms have ok: "list_all property_ok (ex_Properties e)" "list_all seed_ok (ex_Seeds e)" "d1 = load_rows t e d"
    by (simp_all add: iff)
  have "load_rows t e d1 = d1\<lparr>next_id := next_id d1 + (length (ex_Properties e) + length (ex_Seeds e))\<rparr>"
    by (simp add: load_rows_def Let_def ok(3) property_upserts.put_all_idem seed_upserts.put_all_idem)
  with ok show ?thesis by (simp add: iff)
qed

lemma load_rows_view: "t' \<noteq> t \<Longrightarrow> view t' (load_rows t e d) = view t' d"
proof -
  assume ne: "t' \<noteq> t"
  have "filter (\<lambda>r. entity_key r \<in> {t'} \<times> UNIV) (seed_upserts.put_all t (now d) n (ex_Seeds e) (entities d))
      = filter (\<lambda>r. entity_key r \<in> {t'} \<times> UNIV) (entities d)" for n
    using ne by (intro seed_upserts.put_all_others) auto
  moreover have "filter (\<lambda>r. property_key r \<in> {Some t', None} \<times> UNIV) (property_upserts.put_all t n (ex_Properties e) (properties d))
      = filter (\<lambda>r. property_key r \<in> {Some t', None} \<times> UNIV) (properties d)" for n
    using ne by (intro property_upserts.put_all_others) auto
  ultimately show ?thesis
    by (simp add: view_def load_rows_def Let_def rls_def rls_properties_def entity_key_def property_key_def)
qed

interpretation example_op: tenant_op
  "\<lambda>t (e, s) d. if scan_uuid pg s = Some t then Insert_example pg True e s d else Inr d" for pg
proof (unfold_locales, goal_cases)
  case (1 t x d d' t')
  then show ?case by (cases x) (auto simp: Insert_example_iff load_rows_view split: if_splits)
qed

text \<open>Loads for any tenants but \<open>t'\<close>, in any order, leave what \<open>t'\<close> sees as it was.\<close>

lemmas example_loads_isolated = example_op.run_ops_isolated

text \<open>C39. Seeds without an external identifier are one entity. The unique key of \<open>entities\<close> does not
  distinguish nulls, so an example whose seeds all leave \<open>ext_id\<close> out adds at most one entity however many
  seeds it has; it ends with the label of the last seed, and so does an entity without external identifier
  that the tenant had before.\<close>

theorem seeds_without_id_collapse:
  assumes "Insert_example pg True e s d = Inr d'" and "scan_uuid pg s = Some t"
    and "ex_Seeds e = xs @ [x]" and "\<forall>y\<in>set (xs @ [x]). sd_ExtID y = []"
  shows "length (entities d') \<le> Suc (length (entities d))
    \<and> (\<exists>r\<in>set (entities d'). en_tenant r = t \<and> en_ext_id r = None)
    \<and> (\<forall>r\<in>set (entities d'). en_tenant r = t \<and> en_ext_id r = None \<longrightarrow> en_label r = sd_Label x)"
proof -
  let ?n = "next_id d + length (ex_Properties e)"
  let ?k = "\<lambda>s. (t, nullif_empty (sd_ExtID s))"
  have d': "entities d' = seed_upserts.put_all t (now d) ?n (xs @ [x]) (entities d)"
    using assms(1,3) by (simp add: Insert_example_iff [OF assms(2)] load_rows_def Let_def)
  have keys: "?k ` set (xs @ [x]) \<subseteq> {(t, None)}" using assms(4) by (auto simp: nullif_empty_def)
  have "length (entities d') \<le> Suc (length (entities d))"
    unfolding d' by (rule seed_upserts.put_all_one_key [OF keys])
  moreover have "(t, None) \<in> entity_key ` set (entities d')"
    unfolding d' seed_upserts.put_all_keys using assms(4) by (auto simp: nullif_empty_def)
  moreover have "en_label r = sd_Label x" if r: "r \<in> set (entities d')" "en_tenant r = t" "en_ext_id r = None" for r
  proof -
    have "seed_upserts.touch t x (seed_upserts.settle t xs r) = r"
      using seed_upserts.put_all_settled [of r t "now d" ?n "xs @ [x]" "entities d"] r(1)
      by (simp add: d' seed_upserts.settle_simps)
    moreover have "entity_key (seed_upserts.settle t xs r) = ?k x"
      using r assms(4) by (simp add: seed_upserts.key_settle) (simp add: entity_key_def nullif_empty_def)
    ultimately have "write_seed x (seed_upserts.settle t xs r) = r"
      by (simp add: seed_upserts.touch_def)
    then have "en_label (write_seed x (seed_upserts.settle t xs r)) = en_label r" by simp
    then show ?thesis by (simp add: write_seed_def)
  qed
  ultimately show ?thesis by (auto simp: entity_key_def)
qed

definition demo_example :: Example where
  "demo_example = \<lparr>ex_Name = ''demo'', ex_Path = ''demo'',
     ex_Properties = [\<lparr>ep_Slug = ''ceo'', ep_Label = ''CEO'', ep_ValueType = ''string'', ep_Description = []\<rparr>],
     ex_Seeds = [\<lparr>sd_ExtID = [], sd_Label = ''Acme'', sd_TypeURI = [], sd_Description = []\<rparr>,
                 \<lparr>sd_ExtID = [], sd_Label = ''Initech'', sd_TypeURI = [], sd_Description = []\<rparr>],
     ex_Fixtures = []\<rparr>"

lemma demo_example_loads: "Insert_example sample_pg True demo_example ''u'' empty_db = Inr (load_rows 1 demo_example empty_db)"
proof -
  have "list_all property_ok (ex_Properties demo_example)" "list_all seed_ok (ex_Seeds demo_example)" by code_simp+
  then show ?thesis by (subst Insert_example_iff [where t = 1]) (simp_all add: sample_pg_def)
qed

theorem seeds_without_id_collapse_witness:
  "length (entities (load_rows 1 demo_example empty_db)) \<le> 1"
  using seeds_without_id_collapse [OF demo_example_loads, of 1
      "[\<lparr>sd_ExtID = [], sd_Label = ''Acme'', sd_TypeURI = [], sd_Description = []\<rparr>]"
      "\<lparr>sd_ExtID = [], sd_Label = ''Initech'', sd_TypeURI = [], sd_Description = []\<rparr>"]
  by (simp add: demo_example_def sample_pg_def empty_db_def)

end
