(* ===== verification/Doctor.thy ===== *)
theory Doctor
  imports Serve
begin

text \<open>
  \<open>internal/doctor/checks.go\<close> and \<open>cmd/factvault/doctor.go\<close>: the health checks of a deployment and the exit
  status of \<open>factvault doctor\<close>. What a deployment answers (its database connections, the policies in force
  there, its HTTP services) is the argument \<open>deployment\<close>; the probes themselves, what they insert, count and
  compare, are definitions.
\<close>

record CheckResult =
  cr_Name :: string
  cr_OK :: bool
  cr_Required :: bool
  cr_Detail :: string
  cr_Remedy :: string
  cr_Elapsed :: string

record doctor_config =
  dc_DatabaseURL :: string
  dc_LLMURL :: string
  dc_EmbedderURL :: string
  dc_WaybackURL :: string

text \<open>Connections are named by their DSN. \<open>dp_exec\<close> answers the two setting statements of a probe (by name).
  \<open>dp_sees dsn app g t\<close>: may a session of that DSN, as \<open>app_user\<close> or as the login role, with \<open>app.tenant_id\<close>
  set to \<open>g\<close>, see an \<open>entities\<close> row of tenant \<open>t\<close>; \<open>dp_writes\<close> is the same for inserting one. The tenant and
  entity identifiers are the random UUIDs of the two probes.\<close>

record deployment =
  dp_pool :: "string \<Rightarrow> unit result"                   \<comment> \<open>pgxpool.New\<close>
  dp_extname :: "string \<Rightarrow> string result"              \<comment> \<open>the one row of pg_extension\<close>
  dp_version :: "string \<Rightarrow> int result"                 \<comment> \<open>the newest applied version of goose_db_version\<close>
  dp_begin :: "string \<Rightarrow> unit result"
  dp_exec :: "string \<Rightarrow> string \<Rightarrow> unit result"
  dp_db :: "string \<Rightarrow> db"
  dp_sees :: "string \<Rightarrow> bool \<Rightarrow> uuid \<Rightarrow> uuid \<Rightarrow> bool"
  dp_writes :: "string \<Rightarrow> bool \<Rightarrow> uuid \<Rightarrow> uuid \<Rightarrow> bool"
  dp_tenants :: "uuid \<times> uuid"                         \<comment> \<open>CheckRLS\<close>
  dp_canary :: "uuid \<times> uuid"                          \<comment> \<open>CheckCanary: tenant and entity\<close>
  dp_pg :: pg_env
  dp_marshal :: "Bundle \<Rightarrow> string result"
  dp_request :: "string \<Rightarrow> unit result"                \<comment> \<open>http.NewRequest: is the URL one\<close>
  dp_do :: "string \<Rightarrow> string \<Rightarrow> string \<Rightarrow> (int \<times> string) result"  \<comment> \<open>method, URL, body to status, body\<close>
  dp_tables :: unicode_tables
  dp_quote :: "string \<Rightarrow> string"                      \<comment> \<open>\<open>%q\<close>\<close>
  dp_norm_text :: "string \<Rightarrow> rat list \<Rightarrow> string"       \<comment> \<open>the norm as %.4f or %.6g prints it\<close>
  dp_elapsed :: "string \<Rightarrow> string"

subsection \<open>One check\<close>

text \<open>The function that \<open>timed\<close> runs returns a detail, or a remedy and an error.\<close>

type_synonym probe = "(string \<times> string) + string"

definition or_remedy :: "string \<Rightarrow> 'a result \<Rightarrow> (string \<times> string) + 'a" where
  "or_remedy remedy r = (case r of Inl e \<Rightarrow> Inl (remedy, e) | Inr x \<Rightarrow> Inr x)"

definition timed :: "deployment \<Rightarrow> string \<Rightarrow> probe \<Rightarrow> CheckResult" where
  "timed D name r =
     (case r of
        Inl (remedy, e) \<Rightarrow> \<lparr>cr_Name = name, cr_OK = False, cr_Required = False, cr_Detail = e, cr_Remedy = remedy,
          cr_Elapsed = dp_elapsed D name\<rparr>
      | Inr detail \<Rightarrow> \<lparr>cr_Name = name, cr_OK = True, cr_Required = False, cr_Detail = detail, cr_Remedy = [],
          cr_Elapsed = dp_elapsed D name\<rparr>)"

definition defaultString :: "string \<Rightarrow> string \<Rightarrow> string" where
  "defaultString v fallback = (if v = [] then fallback else v)"

definition CheckPostgres :: "deployment \<Rightarrow> doctor_config \<Rightarrow> CheckResult" where
  "CheckPostgres D cfg = timed D ''postgres''
     (rbind (or_remedy ''set FACTVAULT_DATABASE_URL'' (dp_pool D (dc_DatabaseURL cfg))) (\<lambda>_.
      rbind (or_remedy ''run factvault migrate'' (dp_extname D (dc_DatabaseURL cfg))) (\<lambda>_.
        Inr ''pgvector loaded'')))"

definition CheckMigrations :: "deployment \<Rightarrow> doctor_config \<Rightarrow> CheckResult" where
  "CheckMigrations D cfg = timed D ''migrations''
     (rbind (or_remedy ''set FACTVAULT_DATABASE_URL'' (dp_pool D (dc_DatabaseURL cfg))) (\<lambda>_.
      rbind (or_remedy ''run factvault migrate'' (dp_version D (dc_DatabaseURL cfg))) (\<lambda>version.
        if version < 2 then Inl (''run factvault migrate'', ''schema version '' @ itoa version @ '' < 2'')
        else Inr (''schema version '' @ itoa version))))"

subsection \<open>Row-level security\<close>

text \<open>\<open>INSERT INTO entities\<close> with a tenant and a label (and an identifier, or the default), everything else
  \<open>NULL\<close> or defaulted, under the policy of the session.\<close>

definition probe_entity ::
    "(uuid \<Rightarrow> bool) \<Rightarrow> pg_env \<Rightarrow> uuid \<Rightarrow> string \<Rightarrow> string \<Rightarrow> db \<Rightarrow> db result" where
  "probe_entity writable pg i tenantID label d =
     rbind (cast_uuid pg tenantID) (\<lambda>t.
       if \<not> writable t then Err ''new row violates row-level security policy for table entities''
       else if list_ex (\<lambda>e. en_id e = i) (entities d) then Err ''duplicate key value violates unique constraint entities_pkey''
       else if list_ex (\<lambda>e. en_tenant e = t \<and> en_ext_id e = None) (entities d)
       then Err ''duplicate key value violates unique constraint uq_entities_tenant_ext_id''
       else Ok (d\<lparr>entities := entities d @ [\<lparr>en_id = i, en_tenant = t, en_ext_id = None, en_label = label,
              en_type_uri = None, en_description = None, en_embedding = None, en_meta = ''{}'',
              en_created = now d, en_updated = now d\<rparr>],
            next_id := max (next_id d) (Suc i)\<rparr>))"

text \<open>\<open>SELECT count(*) FROM entities WHERE tenant_id IN ($1, $2)\<close>, as the session sees the table.\<close>

definition count_tenants :: "(uuid \<Rightarrow> bool) \<Rightarrow> uuid list \<Rightarrow> db \<Rightarrow> int" where
  "count_tenants sees ts d =
     int (length (filter (\<lambda>e. sees (en_tenant e) \<and> en_tenant e \<in> set ts) (entities d)))"

text \<open>The transaction of \<open>CheckRLS\<close>, always rolled back: the database of the deployment stays as it is.\<close>

definition rls_probe :: "deployment \<Rightarrow> string \<Rightarrow> probe" where
  "rls_probe D dsn =
     (let (a, b) = dp_tenants D; pg = dp_pg D;
          tenantA = uuid_text pg a; tenantB = uuid_text pg b; d = dp_db D dsn;
          guc = or_remedy ''check app.tenant_id GUC'' (dp_exec D dsn ''set_config'')
      in rbind (or_remedy ''check database'' (dp_begin D dsn)) (\<lambda>_.
         rbind (or_remedy ''ensure app_user role exists'' (dp_exec D dsn ''SET LOCAL ROLE app_user'')) (\<lambda>_.
         rbind guc (\<lambda>_.
         rbind (or_remedy ''check schema permissions'' (probe_entity (dp_writes D dsn True a) pg (next_id d) tenantA ''A'' d)) (\<lambda>d1.
         rbind guc (\<lambda>_.
         rbind (or_remedy ''check schema permissions'' (probe_entity (dp_writes D dsn True b) pg (next_id d1) tenantB ''B'' d1)) (\<lambda>d2.
         rbind guc (\<lambda>_.
         rbind (or_remedy ''check RLS policies'' (cast_uuids pg [tenantA, tenantB])) (\<lambda>ts.
           (let count = count_tenants (dp_sees D dsn True a) ts d2
            in if count \<noteq> 1 then Inl (''check tenant_isolation policies'', ''visible rows='' @ itoa count @ '', want 1'')
               else Inr ''cross-tenant row hidden''))))))))))"

definition CheckRLS :: "deployment \<Rightarrow> doctor_config \<Rightarrow> CheckResult" where
  "CheckRLS D cfg = timed D ''rls''
     (rbind (or_remedy ''set FACTVAULT_DATABASE_URL'' (dp_pool D (dc_DatabaseURL cfg))) (\<lambda>_.
        rls_probe D (dc_DatabaseURL cfg)))"

subsection \<open>The services\<close>

definition checkHTTP :: "deployment \<Rightarrow> string \<Rightarrow> string \<Rightarrow> int \<Rightarrow> CheckResult" where
  "checkHTTP D name url want = timed D name
     (rbind (or_remedy ''check URL'' (dp_request D url)) (\<lambda>_.
      rbind (or_remedy ''start dependent service'' (dp_do D ''GET'' url [])) (\<lambda>(status, _).
        if status \<noteq> want then Inl (''check service health'', ''status='' @ itoa status) else Inr url)))"

definition CheckLLM :: "deployment \<Rightarrow> doctor_config \<Rightarrow> CheckResult" where
  "CheckLLM D cfg = checkHTTP D ''llm''
     (trim_right_char CHR ''/'' (defaultString (dc_LLMURL cfg) ''http://localhost:11434/v1'') @ ''/models'') 200"

definition CheckWayback :: "deployment \<Rightarrow> doctor_config \<Rightarrow> CheckResult" where
  "CheckWayback D cfg = checkHTTP D ''wayback''
     (trim_right_char CHR ''/'' (defaultString (dc_WaybackURL cfg) ''https://web.archive.org'') @ ''/'') 200"

text \<open>The least norm for a model, squared (the code compares square roots; sums are exact here), and its label.\<close>

definition normThresholdFor :: "unicode_tables \<Rightarrow> string \<Rightarrow> rat \<times> string" where
  "normThresholdFor U modelName =
     (let lower = to_lower U modelName
      in if sublist ''bge'' lower \<or> sublist ''e5'' lower then (1 / 2, ''BGE/E5 normalised'')
         else (1 / 1000000000, ''non-zero''))"

definition squared_norm :: "rat list \<Rightarrow> rat" where
  "squared_norm vec = foldl (\<lambda>norm v. norm + v * v) 0 vec"

definition info_decoder :: "(string \<times> int) decoder" where
  "info_decoder = dec_struct
     [(''model'', field fst (\<lambda>x (_, n). (x, n)) dec_string), (''dim'', field snd (\<lambda>n (x, _). (x, n)) dec_int)]"

definition vectors_decoder :: "rat go_slice go_slice decoder" where
  "vectors_decoder = dec_struct [(''vectors'', dec_slice ([], []) (dec_slice 0 dec_float))]"

definition decode_reply :: "'a \<Rightarrow> 'a decoder \<Rightarrow> string \<Rightarrow> 'a option" where
  "decode_reply zero dec body = (case Decode_first body of None \<Rightarrow> None | Some j \<Rightarrow> dec zero j)"

text \<open>The model name, if \<open>/info\<close> answers with one; any failure leaves it empty.\<close>

definition embedder_model :: "deployment \<Rightarrow> string \<Rightarrow> string" where
  "embedder_model D base =
     (case rbind (dp_request D (base @ ''/info'')) (\<lambda>_. dp_do D ''GET'' (base @ ''/info'') []) of
        Inl _ \<Rightarrow> []
      | Inr (status, body) \<Rightarrow>
          if status \<noteq> 200 then []
          else (case decode_reply ([], 0) info_decoder body of None \<Rightarrow> [] | Some (model, _) \<Rightarrow> model))"

definition judge_vector :: "deployment \<Rightarrow> string \<Rightarrow> rat list \<Rightarrow> probe" where
  "judge_vector D modelName vec =
     (let (threshold, label) = normThresholdFor (dp_tables D) modelName
      in if length vec \<noteq> 1024
         then Inl (''expect 1024-dim vectors'', ''vector dim='' @ itoa (int (length vec)) @ '', want 1024'')
         else if squared_norm vec < threshold * threshold
         then Inl (''embedder returned near-zero vector '' @ [CHR 0xE2, CHR 0x80, CHR 0x94] @ '' stub still active?'',
                ''vector norm='' @ dp_norm_text D ''%.6g'' vec @ '' < '' @ label @ '' threshold ''
                @ (if threshold = 1 / 2 then ''0.5'' else ''1e-09'') @ '' (model='' @ dp_quote D modelName @ '')'')
         else Inr (''dim=1024 norm='' @ dp_norm_text D ''%.4f'' vec
                @ (if modelName \<noteq> [] then '' model='' @ modelName else [])))"

definition CheckEmbedder :: "deployment \<Rightarrow> doctor_config \<Rightarrow> CheckResult" where
  "CheckEmbedder D cfg = timed D ''embedder''
     (let base = trim_right_char CHR ''/'' (defaultString (dc_EmbedderURL cfg) ''http://localhost:8081'')
      in rbind (or_remedy ''check embedder URL'' (dp_request D (base @ ''/healthz''))) (\<lambda>_.
         rbind (or_remedy ''start embedder service'' (dp_do D ''GET'' (base @ ''/healthz'') [])) (\<lambda>(status, _).
           if status \<noteq> 200
           then Inl (''start embedder service'', ''embedder /healthz returned '' @ itoa status)
           else
             (let modelName = embedder_model D base;
                  probeBody = render (JObj [(''texts'', JArr [JStr ''factvault embedder probe''])])
              in rbind (or_remedy ''check embedder URL'' (dp_request D (base @ ''/embed''))) (\<lambda>_.
                 rbind (or_remedy ''start embedder service'' (dp_do D ''POST'' (base @ ''/embed'') probeBody)) (\<lambda>(status, body).
                   if status \<noteq> 200 then Inl (''check embedder /embed endpoint'', ''embed status='' @ itoa status)
                   else (case decode_reply ([], []) vectors_decoder body of
                           None \<Rightarrow> Inl (''check embedder response format'', ''json: cannot decode the response'')
                         | Some (vectors, _) \<Rightarrow>
                           (case vectors of
                              [] \<Rightarrow> Inl (''embedder returned empty vectors'', ''empty vectors'')
                            | vec # _ \<Rightarrow> judge_vector D modelName (fst vec)))))))))"

subsection \<open>The canary\<close>

text \<open>The session keeps its login role here. The queries of \<open>Assemble\<close> name the tenant themselves, so what a
  role that bypasses the policies returns is what the tenant's own session does.\<close>

definition canary_probe :: "deployment \<Rightarrow> string \<Rightarrow> (string \<times> string) + Bundle" where
  "canary_probe D dsn =
     (let (t, i) = dp_canary D; pg = dp_pg D; tenantID = uuid_text pg t; entityID = uuid_text pg i; d = dp_db D dsn
      in rbind (or_remedy ''check database'' (dp_begin D dsn)) (\<lambda>_.
         rbind (or_remedy ''check app.tenant_id GUC'' (dp_exec D dsn ''set_config'')) (\<lambda>_.
         rbind (or_remedy ''check entity insert''
             (rbind (cast_uuid pg entityID) (\<lambda>e. probe_entity (dp_writes D dsn False t) pg e tenantID ''Canary Entity'' d))) (\<lambda>d1.
           or_remedy ''check assembler'' (Assemble pg t d1 [entityID] 0 tenantID)))))"

definition CheckCanary :: "deployment \<Rightarrow> doctor_config \<Rightarrow> CheckResult" where
  "CheckCanary D cfg = timed D ''canary''
     (rbind (or_remedy ''set FACTVAULT_DATABASE_URL'' (dp_pool D (dc_DatabaseURL cfg))) (\<lambda>_.
      rbind (canary_probe D (dc_DatabaseURL cfg)) (\<lambda>bundle.
      rbind (or_remedy ''marshal bundle'' (dp_marshal D bundle)) (\<lambda>data.
        Inr (''assembled '' @ itoa (int (length data)) @ '' bytes'')))))"

subsection \<open>All checks, and the command\<close>

definition requiredChecks :: "(deployment \<Rightarrow> doctor_config \<Rightarrow> CheckResult) list" where
  "requiredChecks = [CheckPostgres, CheckMigrations, CheckRLS, CheckCanary]"

definition optionalChecks :: "(deployment \<Rightarrow> doctor_config \<Rightarrow> CheckResult) list" where
  "optionalChecks = [CheckLLM, CheckEmbedder, CheckWayback]"

definition RunAll :: "deployment \<Rightarrow> doctor_config \<Rightarrow> CheckResult list" where
  "RunAll D cfg = map (\<lambda>check. (check D cfg)\<lparr>cr_Required := True\<rparr>) requiredChecks
     @ map (\<lambda>check. (check D cfg)\<lparr>cr_Required := False\<rparr>) optionalChecks"

definition AllOK :: "CheckResult list \<Rightarrow> bool" where
  "AllOK results = list_all cr_OK results"

definition RequiredOK :: "CheckResult list \<Rightarrow> bool" where
  "RequiredOK results = list_all (\<lambda>r. \<not> (cr_Required r \<and> \<not> cr_OK r)) results"

definition doctor_line :: "bool \<Rightarrow> CheckResult \<Rightarrow> string" where
  "doctor_line requiredOnly r =
     (let status = (if cr_OK r then ''OK'' else if requiredOnly \<and> \<not> cr_Required r then ''WARN'' else ''FAIL'')
      in cr_Name r @ replicate (28 - length (cr_Name r)) CHR '' '' @ '' '' @ status @ '' '' @ cr_Detail r @ [CHR 0x0A]
         @ (if \<not> cr_OK r \<and> cr_Remedy r \<noteq> [] \<and> (\<not> requiredOnly \<or> cr_Required r)
            then ''  remedy: '' @ cr_Remedy r @ [CHR 0x0A] else []))"

definition doctor_settings :: "host \<Rightarrow> flag \<Rightarrow> flag \<Rightarrow> flag \<Rightarrow> flag \<Rightarrow> doctor_config result" where
  "doctor_settings H dsn llm_url embedder_url wayback_url =
     rbind (ResolveSecret (h_env H) (h_files H) (Some dsn) ''FACTVAULT_DATABASE_URL'' [] False) (\<lambda>databaseURL.
     rbind (if flag_Changed dsn then ValidateDSNNoPassword (h_parse_url H) databaseURL else Ok ()) (\<lambda>_.
     rbind (ResolveStringWithAlias (h_env H) (Some llm_url) ''FACTVAULT_LLM_BASE_URL'' ''FACTVAULT_LLM_URL'' [] False) (\<lambda>(llmURL, isAlias).
     rbind (ResolveString (h_env H) (Some embedder_url) ''FACTVAULT_EMBEDDER_URL'' ''http://localhost:8081'' False) (\<lambda>embedderURL.
     rbind (ResolveString (h_env H) (Some wayback_url) ''FACTVAULT_WAYBACK_URL'' ''https://web.archive.org'' False) (\<lambda>waybackURL.
       Ok \<lparr>dc_DatabaseURL = databaseURL, dc_LLMURL = llmURL, dc_EmbedderURL = embedderURL, dc_WaybackURL = waybackURL\<rparr>)))))"

text \<open>What the command prints on its standard output, and its error.\<close>

definition newDoctorCmd ::
    "host \<Rightarrow> deployment \<Rightarrow> flag \<Rightarrow> flag \<Rightarrow> flag \<Rightarrow> flag \<Rightarrow> bool \<Rightarrow> string \<times> unit result" where
  "newDoctorCmd H D dsn llm_url embedder_url wayback_url requiredOnly =
     (case doctor_settings H dsn llm_url embedder_url wayback_url of
        Inl e \<Rightarrow> ([], Err e)
      | Inr cfg \<Rightarrow>
        (let results = RunAll D cfg
         in (concat (map (doctor_line requiredOnly) results),
             if requiredOnly
             then (if \<not> RequiredOK results then Err ''one or more required doctor checks failed'' else Ok ())
             else if \<not> AllOK results then Err ''one or more doctor checks failed'' else Ok ())))"

subsection \<open>Properties\<close>

lemma timed_OK [simp]: "cr_OK (timed D n r) \<longleftrightarrow> is_ok r"
  by (simp add: timed_def is_ok_def split: sum.split)

lemma or_remedy_simps [simp]: "or_remedy m (Inr x) = Inr x" "or_remedy m (Inl e) = Inl (m, e)" "is_ok (or_remedy m r) \<longleftrightarrow> is_ok r"
  by (simp_all add: or_remedy_def is_ok_def split: sum.split)

text \<open>Exit status 0: the settings resolve and the checks pass, the optional ones only if they count.\<close>

lemma doctor_exit_status:
  "is_ok (snd (newDoctorCmd H D f1 f2 f3 f4 requiredOnly)) \<longleftrightarrow>
     (\<exists>cfg. doctor_settings H f1 f2 f3 f4 = Inr cfg \<and> list_all (\<lambda>check. cr_OK (check D cfg)) requiredChecks
        \<and> (requiredOnly \<or> list_all (\<lambda>check. cr_OK (check D cfg)) optionalChecks))"
  by (cases "doctor_settings H f1 f2 f3 f4")
     (simp_all add: newDoctorCmd_def RunAll_def RequiredOK_def AllOK_def list_all_iff Let_def ball_Un)

lemma probe_entity_fresh:
  assumes "uuid_roundtrip pg" and "\<forall>e\<in>set (entities d). en_id e \<noteq> i \<and> en_tenant e \<noteq> t"
  shows "probe_entity w pg i (uuid_text pg t) label d =
    (if w t then Inr (d\<lparr>entities := entities d @ [\<lparr>en_id = i, en_tenant = t, en_ext_id = None, en_label = label,
        en_type_uri = None, en_description = None, en_embedding = None, en_meta = ''{}'',
        en_created = now d, en_updated = now d\<rparr>], next_id := max (next_id d) (Suc i)\<rparr>)
     else Inl ''new row violates row-level security policy for table entities'')"
proof -
  have "scan_uuid pg (uuid_text pg t) = Some t" using assms(1) by (simp add: uuid_roundtrip_def)
  then show ?thesis using assms(2) by (auto simp: probe_entity_def list_ex_iff)
qed

text \<open>A deployment on which the random identifiers of the two probes are new, as UUIDs are.\<close>

definition probes_fresh :: "deployment \<Rightarrow> string \<Rightarrow> bool" where
  "probes_fresh D dsn \<longleftrightarrow> uuid_roundtrip (dp_pg D) \<and> fst (dp_tenants D) \<noteq> snd (dp_tenants D)
     \<and> list_all (\<lambda>e. en_id e < next_id (dp_db D dsn) \<and> en_id e \<noteq> snd (dp_canary D)
          \<and> en_tenant e \<notin> {fst (dp_tenants D), snd (dp_tenants D), fst (dp_canary D)}) (entities (dp_db D dsn))"

lemma rls_probe_ok:
  assumes fresh: "probes_fresh D dsn" and tenants: "dp_tenants D = (a, b)"
  shows "is_ok (rls_probe D dsn) \<longleftrightarrow> is_ok (dp_begin D dsn) \<and> is_ok (dp_exec D dsn ''SET LOCAL ROLE app_user'')
    \<and> is_ok (dp_exec D dsn ''set_config'') \<and> dp_writes D dsn True a a \<and> dp_writes D dsn True b b
    \<and> (dp_sees D dsn True a a \<noteq> dp_sees D dsn True a b)"
proof (cases "is_ok (dp_begin D dsn) \<and> is_ok (dp_exec D dsn ''SET LOCAL ROLE app_user'') \<and> is_ok (dp_exec D dsn ''set_config'')")
  case False
  then show ?thesis
    by (cases "dp_begin D dsn"; cases "dp_exec D dsn ''SET LOCAL ROLE app_user''"; cases "dp_exec D dsn ''set_config''")
      (simp_all add: rls_probe_def tenants)
next
  case reached: True
  let ?d = "dp_db D dsn" and ?pg = "dp_pg D" and ?s = "dp_sees D dsn True a"
  have rt: "uuid_roundtrip ?pg" and ab: "a \<noteq> b"
    and new: "\<forall>e\<in>set (entities ?d). en_id e < next_id ?d \<and> en_tenant e \<noteq> a \<and> en_tenant e \<noteq> b"
    using fresh by (auto simp: probes_fresh_def tenants list_all_iff)
  obtain u v x where ok: "dp_begin D dsn = Inr u" "dp_exec D dsn ''set_config'' = Inr v"
    "dp_exec D dsn ''SET LOCAL ROLE app_user'' = Inr x"
    using reached by (metis is_ok_simps(1) sum.exhaust)
  have none: "filter (\<lambda>e. ?s (en_tenant e) \<and> (en_tenant e = a \<or> en_tenant e = b)) (entities ?d) = []"
    using new by (auto simp: filter_empty_conv)
  have A: "probe_entity (dp_writes D dsn True a) ?pg (next_id ?d) (uuid_text ?pg a) ''A'' ?d =
    (if dp_writes D dsn True a a then Inr (?d\<lparr>entities := entities ?d @ [\<lparr>en_id = next_id ?d, en_tenant = a, en_ext_id = None,
        en_label = ''A'', en_type_uri = None, en_description = None, en_embedding = None, en_meta = ''{}'',
        en_created = now ?d, en_updated = now ?d\<rparr>], next_id := max (next_id ?d) (Suc (next_id ?d))\<rparr>)
     else Inl ''new row violates row-level security policy for table entities'')" (is "_ = (if _ then Inr ?d1 else _)")
    using new by (intro probe_entity_fresh [OF rt]) auto
  have B: "probe_entity (dp_writes D dsn True b) ?pg (next_id ?d1) (uuid_text ?pg b) ''B'' ?d1 =
    (if dp_writes D dsn True b b then Inr (?d1\<lparr>entities := entities ?d1 @ [\<lparr>en_id = next_id ?d1, en_tenant = b, en_ext_id = None,
        en_label = ''B'', en_type_uri = None, en_description = None, en_embedding = None, en_meta = ''{}'',
        en_created = now ?d1, en_updated = now ?d1\<rparr>], next_id := max (next_id ?d1) (Suc (next_id ?d1))\<rparr>)
     else Inl ''new row violates row-level security policy for table entities'')" (is "_ = (if _ then Inr ?d2 else _)")
    using new ab by (intro probe_entity_fresh [OF rt]) auto
  have count: "count_tenants ?s [a, b] ?d2 = (if ?s a then 1 else 0) + (if ?s b then 1 else 0)"
    by (simp add: count_tenants_def none)
  have ts: "cast_uuids ?pg [uuid_text ?pg a, uuid_text ?pg b] = Inr [a, b]"
    using cast_uuids_text [OF rt, of "[a, b]"] by simp
  show ?thesis
  proof (cases "dp_writes D dsn True a a \<and> dp_writes D dsn True b b")
    case True
    have "is_ok (rls_probe D dsn) \<longleftrightarrow> count_tenants ?s [a, b] ?d2 = 1"
      unfolding rls_probe_def tenants Let_def prod.case ok or_remedy_simps rbind_simps A B ts if_P [OF True [THEN conjunct1]] if_P [OF True [THEN conjunct2]]
      by simp
    with True reached show ?thesis unfolding count by auto
  next
    case False
    then show ?thesis
      unfolding rls_probe_def tenants Let_def prod.case ok or_remedy_simps rbind_simps A
      by (cases "dp_writes D dsn True a a") (simp_all only: if_True if_False rbind_simps or_remedy_simps B is_ok_simps simp_thms)
  qed
qed

lemma canary_probe_ok:
  assumes fresh: "probes_fresh D dsn" and canary: "dp_canary D = (t, i)" and pk: "distinct (map en_id (entities (dp_db D dsn)))"
  shows "is_ok (canary_probe D dsn) \<longleftrightarrow> is_ok (dp_begin D dsn) \<and> is_ok (dp_exec D dsn ''set_config'')
    \<and> dp_writes D dsn False t t"
proof (cases "is_ok (dp_begin D dsn) \<and> is_ok (dp_exec D dsn ''set_config'')")
  case False
  then show ?thesis
    by (cases "dp_begin D dsn"; cases "dp_exec D dsn ''set_config''") (simp_all add: canary_probe_def canary)
next
  case reached: True
  let ?d = "dp_db D dsn" and ?pg = "dp_pg D"
  have rt: "uuid_roundtrip ?pg" and new: "\<forall>e\<in>set (entities ?d). en_id e \<noteq> i \<and> en_tenant e \<noteq> t"
    using fresh by (auto simp: probes_fresh_def canary list_all_iff)
  obtain u v where ok: "dp_begin D dsn = Inr u" "dp_exec D dsn ''set_config'' = Inr v"
    using reached by (metis is_ok_simps(1) sum.exhaust)
  have id_text: "scan_uuid ?pg (uuid_text ?pg x) = Some x" for x using rt by (simp add: uuid_roundtrip_def)
  note ins = probe_entity_fresh [OF rt new, of "dp_writes D dsn False t" "''Canary Entity''"]
  show ?thesis
  proof (cases "dp_writes D dsn False t t")
    case True
    let ?d1 = "?d\<lparr>entities := entities ?d @ [\<lparr>en_id = i, en_tenant = t, en_ext_id = None, en_label = ''Canary Entity'',
        en_type_uri = None, en_description = None, en_embedding = None, en_meta = ''{}'',
        en_created = now ?d, en_updated = now ?d\<rparr>], next_id := max (next_id ?d) (Suc i)\<rparr>"
    have pk1: "distinct (map en_id (entities ?d1))" using pk new by auto
    have "set [i] \<subseteq> tenant_entities t t ?d1" by (force simp: tenant_entities_def)
    moreover have "uniqueStrings [uuid_text ?pg i] = [uuid_text ?pg i]"
      using uuid_text_ne [OF rt, of i] by (intro uniqueStrings_id) simp_all
    moreover have "map (scan_uuid ?pg) [uuid_text ?pg i] = map Some [i]" by (simp add: id_text)
    ultimately have "is_ok (Assemble ?pg t ?d1 [uuid_text ?pg i] 0 (uuid_text ?pg t))"
      unfolding Assemble_is_ok_iff [OF rt pk1]
      by (intro conjI exI [of _ "[uuid_text ?pg i]"] exI [of _ t] exI [of _ "[i]"]) (simp_all add: seed_ids_def id_text cast_uuids_Inr_iff)
    then show ?thesis
      unfolding canary_probe_def canary Let_def prod.case ok or_remedy_simps rbind_simps cast_uuid_ok [OF id_text] ins if_P [OF True]
      using True reached by simp
  next
    case False
    then show ?thesis
      unfolding canary_probe_def canary Let_def prod.case ok or_remedy_simps rbind_simps cast_uuid_ok [OF id_text] ins if_not_P [OF False]
      by simp
  qed
qed


definition healthy :: deployment where
  "healthy = \<lparr>dp_pool = (\<lambda>_. Ok ()), dp_extname = (\<lambda>_. Ok ''vector''), dp_version = (\<lambda>_. Ok 8), dp_begin = (\<lambda>_. Ok ()),
     dp_exec = (\<lambda>_ _. Ok ()), dp_db = (\<lambda>_. empty_db), dp_sees = (\<lambda>_ _ g t. g = t), dp_writes = (\<lambda>_ _ g t. g = t),
     dp_tenants = (1, 2), dp_canary = (3, 4), dp_pg = sample_pg, dp_marshal = (\<lambda>_. Ok ''{}''),
     dp_request = (\<lambda>_. Ok ()), dp_do = (\<lambda>_ _ _. Err ''connection refused''), dp_tables = ascii_tables,
     dp_quote = id, dp_norm_text = (\<lambda>_ _. ''0''), dp_elapsed = (\<lambda>_. ''1ms'')\<rparr>"


text \<open>The canary moves no fact: the bundle it measures has one entity and nothing else, whatever is stored.\<close>

lemma canary_has_no_facts:
  assumes "canary_probe D dsn = Inr b" and "dp_canary D = (t, i)" and "uuid_roundtrip (dp_pg D)"
    and "\<forall>s\<in>set (statements (dp_db D dsn)). st_tenant s \<noteq> t"
  shows "bu_Statements b = [] \<and> bu_Sources b = [] \<and> bu_Qualifiers b = []"
proof -
  let ?pg = "dp_pg D"
  from assms(1,2) obtain d1 where A: "Assemble ?pg t d1 [uuid_text ?pg i] 0 (uuid_text ?pg t) = Inr b"
    and d1: "statements d1 = statements (dp_db D dsn)"
    by (auto simp: canary_probe_def Let_def rbind_Inr_iff or_remedy_def probe_entity_def split: sum.splits if_splits)
  have "scan_uuid ?pg (uuid_text ?pg x) = Some x" for x using assms(3) by (simp add: uuid_roundtrip_def)
  then have "loadBundleStatements ?pg t d1 [uuid_text ?pg i] (uuid_text ?pg t) = Inr ([], [])"
    if "cast_uuids ?pg (uniqueStrings [uuid_text ?pg i]) = Inr ids" for ids
    using assms(4) by (simp add: loadBundleStatements_def that statement_rows_def d1 rls_def filter_empty_conv order_by_def)
  with A show ?thesis
    by (auto simp: Assemble_def rbind_Inr_iff loadBundleEntities_def loadBundleSources_def loadBundleQualifiers_def split: if_splits)
qed

end
