(* ===== verification/Init.thy ===== *)
theory Init
  imports Doctor Examples
begin

text \<open>
  \<open>cmd/factvault/init.go\<close> and \<open>migrate.go\<close>: the commands of the first boot. \<open>init\<close> runs the migrations, writes a
  key pair, runs the checks of \<open>Doctor\<close> and loads an example (\<open>Examples\<close>), in this order and stopping at the
  first error; what earlier steps did stays. The result is the text printed, the files and the database
  left behind, and the error. Goose and the file system's refusals are the argument \<open>init_env\<close>; \<open>Q\<close> is \<open>%q\<close>.
\<close>

record init_env =
  ie_goose :: "string \<Rightarrow> unit result"     \<comment> \<open>open the DSN and migrate up\<close>
  ie_mkdir :: "string \<Rightarrow> unit result"
  ie_write :: "string \<Rightarrow> unit result"     \<comment> \<open>can the file be opened for writing\<close>
  ie_random :: string                    \<comment> \<open>what the random reader yields on this run\<close>

type_synonym files = "string \<rightharpoonup> string"

definition first_set :: "string list \<Rightarrow> string" where
  "first_set vs = (case dropWhile (\<lambda>v. v = []) vs of [] \<Rightarrow> [] | v # _ \<Rightarrow> v)"

definition runMigrations :: "host \<Rightarrow> init_env \<Rightarrow> string \<Rightarrow> unit result" where
  "runMigrations H I dsn0 =
     (let dsn = first_set [dsn0, Getenv (h_env H) ''FACTVAULT_MIGRATE_DATABASE_URL'', Getenv (h_env H) ''FACTVAULT_DATABASE_URL'']
      in if dsn = [] then Err ''database DSN required: set --dsn flag, FACTVAULT_MIGRATE_DATABASE_URL, or FACTVAULT_DATABASE_URL''
         else ie_goose I dsn)"

definition fileNonEmpty :: "files \<Rightarrow> string \<Rightarrow> bool" where
  "fileNonEmpty fs path = (case fs path of None \<Rightarrow> False | Some x \<Rightarrow> x \<noteq> [])"

definition WriteFile :: "init_env \<Rightarrow> string \<Rightarrow> string \<Rightarrow> files \<Rightarrow> files \<times> unit result" where
  "WriteFile I path data fs = (case ie_write I path of Inl e \<Rightarrow> (fs, Err e) | Inr _ \<Rightarrow> (fs(path \<mapsto> data), Ok ()))"

definition private_path :: "string \<Rightarrow> string" where "private_path keyDir = Join_path [keyDir, ''private.pem'']"
definition public_path :: "string \<Rightarrow> string" where "public_path keyDir = Join_path [keyDir, ''public.pem'']"

definition initKeys :: "init_env \<Rightarrow> crypto \<Rightarrow> string \<Rightarrow> files \<Rightarrow> files \<times> unit result" where
  "initKeys I K keyDir fs =
     (if fileNonEmpty fs (private_path keyDir) \<and> fileNonEmpty fs (public_path keyDir) then (fs, Ok ())
      else
        (case ie_mkdir I keyDir of
           Inl e \<Rightarrow> (fs, Err e)
         | Inr _ \<Rightarrow>
           (case GenerateKeyPair K (ie_random I) of
              Inl e \<Rightarrow> (fs, Err e)
            | Inr (privatePEM, publicPEM) \<Rightarrow>
                if pem_decode K privatePEM = None then (fs, Err ''generated private key is not valid PEM'')
                else if pem_decode K publicPEM = None then (fs, Err ''generated public key is not valid PEM'')
                else
                  (case WriteFile I (private_path keyDir) privatePEM fs of
                     (fs1, Inl e) \<Rightarrow> (fs1, Err e)
                   | (fs1, Inr _) \<Rightarrow> WriteFile I (public_path keyDir) publicPEM fs1))))"

subsection \<open>The command\<close>

record init_flags =
  if_dsn :: flag
  if_tenant :: flag
  if_key_dir :: flag
  if_example :: string
  if_skip_example :: bool
  if_skip_migrate :: bool

definition init_settings :: "host \<Rightarrow> init_flags \<Rightarrow> (string \<times> string \<times> string) result" where
  "init_settings H fl =
     rbind (checked_dsn H (if_dsn fl)) (\<lambda>dsn.
     rbind (ResolveString (h_env H) (Some (if_tenant fl)) ''FACTVAULT_DEV_TENANT_ID'' ''11111111-1111-1111-1111-111111111111'' False) (\<lambda>tenantID.
     rbind (ResolveString (h_env H) (Some (if_key_dir fl)) ''FACTVAULT_AUTH_DIR'' ''.local'' False) (\<lambda>keyDir.
       Ok (dsn, tenantID, keyDir))))"

definition init_doctor_config :: "host \<Rightarrow> string \<Rightarrow> doctor_config result" where
  "init_doctor_config H dsn =
     rbind (ResolveStringWithAlias (h_env H) None ''FACTVAULT_LLM_BASE_URL'' ''FACTVAULT_LLM_URL'' [] False) (\<lambda>(llmURL, isAlias).
     rbind (ResolveString (h_env H) None ''FACTVAULT_EMBEDDER_URL'' ''http://localhost:8081'' False) (\<lambda>embedderURL.
     rbind (ResolveString (h_env H) None ''FACTVAULT_WAYBACK_URL'' ''https://web.archive.org'' False) (\<lambda>waybackURL.
       Ok \<lparr>dc_DatabaseURL = dsn, dc_LLMURL = llmURL, dc_EmbedderURL = embedderURL, dc_WaybackURL = waybackURL\<rparr>)))"

definition line :: "string \<Rightarrow> string" where
  "line s = s @ [CHR 0x0A]"

definition init_check_line :: "CheckResult \<Rightarrow> string" where
  "init_check_line r = line (''    '' @ cr_Name r @ replicate (28 - length (cr_Name r)) CHR '' '' @ '' ''
     @ (if cr_OK r then ''OK'' else if \<not> cr_Required r then ''WARN'' else ''FAIL'') @ '' '' @ cr_Detail r)"

definition keygen_step :: "init_env \<Rightarrow> crypto \<Rightarrow> string \<Rightarrow> files \<Rightarrow> string \<times> files \<times> unit result" where
  "keygen_step I K keyDir fs =
     (if fileNonEmpty fs (private_path keyDir) \<and> fileNonEmpty fs (public_path keyDir)
      then (line (''==> JWT keys already exist in '' @ keyDir @ '' '' @ [CHR 0xE2, CHR 0x80, CHR 0x94] @ '' skipping keygen''), fs, Ok ())
      else
        (let head = line (''==> Generating JWT keys in '' @ keyDir)
         in case initKeys I K keyDir fs of
              (fs1, Inl e) \<Rightarrow> (head, fs1, Err (''keygen: '' @ e))
            | (fs1, Inr _) \<Rightarrow> (head @ line (''    private.pem: '' @ private_path keyDir)
                 @ line (''    public.pem:  '' @ public_path keyDir), fs1, Ok ())))"

definition example_step ::
    "host \<Rightarrow> example_files \<Rightarrow> (string \<Rightarrow> string) \<Rightarrow> pg_env \<Rightarrow> init_flags \<Rightarrow> string \<Rightarrow> string \<Rightarrow> db \<Rightarrow> string \<times> db \<times> unit result" where
  "example_step H F Q pg fl dsn tenantID d =
     (if \<not> if_skip_example fl \<and> if_example fl \<noteq> [] then
        (let head = line (''==> Loading example '' @ Q (if_example fl) @ '' for tenant '' @ tenantID)
         in case Load F ''examples'' (if_example fl) of
              Inl e \<Rightarrow> (head, d, Err (''load example: '' @ e))
            | Inr ex \<Rightarrow>
              (case h_new_pool H dsn of
                 Inl e \<Rightarrow> (head, d, Err (''connect db: '' @ e))
               | Inr _ \<Rightarrow>
                 (case Insert_example pg True ex tenantID d of
                    Inl e \<Rightarrow> (head, d, Err (''insert example: '' @ e))
                  | Inr d1 \<Rightarrow> (head @ line (''    loaded '' @ ex_Name ex @ '': '' @ itoa (int (length (ex_Properties ex)))
                        @ '' properties, '' @ itoa (int (length (ex_Seeds ex))) @ '' seeds''), d1, Ok ()))))
      else ([], d, Ok ()))"

definition next_steps :: "string \<Rightarrow> string \<Rightarrow> string" where
  "next_steps keyDir tenantID =
     [CHR 0x0A] @ line ''==> Next steps'' @ line ''    Start the API:''
     @ line (''      ./bin/factvault api --jwt-public-key '' @ public_path keyDir)
     @ line ''    Obtain a dev auth token:''
     @ line (''      ./bin/factvault auth token --tenant '' @ tenantID @ '' --jwt-private-key '' @ private_path keyDir)
     @ line ''    Run the worker pipeline:''
     @ line (''      ./bin/factvault worker dossier --tenant '' @ tenantID)"

text \<open>The checks see the database as it is then.\<close>

definition newInitCmd ::
    "host \<Rightarrow> init_env \<Rightarrow> crypto \<Rightarrow> deployment \<Rightarrow> example_files \<Rightarrow> (string \<Rightarrow> string) \<Rightarrow> init_flags \<Rightarrow> files \<Rightarrow> db
       \<Rightarrow> string \<times> files \<times> db \<times> unit result" where
  "newInitCmd H I K D F Q fl fs d =
     (case init_settings H fl of
        Inl e \<Rightarrow> ([], fs, d, Err e)
      | Inr (dsn, tenantID, keyDir) \<Rightarrow>
        (let out0 = (if if_skip_migrate fl then [] else line ''==> Running database migrations'')
         in case (if if_skip_migrate fl then Ok () else runMigrations H I dsn) of
              Inl e \<Rightarrow> (out0, fs, d, Err (''migrate: '' @ e))
            | Inr _ \<Rightarrow>
              (case keygen_step I K keyDir fs of
                 (out1, fs1, Inl e) \<Rightarrow> (out0 @ out1, fs1, d, Err e)
               | (out1, fs1, Inr _) \<Rightarrow>
                 (let out2 = out0 @ out1 @ line ''==> Running health checks''
                  in case init_doctor_config H dsn of
                       Inl e \<Rightarrow> (out2, fs1, d, Err e)
                     | Inr cfg \<Rightarrow>
                       (let results = RunAll (D\<lparr>dp_db := \<lambda>_. d\<rparr>) cfg;
                            out3 = out2 @ concat (map init_check_line results)
                        in if \<not> RequiredOK results
                           then (out3, fs1, d, Err ''one or more required health checks failed; fix them before proceeding'')
                           else
                             (case example_step H F Q (dp_pg D) fl dsn tenantID d of
                                (out4, d1, Inl e) \<Rightarrow> (out3 @ out4, fs1, d1, Err e)
                              | (out4, d1, Inr _) \<Rightarrow> (out3 @ out4 @ next_steps keyDir tenantID, fs1, d1, Ok ())))))))"

subsection \<open>Properties\<close>

lemma fileNonEmpty_update: "fileNonEmpty (fs(p \<mapsto> x)) q \<longleftrightarrow> (if q = p then x \<noteq> [] else fileNonEmpty fs q)"
  by (simp add: fileNonEmpty_def)

text \<open>After a key step without error both key files are there.\<close>

lemma keygen_step_keys:
  assumes "keygen_step I K keyDir fs = (out, fs1, Ok ())" and "pem_decode K [] = None"
  shows "fileNonEmpty fs1 (private_path keyDir) \<and> fileNonEmpty fs1 (public_path keyDir)"
proof (cases "fileNonEmpty fs (private_path keyDir) \<and> fileNonEmpty fs (public_path keyDir)")
  case False
  then obtain a b where g: "pem_decode K a \<noteq> None" "pem_decode K b \<noteq> None"
      and fs1: "fs1 = fs(private_path keyDir \<mapsto> a, public_path keyDir \<mapsto> b)"
    using assms(1) by (auto simp: keygen_step_def initKeys_def WriteFile_def Let_def split: sum.splits if_splits prod.splits)
  from g assms(2) have "a \<noteq> []" "b \<noteq> []" by auto
  then show ?thesis by (simp add: fs1 fileNonEmpty_update)
qed (use assms in \<open>simp add: keygen_step_def\<close>)

lemma keygen_step_present:
  "fileNonEmpty fs (private_path keyDir) \<Longrightarrow> fileNonEmpty fs (public_path keyDir) \<Longrightarrow> fst (snd (keygen_step I K keyDir fs)) = fs"
  by (simp add: keygen_step_def)

lemma example_step_again:
  assumes "example_step H F Q pg fl dsn tenantID d = (out, d1, Ok ())"
  shows "\<exists>n out'. example_step H F Q pg fl dsn tenantID d1 = (out', d1\<lparr>next_id := n\<rparr>, Ok ())"
proof (cases "\<not> if_skip_example fl \<and> if_example fl \<noteq> []")
  case True
  with assms obtain ex u where "Load F ''examples'' (if_example fl) = Inr ex" "h_new_pool H dsn = Inr u"
    "Insert_example pg True ex tenantID d = Inr d1"
    by (auto simp: example_step_def Let_def split: sum.splits)
  with example_load_idempotent [OF this(3)] True show ?thesis by (auto simp: example_step_def Let_def)
next
  case False
  then have "example_step H F Q pg fl dsn tenantID d1 = ([], d1\<lparr>next_id := next_id d1\<rparr>, Ok ())"
    by (auto simp: example_step_def)
  then show ?thesis by blast
qed

lemma example_step_error:
  "example_step H F Q pg fl dsn tenantID d = (out, d1, Err e) \<Longrightarrow> d1 = d"
  by (auto simp: example_step_def Let_def split: sum.splits if_splits)

text \<open>The course of a run, from the key step on.\<close>

lemma newInitCmd_ok:
  assumes "newInitCmd H I K D F Q fl fs d = (out, fs1, d1, Ok ())"
  obtains dsn tenantID keyDir o1 o2 where "init_settings H fl = Inr (dsn, tenantID, keyDir)"
    "keygen_step I K keyDir fs = (o1, fs1, Ok ())" "example_step H F Q (dp_pg D) fl dsn tenantID d = (o2, d1, Ok ())"
  using assms by (auto simp: newInitCmd_def Let_def split: sum.splits prod.splits if_splits)

lemma newInitCmd_files:
  assumes "init_settings H fl = Inr (dsn, tenantID, keyDir)"
    and "fileNonEmpty fs (private_path keyDir)" "fileNonEmpty fs (public_path keyDir)"
  shows "fst (snd (newInitCmd H I K D F Q fl fs d)) = fs"
  using keygen_step_present [OF assms(2,3), of I K]
  by (auto simp: newInitCmd_def assms(1) Let_def split: sum.splits prod.splits)

lemma newInitCmd_db:
  assumes "init_settings H fl = Inr (dsn, tenantID, keyDir)"
  shows "fst (snd (snd (newInitCmd H I K D F Q fl fs d))) \<in> {d, fst (snd (example_step H F Q (dp_pg D) fl dsn tenantID d))}"
  by (auto simp: newInitCmd_def assms Let_def split: sum.splits prod.splits)

text \<open>C37. Running \<open>factvault init\<close> again. After a run that succeeded, another run with the same settings and
  example files - with whatever migrations, health checks and file system, and with other random
  bytes, of which a fresh pair of keys would be made - leaves the key files and every row of the
  database as they are, whether it succeeds or not.\<close>

theorem init_rerun_changes_nothing:
  assumes "newInitCmd H I K D F Q fl fs d = (out, fs1, d1, Ok ())" and "pem_decode K [] = None"
    and "newInitCmd H I' K D' F Q fl fs1 d1 = (out2, fs2, d2, r)" and "dp_pg D' = dp_pg D"
  shows "fs2 = fs1 \<and> (\<exists>n. d2 = d1\<lparr>next_id := n\<rparr>)"
proof -
  from assms(1) obtain dsn tenantID keyDir o1 o2 where s: "init_settings H fl = Inr (dsn, tenantID, keyDir)"
    and k: "keygen_step I K keyDir fs = (o1, fs1, Ok ())"
    and e: "example_step H F Q (dp_pg D) fl dsn tenantID d = (o2, d1, Ok ())" by (rule newInitCmd_ok)
  from newInitCmd_files [OF s, of fs1 I' K D' F Q d1] keygen_step_keys [OF k assms(2)] assms(3)
  have "fs2 = fs1" by simp
  moreover obtain n out' where "example_step H F Q (dp_pg D) fl dsn tenantID d1 = (out', d1\<lparr>next_id := n\<rparr>, Ok ())"
    using example_step_again [OF e] by blast
  with newInitCmd_db [OF s, of I' K D' F Q fs1 d1] assms(3,4)
  have "d2 = d1\<lparr>next_id := next_id d1\<rparr> \<or> d2 = d1\<lparr>next_id := n\<rparr>" by auto
  ultimately show ?thesis by blast
qed

text \<open>A run that fails stores nothing; keys it wrote before stay.\<close>

theorem init_failure_keeps_database:
  assumes "newInitCmd H I K D F Q fl fs d = (out, fs1, d1, Err e)"
  shows "d1 = d"
  using assms by (auto simp: newInitCmd_def Let_def split: sum.splits prod.splits if_splits dest: example_step_error)

text \<open>A lone key file is not kept: unless both are there, both are written.\<close>

theorem lone_key_is_replaced:
  assumes "\<not> fileNonEmpty fs (public_path keyDir)" and "ie_mkdir I keyDir = Ok ()" and "\<forall>p. ie_write I p = Ok ()"
    and "GenerateKeyPair K (ie_random I) = Inr (a, b)" and "pem_decode K a \<noteq> None" and "pem_decode K b \<noteq> None"
  shows "initKeys I K keyDir fs = (fs(private_path keyDir \<mapsto> a, public_path keyDir \<mapsto> b), Ok ())"
  using assms by (auto simp: initKeys_def WriteFile_def)

text \<open>The migrations of \<open>init\<close>. They run on the DSN of the running program; the DSN that
  \<open>FACTVAULT_MIGRATE_DATABASE_URL\<close> gives to \<open>factvault migrate\<close> has no effect on \<open>init\<close> unless the other is empty.\<close>

theorem init_ignores_migrate_dsn:
  assumes "\<And>dsn tenantID keyDir. init_settings H fl = Inr (dsn, tenantID, keyDir) \<Longrightarrow> dsn \<noteq> []"
  shows "newInitCmd (H\<lparr>h_env := (h_env H)(''FACTVAULT_MIGRATE_DATABASE_URL'' := v)\<rparr>) I K D F Q fl fs d
    = newInitCmd H I K D F Q fl fs d"
proof -
  let ?H = "H\<lparr>h_env := (h_env H)(''FACTVAULT_MIGRATE_DATABASE_URL'' := v)\<rparr>"
  have s: "init_settings ?H fl = init_settings H fl"
    by (simp add: init_settings_def checked_dsn_def ResolveSecret_def ResolveString_def Let_def)
  have c: "init_doctor_config ?H dsn = init_doctor_config H dsn" for dsn
    by (simp add: init_doctor_config_def ResolveString_def ResolveStringWithAlias_def cong: option.case_cong)
  have "h_new_pool ?H = h_new_pool H" by simp
  then have e: "example_step ?H F Q pg fl dsn tenantID d = example_step H F Q pg fl dsn tenantID d" for pg dsn tenantID
    by (simp only: example_step_def)
  have m: "runMigrations ?H I dsn = runMigrations H I dsn" if "dsn \<noteq> []" for dsn
    using that by (simp add: runMigrations_def first_set_def)
  show ?thesis
  proof (cases "init_settings H fl")
    case (Inr x)
    obtain dsn tenantID keyDir where x: "x = (dsn, tenantID, keyDir)" by (cases x)
    with assms Inr have "dsn \<noteq> []" by simp
    then show ?thesis by (simp only: newInitCmd_def s Inr x c e m [OF \<open>dsn \<noteq> []\<close>] sum.case prod.case)
  qed (simp add: newInitCmd_def s)
qed

subsection \<open>A first boot\<close>

definition boot_host :: host where
  "boot_host = \<lparr>h_env = [''FACTVAULT_DATABASE_URL'' \<mapsto> ''app'', ''FACTVAULT_DEV_TENANT_ID'' \<mapsto> ''u''], h_files = Map.empty,
     h_parse_url = (\<lambda>_. Err ''no url''), h_new_pool = (\<lambda>_. Ok ()), h_stdin = Ok [], h_clock = 0\<rparr>"

definition boot_env :: init_env where
  "boot_env = \<lparr>ie_goose = (\<lambda>dsn. if dsn = ''admin'' then Ok () else Err ''permission denied to create extension''),
     ie_mkdir = (\<lambda>_. Ok ()), ie_write = (\<lambda>_. Ok ()), ie_random = []\<rparr>"

definition boot_crypto :: crypto where
  "boot_crypto = toy_crypto\<lparr>pem_decode := \<lambda>s. if s = [] then None else Some s\<rparr>"

definition boot_flags :: init_flags where
  "boot_flags = \<lparr>if_dsn = unset_flag ''dsn'', if_tenant = unset_flag ''tenant'', if_key_dir = unset_flag ''key-dir'',
     if_example = ''demo'', if_skip_example = False, if_skip_migrate = True\<rparr>"

definition demo_tree :: example_files where
  "demo_tree = \<lparr>xf_ReadDir = (\<lambda>_. Ok [(''demo'', True)]), xf_ReadFile = (\<lambda>_. Ok []), xf_Glob = (\<lambda>_. Ok []),
     xf_IsDir = (\<lambda>_. Ok False), xf_properties = (\<lambda>_. Ok (ex_Properties demo_example)), xf_seeds = (\<lambda>_. Ok (ex_Seeds demo_example))\<rparr>"

text \<open>The keys that the first boot makes of \<open>boot_env\<close>'s random bytes.\<close>

definition boot_keys :: files where
  "boot_keys = [private_path ''.local'' \<mapsto> nat_digits 7, public_path ''.local'' \<mapsto> nat_digits 7]"

lemma boot_settings: "init_settings boot_host boot_flags = Inr (''app'', ''u'', ''.local'')"
  by (simp add: init_settings_def checked_dsn_def ResolveSecret_def ResolveString_def boot_host_def boot_flags_def unset_flag_def Let_def)

lemma boot_checks:
  "init_doctor_config boot_host dsn = Inr \<lparr>dc_DatabaseURL = dsn, dc_LLMURL = [],
     dc_EmbedderURL = ''http://localhost:8081'', dc_WaybackURL = ''https://web.archive.org''\<rparr>"
  "RequiredOK (RunAll (healthy\<lparr>dp_db := \<lambda>_. empty_db\<rparr>) \<lparr>dc_DatabaseURL = ''app'', dc_LLMURL = [],
     dc_EmbedderURL = ''http://localhost:8081'', dc_WaybackURL = ''https://web.archive.org''\<rparr>)"
  by (simp add: init_doctor_config_def ResolveString_def ResolveStringWithAlias_def boot_host_def) code_simp

lemma demo_tree_loads: "\<exists>p. Load demo_tree ''examples'' ''demo'' = Inr (demo_example\<lparr>ex_Path := p\<rparr>)"
  by (simp add: Load_def readYAML_def demo_tree_def demo_example_def Let_def)

lemma boot_example:
  "\<exists>out. example_step boot_host demo_tree id sample_pg boot_flags ''app'' ''u'' empty_db = (out, load_rows 1 demo_example empty_db, Ok ())"
proof -
  obtain p where p: "Load demo_tree ''examples'' ''demo'' = Inr (demo_example\<lparr>ex_Path := p\<rparr>)" using demo_tree_loads by blast
  have "Insert_example sample_pg True (demo_example\<lparr>ex_Path := p\<rparr>) ''u'' empty_db = Inr (load_rows 1 demo_example empty_db)"
    using demo_example_loads by (simp add: Insert_example_def)
  then show ?thesis by (simp add: example_step_def boot_flags_def p boot_host_def Let_def)
qed

lemma boot_run:
  "\<exists>out. newInitCmd boot_host boot_env boot_crypto healthy demo_tree id boot_flags Map.empty empty_db
     = (out, boot_keys, load_rows 1 demo_example empty_db, Ok ())"
proof -
  have "GenerateKeyPair boot_crypto [] = Inr (nat_digits 7, nat_digits 7)" "nat_digits 7 \<noteq> []"
    by (simp_all add: GenerateKeyPair_def boot_crypto_def toy_crypto_def) code_simp
  moreover from this have decodes: "pem_decode boot_crypto (nat_digits 7) \<noteq> None" by (simp add: boot_crypto_def)
  ultimately obtain o1 where "keygen_step boot_env boot_crypto ''.local'' Map.empty = (o1, boot_keys, Ok ())"
    by (simp add: keygen_step_def initKeys_def fileNonEmpty_def boot_env_def WriteFile_def boot_keys_def
        decodes Let_def)
  moreover obtain o2 where "example_step boot_host demo_tree id sample_pg boot_flags ''app'' ''u'' empty_db
      = (o2, load_rows 1 demo_example empty_db, Ok ())" using boot_example by blast
  moreover have "dp_pg healthy = sample_pg" "if_skip_migrate boot_flags" by (simp_all add: healthy_def boot_flags_def)
  ultimately show ?thesis by (simp add: newInitCmd_def boot_settings boot_checks Let_def)
qed

theorem init_rerun_changes_nothing_witness:
  "fst (snd (newInitCmd boot_host (boot_env\<lparr>ie_random := ''other''\<rparr>) boot_crypto healthy demo_tree id boot_flags
      boot_keys (load_rows 1 demo_example empty_db))) = boot_keys
   \<and> GenerateKeyPair boot_crypto ''other'' \<noteq> GenerateKeyPair boot_crypto (ie_random boot_env)"
proof -
  let ?I = "boot_env\<lparr>ie_random := ''other''\<rparr>"
  obtain out where run: "newInitCmd boot_host boot_env boot_crypto healthy demo_tree id boot_flags Map.empty empty_db
     = (out, boot_keys, load_rows 1 demo_example empty_db, Ok ())" using boot_run by blast
  obtain out2 fs2 d2 r where again: "newInitCmd boot_host ?I boot_crypto healthy demo_tree id boot_flags boot_keys
      (load_rows 1 demo_example empty_db) = (out2, fs2, d2, r)" by (metis prod_cases4)
  have "pem_decode boot_crypto [] = None" by (simp add: boot_crypto_def)
  from init_rerun_changes_nothing [OF run this again refl]
  have "fst (snd (newInitCmd boot_host ?I boot_crypto healthy demo_tree id boot_flags
      boot_keys (load_rows 1 demo_example empty_db))) = boot_keys" using again by simp
  moreover have "GenerateKeyPair boot_crypto ''other'' \<noteq> GenerateKeyPair boot_crypto (ie_random boot_env)" by code_simp
  ultimately show ?thesis ..
qed

theorem app_user_cannot_migrate:
  "snd (snd (snd (newInitCmd (boot_host\<lparr>h_env := (h_env boot_host)(''FACTVAULT_MIGRATE_DATABASE_URL'' := Some ''admin'')\<rparr>)
      boot_env boot_crypto healthy demo_tree id (boot_flags\<lparr>if_skip_migrate := False\<rparr>) Map.empty empty_db)))
    = Err ''migrate: permission denied to create extension''"
proof -
  have s: "init_settings boot_host (boot_flags\<lparr>if_skip_migrate := False\<rparr>) = Inr (''app'', ''u'', ''.local'')"
    using boot_settings by (simp add: init_settings_def)
  have m: "runMigrations boot_host boot_env ''app'' = Err ''permission denied to create extension''"
    by (simp add: runMigrations_def first_set_def boot_env_def)
  show ?thesis
    by (subst init_ignores_migrate_dsn) (simp_all add: s newInitCmd_def m Let_def)
qed

end
