(* ===== verification/Sqlite.thy ===== *)
theory Sqlite
  imports Serve "HOL-Library.Multiset" "HOL-Library.Option_ord"
begin

text \<open>
  \<open>internal/store/sqlite\<close> and \<open>internal/store/config.go\<close>: the optional store in a SQLite file, a build with the tag
  \<open>sqlite\<close>. Rows hold text, \<open>NULL\<close> is \<open>None\<close>, and the functions here turn them into the row types of
  \<open>internal/db/models.go\<close>; a value that does not parse becomes the invalid value, never an error. There is no
  row-level security: a query sees the whole table. The \<open>Scan\<close> methods of \<open>pgtype\<close> (\<open>scan_env\<close>), the functions of
  \<open>sqlite-vec\<close> (\<open>sqlite_env\<close>), the order in which SQLite gives rows that its \<open>ORDER BY\<close> does not tell apart
  (\<open>sq_order\<close>) and the effect of a migration's SQL are arguments.
\<close>

subsection \<open>Choosing a backend\<close>

definition BackendPostgres :: string where "BackendPostgres = ''postgres''"
definition BackendSQLite :: string where "BackendSQLite = ''sqlite''"

text \<open>\<open>sqliteAvailable\<close> is the build tag, \<open>Q\<close> is \<open>%q\<close>.\<close>

definition ParseBackend :: "(string \<Rightarrow> string) \<Rightarrow> bool \<Rightarrow> string \<Rightarrow> string result" where
  "ParseBackend Q sqliteAvailable v =
     (if v = [] \<or> v = BackendPostgres then Ok BackendPostgres
      else if v = BackendSQLite then
        (if \<not> sqliteAvailable then Err (''unsupported store backend '' @ Q v @ '': rebuild with -tags sqlite and CGO enabled'')
         else Ok BackendSQLite)
      else Err (''unsupported store backend '' @ Q v @ '': expected postgres or sqlite''))"

subsection \<open>Vectors\<close>

text \<open>A vector is the bits of its \<open>float32\<close> values. \<open>decodeVector\<close> reads four bytes a value, the lowest first.\<close>

type_synonym vec = "32 word list"

definition byte_word :: "char \<Rightarrow> 32 word" where
  "byte_word c = word_of_int (byte c)"

unbundle bit_operations_syntax

definition join_word :: "char \<Rightarrow> char \<Rightarrow> char \<Rightarrow> char \<Rightarrow> 32 word" where
  "join_word a b c d = byte_word a OR push_bit 8 (byte_word b) OR push_bit 16 (byte_word c) OR push_bit 24 (byte_word d)"

fun read_words :: "string \<Rightarrow> vec" where
  "read_words (a # b # c # d # r) = join_word a b c d # read_words r"
| "read_words _ = []"

definition decodeVector :: "string \<Rightarrow> vec result" where
  "decodeVector v =
     (if length v mod 4 \<noteq> 0 then Err (''sqlite vector blob length '' @ itoa (int (length v)) @ '' is not divisible by 4'') else Ok (read_words v))"

definition parseVector :: "string option \<Rightarrow> vec" where
  "parseVector v =
     (case v of
        None \<Rightarrow> []
      | Some b \<Rightarrow> if b = [] then [] else (case decodeVector b of Inl _ \<Rightarrow> [] | Inr floats \<Rightarrow> floats))"

subsection \<open>Rows of the file, and what they are read as\<close>

record sq_entity =
  qe_id :: "string option"
  qe_tenant :: string
  qe_ext_id :: "string option"
  qe_label :: string
  qe_type_uri :: "string option"
  qe_description :: "string option"
  qe_embedding :: "string option"
  qe_meta :: string
  qe_created :: string
  qe_updated :: string

record sq_property =
  qp_id :: "string option"
  qp_tenant :: "string option"
  qp_slug :: string
  qp_label :: string
  qp_value_type :: string
  qp_description :: "string option"

record sq_qualifier =
  qq_id :: "string option"
  qq_statement :: string
  qq_property :: string
  qq_val_text :: "string option"
  qq_val_number :: "string option"
  qq_val_date :: "string option"
  qq_val_entity :: "string option"

record sq_source =
  qs_id :: "string option"
  qs_tenant :: string
  qs_url :: string
  qs_fetched_at :: string
  qs_content_hash :: string
  qs_raw_html :: "string option"
  qs_raw_text :: "string option"
  qs_archive_url :: "string option"
  qs_publisher :: "string option"
  qs_title :: "string option"
  qs_published_at :: "string option"
  qs_embedding :: "string option"
  qs_last_verified_at :: "string option"
  qs_status :: string
  qs_created :: string

record sq_statement =
  qt_id :: "string option"
  qt_tenant :: string
  qt_subject :: string
  qt_property :: string
  qt_val_entity :: "string option"
  qt_val_text :: "string option"
  qt_val_number :: "string option"
  qt_val_date :: "string option"
  qt_val_json :: "string option"
  qt_rank :: string
  qt_confidence :: string
  qt_embedding :: "string option"
  qt_created :: string

record sq_tables =
  q_entities :: "sq_entity list"
  q_properties :: "sq_property list"
  q_qualifiers :: "sq_qualifier list"
  q_sources :: "sq_source list"
  q_statements :: "sq_statement list"

text \<open>The \<open>Scan\<close> methods of \<open>pgtype\<close> and \<open>UUID.String\<close>. They are Go code and not Postgres's casts: \<open>Timestamptz.Scan\<close>
  reads the text form in which Postgres prints a time, and not the \<open>2024-01-01T00:00:00.000Z\<close> that the
  column defaults of \<open>migrations.go\<close> write. A UUID that is not valid is \<open>None\<close>; its text is empty.\<close>

record scan_env =
  UUID_Scan :: "string \<Rightarrow> uuid option"
  UUID_String :: "uuid \<Rightarrow> string"
  Numeric_Scan :: "string \<Rightarrow> string option"
  Timestamptz_Scan :: "string \<Rightarrow> int option"

text \<open>Documented of \<open>UUID\<close>: \<open>Scan\<close> reads what \<open>String\<close> writes, and not the empty text.\<close>

definition scan_roundtrip :: "scan_env \<Rightarrow> bool" where
  "scan_roundtrip S \<longleftrightarrow> (\<forall>u. UUID_Scan S (UUID_String S u) = Some u) \<and> UUID_Scan S [] = None"

lemma UUID_String_inj: "scan_roundtrip S \<Longrightarrow> UUID_String S a = UUID_String S b \<longleftrightarrow> a = b"
  unfolding scan_roundtrip_def by (metis option.inject)

lemma UUID_String_ne: "scan_roundtrip S \<Longrightarrow> UUID_String S u \<noteq> []"
  unfolding scan_roundtrip_def by (metis option.distinct(1))

record sqlite_env =
  se_scan :: scan_env
  se_distance :: "string \<Rightarrow> string \<Rightarrow> rat option result"   \<comment> \<open>vec_distance_cosine\<close>
  se_serialize :: "vec \<Rightarrow> string result"                  \<comment> \<open>SerializeFloat32\<close>

record sq_Entity =
  E_ID :: "uuid option"
  E_TenantID :: "uuid option"
  E_ExtID :: "string option"
  E_Label :: string
  E_TypeUri :: "string option"
  E_Description :: "string option"
  E_Embedding :: vec
  E_Meta :: string
  E_CreatedAt :: "int option"
  E_UpdatedAt :: "int option"

record sq_Property =
  P_ID :: "uuid option"
  P_TenantID :: "uuid option"
  P_Slug :: string
  P_Label :: string
  P_ValueType :: string
  P_Description :: "string option"

record sq_Qualifier =
  Q_ID :: "uuid option"
  Q_StatementID :: "uuid option"
  Q_PropertyID :: "uuid option"
  Q_ValText :: "string option"
  Q_ValNumber :: "string option"
  Q_ValDate :: "int option"
  Q_ValEntity :: "uuid option"

record sq_Source =
  S_ID :: "uuid option"
  S_TenantID :: "uuid option"
  S_Url :: string
  S_FetchedAt :: "int option"
  S_ContentHash :: string
  S_RawHtml :: "string option"
  S_RawText :: "string option"
  S_ArchiveUrl :: "string option"
  S_Publisher :: "string option"
  S_Title :: "string option"
  S_PublishedAt :: "int option"
  S_Embedding :: vec
  S_LastVerifiedAt :: "int option"
  S_Status :: string
  S_CreatedAt :: "int option"
  S_Meta :: string

record sq_Statement =
  T_ID :: "uuid option"
  T_TenantID :: "uuid option"
  T_SubjectID :: "uuid option"
  T_PropertyID :: "uuid option"
  T_ValEntity :: "uuid option"
  T_ValText :: "string option"
  T_ValNumber :: "string option"
  T_ValDate :: "int option"
  T_ValJson :: "string option"
  T_Rank :: string
  T_Confidence :: "string option"
  T_Embedding :: vec
  T_CreatedAt :: "int option"

definition uuidString :: "scan_env \<Rightarrow> uuid option \<Rightarrow> string" where
  "uuidString S i = (case i of None \<Rightarrow> [] | Some u \<Rightarrow> UUID_String S u)"

definition parseUUID :: "scan_env \<Rightarrow> string \<Rightarrow> uuid option" where
  "parseUUID S v = UUID_Scan S v"

definition null_string :: "string option \<Rightarrow> string" where
  "null_string v = (case v of None \<Rightarrow> [] | Some x \<Rightarrow> x)"

definition parseNullableUUID :: "scan_env \<Rightarrow> string option \<Rightarrow> uuid option" where
  "parseNullableUUID S v = (case v of None \<Rightarrow> None | Some x \<Rightarrow> if x = [] then None else parseUUID S x)"

definition parseText :: "string option \<Rightarrow> string option" where
  "parseText v = v"

definition parseNumeric :: "scan_env \<Rightarrow> string option \<Rightarrow> string option" where
  "parseNumeric S v = (case v of None \<Rightarrow> None | Some x \<Rightarrow> if x = [] then None else Numeric_Scan S x)"

definition parseTimestamptz :: "scan_env \<Rightarrow> string option \<Rightarrow> int option" where
  "parseTimestamptz S v = (case v of None \<Rightarrow> None | Some x \<Rightarrow> if x = [] then None else Timestamptz_Scan S x)"

definition defaultJSON :: "string \<Rightarrow> string" where
  "defaultJSON v = (if v = [] \<or> Unmarshal v = None then ''{}'' else v)"

definition scanEntity :: "scan_env \<Rightarrow> sq_entity \<Rightarrow> sq_Entity" where
  "scanEntity S r =
     \<lparr>E_ID = parseUUID S (null_string (qe_id r)), E_TenantID = parseUUID S (qe_tenant r), E_ExtID = parseText (qe_ext_id r),
      E_Label = qe_label r, E_TypeUri = parseText (qe_type_uri r), E_Description = parseText (qe_description r),
      E_Embedding = parseVector (qe_embedding r), E_Meta = defaultJSON (qe_meta r),
      E_CreatedAt = parseTimestamptz S (Some (qe_created r)), E_UpdatedAt = parseTimestamptz S (Some (qe_updated r))\<rparr>"

definition scanProperty :: "scan_env \<Rightarrow> sq_property \<Rightarrow> sq_Property" where
  "scanProperty S r =
     \<lparr>P_ID = parseUUID S (null_string (qp_id r)), P_TenantID = parseNullableUUID S (qp_tenant r), P_Slug = qp_slug r,
      P_Label = qp_label r, P_ValueType = qp_value_type r, P_Description = parseText (qp_description r)\<rparr>"

definition scanQualifier :: "scan_env \<Rightarrow> sq_qualifier \<Rightarrow> sq_Qualifier" where
  "scanQualifier S r =
     \<lparr>Q_ID = parseUUID S (null_string (qq_id r)), Q_StatementID = parseUUID S (qq_statement r),
      Q_PropertyID = parseUUID S (qq_property r), Q_ValText = parseText (qq_val_text r),
      Q_ValNumber = parseNumeric S (qq_val_number r), Q_ValDate = parseTimestamptz S (qq_val_date r),
      Q_ValEntity = parseNullableUUID S (qq_val_entity r)\<rparr>"

text \<open>The SQLite query has no column \<open>meta\<close>: the field keeps its zero value.\<close>

definition scanSource :: "scan_env \<Rightarrow> sq_source \<Rightarrow> sq_Source" where
  "scanSource S r =
     \<lparr>S_ID = parseUUID S (null_string (qs_id r)), S_TenantID = parseUUID S (qs_tenant r), S_Url = qs_url r,
      S_FetchedAt = parseTimestamptz S (Some (qs_fetched_at r)), S_ContentHash = qs_content_hash r,
      S_RawHtml = qs_raw_html r, S_RawText = parseText (qs_raw_text r), S_ArchiveUrl = parseText (qs_archive_url r),
      S_Publisher = parseText (qs_publisher r), S_Title = parseText (qs_title r),
      S_PublishedAt = parseTimestamptz S (qs_published_at r), S_Embedding = parseVector (qs_embedding r),
      S_LastVerifiedAt = parseTimestamptz S (qs_last_verified_at r), S_Status = qs_status r,
      S_CreatedAt = parseTimestamptz S (Some (qs_created r)), S_Meta = []\<rparr>"

definition scanStatement :: "scan_env \<Rightarrow> sq_statement \<Rightarrow> sq_Statement" where
  "scanStatement S r =
     \<lparr>T_ID = parseUUID S (null_string (qt_id r)), T_TenantID = parseUUID S (qt_tenant r),
      T_SubjectID = parseUUID S (qt_subject r), T_PropertyID = parseUUID S (qt_property r),
      T_ValEntity = parseNullableUUID S (qt_val_entity r), T_ValText = parseText (qt_val_text r),
      T_ValNumber = parseNumeric S (qt_val_number r), T_ValDate = parseTimestamptz S (qt_val_date r),
      T_ValJson = qt_val_json r, T_Rank = qt_rank r, T_Confidence = parseNumeric S (Some (qt_confidence r)),
      T_Embedding = parseVector (qt_embedding r), T_CreatedAt = parseTimestamptz S (Some (qt_created r))\<rparr>"

subsection \<open>Queries\<close>

text \<open>How SQLite arranges the rows of each query: some permutation of them that satisfies its \<open>ORDER BY\<close>. Rows with
  equal keys come in any order, and so do all rows of the query for qualifiers, which has no \<open>ORDER BY\<close>.\<close>

record sq_order =
  qo_entities :: "sq_entity list \<Rightarrow> sq_entity list"
  qo_properties :: "sq_property list \<Rightarrow> sq_property list"
  qo_qualifiers :: "sq_qualifier list \<Rightarrow> sq_qualifier list"
  qo_sources :: "sq_source list \<Rightarrow> sq_source list"
  qo_statements :: "sq_statement list \<Rightarrow> sq_statement list"
  qo_nearest :: "(rat option \<times> sq_entity) list \<Rightarrow> (rat option \<times> sq_entity) list"

definition arranges :: "('r \<Rightarrow> 'r \<Rightarrow> bool) \<Rightarrow> ('r list \<Rightarrow> 'r list) \<Rightarrow> bool" where
  "arranges le arr \<longleftrightarrow> (\<forall>rows. mset (arr rows) = mset rows \<and> sorted_wrt le (arr rows))"

text \<open>\<open>TEXT\<close> columns compare byte by byte; \<open>NULL\<close> comes first.\<close>

definition sqlite_orders :: "sq_order \<Rightarrow> bool" where
  "sqlite_orders R \<longleftrightarrow> arranges (\<lambda>a b. qe_created b \<le> qe_created a) (qo_entities R)
     \<and> arranges (\<lambda>a b. qp_slug a \<le> qp_slug b) (qo_properties R)
     \<and> arranges (\<lambda>_ _. True) (qo_qualifiers R)
     \<and> arranges (\<lambda>a b. qs_fetched_at b \<le> qs_fetched_at a) (qo_sources R)
     \<and> arranges (\<lambda>a b. qt_created b \<le> qt_created a) (qo_statements R)
     \<and> arranges (\<lambda>(x, a) (y, b). x < y \<or> x = y \<and> qe_created b \<le> qe_created a) (qo_nearest R)"

definition GetEntity :: "scan_env \<Rightarrow> sq_tables \<Rightarrow> uuid option \<Rightarrow> sq_Entity result" where
  "GetEntity S Q i =
     (case filter (\<lambda>r. qe_id r = Some (uuidString S i)) (q_entities Q) of
        [] \<Rightarrow> Err ''sql: no rows in result set''
      | r # _ \<Rightarrow> Ok (scanEntity S r))"

definition ListEntitiesByTenant :: "scan_env \<Rightarrow> sq_order \<Rightarrow> sq_tables \<Rightarrow> uuid option \<Rightarrow> sq_Entity list" where
  "ListEntitiesByTenant S R Q tenantID =
     map (scanEntity S) (qo_entities R (filter (\<lambda>r. qe_tenant r = uuidString S tenantID) (q_entities Q)))"

definition ListPropertiesByTenant :: "scan_env \<Rightarrow> sq_order \<Rightarrow> sq_tables \<Rightarrow> uuid option \<Rightarrow> sq_Property list" where
  "ListPropertiesByTenant S R Q tenantID =
     map (scanProperty S) (qo_properties R
       (filter (\<lambda>r. qp_tenant r = Some (uuidString S tenantID) \<or> qp_tenant r = None) (q_properties Q)))"

definition ListQualifiersByStatement :: "scan_env \<Rightarrow> sq_order \<Rightarrow> sq_tables \<Rightarrow> uuid option \<Rightarrow> sq_Qualifier list" where
  "ListQualifiersByStatement S R Q statementID =
     map (scanQualifier S) (qo_qualifiers R (filter (\<lambda>r. qq_statement r = uuidString S statementID) (q_qualifiers Q)))"

definition ListSourcesByTenant :: "scan_env \<Rightarrow> sq_order \<Rightarrow> sq_tables \<Rightarrow> uuid option \<Rightarrow> sq_Source list" where
  "ListSourcesByTenant S R Q tenantID =
     map (scanSource S) (qo_sources R (filter (\<lambda>r. qs_tenant r = uuidString S tenantID) (q_sources Q)))"

definition ListStatementsBySubject :: "scan_env \<Rightarrow> sq_order \<Rightarrow> sq_tables \<Rightarrow> uuid option \<Rightarrow> sq_Statement list" where
  "ListStatementsBySubject S R Q subjectID =
     map (scanStatement S) (qo_statements R (filter (\<lambda>r. qt_subject r = uuidString S subjectID) (q_statements Q)))"

definition EncodeVector :: "sqlite_env \<Rightarrow> vec \<Rightarrow> string result" where
  "EncodeVector E v = (case se_serialize E v of Inl e \<Rightarrow> Err (''panic: encode sqlite vector: '' @ e) | Inr b \<Rightarrow> Ok b)"

text \<open>Each row of the query with its distance; a \<open>NULL\<close> distance scores 0. A distance that fails (two lengths)
  fails the query. The subtraction is exact here.\<close>

fun with_distances :: "sqlite_env \<Rightarrow> string \<Rightarrow> sq_entity list \<Rightarrow> (rat option \<times> sq_entity) list result" where
  "with_distances E q [] = Ok []"
| "with_distances E q (r # rs) =
     rbind (se_distance E (null_string (qe_embedding r)) q) (\<lambda>x.
     rbind (with_distances E q rs) (\<lambda>xs. Ok ((x, r) # xs)))"

definition sq_score :: "rat option \<Rightarrow> rat" where
  "sq_score x = (case x of None \<Rightarrow> 0 | Some y \<Rightarrow> 1 - y)"

definition sq_SearchNearest ::
    "sqlite_env \<Rightarrow> sq_order \<Rightarrow> sq_tables \<Rightarrow> uuid option \<Rightarrow> vec \<Rightarrow> int \<Rightarrow> (sq_Entity \<times> rat) list result" where
  "sq_SearchNearest E R Q tenantID embedding k =
     (if k \<le> 0 then Err ''limit must be greater than zero''
      else rbind (EncodeVector E embedding) (\<lambda>queryVector.
           rbind (with_distances E queryVector
               (filter (\<lambda>r. qe_tenant r = uuidString (se_scan E) tenantID \<and> qe_embedding r \<noteq> None) (q_entities Q))) (\<lambda>rows.
             Ok (map (\<lambda>(x, r). (scanEntity (se_scan E) r, sq_score x)) (take (nat k) (qo_nearest R rows))))))"

subsection \<open>Migrations\<close>

text \<open>The file as \<open>migrate\<close> sees it: the recorded versions and everything else. \<open>run\<close> is the effect of the SQL of
  a migration, by its name.\<close>

record migration =
  mg_version :: int
  mg_name :: string

record 's sqlite_file =
  sf_versions :: "(int \<times> string) list"
  sf_schema :: 's

definition migrations :: "migration list" where
  "migrations = [\<lparr>mg_version = 1, mg_name = ''initial_schema''\<rparr>, \<lparr>mg_version = 2, mg_name = ''sqlite_vec_probe''\<rparr>]"

definition migrationApplied :: "int \<Rightarrow> 's sqlite_file \<Rightarrow> bool" where
  "migrationApplied v f \<longleftrightarrow> list_ex (\<lambda>(w, _). w = v) (sf_versions f)"

text \<open>One transaction.\<close>

definition applyMigration :: "(string \<Rightarrow> 's \<Rightarrow> 's result) \<Rightarrow> migration \<Rightarrow> 's sqlite_file \<Rightarrow> 's sqlite_file result" where
  "applyMigration run m f =
     (case run (mg_name m) (sf_schema f) of
        Inl e \<Rightarrow> Err (''apply sqlite migration '' @ itoa (mg_version m) @ '' '' @ mg_name m @ '': '' @ e)
      | Inr s \<Rightarrow>
          if migrationApplied (mg_version m) f
          then Err (''record sqlite migration '' @ itoa (mg_version m) @ '': UNIQUE constraint failed'')
          else Ok (f\<lparr>sf_versions := sf_versions f @ [(mg_version m, mg_name m)], sf_schema := s\<rparr>))"

definition migrate_step :: "(string \<Rightarrow> 's \<Rightarrow> 's result) \<Rightarrow> migration \<Rightarrow> 's sqlite_file \<Rightarrow> 's sqlite_file result" where
  "migrate_step run m f = (if migrationApplied (mg_version m) f then Ok f else applyMigration run m f)"

text \<open>\<open>migrate\<close>: the migrations before a failing one stay. \<open>prepared\<close> is the outcome of the three
  statements before the loop (foreign keys on, the probe \<open>vec_version()\<close>, the table \<open>schema_migrations\<close>).\<close>

definition migrate :: "unit result \<Rightarrow> (string \<Rightarrow> 's \<Rightarrow> 's result) \<Rightarrow> 's sqlite_file \<Rightarrow> 's sqlite_file \<times> string option" where
  "migrate prepared run f =
     (case prepared of
        Inl e \<Rightarrow> (f, Some e)
      | Inr _ \<Rightarrow> commit_each (migrate_step run) migrations f)"

subsection \<open>Properties\<close>

text \<open>\<open>float32\<close> bits in little-endian order, as \<open>sqlite-vec\<close> stores them.\<close>

definition le_bytes :: "32 word \<Rightarrow> string" where
  "le_bytes w = map (\<lambda>k. char_of (uint (drop_bit k w))) [0, 8, 16, 24]"

lemma byte_word_char: "byte_word (char_of (uint w)) = take_bit 8 w"
proof -
  have "byte (char_of (uint w)) = uint w mod 256" by (simp add: byte_def)
  also have "\<dots> = uint (take_bit 8 w)" by (simp add: unsigned_take_bit_eq) (simp add: take_bit_eq_mod)
  finally show ?thesis by (simp add: byte_word_def)
qed

lemma char_byte_word: "char_of (uint (byte_word c)) = c"
proof -
  have "byte c mod 4294967296 = byte c" using byte_bounds [of c] by simp
  then have "uint (byte_word c) = byte c" by (simp add: byte_word_def uint_word_of_int)
  then show ?thesis by (simp add: byte_def)
qed

lemma byte_word_take: "take_bit 8 (byte_word c) = byte_word c"
  by (metis byte_word_char char_byte_word)

lemma bit_byte_word: "bit (byte_word c) n \<Longrightarrow> n < 8"
  by (metis byte_word_take bit_take_bit_iff)

lemma join_le_bytes:
  "join_word (char_of (uint (drop_bit 0 w))) (char_of (uint (drop_bit 8 w)))
     (char_of (uint (drop_bit 16 w))) (char_of (uint (drop_bit 24 w))) = w"
  unfolding join_word_def byte_word_char
proof (rule bit_word_eqI)
  fix n assume "n < LENGTH(32)"
  then consider "n < 8" | "8 \<le> n" "n < 16" | "16 \<le> n" "n < 24" | "24 \<le> n" "n < 32" by fastforce
  then show "bit (take_bit 8 (drop_bit 0 w) OR push_bit 8 (take_bit 8 (drop_bit 8 w)) OR
      push_bit 16 (take_bit 8 (drop_bit 16 w)) OR push_bit 24 (take_bit 8 (drop_bit 24 w))) n = bit w n"
    by cases (auto simp: bit_or_iff bit_take_bit_iff bit_push_bit_iff bit_drop_bit_eq)
qed

lemma drop_join_word:
  "take_bit 8 (drop_bit 0 (join_word a b c d)) = byte_word a" "take_bit 8 (drop_bit 8 (join_word a b c d)) = byte_word b"
  "take_bit 8 (drop_bit 16 (join_word a b c d)) = byte_word c" "take_bit 8 (drop_bit 24 (join_word a b c d)) = byte_word d"
  unfolding join_word_def
  by (rule bit_word_eqI; auto simp: bit_or_iff bit_take_bit_iff bit_push_bit_iff bit_drop_bit_eq dest: bit_byte_word)+

lemma le_bytes_join: "le_bytes (join_word a b c d) = [a, b, c, d]"
proof -
  have c: "char_of (uint w) = char_of (uint (take_bit 8 w))" for w :: "32 word"
    by (simp add: byte_word_char [symmetric] char_byte_word)
  show ?thesis unfolding le_bytes_def list.map by (simp only: c [of "drop_bit _ _"] drop_join_word char_byte_word)
qed

text \<open>Embeddings survive the store. \<open>decodeVector\<close> accepts a blob exactly if it is the little-endian bytes of
  32-bit values, and returns those: no bit of a vector changes on the way through the file, and no two vectors
  share a blob.\<close>

lemma decodeVector_exact: "decodeVector b = Inr v \<longleftrightarrow> b = concat (map le_bytes v)"
proof
  assume "decodeVector b = Inr v"
  then have "length b mod 4 = 0" and v: "v = read_words b" by (auto simp: decodeVector_def split: if_splits)
  then show "b = concat (map le_bytes v)"
    by (induction b arbitrary: v rule: read_words.induct) (auto simp: le_bytes_join)
next
  assume b: "b = concat (map le_bytes v)"
  have "length b mod 4 = 0 \<and> read_words b = v"
    unfolding b by (induction v) (simp_all add: le_bytes_def join_le_bytes [simplified])
  then show "decodeVector b = Inr v" by (simp add: decodeVector_def)
qed

text \<open>The listings by tenant return rows of that tenant only (for properties also the global ones), and so does
  the vector search, at most \<open>k\<close> of them.\<close>

lemma arranges_set: "arranges le arr \<Longrightarrow> set (arr rows) = set rows"
  unfolding arranges_def by (metis mset_eq_setD)

lemma with_distances_rows: "with_distances E q rs = Inr xs \<Longrightarrow> map snd xs = rs"
  by (induction rs arbitrary: xs) (auto simp: rbind_Inr_iff)

theorem sqlite_lists_own_rows:
  assumes "scan_roundtrip S" and "sqlite_orders R"
  shows "(\<forall>e\<in>set (ListEntitiesByTenant S R Q (Some t)). E_TenantID e = Some t)
    \<and> (\<forall>s\<in>set (ListSourcesByTenant S R Q (Some t)). S_TenantID s = Some t)
    \<and> (\<forall>p\<in>set (ListPropertiesByTenant S R Q (Some t)). P_TenantID p \<in> {Some t, None})
    \<and> (\<forall>hits. se_scan E = S \<longrightarrow> sq_SearchNearest E R Q (Some t) v k = Inr hits \<longrightarrow>
         length hits \<le> nat k \<and> (\<forall>(e, x)\<in>set hits. E_TenantID e = Some t))"
proof -
  have id: "UUID_Scan S (UUID_String S u) = Some u" for u using assms(1) by (simp add: scan_roundtrip_def)
  have sets: "set (qo_entities R es) = set es" "set (qo_sources R ss) = set ss" "set (qo_properties R ps) = set ps"
    "set (qo_nearest R hs) = set hs" for es ss ps hs
    using assms(2) by (auto simp: sqlite_orders_def arranges_set)
  have near: "length hits \<le> nat k \<and> (\<forall>(e, x)\<in>set hits. E_TenantID e = Some t)"
    if E: "se_scan E = S" and h: "sq_SearchNearest E R Q (Some t) v k = Inr hits" for hits
  proof -
    from h obtain q rows where
      rows: "with_distances E q (filter (\<lambda>r. qe_tenant r = UUID_String S t \<and> qe_embedding r \<noteq> None) (q_entities Q)) = Inr rows"
      and hits: "hits = map (\<lambda>(x, r). (scanEntity S r, sq_score x)) (take (nat k) (qo_nearest R rows))"
      by (auto simp: sq_SearchNearest_def rbind_Inr_iff uuidString_def E split: if_splits)
    have own: "qe_tenant r = UUID_String S t" if "(x, r) \<in> set rows" for x r
    proof -
      have "r \<in> set (map snd rows)" using that by force
      then show ?thesis unfolding with_distances_rows [OF rows] by simp
    qed
    show ?thesis
      by (auto simp: hits scanEntity_def parseUUID_def id sets dest!: in_set_takeD own)
  qed
  moreover have "\<forall>p\<in>set (ListPropertiesByTenant S R Q (Some t)). P_TenantID p \<in> {Some t, None}"
    using UUID_String_ne [OF assms(1), of t]
    by (auto simp: ListPropertiesByTenant_def scanProperty_def uuidString_def parseNullableUUID_def parseUUID_def id sets)
  ultimately show ?thesis
    by (auto simp: ListEntitiesByTenant_def scanEntity_def ListSourcesByTenant_def scanSource_def uuidString_def parseUUID_def
        id sets)
qed

text \<open>The other three queries take no tenant, and nothing stands in for row-level security: an identifier is enough
  to read a row of any tenant.\<close>

theorem sqlite_reads_by_identifier:
  assumes "scan_roundtrip S" and "sqlite_orders R" and "r \<in> set (q_entities Q)" and "qe_id r = Some (UUID_String S i)"
    and "s \<in> set (q_statements Q)" and "qt_subject s = UUID_String S i"
  shows "is_ok (GetEntity S Q (Some i)) \<and> scanStatement S s \<in> set (ListStatementsBySubject S R Q (Some i))"
proof -
  have "r \<in> set (filter (\<lambda>r. qe_id r = Some (uuidString S (Some i))) (q_entities Q))"
    using assms(3,4) by (simp add: uuidString_def)
  then have "is_ok (GetEntity S Q (Some i))"
    by (cases "filter (\<lambda>r. qe_id r = Some (uuidString S (Some i))) (q_entities Q)") (simp_all add: GetEntity_def)
  moreover have "set (qo_statements R rows) = set rows" for rows
    using assms(2) by (auto simp: sqlite_orders_def arranges_set)
  then have "scanStatement S s \<in> set (ListStatementsBySubject S R Q (Some i))"
    using assms(5,6) by (simp add: ListStatementsBySubject_def uuidString_def)
  ultimately show ?thesis ..
qed

text \<open>A row that SQLite itself stamped has lost its times when it is read, if \<open>Scan\<close> does not read that form.\<close>

theorem default_times_lost:
  assumes "Timestamptz_Scan S (qs_fetched_at r) = None" and "Timestamptz_Scan S (qs_created r) = None"
  shows "S_FetchedAt (scanSource S r) = None \<and> S_CreatedAt (scanSource S r) = None \<and> S_Meta (scanSource S r) = []"
  using assms by (simp add: scanSource_def parseTimestamptz_def)

text \<open>Opening a file again: a migration that is recorded is never run again, and after one complete run nothing
  more happens. Versions stay distinct.\<close>

lemma migrate_step_cases:
  "migrate_step run m f = Inr g \<Longrightarrow> g = f \<and> migrationApplied (mg_version m) f
     \<or> \<not> migrationApplied (mg_version m) f \<and> sf_versions g = sf_versions f @ [(mg_version m, mg_name m)]"
  by (auto simp: migrate_step_def applyMigration_def split: sum.splits if_splits)

lemma migrate_steps_again:
  assumes "commit_each (migrate_step run) ms f = (g, None)"
  shows "(\<forall>v. migrationApplied v f \<longrightarrow> migrationApplied v g) \<and> (\<forall>m\<in>set ms. migrationApplied (mg_version m) g)"
  using assms
proof (induction ms arbitrary: f)
  case (Cons m ms)
  then obtain h where h: "migrate_step run m f = Inr h" "commit_each (migrate_step run) ms h = (g, None)"
    by (auto split: sum.splits)
  have "migrationApplied (mg_version m) h" "\<And>v. migrationApplied v f \<Longrightarrow> migrationApplied v h"
    using migrate_step_cases [OF h(1)] by (auto simp: migrationApplied_def)
  with Cons.IH [OF h(2)] show ?case by auto
qed simp

theorem sqlite_migrations_once:
  assumes "migrate (Ok ()) run f = (g, None)"
  shows "migrate (Ok ()) run' g = (g, None)"
proof -
  have "\<forall>m\<in>set migrations. migrationApplied (mg_version m) g"
    using assms migrate_steps_again [of run migrations f g] by (simp add: migrate_def)
  then show ?thesis by (simp add: migrate_def migrations_def migrate_step_def)
qed

theorem sqlite_versions_distinct:
  assumes "distinct (map fst (sf_versions f))"
  shows "distinct (map fst (sf_versions (fst (migrate v run f))))"
proof -
  have "distinct (map fst (sf_versions (fst (commit_each (migrate_step run) migrations f))))"
    by (rule commit_each_inv [where P = "\<lambda>f. distinct (map fst (sf_versions f))", OF _ assms])
      (force dest!: migrate_step_cases simp: migrationApplied_def list_ex_iff split_def)
  with assms show ?thesis by (simp add: migrate_def split: sum.split)
qed

end
