(* ===== verification/Stores.thy ===== *)
theory Stores
  imports Sqlite
begin

text \<open>
  The two stores behind \<open>internal/store/store.go\<close>: the queries of \<open>internal/db/*.sql.go\<close> as the Postgres store
  hands them on (\<open>internal/store/postgres/backend.go\<close>), run by a session of one tenant under row-level
  security, against those of \<open>Sqlite\<close>. On a SQLite file that mirrors the tables both give the same rows, but
  for a source's \<open>Meta\<close>, which SQLite drops, and in the same order where \<open>ORDER BY\<close> decides it: rows with
  equal times, the qualifiers, and the properties under another collation may come in another order.
\<close>

subsection \<open>The queries of the Postgres store\<close>

text \<open>How values that the two stores keep in different form correspond: the text of a time, of a
  confidence, and the \<open>float32\<close> bits of an embedding.\<close>

record forms =
  tf_time :: "int \<Rightarrow> string"
  tf_conf :: "rat \<Rightarrow> string"
  tf_bits :: "rat list \<Rightarrow> vec"

definition row_vector :: "forms \<Rightarrow> rat list option \<Rightarrow> vec" where
  "row_vector F v = (case v of None \<Rightarrow> [] | Some x \<Rightarrow> tf_bits F x)"

definition pg_Entity :: "forms \<Rightarrow> entity_row \<Rightarrow> sq_Entity" where
  "pg_Entity F e =
     \<lparr>E_ID = Some (en_id e), E_TenantID = Some (en_tenant e), E_ExtID = en_ext_id e, E_Label = en_label e,
      E_TypeUri = en_type_uri e, E_Description = en_description e, E_Embedding = row_vector F (en_embedding e),
      E_Meta = en_meta e, E_CreatedAt = Some (en_created e), E_UpdatedAt = Some (en_updated e)\<rparr>"

definition pg_Property :: "property_row \<Rightarrow> sq_Property" where
  "pg_Property p =
     \<lparr>P_ID = Some (pp_id p), P_TenantID = pp_tenant p, P_Slug = pp_slug p, P_Label = pp_label p,
      P_ValueType = pp_value_type p, P_Description = pp_description p\<rparr>"

definition pg_Qualifier :: "qualifier_row \<Rightarrow> sq_Qualifier" where
  "pg_Qualifier q =
     \<lparr>Q_ID = Some (qu_id q), Q_StatementID = Some (qu_statement q), Q_PropertyID = Some (qu_property q),
      Q_ValText = qu_val_text q, Q_ValNumber = qu_val_number q, Q_ValDate = qu_val_date q, Q_ValEntity = qu_val_entity q\<rparr>"

definition pg_Source :: "forms \<Rightarrow> source_row \<Rightarrow> sq_Source" where
  "pg_Source F s =
     \<lparr>S_ID = Some (so_id s), S_TenantID = Some (so_tenant s), S_Url = so_url s, S_FetchedAt = Some (so_fetched_at s),
      S_ContentHash = so_content_hash s, S_RawHtml = so_raw_html s, S_RawText = so_raw_text s, S_ArchiveUrl = so_archive_url s,
      S_Publisher = so_publisher s, S_Title = so_title s, S_PublishedAt = so_published_at s,
      S_Embedding = row_vector F (so_embedding s), S_LastVerifiedAt = so_last_verified_at s, S_Status = so_status s,
      S_CreatedAt = Some (so_created s), S_Meta = so_meta s\<rparr>"

text \<open>The field that SQLite drops.\<close>

definition drop_meta :: "sq_Source \<Rightarrow> sq_Source" where
  "drop_meta s = s\<lparr>S_Meta := []\<rparr>"

definition pg_Statement :: "forms \<Rightarrow> statement_row \<Rightarrow> sq_Statement" where
  "pg_Statement F s =
     \<lparr>T_ID = Some (st_id s), T_TenantID = Some (st_tenant s), T_SubjectID = Some (st_subject s),
      T_PropertyID = Some (st_property s), T_ValEntity = st_val_entity s, T_ValText = st_val_text s,
      T_ValNumber = st_val_number s, T_ValDate = st_val_date s, T_ValJson = st_val_json s, T_Rank = st_rank s,
      T_Confidence = Some (tf_conf F (st_confidence s)), T_Embedding = row_vector F (st_embedding s),
      T_CreatedAt = Some (st_created s)\<rparr>"

text \<open>How Postgres arranges the rows of each query. Text compares under the collation \<open>coll\<close> of the database.\<close>

record pg_order =
  po_entities :: "entity_row list \<Rightarrow> entity_row list"
  po_properties :: "property_row list \<Rightarrow> property_row list"
  po_qualifiers :: "qualifier_row list \<Rightarrow> qualifier_row list"
  po_sources :: "source_row list \<Rightarrow> source_row list"
  po_statements :: "statement_row list \<Rightarrow> statement_row list"

definition pg_orders :: "(string \<Rightarrow> string \<Rightarrow> bool) \<Rightarrow> pg_order \<Rightarrow> bool" where
  "pg_orders coll P \<longleftrightarrow> arranges (\<lambda>a b. en_created b \<le> en_created a) (po_entities P)
     \<and> arranges (\<lambda>a b. coll (pp_slug a) (pp_slug b)) (po_properties P)
     \<and> arranges (\<lambda>_ _. True) (po_qualifiers P)
     \<and> arranges (\<lambda>a b. so_fetched_at b \<le> so_fetched_at a) (po_sources P)
     \<and> arranges (\<lambda>a b. st_created b \<le> st_created a) (po_statements P)"

text \<open>\<open>t\<close> is the tenant of the session.\<close>

definition pg_GetEntity :: "forms \<Rightarrow> uuid \<Rightarrow> db \<Rightarrow> uuid \<Rightarrow> sq_Entity result" where
  "pg_GetEntity F t d i =
     (case filter (\<lambda>e. en_id e = i) (rls en_tenant t (entities d)) of
        [] \<Rightarrow> Err ''no rows in result set''
      | e # _ \<Rightarrow> Ok (pg_Entity F e))"

definition pg_ListEntitiesByTenant :: "forms \<Rightarrow> pg_order \<Rightarrow> uuid \<Rightarrow> db \<Rightarrow> uuid \<Rightarrow> sq_Entity list" where
  "pg_ListEntitiesByTenant F P t d tenantID =
     map (pg_Entity F) (po_entities P (filter (\<lambda>e. en_tenant e = tenantID) (rls en_tenant t (entities d))))"

definition pg_ListPropertiesByTenant :: "pg_order \<Rightarrow> uuid \<Rightarrow> db \<Rightarrow> uuid \<Rightarrow> sq_Property list" where
  "pg_ListPropertiesByTenant P t d tenantID =
     map pg_Property (po_properties P
       (filter (\<lambda>p. pp_tenant p = Some tenantID \<or> pp_tenant p = None) (rls_properties t (properties d))))"

definition pg_ListQualifiersByStatement :: "pg_order \<Rightarrow> uuid \<Rightarrow> db \<Rightarrow> uuid \<Rightarrow> sq_Qualifier list" where
  "pg_ListQualifiersByStatement P t d statementID =
     map pg_Qualifier (po_qualifiers P (filter (\<lambda>q. qu_statement q = statementID)
       (rls_qualifiers (rls st_tenant t (statements d)) (qualifiers d))))"

definition pg_ListSourcesByTenant :: "forms \<Rightarrow> pg_order \<Rightarrow> uuid \<Rightarrow> db \<Rightarrow> uuid \<Rightarrow> sq_Source list" where
  "pg_ListSourcesByTenant F P t d tenantID =
     map (pg_Source F) (po_sources P (filter (\<lambda>s. so_tenant s = tenantID) (rls so_tenant t (sources d))))"

definition pg_ListStatementsBySubject :: "forms \<Rightarrow> pg_order \<Rightarrow> uuid \<Rightarrow> db \<Rightarrow> uuid \<Rightarrow> sq_Statement list" where
  "pg_ListStatementsBySubject F P t d subjectID =
     map (pg_Statement F) (po_statements P (filter (\<lambda>s. st_subject s = subjectID) (rls st_tenant t (statements d))))"

subsection \<open>A SQLite file with the same rows\<close>

definition blob :: "forms \<Rightarrow> rat list option \<Rightarrow> string option" where
  "blob F v = map_option (\<lambda>x. concat (map le_bytes (tf_bits F x))) v"

definition mirror_entity :: "scan_env \<Rightarrow> forms \<Rightarrow> entity_row \<Rightarrow> sq_entity" where
  "mirror_entity S F e =
     \<lparr>qe_id = Some (UUID_String S (en_id e)), qe_tenant = UUID_String S (en_tenant e), qe_ext_id = en_ext_id e,
      qe_label = en_label e, qe_type_uri = en_type_uri e, qe_description = en_description e,
      qe_embedding = blob F (en_embedding e), qe_meta = en_meta e, qe_created = tf_time F (en_created e),
      qe_updated = tf_time F (en_updated e)\<rparr>"

definition mirror_property :: "scan_env \<Rightarrow> property_row \<Rightarrow> sq_property" where
  "mirror_property S p =
     \<lparr>qp_id = Some (UUID_String S (pp_id p)), qp_tenant = map_option (UUID_String S) (pp_tenant p), qp_slug = pp_slug p,
      qp_label = pp_label p, qp_value_type = pp_value_type p, qp_description = pp_description p\<rparr>"

definition mirror_qualifier :: "scan_env \<Rightarrow> forms \<Rightarrow> qualifier_row \<Rightarrow> sq_qualifier" where
  "mirror_qualifier S F q =
     \<lparr>qq_id = Some (UUID_String S (qu_id q)), qq_statement = UUID_String S (qu_statement q),
      qq_property = UUID_String S (qu_property q), qq_val_text = qu_val_text q, qq_val_number = qu_val_number q,
      qq_val_date = map_option (tf_time F) (qu_val_date q), qq_val_entity = map_option (UUID_String S) (qu_val_entity q)\<rparr>"

definition mirror_source :: "scan_env \<Rightarrow> forms \<Rightarrow> source_row \<Rightarrow> sq_source" where
  "mirror_source S F s =
     \<lparr>qs_id = Some (UUID_String S (so_id s)), qs_tenant = UUID_String S (so_tenant s), qs_url = so_url s,
      qs_fetched_at = tf_time F (so_fetched_at s), qs_content_hash = so_content_hash s, qs_raw_html = so_raw_html s,
      qs_raw_text = so_raw_text s, qs_archive_url = so_archive_url s, qs_publisher = so_publisher s, qs_title = so_title s,
      qs_published_at = map_option (tf_time F) (so_published_at s), qs_embedding = blob F (so_embedding s),
      qs_last_verified_at = map_option (tf_time F) (so_last_verified_at s), qs_status = so_status s,
      qs_created = tf_time F (so_created s)\<rparr>"

definition mirror_statement :: "scan_env \<Rightarrow> forms \<Rightarrow> statement_row \<Rightarrow> sq_statement" where
  "mirror_statement S F s =
     \<lparr>qt_id = Some (UUID_String S (st_id s)), qt_tenant = UUID_String S (st_tenant s), qt_subject = UUID_String S (st_subject s),
      qt_property = UUID_String S (st_property s), qt_val_entity = map_option (UUID_String S) (st_val_entity s),
      qt_val_text = st_val_text s, qt_val_number = st_val_number s, qt_val_date = map_option (tf_time F) (st_val_date s),
      qt_val_json = st_val_json s, qt_rank = st_rank s, qt_confidence = tf_conf F (st_confidence s),
      qt_embedding = blob F (st_embedding s), qt_created = tf_time F (st_created s)\<rparr>"

definition mirror :: "scan_env \<Rightarrow> forms \<Rightarrow> db \<Rightarrow> sq_tables" where
  "mirror S F d =
     \<lparr>q_entities = map (mirror_entity S F) (entities d), q_properties = map (mirror_property S) (properties d),
      q_qualifiers = map (mirror_qualifier S F) (qualifiers d), q_sources = map (mirror_source S F) (sources d),
      q_statements = map (mirror_statement S F) (statements d)\<rparr>"

subsection \<open>Reading a mirrored row back\<close>

text \<open>What is asked of the forms: the times are written in a text that \<open>Timestamptz.Scan\<close> reads back and that
  orders as the times do (Postgres's own form in one zone and width is such, the column default of
  SQLite is not); numbers are canonical; \<open>meta\<close> of an entity is JSON.\<close>

definition times_of :: "db \<Rightarrow> int list" where
  "times_of d = concat (map (\<lambda>e. [en_created e, en_updated e]) (entities d))
     @ concat (map (\<lambda>s. [so_fetched_at s, so_created s]) (sources d))
     @ List.map_filter so_published_at (sources d) @ List.map_filter so_last_verified_at (sources d)
     @ map st_created (statements d) @ List.map_filter st_val_date (statements d) @ List.map_filter qu_val_date (qualifiers d)"

definition number_ok :: "scan_env \<Rightarrow> string option \<Rightarrow> bool" where
  "number_ok S n \<longleftrightarrow> (case n of None \<Rightarrow> True | Some x \<Rightarrow> x \<noteq> [] \<and> Numeric_Scan S x = Some x)"

definition forms_ok :: "scan_env \<Rightarrow> forms \<Rightarrow> db \<Rightarrow> bool" where
  "forms_ok S F d \<longleftrightarrow> scan_roundtrip S
     \<and> (\<forall>x\<in>set (times_of d). tf_time F x \<noteq> [] \<and> Timestamptz_Scan S (tf_time F x) = Some x)
     \<and> (\<forall>x\<in>set (times_of d). \<forall>y\<in>set (times_of d). tf_time F x \<le> tf_time F y \<longleftrightarrow> x \<le> y)
     \<and> (\<forall>s\<in>set (statements d). number_ok S (Some (tf_conf F (st_confidence s))) \<and> number_ok S (st_val_number s))
     \<and> (\<forall>q\<in>set (qualifiers d). number_ok S (qu_val_number q))
     \<and> (\<forall>e\<in>set (entities d). en_meta e \<noteq> [] \<and> Unmarshal (en_meta e) \<noteq> None)"

lemma parse_blob: "parseVector (blob F v) = row_vector F v"
proof (cases v)
  case (Some x)
  have "parseVector (Some (concat (map le_bytes ws))) = ws" for ws
  proof (cases ws)
    case (Cons w r)
    then have ne: "concat (map le_bytes ws) \<noteq> []" by (simp add: le_bytes_def)
    have "decodeVector (concat (map le_bytes ws)) = Inr ws" by (simp only: decodeVector_exact)
    then show ?thesis by (simp only: parseVector_def option.case if_not_P [OF ne] sum.case)
  qed (simp add: parseVector_def)
  with Some show ?thesis by (simp add: blob_def row_vector_def)
qed (simp add: blob_def row_vector_def parseVector_def)

lemma parse_uuid: "scan_roundtrip S \<Longrightarrow> parseUUID S (UUID_String S u) = Some u"
  by (simp add: parseUUID_def scan_roundtrip_def)

lemma parse_nullable_uuid: "scan_roundtrip S \<Longrightarrow> parseNullableUUID S (map_option (UUID_String S) u) = u"
  using UUID_String_ne by (cases u) (simp_all add: parseNullableUUID_def parse_uuid)

lemma parse_time:
  "forms_ok S F d \<Longrightarrow> x \<in> set (times_of d) \<Longrightarrow> parseTimestamptz S (Some (tf_time F x)) = Some x"
  by (simp add: forms_ok_def parseTimestamptz_def)

lemma parse_times:
  "forms_ok S F d \<Longrightarrow> (\<And>y. x = Some y \<Longrightarrow> y \<in> set (times_of d)) \<Longrightarrow> parseTimestamptz S (map_option (tf_time F) x) = x"
  by (cases x) (simp_all add: parse_time, simp add: parseTimestamptz_def)

lemma parse_number: "number_ok S n \<Longrightarrow> parseNumeric S n = n"
  by (cases n) (simp_all add: number_ok_def parseNumeric_def)

lemma in_map_filter: "x \<in> set xs \<Longrightarrow> f x = Some y \<Longrightarrow> y \<in> set (List.map_filter f xs)"
  by (force simp: List.map_filter_def)

lemma times_of_rows:
  "e \<in> set (entities d) \<Longrightarrow> en_created e \<in> set (times_of d)" "e \<in> set (entities d) \<Longrightarrow> en_updated e \<in> set (times_of d)"
  "s \<in> set (sources d) \<Longrightarrow> so_fetched_at s \<in> set (times_of d)" "s \<in> set (sources d) \<Longrightarrow> so_created s \<in> set (times_of d)"
  "s \<in> set (sources d) \<Longrightarrow> so_published_at s = Some x \<Longrightarrow> x \<in> set (times_of d)"
  "s \<in> set (sources d) \<Longrightarrow> so_last_verified_at s = Some x \<Longrightarrow> x \<in> set (times_of d)"
  "r \<in> set (statements d) \<Longrightarrow> st_created r \<in> set (times_of d)"
  "r \<in> set (statements d) \<Longrightarrow> st_val_date r = Some x \<Longrightarrow> x \<in> set (times_of d)"
  "q \<in> set (qualifiers d) \<Longrightarrow> qu_val_date q = Some x \<Longrightarrow> x \<in> set (times_of d)"
  unfolding times_of_def set_append Un_iff by (auto intro: in_map_filter)

lemma scan_mirror_entity:
  assumes "forms_ok S F d" and "e \<in> set (entities d)"
  shows "scanEntity S (mirror_entity S F e) = pg_Entity F e"
proof -
  have "scan_roundtrip S" "defaultJSON (en_meta e) = en_meta e" using assms by (auto simp: forms_ok_def defaultJSON_def)
  then show ?thesis
    by (simp add: scanEntity_def mirror_entity_def pg_Entity_def parse_blob parse_uuid parseText_def null_string_def
        parse_time [OF assms(1)] times_of_rows assms(2))
qed

lemma scan_mirror_property: "scan_roundtrip S \<Longrightarrow> scanProperty S (mirror_property S p) = pg_Property p"
  by (simp add: scanProperty_def mirror_property_def pg_Property_def parse_uuid parse_nullable_uuid parseText_def null_string_def)

lemma scan_mirror_qualifier:
  assumes "forms_ok S F d" and "q \<in> set (qualifiers d)"
  shows "scanQualifier S (mirror_qualifier S F q) = pg_Qualifier q"
proof -
  have "scan_roundtrip S" "number_ok S (qu_val_number q)" using assms by (auto simp: forms_ok_def)
  moreover have "parseTimestamptz S (map_option (tf_time F) (qu_val_date q)) = qu_val_date q"
    using times_of_rows(9) [OF assms(2)] by (rule parse_times [OF assms(1)])
  ultimately show ?thesis
    by (simp add: scanQualifier_def mirror_qualifier_def pg_Qualifier_def parse_uuid parse_nullable_uuid parse_number
        parseText_def null_string_def)
qed

lemma scan_mirror_source:
  assumes "forms_ok S F d" and "s \<in> set (sources d)"
  shows "scanSource S (mirror_source S F s) = drop_meta (pg_Source F s)"
proof -
  have "scan_roundtrip S" using assms by (simp add: forms_ok_def)
  moreover have "parseTimestamptz S (map_option (tf_time F) (so_published_at s)) = so_published_at s"
    using times_of_rows(5) [OF assms(2)] by (rule parse_times [OF assms(1)])
  moreover have "parseTimestamptz S (map_option (tf_time F) (so_last_verified_at s)) = so_last_verified_at s"
    using times_of_rows(6) [OF assms(2)] by (rule parse_times [OF assms(1)])
  ultimately show ?thesis
    by (simp add: drop_meta_def scanSource_def mirror_source_def pg_Source_def parse_uuid parse_blob parseText_def null_string_def
        parse_time [OF assms(1)] times_of_rows assms(2))
qed

lemma scan_mirror_statement:
  assumes "forms_ok S F d" and "s \<in> set (statements d)"
  shows "scanStatement S (mirror_statement S F s) = pg_Statement F s"
proof -
  have "scan_roundtrip S" "number_ok S (st_val_number s)" "number_ok S (Some (tf_conf F (st_confidence s)))"
    using assms by (auto simp: forms_ok_def)
  moreover have "parseTimestamptz S (map_option (tf_time F) (st_val_date s)) = st_val_date s"
    using times_of_rows(8) [OF assms(2)] by (rule parse_times [OF assms(1)])
  ultimately show ?thesis
    by (simp add: scanStatement_def mirror_statement_def pg_Statement_def parse_uuid parse_nullable_uuid parse_blob
        parse_number parseText_def null_string_def parse_time [OF assms(1)] times_of_rows assms(2))
qed

subsection \<open>The same answers\<close>

text \<open>Two answers with the same rows in an order that the keys \<open>f\<close> determine up to ties.\<close>

definition same_up_to_ties :: "('r \<Rightarrow> 'k) \<Rightarrow> 'r list \<Rightarrow> 'r list \<Rightarrow> bool" where
  "same_up_to_ties f xs ys \<longleftrightarrow> mset xs = mset ys \<and> map f xs = map f ys"

text \<open>Without ties they are equal.\<close>

lemma no_ties_same: "same_up_to_ties f xs ys \<Longrightarrow> distinct (map f xs) \<Longrightarrow> xs = ys"
  unfolding same_up_to_ties_def distinct_map by (metis inj_on_map_eq_map mset_eq_setD Un_absorb)

lemma sorted_desc_unique:
  fixes xs ys :: "int list"
  assumes "mset xs = mset ys" "sorted_wrt (\<lambda>a b. b \<le> a) xs" "sorted_wrt (\<lambda>a b. b \<le> a) ys"
  shows "xs = ys"
proof -
  have "sorted (rev xs)" "sorted (rev ys)" using assms(2,3) by (simp_all add: sorted_wrt_rev)
  moreover have "mset (rev xs) = mset (rev ys)" using assms(1) by simp
  ultimately have "sort (rev ys) = rev xs" "sort (rev ys) = rev ys"
    using properties_for_sort [of "rev xs" "rev ys"] properties_for_sort [of "rev ys" "rev ys"] by blast+
  then have "rev xs = rev ys" by simp
  then show ?thesis by simp
qed

lemma mset_map_perm: "mset ys = mset (map f xs) \<Longrightarrow> \<exists>zs. mset zs = mset xs \<and> ys = map f zs"
proof (induction ys arbitrary: xs)
  case (Cons y ys)
  then have "y \<in> set (map f xs)" by (metis list.set_intros(1) mset_eq_setD)
  then obtain x where x: "x \<in> set xs" "y = f x" by auto
  then have xs: "mset xs = add_mset x (mset (remove1 x xs))" by simp
  have "add_mset (f x) (mset ys) = image_mset f (mset xs)" using Cons.prems x(2) by (simp del: mset_remove1)
  also have "\<dots> = add_mset (f x) (image_mset f (mset (remove1 x xs)))" by (subst xs) (simp del: mset_remove1)
  finally have "mset ys = mset (map f (remove1 x xs))" by (simp del: mset_remove1)
  with Cons.IH obtain zs where "mset zs = mset (remove1 x xs)" "ys = map f zs" by blast
  with x(2) show ?case by (intro exI [of _ "x # zs"]) (simp add: xs [symmetric] del: mset_remove1)
qed simp

text \<open>The general argument. \<open>R\<close> are the rows in Postgres, \<open>h\<close> mirrors a row in SQLite, \<open>g\<close> reads a mirrored row,
  \<open>key\<close> and \<open>key'\<close> are what the two stores order by.\<close>

lemma arranged_same_rows:
  assumes "arranges le arr" and "arranges le' arr'" and "\<And>x. x \<in> set R \<Longrightarrow> g (h x) = c (p x)"
  shows "mset (map g (arr (map h R))) = mset (map c (map p (arr' R)))"
proof -
  have "mset (arr (map h R)) = image_mset h (mset R)" "mset (arr' R) = mset R" using assms(1,2) by (simp_all add: arranges_def)
  then show ?thesis using assms(3) by (auto simp: multiset.map_comp o_def intro!: image_mset_cong)
qed

lemma arranged_same:
  assumes arr: "arranges (\<lambda>a b. key b \<le> key a) arr" "arranges (\<lambda>a b. (key' b :: int) \<le> key' a) arr'"
    and read: "\<And>x. x \<in> set R \<Longrightarrow> g (h x) = c (p x)" and k: "\<And>x. k (c (p x)) = Some (key' x)"
    and order: "\<And>x y. x \<in> set R \<Longrightarrow> y \<in> set R \<Longrightarrow> key (h x) \<le> key (h y) \<longleftrightarrow> key' x \<le> key' y"
  shows "same_up_to_ties k (map g (arr (map h R))) (map c (map p (arr' R)))"
proof -
  obtain zs where zs: "mset zs = mset R" "arr (map h R) = map h zs"
    using arr(1) mset_map_perm [of "arr (map h R)" h R] by (auto simp: arranges_def)
  have sets: "set zs = set R" "set (arr' R) = set R" using zs(1) arr(2) by (auto simp: arranges_def dest: mset_eq_setD)
  have "sorted_wrt (\<lambda>a b. key b \<le> key a) (map h zs)" using arr(1) zs(2) by (metis arranges_def)
  then have "sorted_wrt (\<lambda>a b. key (h b) \<le> key (h a)) zs" by (simp add: sorted_wrt_map)
  then have "sorted_wrt (\<lambda>a b. key' b \<le> key' a) zs"
    by (rule sorted_wrt_mono_rel [rotated]) (use order sets in auto)
  moreover have "sorted_wrt (\<lambda>a b. key' b \<le> key' a) (arr' R)" "mset (arr' R) = mset R" using arr(2) by (auto simp: arranges_def)
  ultimately have "map key' zs = map key' (arr' R)"
    using zs(1) by (intro sorted_desc_unique) (auto simp: sorted_wrt_map)
  moreover have "map (\<lambda>x. k (c (p x))) ys = map Some (map key' ys)" for ys by (simp add: k o_def)
  ultimately have "map (\<lambda>x. k (c (p x))) zs = map (\<lambda>x. k (c (p x))) (arr' R)" by (simp only:)
  moreover have "map g (arr (map h R)) = map c (map p zs)" using zs(2) read sets by (auto simp: zs(2))
  ultimately show ?thesis
    using arranged_same_rows [OF arr, of R g h c p] read by (simp add: same_up_to_ties_def o_def)
qed


lemma forms_order:
  "forms_ok S F d \<Longrightarrow> x \<in> set (times_of d) \<Longrightarrow> y \<in> set (times_of d) \<Longrightarrow> tf_time F x \<le> tf_time F y \<longleftrightarrow> x \<le> y"
  by (simp add: forms_ok_def)

lemma filter_rls_own: "filter (\<lambda>r. f r = t) (rls f t rows) = filter (\<lambda>r. f r = t) rows"
  by (simp add: rls_def)

lemma forms_roundtrip: "forms_ok S F d \<Longrightarrow> scan_roundtrip S"
  by (simp add: forms_ok_def)

lemma forms_inj: "forms_ok S F d \<Longrightarrow> UUID_String S a = UUID_String S b \<longleftrightarrow> a = b"
  by (rule UUID_String_inj [OF forms_roundtrip])

lemma orders_of:
  "sqlite_orders R \<Longrightarrow> arranges (\<lambda>a b. qe_created b \<le> qe_created a) (qo_entities R)"
  "sqlite_orders R \<Longrightarrow> arranges (\<lambda>a b. qs_fetched_at b \<le> qs_fetched_at a) (qo_sources R)"
  "sqlite_orders R \<Longrightarrow> arranges (\<lambda>a b. qt_created b \<le> qt_created a) (qo_statements R)"
  "pg_orders coll P \<Longrightarrow> arranges (\<lambda>a b. en_created b \<le> en_created a) (po_entities P)"
  "pg_orders coll P \<Longrightarrow> arranges (\<lambda>a b. so_fetched_at b \<le> so_fetched_at a) (po_sources P)"
  "pg_orders coll P \<Longrightarrow> arranges (\<lambda>a b. st_created b \<le> st_created a) (po_statements P)"
  by (simp_all add: sqlite_orders_def pg_orders_def)

lemma row_times [simp]:
  "qe_created (mirror_entity S F e) = tf_time F (en_created e)" "E_CreatedAt (pg_Entity F e) = Some (en_created e)"
  "qs_fetched_at (mirror_source S F s) = tf_time F (so_fetched_at s)"
  "S_FetchedAt (drop_meta (pg_Source F s)) = Some (so_fetched_at s)"
  "qt_created (mirror_statement S F r) = tf_time F (st_created r)" "T_CreatedAt (pg_Statement F r) = Some (st_created r)"
  by (simp_all add: mirror_entity_def pg_Entity_def mirror_source_def pg_Source_def drop_meta_def mirror_statement_def
      pg_Statement_def)

lemma agree_entities:
  assumes ok: "forms_ok S F d" and "sqlite_orders R" "pg_orders coll P"
  shows "same_up_to_ties E_CreatedAt (ListEntitiesByTenant S R (mirror S F d) (Some t)) (pg_ListEntitiesByTenant F P t d t)"
proof -
  let ?R = "filter (\<lambda>e. en_tenant e = t) (entities d)"
  have rows: "filter (\<lambda>r. qe_tenant r = UUID_String S t) (map (mirror_entity S F) (entities d)) = map (mirror_entity S F) ?R"
    by (simp add: filter_map o_def mirror_entity_def forms_inj [OF ok])
  have "same_up_to_ties E_CreatedAt (map (scanEntity S) (qo_entities R (map (mirror_entity S F) ?R)))
      (map id (map (pg_Entity F) (po_entities P ?R)))"
    by (rule arranged_same [OF orders_of(1) [OF assms(2)] orders_of(4) [OF assms(3)]])
      (auto simp: scan_mirror_entity [OF ok] forms_order [OF ok] times_of_rows)
  then show ?thesis
    by (simp add: ListEntitiesByTenant_def pg_ListEntitiesByTenant_def mirror_def uuidString_def filter_rls_own rows)
qed

lemma agree_sources:
  assumes ok: "forms_ok S F d" and "sqlite_orders R" "pg_orders coll P"
  shows "same_up_to_ties S_FetchedAt (ListSourcesByTenant S R (mirror S F d) (Some t))
     (map drop_meta (pg_ListSourcesByTenant F P t d t))"
proof -
  let ?R = "filter (\<lambda>s. so_tenant s = t) (sources d)"
  have rows: "filter (\<lambda>r. qs_tenant r = UUID_String S t) (map (mirror_source S F) (sources d)) = map (mirror_source S F) ?R"
    by (simp add: filter_map o_def mirror_source_def forms_inj [OF ok])
  have "same_up_to_ties S_FetchedAt (map (scanSource S) (qo_sources R (map (mirror_source S F) ?R)))
      (map drop_meta (map (pg_Source F) (po_sources P ?R)))"
    by (rule arranged_same [OF orders_of(2) [OF assms(2)] orders_of(5) [OF assms(3)]])
      (auto simp: scan_mirror_source [OF ok] forms_order [OF ok] times_of_rows)
  then show ?thesis
    by (simp add: ListSourcesByTenant_def pg_ListSourcesByTenant_def mirror_def uuidString_def filter_rls_own rows)
qed

lemma agree_properties:
  assumes ok: "forms_ok S F d" and "sqlite_orders R" "pg_orders coll P"
  shows "mset (ListPropertiesByTenant S R (mirror S F d) (Some t)) = mset (pg_ListPropertiesByTenant P t d t)"
proof -
  let ?R = "filter (\<lambda>p. pp_tenant p = Some t \<or> pp_tenant p = None) (properties d)"
  have rows: "filter (\<lambda>r. qp_tenant r = Some (UUID_String S t) \<or> qp_tenant r = None) (map (mirror_property S) (properties d))
      = map (mirror_property S) ?R"
    by (auto simp: filter_map o_def mirror_property_def forms_inj [OF ok] intro!: filter_cong arg_cong [where f = "map (mirror_property S)"])
  have own: "filter (\<lambda>p. pp_tenant p = Some t \<or> pp_tenant p = None) (rls_properties t (properties d)) = ?R"
    by (simp add: rls_properties_def)
  have "mset (map (scanProperty S) (qo_properties R (map (mirror_property S) ?R)))
      = mset (map id (map pg_Property (po_properties P ?R)))"
    using assms(2,3) scan_mirror_property [OF forms_roundtrip [OF ok]]
    by (intro arranged_same_rows) (auto simp: sqlite_orders_def pg_orders_def)
  then show ?thesis
    by (simp add: ListPropertiesByTenant_def pg_ListPropertiesByTenant_def mirror_def uuidString_def rows own)
qed

lemma agree_get_entity:
  assumes ok: "forms_ok S F d"
    and own: "\<forall>e\<in>set (entities d). en_id e = i \<longrightarrow> en_tenant e = t"
  shows "case pg_GetEntity F t d i of Inl _ \<Rightarrow> \<not> is_ok (GetEntity S (mirror S F d) (Some i))
      | Inr e \<Rightarrow> GetEntity S (mirror S F d) (Some i) = Inr e"
proof -
  let ?R = "filter (\<lambda>e. en_id e = i) (entities d)"
  have "filter (\<lambda>e. en_id e = i) (rls en_tenant t (entities d)) = ?R"
    using own by (auto simp: rls_def intro!: filter_cong)
  moreover have "filter (\<lambda>r. qe_id r = Some (UUID_String S i)) (map (mirror_entity S F) (entities d)) = map (mirror_entity S F) ?R"
    by (simp add: filter_map o_def mirror_entity_def forms_inj [OF ok])
  moreover have "scanEntity S (mirror_entity S F e) = pg_Entity F e" if "?R = e # r" for e r
  proof -
    have "e \<in> set ?R" by (simp add: that)
    then show ?thesis by (intro scan_mirror_entity [OF ok]) simp
  qed
  ultimately show ?thesis
    by (simp add: pg_GetEntity_def GetEntity_def mirror_def uuidString_def split: list.split)
qed

lemma agree_statements:
  assumes ok: "forms_ok S F d" and "sqlite_orders R" "pg_orders coll P"
    and own: "\<forall>s\<in>set (statements d). st_subject s = i \<longrightarrow> st_tenant s = t"
  shows "same_up_to_ties T_CreatedAt (ListStatementsBySubject S R (mirror S F d) (Some i)) (pg_ListStatementsBySubject F P t d i)"
proof -
  let ?R = "filter (\<lambda>s. st_subject s = i) (statements d)"
  have rows: "filter (\<lambda>r. qt_subject r = UUID_String S i) (map (mirror_statement S F) (statements d)) = map (mirror_statement S F) ?R"
    by (simp add: filter_map o_def mirror_statement_def forms_inj [OF ok])
  have mine: "filter (\<lambda>s. st_subject s = i) (rls st_tenant t (statements d)) = ?R"
    using own by (auto simp: rls_def intro!: filter_cong)
  have "same_up_to_ties T_CreatedAt (map (scanStatement S) (qo_statements R (map (mirror_statement S F) ?R)))
      (map id (map (pg_Statement F) (po_statements P ?R)))"
    by (rule arranged_same [OF orders_of(3) [OF assms(2)] orders_of(6) [OF assms(3)]])
      (auto simp: scan_mirror_statement [OF ok] forms_order [OF ok] times_of_rows)
  then show ?thesis
    by (simp add: ListStatementsBySubject_def pg_ListStatementsBySubject_def mirror_def uuidString_def rows mine)
qed

lemma agree_qualifiers:
  assumes ok: "forms_ok S F d" and "sqlite_orders R" "pg_orders coll P"
    and own: "\<forall>q\<in>set (qualifiers d). qu_statement q = i \<longrightarrow> (\<exists>s\<in>set (statements d). st_id s = i \<and> st_tenant s = t)"
  shows "mset (ListQualifiersByStatement S R (mirror S F d) (Some i)) = mset (pg_ListQualifiersByStatement P t d i)"
proof -
  let ?R = "filter (\<lambda>q. qu_statement q = i) (qualifiers d)"
  have rows: "filter (\<lambda>r. qq_statement r = UUID_String S i) (map (mirror_qualifier S F) (qualifiers d)) = map (mirror_qualifier S F) ?R"
    by (simp add: filter_map o_def mirror_qualifier_def forms_inj [OF ok])
  have mine: "filter (\<lambda>q. qu_statement q = i) (rls_qualifiers (rls st_tenant t (statements d)) (qualifiers d)) = ?R"
    using own by (auto simp: rls_qualifiers_def list_ex_iff intro!: filter_cong)
  have "mset (map (scanQualifier S) (qo_qualifiers R (map (mirror_qualifier S F) ?R)))
      = mset (map id (map pg_Qualifier (po_qualifiers P ?R)))"
    using assms(2,3) scan_mirror_qualifier [OF ok]
    by (intro arranged_same_rows) (auto simp: sqlite_orders_def pg_orders_def)
  then show ?thesis
    by (simp add: ListQualifiersByStatement_def pg_ListQualifiersByStatement_def mirror_def uuidString_def rows mine)
qed


text \<open>An example: one time in the text that Postgres prints, orders that break ties in opposite ways, and a
  collation that ignores nothing.\<close>

definition sample_scan :: scan_env where
  "sample_scan = \<lparr>UUID_Scan = scan_uuid sample_pg, UUID_String = uuid_text sample_pg, Numeric_Scan = pg_numeric sample_pg,
     Timestamptz_Scan = (\<lambda>s. if s = ''2024-01-01 00:00:00+00'' then Some 1704067200 else None)\<rparr>"

definition one_form :: forms where
  "one_form = \<lparr>tf_time = (\<lambda>_. ''2024-01-01 00:00:00+00''), tf_conf = (\<lambda>_. ''1''), tf_bits = map (\<lambda>_. 1)\<rparr>"

definition two_entities_db :: db where
  "two_entities_db = empty_db\<lparr>entities := map (\<lambda>i. \<lparr>en_id = i, en_tenant = 1, en_ext_id = None, en_label = ''Acme'',
     en_type_uri = None, en_description = None, en_embedding = Some [1], en_meta = ''{}'', en_created = 1704067200,
     en_updated = 1704067200\<rparr>) [2, 3]\<rparr>"

definition order_desc :: "('r \<Rightarrow> 'k :: linorder) \<Rightarrow> 'r list \<Rightarrow> 'r list" where
  "order_desc key rows = rev (sort_key key rows)"

lemma arranges_sorts:
  fixes key :: "'r \<Rightarrow> 'k :: linorder"
  shows "arranges (\<lambda>a b. key a \<le> key b) (sort_key key)" "arranges (\<lambda>a b. key b \<le> key a) (order_desc key)"
  using sorted_sort_key [of key] by (auto simp: arranges_def order_desc_def sorted_wrt_rev sorted_map)

lemma arranges_mono: "arranges le arr \<Longrightarrow> (\<And>a b. le a b \<Longrightarrow> le' a b) \<Longrightarrow> arranges le' arr"
  unfolding arranges_def by (metis sorted_wrt_mono_rel)

text \<open>Descending: nulls first, then the smallest distance, then the newest.\<close>

definition nearest_key :: "rat option \<times> sq_entity \<Rightarrow> (int \<times> rat) \<times> string" where
  "nearest_key = (\<lambda>(x, r). (case x of None \<Rightarrow> (1, 0) | Some q \<Rightarrow> (0, - q), qe_created r))"

definition file_order :: sq_order where
  "file_order = \<lparr>qo_entities = order_desc qe_created, qo_properties = sort_key qp_slug, qo_qualifiers = rev,
     qo_sources = order_desc qs_fetched_at, qo_statements = order_desc qt_created, qo_nearest = order_desc nearest_key\<rparr>"

lemma file_orders: "sqlite_orders file_order"
proof -
  have "arranges (\<lambda>(x, a) (y, b). x < y \<or> x = y \<and> qe_created b \<le> qe_created a) (order_desc nearest_key)"
    by (rule arranges_mono [OF arranges_sorts(2)]) (auto simp: nearest_key_def less_eq_prod_def split: option.splits)
  then show ?thesis
    by (simp add: sqlite_orders_def file_order_def arranges_sorts) (simp add: arranges_def)
qed

definition table_order :: pg_order where
  "table_order = \<lparr>po_entities = sort_key (\<lambda>e. - en_created e), po_properties = sort_key pp_slug, po_qualifiers = id,
     po_sources = order_desc so_fetched_at, po_statements = order_desc st_created\<rparr>"

lemma table_orders: "pg_orders (\<le>) table_order"
  using arranges_sorts(1) [of "\<lambda>e. - en_created e"]
  by (simp add: pg_orders_def table_order_def arranges_sorts) (simp add: arranges_def)


end
