(* ===== verification/Spec2Isabelle.thy ===== *)
theory Spec2Isabelle
  imports Excerpt Vocabulary Corroborate FactPipeline Config Netx Collectors SourcePipeline Pipeline Assembler Dossiers Briefs Retrieval Embedding Auth Llm Research Ledger Worker Api Serve Regexp GoTime Float64 Extractors PatternLemmas ExtractorProps Examples Doctor Init Sqlite Stores
begin

text \<open>
  FactVault: a formal model of the evidence store.

  FactVault collects documents, archives their text, extracts statements about entities with the
  excerpt each rests on, re-verifies the documents, recomputes confidences from the number of
  independent sources, embeds texts as vectors, and serves bundles of statements with their sources
  (dossiers, stories, evidence briefs). The promise of the program is that no statement is shown
  without a verbatim excerpt of an archived document of the same tenant behind it. The development
  models that path from the collectors to the bundle, with the guards around it.

  THE PARTS AND HOW THEY INTERACT. All state is in Postgres. Six workers
  (\<open>cmd/factvault/worker.go\<close> runs them) read and write it, each inside transactions that
  \<open>TenantContext\<close> scopes to one tenant: \<open>CollectOnce\<close> turns collector items into \<open>sources\<close> rows of
  status \<open>collected\<close>; \<open>ArchiveOnce\<close> stores the text of those (status \<open>archived\<close>); \<open>ExtractOnce\<close>
  runs extractors over archived text and writes \<open>entities\<close>, \<open>properties\<close>, \<open>statements\<close> and the
  evidence rows \<open>statement_sources\<close>; \<open>VerifyOnce\<close> fetches sources again and appends to
  \<open>source_verifications\<close>; \<open>CorroborateOnce\<close> rewrites \<open>statements.confidence\<close>; \<open>EmbedOnce\<close>
  fills the embedding columns; \<open>DossierOnce\<close> stores an assembled bundle per entity. The readers
  (\<open>retrieval.Service\<close>, \<open>briefs.Service\<close>) assemble bundles with \<open>assembler.Assemble\<close>.

  THEORIES, in the order of their imports.
  \<^item> \<open>Prelude\<close>: errors as strings, results as sums (\<open>Inl\<close> is the Go error), the fold that stops at
    the first error and the one that goes on, deduplication with a seen-set, list lemmas.
  \<^item> \<open>GoStrings\<close>: Go's byte strings, UTF-8 decoding with its replacement rules (\<open>chunks\<close>), and the
    functions of \<open>strings\<close> and \<open>unicode\<close> in use. Letters, digits, spaces and case beyond ASCII and
    Latin-1 are a table argument \<open>unicode_tables\<close>.
  \<^item> \<open>Database\<close>: the schema of \<open>migrations/\<close> as records in lists (\<open>db\<close>), row-level security as a
    filter by tenant, \<open>TenantContext\<close> of \<open>internal/db/rls.go\<close>, the casts of text to \<open>uuid\<close>
    (\<open>pg_env\<close>), and the locale \<open>keeps\<close> of operations that preserve an invariant of the state.
  \<^item> \<open>Excerpt\<close>: the two copies of the excerpt check (\<open>extractors/llm.go\<close>, \<open>workers/extract.go\<close>),
    fact validation (\<open>extractors/base.go\<close>) and the offset conversion of \<open>identifiers.go\<close>.
  \<^item> \<open>Vocabulary\<close>: \<open>internal/vocabulary/resolver.go\<close>.
  \<^item> \<open>Corroborate\<close>: \<open>assembler/confidence.go\<close> and \<open>workers/corroborate.go\<close>.
  \<^item> \<open>FactPipeline\<close>: \<open>workers/extract.go\<close>, with one transaction per source.
  \<^item> \<open>Config\<close>: \<open>internal/config\<close>: precedence of flags, environment and defaults, the guard against
    passwords in arguments, the registry of settings.
  \<^item> \<open>Netx\<close>: \<open>internal/netx/http.go\<close>: the address blocklist on 32- and 128-bit words, URL checks,
    the dialer, redirects, bounded reads.
  \<^item> \<open>Collectors\<close>: \<open>internal/collectors\<close> and the polling schedule of \<open>worker.go\<close>.
  \<^item> \<open>SourcePipeline\<close>: \<open>workers/source_pipeline.go\<close>: collect, archive, verify.
  \<^item> \<open>Pipeline\<close>: the five workers of the evidence path as one inductive step relation on \<open>db\<close>, its
    reachable states, the invariant \<open>evidence_ok\<close> and the relation \<open>history\<close>, which names every column that
    may differ between an earlier and a later state.
  \<^item> \<open>Assembler\<close>: \<open>assembler/bundle.go\<close> and \<open>graph.go\<close>: the recursive graph query and the five
    queries of a bundle.
  \<^item> \<open>Dossiers\<close>, \<open>Briefs\<close>, \<open>Retrieval\<close>: \<open>workers/dossier.go\<close>, \<open>briefs/briefs.go\<close>,
    \<open>retrieval/service.go\<close> with the vector search of \<open>store/postgres/backend.go\<close>.
  \<^item> \<open>Embedding\<close>: \<open>embed/client.go\<close> and \<open>workers/embed.go\<close>.
  \<^item> \<open>Ledger\<close>: the abstract machine the program implements, documents and quotations that are only ever
    added, and the projection of the store onto it.
  \<^item> \<open>Wire\<close>, \<open>WireLemmas\<close>: decimal numbers, unpadded base64 and JSON as Go's \<open>strconv\<close>, \<open>encoding/base64\<close>
    and \<open>encoding/json\<close> read and write them, with the decoding of structures and the round trips.
  \<^item> \<open>Auth\<close>: \<open>auth/jwt.go\<close>, the HTTP middleware and the authorization of MCP calls. RSA and SHA-256 are
    the argument \<open>crypto\<close>; the random bytes a key is made of are an argument of their own, so two runs
    make two keys.
  \<^item> \<open>Llm\<close>: the client of \<open>extractors/llm.go\<close>, \<open>workers/llm_config.go\<close> and the settings of \<open>worker.go\<close>.
  \<^item> \<open>Research\<close>: \<open>internal/research/research.go\<close>.
  \<^item> \<open>Worker\<close>: the subcommands of \<open>factvault worker\<close> from their settings to the database they leave.
  \<^item> \<open>Float64\<close>, \<open>GoTime\<close>, \<open>Regexp\<close>: the parts of Go's library the extractors and the API lean on: rounding to
    doubles and their shortest decimal form, dates with their layouts and the calendar, and leftmost-first
    matching of the constructs that occur in the patterns, with the outcomes of a match as a relation.
  \<^item> \<open>Extractors\<close>, \<open>PatternLemmas\<close>, \<open>ExtractorProps\<close>: \<open>internal/extractors/deterministic\<close>: the extractors
    of identifiers, amounts, dates and names, the runner, and what each pattern matches.
  \<^item> \<open>Api\<close>: \<open>internal/api\<close>: every route from the matched request to the status and the value it encodes.
  \<^item> \<open>Serve\<close>: the tools of \<open>internal/mcp/server.go\<close> and the commands \<open>api\<close>, \<open>mcp\<close>, \<open>auth\<close>, \<open>brief\<close>.
  \<^item> \<open>Examples\<close>: \<open>internal/examples/loader.go\<close> and \<open>factvault example\<close>.
  \<^item> \<open>Doctor\<close>: \<open>internal/doctor/checks.go\<close> and \<open>factvault doctor\<close>.
  \<^item> \<open>Init\<close>: \<open>cmd/factvault/init.go\<close> and \<open>migrate.go\<close>, on top of the two theories before.
  \<^item> \<open>Sqlite\<close>: the optional store \<open>internal/store/sqlite\<close> and the choice of a backend. The \<open>Scan\<close> methods of
    \<open>pgtype\<close> are the argument \<open>scan_env\<close>, apart from the casts of Postgres.
  \<^item> \<open>Stores\<close>: the queries of \<open>internal/db/*.sql.go\<close> and the comparison of the two stores. In these two
    theories the order of rows that a query leaves open, and Postgres's collation, are arguments.

  CORRESPONDENCE. A definition carries the name of the function, type or query it translates; record
  fields carry the Go field name after a two-letter prefix. A Go error return is \<open>Inl\<close> of its text.
  A transaction is a function from \<open>db\<close> to \<open>error + (result * db)\<close>: an error is the rollback. A
  worker with several transactions returns the state it reached together with its error, if any. A
  query is the filter, sort and prefix of the table that its SQL text says; \<open>ON CONFLICT\<close> is a test
  on the key. Confidences and scores are rationals: the code compares and copies \<open>float64\<close> values
  and computes with them only where a comment at the definition says so. Offsets are \<open>int\<close>,
  addresses are words, durations are nanoseconds as \<open>int\<close>.

  PARAMETERS. Code that is not in the repository is an argument: the network and DNS, \<open>url.Parse\<close>,
  \<open>netip.ParseAddr\<close>, \<open>time.ParseDuration\<close>, JSON encoding, zlib, SHA-256, the feed parser, the
  embedding and language models, pgvector's distance, Postgres's text form of \<open>uuid\<close> values, the random
  reader. One argument serves for \<open>pgtype\<close>'s and Postgres's reading of a UUID; a text that only one of
  them reads is outside the model. What a theorem
  needs of one (that decompressing undoes compressing, that the uuid cast undoes the text form) is
  a premise, and its witness instantiates the parameter.

  WHAT THE LEMMAS SHOW. \<open>Excerpt\<close>: acceptance is exactly quotation, and byte offsets converted to
  rune offsets are always accepted. \<open>FactPipeline\<close> and \<open>SourcePipeline\<close>: what each run appends and
  updates, on every branch, and which part is done when it fails; which facts become which statement and
  evidence rows. \<open>Pipeline\<close>: in every reachable
  state all evidence is verbatim; runs append only, keep tenants apart, and never give a statement
  two sources. \<open>Corroborate\<close>: the formula, the counting of outlets, idempotence. \<open>Assembler\<close>: the
  graph search is the bounded reachability relation and bundles are closed. \<open>Dossiers\<close>,
  \<open>Embedding\<close>: runs make progress. \<open>Retrieval\<close>: fall-backs. \<open>Briefs\<close>: conflicts and storage.
  \<open>Netx\<close>: no blocked address is dialled. \<open>Regexp\<close>: the search returns the leftmost match and prefers the
  first of its outcomes; \<open>ExtractorProps\<close>: what the deterministic extractors propose always passes the
  excerpt check, identifiers are found completely, dates never overlap, and reading back a normal form
  keeps the day or the instant. \<open>Wire\<close>, \<open>Auth\<close>, \<open>Llm\<close>: round trips of what the program writes and reads;
  a token is accepted only with a signature over its own first two parts and only inside its time.
  \<open>Ledger\<close> and \<open>Worker\<close>: the commands, in any order and failing anywhere, refine the abstract ledger,
  keep the evidence and rewrite nothing but what \<open>history\<close> names. \<open>Api\<close> and \<open>Serve\<close>: a request touches and shows its tenant's rows only, internal errors
  do not leave the server, and the MCP tools agree with the routes. \<open>Examples\<close>: loading is idempotent and
  isolated, and seeds without an identifier collapse. \<open>Doctor\<close>: what exit status 0 vouches for, of
  the isolation of tenants only that a session sees exactly one of two probe rows. \<open>Init\<close>: a
  second run changes nothing, a failing one stores nothing. \<open>Sqlite\<close>: vectors survive the file bit by bit,
  listings by tenant show that tenant, migrations run once. \<open>Stores\<close>: both backends give the same
  rows, but for a source's \<open>Meta\<close>, in the same order up to equal times. The interfaces are locales, interpreted on these
  definitions: operations that keep an invariant (\<open>keeps\<close>) or leave other tenants alone (\<open>tenant_op\<close>), the
  two copies of the excerpt check (\<open>excerpt_check\<close>), tables that embeddings are written to
  (\<open>embedded_table\<close>) and tables written by upserts on a key (\<open>upsert_table\<close>).

  BOUNDS AND TERMINATION. Loops over Go slices are structural recursions or folds. Decoding,
  replacement and splitting of strings recurse on a shorter suffix (\<open>measure length\<close>). The recursive
  graph query ends because the hop count of its rows is below the limit and its rows are pairs of an
  entity of the table and a hop count. A request follows at most five redirects; the redirect
  function takes that bound as its fuel, which is the bound in the code and not one of the model.

  NOT MODELLED. The connection pool and the plumbing around the queries of \<open>internal/db\<close>; \<open>internal/testdb\<close>
  (it starts containers), \<open>internal/version\<close> and \<open>main.go\<close> (signals and the registration of commands). Of the
  modelled commands: cobra's parsing, writing to the terminal, timeouts and cancellation. Of the servers:
  sockets, chi's matching of paths, the MCP transport, and the encoding of responses beyond which value is
  encoded; a server without a pool answers its two health routes only. Of Go's regular expressions: the
  constructs that no pattern of the program uses. Of Postgres and SQLite: planning, locks and concurrent
  transactions: a worker's transaction is one step, and the embedding worker's two transactions per table
  run without another writer between. A transaction that cannot begin or commit is an error of the
  surrounding argument or is left out. The order of rows that a query leaves open is the order of insertion,
  except in \<open>Sqlite\<close> and \<open>Stores\<close>.
\<close>

end
